(* ===== verification/Prelude.thy ===== *)
theory Prelude
  imports Main "HOL-Library.List_Lexorder" "HOL-Library.Product_Lexorder" "HOL-Library.Multiset"
begin

text \<open>
  Shared vocabulary of the development: Python values that every component uses (strings as
  lists of code points, bytes as lists of byte values, UTF-8), results that may be an exception,
  and the generic list lemmas the component proofs are built from.

  A Python \<open>str\<close> is a list of code points, so a lone surrogate is representable and encoding it
  fails, as \<open>str.encode("utf-8")\<close> does. Tuples, strings and byte strings compare
  lexicographically, which the library orders on products and lists provide.
\<close>

named_theorems res_simps \<open>unfolding rules for results\<close>

section \<open>Strings and bytes\<close>

type_synonym pystr = "nat list"
type_synonym bytes = "nat list"

definition lit :: "string \<Rightarrow> pystr" where
  "lit s = map of_char s"

definition starts_with :: "'a list \<Rightarrow> 'a list \<Rightarrow> bool" where
  "starts_with p s \<longleftrightarrow> take (length p) s = p"

definition ends_with :: "'a list \<Rightarrow> 'a list \<Rightarrow> bool" where
  "ends_with p s \<longleftrightarrow> length p \<le> length s \<and> drop (length s - length p) s = p"

definition is_lower_hex :: "nat \<Rightarrow> bool" where
  "is_lower_hex c \<longleftrightarrow> 48 \<le> c \<and> c \<le> 57 \<or> 97 \<le> c \<and> c \<le> 102"

definition is_digit :: "nat \<Rightarrow> bool" where
  "is_digit c \<longleftrightarrow> 48 \<le> c \<and> c \<le> 57"

text \<open>Splitting on one separator, as \<open>str.split(sep)\<close>: the result is never empty.\<close>

fun split_on :: "'a \<Rightarrow> 'a list \<Rightarrow> 'a list list" where
  "split_on d [] = [[]]"
| "split_on d (c # cs) =
     (if c = d then [] # split_on d cs
      else (case split_on d cs of [] \<Rightarrow> [[c]] | w # ws \<Rightarrow> (c # w) # ws))"

fun join_on :: "'a \<Rightarrow> 'a list list \<Rightarrow> 'a list" where
  "join_on d [] = []"
| "join_on d [w] = w"
| "join_on d (w # v # ws) = w @ d # join_on d (v # ws)"

text \<open>Lines that keep their line feed: a list of chunks, each ending at the first LF.\<close>

fun split_lf :: "nat list \<Rightarrow> nat list list" where
  "split_lf [] = []"
| "split_lf (c # cs) =
     (if c = 10 then [c] # split_lf cs
      else (case split_lf cs of [] \<Rightarrow> [[c]] | w # ws \<Rightarrow> (c # w) # ws))"

subsection \<open>UTF-8\<close>

fun utf8_char :: "nat \<Rightarrow> bytes option" where
  "utf8_char c =
     (if c < 128 then Some [c]
      else if c < 2048 then Some [192 + c div 64, 128 + c mod 64]
      else if c < 65536 then
        (if 55296 \<le> c \<and> c \<le> 57343 then None
         else Some [224 + c div 4096, 128 + c div 64 mod 64, 128 + c mod 64])
      else if c < 1114112 then
        Some [240 + c div 262144, 128 + c div 4096 mod 64, 128 + c div 64 mod 64, 128 + c mod 64]
      else None)"

fun utf8_encode :: "pystr \<Rightarrow> bytes option" where
  "utf8_encode [] = Some []"
| "utf8_encode (c # cs) =
     (case utf8_char c of None \<Rightarrow> None
      | Some b \<Rightarrow> map_option (append b) (utf8_encode cs))"

definition utf8_ok :: "pystr \<Rightarrow> bool" where
  "utf8_ok s \<longleftrightarrow> utf8_encode s \<noteq> None"

text \<open>The byte length of a string, where it is encodable.\<close>

definition utf8_bytes :: "pystr \<Rightarrow> bytes" where
  "utf8_bytes s = (case utf8_encode s of None \<Rightarrow> [] | Some b \<Rightarrow> b)"

definition is_cont :: "nat \<Rightarrow> bool" where
  "is_cont b \<longleftrightarrow> 128 \<le> b \<and> b < 192"

text \<open>Strict decoding: overlong forms, surrogates and values above U+10FFFF are refused.\<close>

fun utf8_decode :: "bytes \<Rightarrow> pystr option" where
  "utf8_decode [] = Some []"
| "utf8_decode (a # bs) =
     (if a < 128 then map_option (Cons a) (utf8_decode bs)
      else if a < 224 then
        (case bs of
           b # r \<Rightarrow>
             let c = (a - 192) * 64 + (b - 128) in
             if 192 \<le> a \<and> is_cont b \<and> 128 \<le> c then map_option (Cons c) (utf8_decode r) else None
         | [] \<Rightarrow> None)
      else if a < 240 then
        (case bs of
           b # d # r \<Rightarrow>
             let c = (a - 224) * 4096 + (b - 128) * 64 + (d - 128) in
             if is_cont b \<and> is_cont d \<and> 2048 \<le> c \<and> \<not> (55296 \<le> c \<and> c \<le> 57343)
             then map_option (Cons c) (utf8_decode r) else None
         | _ \<Rightarrow> None)
      else
        (case bs of
           b # d # e # r \<Rightarrow>
             let c = (a - 240) * 262144 + (b - 128) * 4096 + (d - 128) * 64 + (e - 128) in
             if is_cont b \<and> is_cont d \<and> is_cont e \<and> 65536 \<le> c \<and> c < 1114112
             then map_option (Cons c) (utf8_decode r) else None
         | _ \<Rightarrow> None))"

section \<open>Results\<close>

text \<open>\<open>Inl e\<close> is a raised exception, \<open>Inr x\<close> a returned value.\<close>

definition and_then :: "'e + 'a \<Rightarrow> ('a \<Rightarrow> 'e + 'b) \<Rightarrow> 'e + 'b" where
  "and_then m k = (case m of Inl e \<Rightarrow> Inl e | Inr x \<Rightarrow> k x)"

definition require :: "bool \<Rightarrow> 'e \<Rightarrow> 'e + unit" where
  "require b e = (if b then Inr () else Inl e)"

fun fold_res :: "('s \<Rightarrow> 'a \<Rightarrow> 'e + 's) \<Rightarrow> 's \<Rightarrow> 'a list \<Rightarrow> 'e + 's" where
  "fold_res f s [] = Inr s"
| "fold_res f s (x # xs) = and_then (f s x) (\<lambda>s'. fold_res f s' xs)"

fun map_res :: "('a \<Rightarrow> 'e + 'b) \<Rightarrow> 'a list \<Rightarrow> 'e + 'b list" where
  "map_res f [] = Inr []"
| "map_res f (x # xs) = and_then (f x) (\<lambda>y. and_then (map_res f xs) (\<lambda>ys. Inr (y # ys)))"


lemma and_then_Inl [simp, res_simps]: "and_then (Inl e) k = Inl e"
  by (simp add: and_then_def)

lemma and_then_Inr [simp, res_simps]: "and_then (Inr x) k = k x"
  by (simp add: and_then_def)

lemma and_then_cong [fundef_cong]:
  "m = m' \<Longrightarrow> (\<And>x. m' = Inr x \<Longrightarrow> k x = k' x) \<Longrightarrow> and_then m k = and_then m' k'"
  by (cases m') (simp_all add: and_then_def)

lemma and_then_eq_Inr: "and_then m k = Inr y \<longleftrightarrow> (\<exists>x. m = Inr x \<and> k x = Inr y)"
  by (cases m) simp_all

lemma and_then_eq_Inl: "and_then m k = Inl e \<longleftrightarrow> m = Inl e \<or> (\<exists>x. m = Inr x \<and> k x = Inl e)"
  by (cases m) simp_all

text \<open>An exception that no part raises is not raised by the whole.\<close>

lemma and_then_no_Inl [intro]:
  "m \<noteq> Inl e \<Longrightarrow> (\<And>x. k x \<noteq> Inl e) \<Longrightarrow> and_then m k \<noteq> Inl e"
  by (simp add: and_then_eq_Inl)

lemma and_then_assoc: "and_then (and_then m f) g = and_then m (\<lambda>x. and_then (f x) g)"
  by (cases m) simp_all

lemma require_True [simp]: "require True e = Inr ()"
  and require_False [simp]: "require False e = Inl e"
  by (simp_all add: require_def)

lemma require_eq_Inr [simp]: "require b e = Inr u \<longleftrightarrow> b"
  by (simp add: require_def)

lemma require_eq_Inl [simp]: "require b e = Inl e' \<longleftrightarrow> \<not> b \<and> e' = e"
  by (auto simp: require_def)

lemmas res_iffs = and_then_eq_Inr and_then_eq_Inl

lemma handled_Inr: "(case r of Inl _ \<Rightarrow> Inl e | Inr x \<Rightarrow> Inr x) = Inr y \<longleftrightarrow> r = Inr y"
  by (cases r) simp_all

lemma fold_res_append:
  "fold_res f s (xs @ ys) = and_then (fold_res f s xs) (\<lambda>s'. fold_res f s' ys)"
  by (induction xs arbitrary: s) (simp_all add: and_then_assoc)

lemma fold_res_no_Inl [intro]: "(\<And>s x. f s x \<noteq> Inl e) \<Longrightarrow> fold_res f s xs \<noteq> Inl e"
  by (induction xs arbitrary: s) (simp_all add: and_then_eq_Inl)

lemma map_res_no_Inl [intro]: "(\<And>x. f x \<noteq> Inl e) \<Longrightarrow> map_res f xs \<noteq> Inl e"
  by (induction xs) (simp_all add: and_then_eq_Inl)

lemma fold_res_invariant:
  assumes "fold_res f s xs = Inr t" "P s"
    and "\<And>s x s'. x \<in> set xs \<Longrightarrow> P s \<Longrightarrow> f s x = Inr s' \<Longrightarrow> P s'"
  shows "P t"
  using assms by (induction xs arbitrary: s) (auto simp: and_then_eq_Inr)

lemma map_res_eq_Inr: "map_res f xs = Inr ys \<longleftrightarrow> list_all2 (\<lambda>x y. f x = Inr y) xs ys"
  by (induction xs arbitrary: ys) (auto simp: and_then_eq_Inr list_all2_Cons1)

lemma map_res_eq_Inl: "map_res f xs = Inl e \<Longrightarrow> \<exists>x \<in> set xs. f x = Inl e"
  by (induction xs) (auto simp: and_then_eq_Inl)

lemma map_res_mem: "map_res f xs = Inr ys \<Longrightarrow> x \<in> set xs \<Longrightarrow> \<exists>y \<in> set ys. f x = Inr y"
  by (induction xs arbitrary: ys) (auto simp: and_then_eq_Inr)

lemma map_res_source: "map_res f xs = Inr ys \<Longrightarrow> y \<in> set ys \<Longrightarrow> \<exists>x \<in> set xs. f x = Inr y"
  by (induction xs arbitrary: ys) (auto simp: and_then_eq_Inr)

lemma map_res_total: "(\<And>x. x \<in> set xs \<Longrightarrow> f x = Inr (g x)) \<Longrightarrow> map_res f xs = Inr (map g xs)"
  by (induction xs) simp_all

section \<open>UTF-8 round trips\<close>

lemma base64_digits2: "c div 64 * 64 + c mod 64 = (c::nat)"
  by simp

lemma base64_digits3: "c div 4096 * 4096 + c div 64 mod 64 * 64 + c mod 64 = (c::nat)"
proof -
  have e: "c div 64 = c div 4096 * 64 + c div 64 mod 64"
    using div_mult_mod_eq [of "c div 64" 64] by (simp add: div_mult2_eq [symmetric])
  have "c = c div 64 * 64 + c mod 64" by (rule base64_digits2 [symmetric])
  also have "\<dots> = (c div 4096 * 64 + c div 64 mod 64) * 64 + c mod 64" by (simp only: e [symmetric])
  also have "\<dots> = c div 4096 * 4096 + c div 64 mod 64 * 64 + c mod 64"
    by (simp add: distrib_right mult.assoc)
  finally show ?thesis by (rule sym)
qed

lemma base64_digits4:
  "c div 262144 * 262144 + c div 4096 mod 64 * 4096 + c div 64 mod 64 * 64 + c mod 64 = (c::nat)"
proof -
  have e: "c div 4096 = c div 262144 * 64 + c div 4096 mod 64"
    using div_mult_mod_eq [of "c div 4096" 64] by (simp add: div_mult2_eq [symmetric])
  have "c = c div 4096 * 4096 + c div 64 mod 64 * 64 + c mod 64"
    by (rule base64_digits3 [symmetric])
  also have "\<dots> = (c div 262144 * 64 + c div 4096 mod 64) * 4096 + c div 64 mod 64 * 64 + c mod 64"
    by (simp only: e [symmetric])
  also have "\<dots> = c div 262144 * 262144 + c div 4096 mod 64 * 4096 + c div 64 mod 64 * 64 + c mod 64"
    by (simp add: distrib_right mult.assoc)
  finally show ?thesis by (rule sym)
qed

lemma base64_undigit:
  assumes "(r::nat) < 64"
  shows "(p * 64 + r) div 64 = p" "(p * 64 + r) mod 64 = r"
  using assms by simp_all

lemma base64_undigits3:
  assumes "(q::nat) < 64" "r < 64"
  shows "(p * 4096 + q * 64 + r) div 4096 = p" "(p * 4096 + q * 64 + r) div 64 mod 64 = q"
    "(p * 4096 + q * 64 + r) mod 64 = r"
proof -
  have e: "p * 4096 + q * 64 + r = (p * 64 + q) * 64 + r" by simp
  have d: "n div 4096 = n div 64 div 64" for n :: nat by (simp add: div_mult2_eq [symmetric])
  show "(p * 4096 + q * 64 + r) div 4096 = p" "(p * 4096 + q * 64 + r) div 64 mod 64 = q"
    "(p * 4096 + q * 64 + r) mod 64 = r"
    unfolding d e using assms by (simp_all only: base64_undigit)
qed

lemma base64_undigits4:
  assumes "(q::nat) < 64" "r < 64" "t < 64"
  shows "(p * 262144 + q * 4096 + r * 64 + t) div 262144 = p"
    "(p * 262144 + q * 4096 + r * 64 + t) div 4096 mod 64 = q"
    "(p * 262144 + q * 4096 + r * 64 + t) div 64 mod 64 = r"
    "(p * 262144 + q * 4096 + r * 64 + t) mod 64 = t"
proof -
  have e: "p * 262144 + q * 4096 + r * 64 + t = ((p * 64 + q) * 64 + r) * 64 + t" by simp
  have d: "n div 4096 = n div 64 div 64" "n div 262144 = n div 64 div 64 div 64" for n :: nat
    by (simp_all add: div_mult2_eq [symmetric])
  show "(p * 262144 + q * 4096 + r * 64 + t) div 262144 = p"
    "(p * 262144 + q * 4096 + r * 64 + t) div 4096 mod 64 = q"
    "(p * 262144 + q * 4096 + r * 64 + t) div 64 mod 64 = r"
    "(p * 262144 + q * 4096 + r * 64 + t) mod 64 = t"
    unfolding d e using assms by (simp_all only: base64_undigit)
qed

lemma utf8_decode_char:
  assumes "utf8_char c = Some b"
  shows "utf8_decode (b @ r) = map_option (Cons c) (utf8_decode r)"
proof -
  have m: "c mod 64 < 64" "c div 64 mod 64 < 64" "c div 4096 mod 64 < 64" by simp_all
  consider "c < 128" | "128 \<le> c" "c < 2048" | "2048 \<le> c" "c < 65536" "\<not> (55296 \<le> c \<and> c \<le> 57343)"
    | "65536 \<le> c" "c < 1114112"
    using assms by (fastforce split: if_splits)
  then show ?thesis
  proof cases
    case 1
    with assms show ?thesis by auto
  next
    case 2
    then have "c div 64 < 32" by auto
    with 2 assms show ?thesis
      by (auto simp: is_cont_def Let_def base64_digits2 simp del: div_mult_mod_eq)
  next
    case 3
    then have "c div 4096 < 16" by auto
    moreover from 3 assms have "b = [224 + c div 4096, 128 + c div 64 mod 64, 128 + c mod 64]"
      by auto
    ultimately show ?thesis using 3(1,3) base64_digits3 [of c] m
      by (simp add: is_cont_def Let_def)
  next
    case 4
    then have "c div 262144 < 5" by auto
    moreover from 4 assms have "b = [240 + c div 262144, 128 + c div 4096 mod 64,
        128 + c div 64 mod 64, 128 + c mod 64]" by auto
    ultimately show ?thesis using 4 base64_digits4 [of c] m
      by (simp add: is_cont_def Let_def)
  qed
qed

lemma utf8_decode_encode: "utf8_encode s = Some b \<Longrightarrow> utf8_decode b = Some s"
proof (induction s arbitrary: b)
  case (Cons c cs)
  then obtain x y where "utf8_char c = Some x" "utf8_encode cs = Some y" "b = x @ y"
    by (auto simp del: utf8_char.simps split: option.splits)
  with Cons.IH show ?case by (simp add: utf8_decode_char del: utf8_char.simps)
qed simp

lemma utf8_encode_inj: "utf8_encode s = Some b \<Longrightarrow> utf8_encode t = Some b \<Longrightarrow> s = t"
  by (metis utf8_decode_encode option.inject)

lemma utf8_encode_append:
  "utf8_encode (s @ t) = (case utf8_encode s of None \<Rightarrow> None
     | Some a \<Rightarrow> map_option (append a) (utf8_encode t))"
proof (induction s)
  case Nil
  show ?case by (cases "utf8_encode t") simp_all
next
  case (Cons c s)
  then show ?case
    by (cases "utf8_encode t") (simp_all del: utf8_char.simps split: option.splits)
qed

lemma utf8_char_of_digits2:
  assumes "192 \<le> a" "a < 224" "is_cont b" "128 \<le> (a - 192) * 64 + (b - 128)"
  shows "utf8_char ((a - 192) * 64 + (b - 128)) = Some [a, b]"
proof -
  obtain p q where "a = 192 + p" "b = 128 + q"
    using assms by (metis is_cont_def le_Suc_ex)
  moreover from this assms have "p < 32" "q < 64" by (auto simp: is_cont_def)
  ultimately show ?thesis using assms(4) base64_undigit [of q p] by simp
qed

lemma utf8_char_of_digits3:
  assumes "224 \<le> a" "a < 240" "is_cont b" "is_cont d"
    "2048 \<le> (a - 224) * 4096 + (b - 128) * 64 + (d - 128)"
    "\<not> (55296 \<le> (a - 224) * 4096 + (b - 128) * 64 + (d - 128) \<and>
        (a - 224) * 4096 + (b - 128) * 64 + (d - 128) \<le> 57343)"
  shows "utf8_char ((a - 224) * 4096 + (b - 128) * 64 + (d - 128)) = Some [a, b, d]"
proof -
  obtain p q r where "a = 224 + p" "b = 128 + q" "d = 128 + r"
    using assms by (metis is_cont_def le_Suc_ex)
  moreover from this assms have "p < 16" "q < 64" "r < 64" by (auto simp: is_cont_def)
  ultimately show ?thesis using assms(5,6) base64_undigits3 [of q r p] by simp
qed

lemma utf8_char_of_digits4:
  assumes "240 \<le> a" "is_cont b" "is_cont d" "is_cont e"
    "65536 \<le> (a - 240) * 262144 + (b - 128) * 4096 + (d - 128) * 64 + (e - 128)"
    "(a - 240) * 262144 + (b - 128) * 4096 + (d - 128) * 64 + (e - 128) < 1114112"
  shows "utf8_char ((a - 240) * 262144 + (b - 128) * 4096 + (d - 128) * 64 + (e - 128)) =
    Some [a, b, d, e]"
proof -
  obtain p q r t where "a = 240 + p" "b = 128 + q" "d = 128 + r" "e = 128 + t"
    using assms by (metis is_cont_def le_Suc_ex)
  moreover from this assms have "q < 64" "r < 64" "t < 64" by (auto simp: is_cont_def)
  ultimately show ?thesis using assms(5,6) base64_undigits4 [of q r t p] by simp
qed

lemma utf8_encode_decode: "utf8_decode b = Some s \<Longrightarrow> utf8_encode s = Some b"
proof (induction b arbitrary: s rule: utf8_decode.induct)
  case (2 a bs)
  consider "a < 128" | "128 \<le> a" "a < 224" | "224 \<le> a" "a < 240" | "240 \<le> a" by linarith
  then show ?case
  proof cases
    case 1
    with 2 show ?thesis by auto
  next
    case 2
    then show ?thesis using "2.prems" "2.IH"(2)
      by (auto simp: utf8_char_of_digits2 Let_def simp del: utf8_char.simps split: list.splits if_splits)
  next
    case 3
    then show ?thesis using "2.prems" "2.IH"(3)
      by (auto simp: utf8_char_of_digits3 Let_def simp del: utf8_char.simps split: list.splits if_splits)
  next
    case 4
    then show ?thesis using "2.prems" "2.IH"(4)
      by (auto simp: utf8_char_of_digits4 Let_def simp del: utf8_char.simps split: list.splits if_splits)
  qed
qed simp


declare utf8_char.simps [simp del]

lemma utf8_ok_iff: "utf8_ok s \<longleftrightarrow> utf8_encode s = Some (utf8_bytes s)"
  by (auto simp: utf8_ok_def utf8_bytes_def split: option.splits)

lemma utf8_bytes_inj: "utf8_ok s \<Longrightarrow> utf8_ok t \<Longrightarrow> utf8_bytes s = utf8_bytes t \<longleftrightarrow> s = t"
  by (auto simp: utf8_ok_iff dest: utf8_encode_inj)

lemma utf8_char_ascii [simp]: "c < 128 \<Longrightarrow> utf8_char c = Some [c]"
  by (simp add: utf8_char.simps)

lemma utf8_encode_ascii: "\<forall>c \<in> set s. c < 128 \<Longrightarrow> utf8_encode s = Some s"
  by (induction s) simp_all

section \<open>Splitting\<close>

lemma split_on_nonempty [simp]: "split_on d xs \<noteq> []"
  by (induction xs) (auto split: list.splits)

lemma join_split_on [simp]: "join_on d (split_on d xs) = xs"
proof (induction xs)
  case (Cons c cs)
  obtain w ws where "split_on d cs = w # ws" by (meson neq_Nil_conv split_on_nonempty)
  with Cons show ?case by (cases ws) auto
qed simp

lemma split_on_no_sep: "w \<in> set (split_on d xs) \<Longrightarrow> d \<notin> set w"
  by (induction xs arbitrary: w) (auto split: list.splits if_splits)

lemma split_on_append_sep: "d \<notin> set w \<Longrightarrow> split_on d (w @ d # xs) = w # split_on d xs"
  by (induction w) auto

lemma split_on_plain: "d \<notin> set w \<Longrightarrow> split_on d w = [w]"
  by (induction w) auto

lemma split_join_on: "ws \<noteq> [] \<Longrightarrow> \<forall>w \<in> set ws. d \<notin> set w \<Longrightarrow> split_on d (join_on d ws) = ws"
  by (induction d ws rule: join_on.induct) (auto simp: split_on_append_sep split_on_plain)

lemma concat_split_lf [simp]: "concat (split_lf xs) = xs"
  by (induction xs) (auto split: list.splits)

lemma split_lf_eq_Nil [simp]: "split_lf xs = [] \<longleftrightarrow> xs = []"
  by (cases xs) (auto split: list.splits)

lemma split_lf_parts:
  "w \<in> set (split_lf xs) \<Longrightarrow> w \<noteq> [] \<and> 10 \<notin> set (butlast w)"
  by (induction xs arbitrary: w) (auto split: list.splits if_splits)

lemma split_lf_line: "10 \<notin> set w \<Longrightarrow> split_lf (w @ 10 # xs) = (w @ [10]) # split_lf xs"
  by (induction w) auto

section \<open>Lists\<close>

lemma lit_inj: "inj lit"
  unfolding lit_def by (rule injI) (metis inj_map_eq_map inj_of_char)

lemma lit_eq [simp]: "lit s = lit t \<longleftrightarrow> s = t"
  using lit_inj by (auto dest: injD)

lemma lit_length: "length (lit s) = length s"
  by (simp add: lit_def)

lemma utf8_ok_lit: "list_all (\<lambda>c. of_char c < (128 :: nat)) s \<Longrightarrow> utf8_ok (lit s)"
  unfolding utf8_ok_def lit_def by (subst utf8_encode_ascii) (auto simp: list_all_iff)

lemma starts_with_append [simp]: "starts_with p (p @ s)"
  by (simp add: starts_with_def)

lemma starts_withE: "starts_with p s \<Longrightarrow> \<exists>r. s = p @ r"
  unfolding starts_with_def by (metis append_take_drop_id)

lemma starts_with_drop: "starts_with p s \<Longrightarrow> p @ drop (length p) s = s"
  unfolding starts_with_def by (metis append_take_drop_id)

lemma ends_with_append [simp]: "ends_with p (s @ p)"
  by (simp add: ends_with_def)

lemma ends_with_last: "ends_with [c] l \<longleftrightarrow> l \<noteq> [] \<and> last l = c"
  by (cases l rule: rev_cases) (auto simp: ends_with_def)

lemma distinct_map_filter: "distinct (map f xs) \<Longrightarrow> distinct (map f (filter P xs))"
  by (induction xs) auto

lemma sorted_map_constant [simp]: "sorted (map (\<lambda>_. c :: 'a :: linorder) xs)"
  by (induction xs) simp_all

lemma sort_key_perm:
  assumes "mset xs = mset ys" "inj_on f (set xs)"
  shows "sort_key f xs = sort_key f ys"
  using assms by (rule sort_key_eq_sort_key)

lemma sort_key_Nil [simp]: "sort_key f xs = [] \<longleftrightarrow> xs = []"
  by (metis length_0_conv length_sort)

lemma sum_list_sort_key:
  "sum_list (map (g :: 'a \<Rightarrow> 'b :: comm_monoid_add) (sort_key f xs)) = sum_list (map g xs)"
  by (metis mset_map mset_sort sum_mset_sum_list)

lemma sort_key_set_unique:
  assumes "set xs = set ys" "distinct xs" "distinct ys" "inj_on f (set xs)"
  shows "sort_key f xs = sort_key f ys"
proof (rule sort_key_perm)
  show "mset xs = mset ys" using assms by (simp add: set_eq_iff_mset_eq_distinct)
qed (rule assms)

section \<open>Occurrences in order\<close>

text \<open>Elements that satisfy the predicates one after the other occur in the list, in that order.\<close>

fun in_order :: "('a \<Rightarrow> bool) list \<Rightarrow> 'a list \<Rightarrow> bool" where
  "in_order [] xs = True"
| "in_order (p # ps) [] = False"
| "in_order (p # ps) (x # xs) = (if p x then in_order ps xs else in_order (p # ps) xs)"

lemma in_order_extend:
  "in_order ps xs \<Longrightarrow> in_order ps (x # xs) \<and> (\<forall>p qs. ps = p # qs \<longrightarrow> in_order qs xs)"
proof (induction xs arbitrary: ps x)
  case Nil
  then show ?case by (cases ps) simp_all
next
  case (Cons y ys)
  show ?case
  proof (cases ps)
    case (Cons p qs)
    show ?thesis
    proof (cases "p y")
      case True
      with Cons.prems Cons have "in_order qs ys" by simp
      with Cons.IH have "in_order qs (y # ys)" by blast
      with Cons.prems Cons show ?thesis by simp
    next
      case False
      with Cons.prems Cons have "in_order ps ys" by simp
      with Cons.IH Cons have "in_order qs (y # ys)" by blast
      with Cons.prems Cons show ?thesis by simp
    qed
  qed simp
qed

lemma in_order_Cons_list: "in_order ps xs \<Longrightarrow> in_order ps (x # xs)"
  by (rule in_order_extend [THEN conjunct1])

lemma in_order_mono: "in_order (p # ps) xs \<Longrightarrow> in_order ps xs"
  using in_order_extend [of "p # ps" xs] by simp

lemma in_order_append: "in_order ps xs \<Longrightarrow> in_order ps (xs @ ys)"
  by (induction ps xs rule: in_order.induct) simp_all

lemma in_order_single [simp]: "in_order [p] xs \<longleftrightarrow> (\<exists>x \<in> set xs. p x)"
  by (induction xs) simp_all

lemma in_order_snoc:
  "in_order (ps @ [p]) (xs @ [x]) \<longleftrightarrow> in_order (ps @ [p]) xs \<or> in_order ps xs \<and> p x"
proof (induction ps xs rule: in_order.induct)
  case (2 q ps)
  show ?case by (cases ps) auto
next
  case (3 q ps y ys)
  then show ?case by simp
qed auto

lemma in_order_snoc2: "in_order [p, q] (xs @ [x]) \<longleftrightarrow> in_order [p, q] xs \<or> (\<exists>y \<in> set xs. p y) \<and> q x"
  using in_order_snoc [of "[p]" q xs x] by simp

lemma in_order_snoc3:
  "in_order [p, q, r] (xs @ [x]) \<longleftrightarrow> in_order [p, q, r] xs \<or> in_order [p, q] xs \<and> r x"
  using in_order_snoc [of "[p, q]" r xs x] by simp

lemma in_order2_iff:
  "in_order [p, q] xs \<longleftrightarrow> (\<exists>as x bs. xs = as @ x # bs \<and> p x \<and> (\<exists>y \<in> set bs. q y))"
proof (induction xs)
  case (Cons x xs)
  have "(\<exists>as y bs. x # xs = as @ y # bs \<and> p y \<and> (\<exists>z \<in> set bs. q z)) \<longleftrightarrow>
    p x \<and> (\<exists>z \<in> set xs. q z) \<or> (\<exists>as y bs. xs = as @ y # bs \<and> p y \<and> (\<exists>z \<in> set bs. q z))"
    by (auto simp: Cons_eq_append_conv)
  with Cons show ?case by (cases "p x") auto
qed simp

lemma in_order_map: "in_order [p, q] (map f xs) \<longleftrightarrow> in_order [\<lambda>x. p (f x), \<lambda>x. q (f x)] xs"
  by (induction xs) auto

lemma in_order_filter: "in_order [p, q] (filter P xs) \<longleftrightarrow> in_order [\<lambda>x. P x \<and> p x, \<lambda>x. P x \<and> q x] xs"
  by (induction xs) auto

lemma in_order2_mono:
  "in_order [p, q] xs \<Longrightarrow> (\<And>x. p x \<Longrightarrow> p' x) \<Longrightarrow> (\<And>x. q x \<Longrightarrow> q' x) \<Longrightarrow> in_order [p', q'] xs"
  unfolding in_order2_iff by blast

lemma in_order_elements: "in_order [p, q] xs \<Longrightarrow> \<exists>x y. p x \<and> q y \<and> in_order [(=) x, (=) y] xs"
  unfolding in_order2_iff by blast

end
