(* ===== verification/Canonical.thy ===== *)
theory Canonical
  imports Prelude
begin

text \<open>
  The strict canonical JSON of \<open>src/repoguard/_canonical.py\<close>: the values it admits, the
  recursive validation with its depth bound, and the one text \<open>json.dumps\<close> gives with
  \<open>ensure_ascii=False\<close>, compact separators and sorted keys.

  A \<open>dict\<close> is the list of its items in insertion order. A finite float is known by its
  \<open>repr\<close>, the text \<open>json.dumps\<close> prints for it. \<open>JOther\<close> stands for every Python object that is
  none of the admitted types, a \<open>dict\<close> with a key that is no string included. \<open>DigitsExceeded\<close>
  is the plain \<open>ValueError\<close> of the interpreter for an integer of more than 4300 digits, which
  \<open>json.dumps\<close> raises too: \<open>canonical_json_bytes\<close> turns it into its own error.
\<close>

datatype pyfloat = FFinite pystr | FNonFinite

datatype json =
    JNull
  | JBool bool
  | JInt int
  | JFloat pyfloat
  | JStr pystr
  | JList "json list"
  | JObj "(pystr \<times> json) list"
  | JOther

datatype canonical_error =
    NestingInvalid
  | StringInvalid
  | NumberInvalid
  | ValueInvalid
  | BytesInvalid
  | DuplicateKeys
  | NotCanonical
  | DigitsExceeded
  | FieldsInvalid

section \<open>Validation\<close>

fun validate_json_value :: "int \<Rightarrow> int \<Rightarrow> json \<Rightarrow> canonical_error + unit"
  and validate_json_list :: "int \<Rightarrow> int \<Rightarrow> json list \<Rightarrow> canonical_error + unit"
  and validate_json_items :: "int \<Rightarrow> int \<Rightarrow> (pystr \<times> json) list \<Rightarrow> canonical_error + unit" where
  "validate_json_value m d v =
     (if m < 1 \<or> d > m then Inl NestingInvalid
      else case v of
          JNull \<Rightarrow> Inr ()
        | JBool b \<Rightarrow> Inr ()
        | JInt i \<Rightarrow> Inr ()
        | JStr s \<Rightarrow> require (utf8_ok s) StringInvalid
        | JFloat f \<Rightarrow> require (f \<noteq> FNonFinite) NumberInvalid
        | JList xs \<Rightarrow> validate_json_list m (d + 1) xs
        | JObj kvs \<Rightarrow> validate_json_items m (d + 1) kvs
        | JOther \<Rightarrow> Inl ValueInvalid)"
| "validate_json_list m d [] = Inr ()"
| "validate_json_list m d (x # xs) =
     and_then (validate_json_value m d x) (\<lambda>_. validate_json_list m d xs)"
| "validate_json_items m d [] = Inr ()"
| "validate_json_items m d (kv # kvs) =
     and_then (if m < 1 \<or> d > m then Inl NestingInvalid else require (utf8_ok (fst kv)) StringInvalid)
       (\<lambda>_. and_then (validate_json_value m d (snd kv)) (\<lambda>_. validate_json_items m d kvs))"

declare validate_json_value.simps [simp del]

text \<open>The nesting depth of a value, counted as the validation counts it.\<close>

fun json_depth :: "json \<Rightarrow> int"
  and json_list_depth :: "json list \<Rightarrow> int"
  and json_items_depth :: "(pystr \<times> json) list \<Rightarrow> int" where
  "json_depth v =
     (case v of JList xs \<Rightarrow> json_list_depth xs | JObj kvs \<Rightarrow> json_items_depth kvs | _ \<Rightarrow> 0)"
| "json_list_depth [] = 0"
| "json_list_depth (x # xs) = max (1 + json_depth x) (json_list_depth xs)"
| "json_items_depth [] = 0"
| "json_items_depth (kv # kvs) = max (1 + json_depth (snd kv)) (json_items_depth kvs)"

declare json_depth.simps [simp del]

text \<open>Every string, key and number of the value is one JSON can carry.\<close>

fun json_plain :: "json \<Rightarrow> bool"
  and json_list_plain :: "json list \<Rightarrow> bool"
  and json_items_plain :: "(pystr \<times> json) list \<Rightarrow> bool" where
  "json_plain v =
     (case v of
        JStr s \<Rightarrow> utf8_ok s
      | JFloat f \<Rightarrow> f \<noteq> FNonFinite
      | JList xs \<Rightarrow> json_list_plain xs
      | JObj kvs \<Rightarrow> json_items_plain kvs
      | JOther \<Rightarrow> False
      | _ \<Rightarrow> True)"
| "json_list_plain [] = True"
| "json_list_plain (x # xs) \<longleftrightarrow> json_plain x \<and> json_list_plain xs"
| "json_items_plain [] = True"
| "json_items_plain (kv # kvs) \<longleftrightarrow> utf8_ok (fst kv) \<and> json_plain (snd kv) \<and> json_items_plain kvs"

declare json_plain.simps [simp del]

section \<open>Text\<close>

fun nat_text :: "nat \<Rightarrow> pystr" where
  "nat_text n = (if n < 10 then [48 + n] else nat_text (n div 10) @ [48 + n mod 10])"

declare nat_text.simps [simp del]

definition int_text :: "int \<Rightarrow> pystr" where
  "int_text i = (if i < 0 then 45 # nat_text (nat (- i)) else nat_text (nat i))"

definition hex_digit :: "nat \<Rightarrow> nat" where
  "hex_digit n = (if n < 10 then 48 + n else 87 + n)"

definition escape_char :: "nat \<Rightarrow> pystr" where
  "escape_char c =
     (if c = 34 then [92, 34]
      else if c = 92 then [92, 92]
      else if c = 10 then [92, 110]
      else if c = 13 then [92, 114]
      else if c = 9 then [92, 116]
      else if c = 12 then [92, 102]
      else if c = 8 then [92, 98]
      else if c < 32 then [92, 117, 48, 48, hex_digit (c div 16), hex_digit (c mod 16)]
      else [c])"

definition quoted :: "pystr \<Rightarrow> pystr" where
  "quoted s = 34 # concat (map escape_char s) @ [34]"

fun json_text :: "json \<Rightarrow> pystr"
  and json_list_texts :: "json list \<Rightarrow> pystr list"
  and json_item_texts :: "(pystr \<times> json) list \<Rightarrow> (pystr \<times> pystr) list" where
  "json_text v =
     (case v of
        JNull \<Rightarrow> lit ''null''
      | JBool b \<Rightarrow> (if b then lit ''true'' else lit ''false'')
      | JInt i \<Rightarrow> int_text i
      | JFloat (FFinite r) \<Rightarrow> r
      | JFloat FNonFinite \<Rightarrow> lit ''NaN''
      | JStr s \<Rightarrow> quoted s
      | JList xs \<Rightarrow> 91 # join_on 44 (json_list_texts xs) @ [93]
      | JObj kvs \<Rightarrow>
          123 # join_on 44 (map (\<lambda>(k, t). quoted k @ 58 # t) (sort_key fst (json_item_texts kvs))) @ [125]
      | JOther \<Rightarrow> [])"
| "json_list_texts [] = []"
| "json_list_texts (x # xs) = json_text x # json_list_texts xs"
| "json_item_texts [] = []"
| "json_item_texts (kv # kvs) = (fst kv, json_text (snd kv)) # json_item_texts kvs"

declare json_text.simps [simp del]

text \<open>Every integer of the value has at most 4300 digits, the interpreter's bound for its text.\<close>

fun json_digits_ok :: "json \<Rightarrow> bool"
  and json_list_digits_ok :: "json list \<Rightarrow> bool"
  and json_items_digits_ok :: "(pystr \<times> json) list \<Rightarrow> bool" where
  "json_digits_ok v =
     (case v of
        JInt i \<Rightarrow> length (nat_text (nat \<bar>i\<bar>)) \<le> 4300
      | JList xs \<Rightarrow> json_list_digits_ok xs
      | JObj kvs \<Rightarrow> json_items_digits_ok kvs
      | _ \<Rightarrow> True)"
| "json_list_digits_ok [] = True"
| "json_list_digits_ok (x # xs) \<longleftrightarrow> json_digits_ok x \<and> json_list_digits_ok xs"
| "json_items_digits_ok [] = True"
| "json_items_digits_ok (kv # kvs) \<longleftrightarrow> json_digits_ok (snd kv) \<and> json_items_digits_ok kvs"

declare json_digits_ok.simps [simp del]

definition canonical_json_bytes :: "int \<Rightarrow> json \<Rightarrow> canonical_error + bytes" where
  "canonical_json_bytes max_depth v =
     and_then (validate_json_value max_depth 0 v) (\<lambda>_.
     and_then (require (json_digits_ok v) ValueInvalid)
       (\<lambda>_. case utf8_encode (json_text v) of None \<Rightarrow> Inl ValueInvalid | Some b \<Rightarrow> Inr b))"

definition require_exact_keys :: "json \<Rightarrow> pystr list \<Rightarrow> canonical_error + unit" where
  "require_exact_keys v expected =
     (case v of JObj kvs \<Rightarrow> require (set (map fst kvs) = set expected) FieldsInvalid
      | _ \<Rightarrow> Inl FieldsInvalid)"

definition domain_sha256 :: "(bytes \<Rightarrow> pystr) \<Rightarrow> pystr \<Rightarrow> json \<Rightarrow> (canonical_error + pystr) option" where
  \<comment> \<open>\<open>None\<close> is the ValueError of an invalid domain; \<open>sha256\<close> gives the hexadecimal digest.\<close>
  "domain_sha256 sha256 domain v =
     (if domain = [] \<or> 0 \<in> set domain \<or> (\<exists>c \<in> set domain. 128 \<le> c) then None
      else Some (and_then (canonical_json_bytes 64 v) (\<lambda>b. Inr (sha256 (domain @ 0 # b)))))"

end
