(* ===== verification/Evidence.thy ===== *)
theory Evidence
  imports Complex_Main Canonical
begin

text \<open>
  The immutable evidence model of \<open>src/repoguard/evidence.py\<close>: enumerations, the records of one
  comparison, the constructor's checks, the caller-lowerable limits and the JSON mapping. Field
  names carry a prefix per class because Isabelle record fields are global names. A Path is the
  string \<open>str(path)\<close>.
\<close>

datatype change_type = ADDED | MODIFIED | DELETED | RENAMED | TYPE_CHANGED

datatype content_kind = TEXT | BINARY | SYMLINK | SUBMODULE | OTHER

datatype diff_line_kind = CONTEXT | ADDITION | DELETION

datatype evidence_error_code =
    GIT_UNAVAILABLE | REPOSITORY_PATH_MISSING | NOT_A_WORKTREE | INVALID_BASE_REF
  | INVALID_HEAD_REF | NO_MERGE_BASE | AMBIGUOUS_MERGE_BASE | UNSUPPORTED_PATH_ENCODING
  | GIT_COMMAND_FAILED | GIT_TIMEOUT | MALFORMED_GIT_OUTPUT | RESOURCE_LIMIT

fun change_type_value :: "change_type \<Rightarrow> string" where
  "change_type_value ADDED = ''added''"
| "change_type_value MODIFIED = ''modified''"
| "change_type_value DELETED = ''deleted''"
| "change_type_value RENAMED = ''renamed''"
| "change_type_value TYPE_CHANGED = ''type_changed''"

fun content_kind_value :: "content_kind \<Rightarrow> string" where
  "content_kind_value TEXT = ''text''"
| "content_kind_value BINARY = ''binary''"
| "content_kind_value SYMLINK = ''symlink''"
| "content_kind_value SUBMODULE = ''submodule''"
| "content_kind_value OTHER = ''other''"

fun diff_line_kind_value :: "diff_line_kind \<Rightarrow> string" where
  "diff_line_kind_value CONTEXT = ''context''"
| "diff_line_kind_value ADDITION = ''addition''"
| "diff_line_kind_value DELETION = ''deletion''"

record repository_evidence =
  re_root :: pystr
  re_object_format :: pystr

record revision_evidence =
  rv_base_ref :: pystr
  rv_head_ref :: pystr
  rv_base_oid :: pystr
  rv_head_oid :: pystr
  rv_merge_base_oid :: pystr

record file_version =
  fv_path :: pystr
  fv_mode :: pystr
  fv_oid :: pystr
  fv_content_kind :: content_kind

record diff_line =
  dl_kind :: diff_line_kind
  dl_old :: "int option"
  dl_new :: "int option"
  dl_content :: pystr
  dl_newline :: bool

record diff_hunk =
  dh_old_start :: int
  dh_old_count :: int
  dh_new_start :: int
  dh_new_count :: int
  dh_lines :: "diff_line list"

record file_change =
  fc_change_type :: change_type
  fc_rename_similarity :: "int option"
  fc_old :: "file_version option"
  fc_new :: "file_version option"
  fc_hunks :: "diff_hunk list"

record evidence_bundle =
  eb_repository :: repository_evidence
  eb_revisions :: revision_evidence
  eb_changes :: "file_change list"
  eb_schema_version :: int

section \<open>Limits\<close>

text \<open>The timeout is a rational number of seconds; \<open>None\<close> stands for a float that is not finite.\<close>

record evidence_limits =
  el_max_changed_files :: int
  el_max_blob_bytes :: int
  el_max_total_blob_bytes :: int
  el_max_diff_bytes :: int
  el_max_diff_lines :: int
  el_git_timeout_seconds :: "rat option"

definition evidence_limits_valid :: "evidence_limits \<Rightarrow> bool" where
  "evidence_limits_valid l \<longleftrightarrow>
     1 \<le> el_max_changed_files l \<and> el_max_changed_files l \<le> 1000 \<and>
     1 \<le> el_max_blob_bytes l \<and> el_max_blob_bytes l \<le> 2 * 1024 * 1024 \<and>
     1 \<le> el_max_total_blob_bytes l \<and> el_max_total_blob_bytes l \<le> 64 * 1024 * 1024 \<and>
     1 \<le> el_max_diff_bytes l \<and> el_max_diff_bytes l \<le> 16 * 1024 * 1024 \<and>
     1 \<le> el_max_diff_lines l \<and> el_max_diff_lines l \<le> 131072 \<and>
     (case el_git_timeout_seconds l of None \<Rightarrow> False | Some t \<Rightarrow> 0 < t \<and> t \<le> 60)"

section \<open>JSON mapping\<close>

definition j_str :: "string \<Rightarrow> json" where
  "j_str s = JStr (lit s)"

definition j_opt :: "('a \<Rightarrow> json) \<Rightarrow> 'a option \<Rightarrow> json" where
  "j_opt f x = (case x of None \<Rightarrow> JNull | Some y \<Rightarrow> f y)"

definition require_utf8_path :: "pystr \<Rightarrow> evidence_error_code + json" where
  "require_utf8_path p = (if utf8_ok p then Inr (JStr p) else Inl UNSUPPORTED_PATH_ENCODING)"

definition ev_repository_to_dict :: "repository_evidence \<Rightarrow> evidence_error_code + json" where
  "ev_repository_to_dict r =
     and_then (require_utf8_path (re_root r)) (\<lambda>root.
       Inr (JObj [(lit ''root'', root), (lit ''object_format'', JStr (re_object_format r))]))"

definition ev_revisions_to_dict :: "revision_evidence \<Rightarrow> json" where
  "ev_revisions_to_dict r =
     JObj [(lit ''base_ref'', JStr (rv_base_ref r)), (lit ''head_ref'', JStr (rv_head_ref r)),
       (lit ''base_oid'', JStr (rv_base_oid r)), (lit ''head_oid'', JStr (rv_head_oid r)),
       (lit ''merge_base_oid'', JStr (rv_merge_base_oid r))]"

definition ev_file_version_to_dict :: "file_version \<Rightarrow> evidence_error_code + json" where
  "ev_file_version_to_dict v =
     and_then (require_utf8_path (fv_path v)) (\<lambda>p.
       Inr (JObj [(lit ''path'', p), (lit ''mode'', JStr (fv_mode v)), (lit ''oid'', JStr (fv_oid v)),
         (lit ''content_kind'', j_str (content_kind_value (fv_content_kind v)))]))"

definition ev_line_to_dict :: "diff_line \<Rightarrow> json" where
  "ev_line_to_dict l =
     JObj [(lit ''kind'', j_str (diff_line_kind_value (dl_kind l))),
       (lit ''old_line_number'', j_opt JInt (dl_old l)), (lit ''new_line_number'', j_opt JInt (dl_new l)),
       (lit ''content'', JStr (dl_content l)), (lit ''has_trailing_newline'', JBool (dl_newline l))]"

definition ev_hunk_to_dict :: "diff_hunk \<Rightarrow> json" where
  "ev_hunk_to_dict h =
     JObj [(lit ''old_start'', JInt (dh_old_start h)), (lit ''old_count'', JInt (dh_old_count h)),
       (lit ''new_start'', JInt (dh_new_start h)), (lit ''new_count'', JInt (dh_new_count h)),
       (lit ''lines'', JList (map ev_line_to_dict (dh_lines h)))]"

definition ev_version_or_null :: "file_version option \<Rightarrow> evidence_error_code + json" where
  "ev_version_or_null v = (case v of None \<Rightarrow> Inr JNull | Some f \<Rightarrow> ev_file_version_to_dict f)"

definition ev_change_to_dict :: "file_change \<Rightarrow> evidence_error_code + json" where
  "ev_change_to_dict c =
     and_then (ev_version_or_null (fc_old c)) (\<lambda>old.
     and_then (ev_version_or_null (fc_new c)) (\<lambda>new.
       Inr (JObj [(lit ''change_type'', j_str (change_type_value (fc_change_type c))),
         (lit ''rename_similarity'', j_opt JInt (fc_rename_similarity c)),
         (lit ''old'', old), (lit ''new'', new),
         (lit ''hunks'', JList (map ev_hunk_to_dict (fc_hunks c)))])))"

definition evidence_to_dict :: "evidence_bundle \<Rightarrow> evidence_error_code + json" where
  "evidence_to_dict b =
     and_then (ev_repository_to_dict (eb_repository b)) (\<lambda>repository.
     and_then (map_res ev_change_to_dict (eb_changes b)) (\<lambda>changes.
       Inr (JObj [(lit ''schema_version'', JInt (eb_schema_version b)), (lit ''repository'', repository),
         (lit ''revisions'', ev_revisions_to_dict (eb_revisions b)), (lit ''changes'', JList changes)])))"

definition evidence_to_json :: "evidence_bundle \<Rightarrow> evidence_error_code + pystr" where
  "evidence_to_json b = and_then (evidence_to_dict b) (\<lambda>d. Inr (json_text d))"

end
