(* ===== verification/Canonical_Order.thy ===== *)
theory Canonical_Order
  imports Prelude
begin

text \<open>
  The contract every canonical listing of the program shares: keep the first value of each
  identity, then sort by a key. Where the identity determines the value and the key is injective,
  the listing depends on the set of values only, has no repetition and is strictly increasing.
  The findings of a review, the findings of a model and the references of a finding are listed so.
\<close>

text \<open>\<open>dict.setdefault\<close> over a list: the first value of each key, in first-seen order.\<close>

fun first_by :: "('a \<Rightarrow> 'k) \<Rightarrow> 'k set \<Rightarrow> 'a list \<Rightarrow> 'a list" where
  "first_by key seen [] = []"
| "first_by key seen (x # xs) =
     (if key x \<in> seen then first_by key seen xs else x # first_by key (insert (key x) seen) xs)"

lemma set_first_by_subset: "set (first_by key seen xs) \<subseteq> set xs"
  by (induction xs arbitrary: seen) auto

lemma first_by_keys: "key ` set (first_by key seen xs) = key ` set xs - seen"
  by (induction xs arbitrary: seen) auto

lemma distinct_first_by: "distinct (map key (first_by key seen xs))"
proof (induction xs arbitrary: seen)
  case (Cons x xs)
  have "key x \<notin> key ` set (first_by key (insert (key x) seen) xs)"
    by (simp add: first_by_keys)
  with Cons show ?case by simp
qed simp

locale canonical_order =
  fixes ident :: "'a \<Rightarrow> 'k" and order_key :: "'a \<Rightarrow> 'o::linorder" and ok :: "'a \<Rightarrow> bool"
  assumes ident_determines: "ok x \<Longrightarrow> ok y \<Longrightarrow> ident x = ident y \<Longrightarrow> x = y"
    and key_determines: "ok x \<Longrightarrow> ok y \<Longrightarrow> order_key x = order_key y \<Longrightarrow> x = y"
begin

lemma key_inj_on: "\<forall>x \<in> set xs. ok x \<Longrightarrow> inj_on order_key (set xs)"
  by (auto intro: inj_onI key_determines)

lemma set_first: "\<forall>x \<in> set xs. ok x \<Longrightarrow> set (first_by ident {} xs) = set xs"
proof
  assume ok: "\<forall>x \<in> set xs. ok x"
  show "set xs \<subseteq> set (first_by ident {} xs)"
  proof
    fix x assume x: "x \<in> set xs"
    then have "ident x \<in> ident ` set (first_by ident {} xs)" by (simp add: first_by_keys)
    then obtain y where "y \<in> set (first_by ident {} xs)" "ident y = ident x" by auto
    moreover from this have "y \<in> set xs" using set_first_by_subset [of ident "{}" xs] by auto
    ultimately show "x \<in> set (first_by ident {} xs)" using ok x ident_determines by metis
  qed
qed (rule set_first_by_subset)

lemma distinct_first: "distinct (first_by ident {} xs)"
  using distinct_first_by [of ident "{}" xs] by (simp add: distinct_map)

lemma set_canonical:
  "\<forall>x \<in> set xs. ok x \<Longrightarrow> set (sort_key order_key (first_by ident {} xs)) = set xs"
  by (simp add: set_first)

lemma distinct_canonical: "distinct (sort_key order_key (first_by ident {} xs))"
  by (simp add: distinct_first)

lemma strict_canonical:
  assumes "\<forall>x \<in> set xs. ok x"
  shows "sorted_wrt (\<lambda>x y. order_key x < order_key y) (sort_key order_key (first_by ident {} xs))"
proof -
  let ?ys = "sort_key order_key (first_by ident {} xs)"
  have "distinct (map order_key ?ys)"
    using assms by (simp add: distinct_map distinct_first set_first key_inj_on)
  then have "sorted_wrt (<) (map order_key ?ys)"
    by (simp add: strict_sorted_iff)
  then show ?thesis by (simp add: sorted_wrt_map)
qed

lemma canonical_cong:
  assumes "\<forall>x \<in> set xs. ok x" "set xs = set ys"
  shows "sort_key order_key (first_by ident {} xs) = sort_key order_key (first_by ident {} ys)"
proof (rule sort_key_set_unique)
  show "inj_on order_key (set (first_by ident {} xs))"
    using assms by (simp add: set_first key_inj_on)
qed (use assms in \<open>simp_all add: set_first distinct_first\<close>)

end

end
