(* ===== verification/Review.thy ===== *)
theory Review
  imports Evidence Canonical_Order
begin

text \<open>
  The deterministic review of \<open>src/repoguard/review.py\<close> and \<open>src/repoguard/_review.py\<close>: the finding
  model, the validation of a bundle, the six rules and the canonical order of the findings.

  An exception is a value of \<open>review_exn\<close>. The type tests of the source on record fields hold by
  typing here; every other test is a branch, in the source's order, with its message.
\<close>

section \<open>Data\<close>

datatype rule_id =
    PRIVATE_KEY_MATERIAL | MERGE_CONFLICT_MARKER | EXECUTABLE_BIT_ADDED | SYMLINK_CHANGED
  | SUBMODULE_CHANGED | BINARY_CONTENT_CHANGED

datatype finding_category = SECURITY | CORRECTNESS | REVIEWABILITY | SUPPLY_CHAIN

datatype finding_severity = INFO | LOW | MEDIUM | HIGH | CRITICAL

datatype evidence_side = OLD | NEW

datatype review_error_code = UNSUPPORTED_EVIDENCE_SCHEMA | INVALID_EVIDENCE | RULE_EXECUTION_FAILED

datatype review_exn = ReviewError review_error_code string | UnicodeError

fun rule_id_value :: "rule_id \<Rightarrow> string" where
  "rule_id_value PRIVATE_KEY_MATERIAL = ''private_key_material''"
| "rule_id_value MERGE_CONFLICT_MARKER = ''merge_conflict_marker''"
| "rule_id_value EXECUTABLE_BIT_ADDED = ''executable_bit_added''"
| "rule_id_value SYMLINK_CHANGED = ''symlink_changed''"
| "rule_id_value SUBMODULE_CHANGED = ''submodule_changed''"
| "rule_id_value BINARY_CONTENT_CHANGED = ''binary_content_changed''"

fun category_value :: "finding_category \<Rightarrow> string" where
  "category_value SECURITY = ''security''"
| "category_value CORRECTNESS = ''correctness''"
| "category_value REVIEWABILITY = ''reviewability''"
| "category_value SUPPLY_CHAIN = ''supply_chain''"

fun severity_value :: "finding_severity \<Rightarrow> string" where
  "severity_value INFO = ''info''"
| "severity_value LOW = ''low''"
| "severity_value MEDIUM = ''medium''"
| "severity_value HIGH = ''high''"
| "severity_value CRITICAL = ''critical''"

fun side_value :: "evidence_side \<Rightarrow> string" where
  "side_value OLD = ''old''"
| "side_value NEW = ''new''"

record evidence_reference =
  er_path :: pystr
  er_side :: evidence_side
  er_oid :: pystr
  er_start :: "int option"
  er_end :: "int option"

record finding =
  fi_rule :: rule_id
  fi_category :: finding_category
  fi_severity :: finding_severity
  fi_title :: pystr
  fi_message :: pystr
  fi_remediation :: pystr
  fi_references :: "evidence_reference list"

record review_result =
  rr_repository :: repository_evidence
  rr_revisions :: revision_evidence
  rr_findings :: "finding list"
  rr_schema_version :: int

section \<open>Validation\<close>

definition oid_length_of :: "pystr \<Rightarrow> nat option" where
  "oid_length_of f = (if f = lit ''sha1'' then Some 40 else if f = lit ''sha256'' then Some 64 else None)"

definition is_oid :: "nat \<Rightarrow> pystr \<Rightarrow> bool" where
  "is_oid n s \<longleftrightarrow> length s = n \<and> s \<noteq> [] \<and> list_all is_lower_hex s"

definition rv_invalid :: "string \<Rightarrow> review_exn" where
  "rv_invalid msg = ReviewError INVALID_EVIDENCE msg"

definition rv_validate_oid :: "pystr \<Rightarrow> nat \<Rightarrow> string \<Rightarrow> review_exn + unit" where
  "rv_validate_oid s n msg = require (is_oid n s) (rv_invalid msg)"

definition rv_require_utf8 :: "pystr \<Rightarrow> string \<Rightarrow> review_exn + unit" where
  "rv_require_utf8 s msg = require (utf8_ok s) (rv_invalid msg)"

definition validate_added_line :: "bool \<Rightarrow> int set \<Rightarrow> diff_line \<Rightarrow> review_exn + int set" where
  "validate_added_line has_new numbers l =
     (if dl_kind l \<noteq> ADDITION then Inr numbers
      else if \<not> has_new then Inl (rv_invalid ''addition lines require a new file side'')
      else if dl_old l \<noteq> None then Inl (rv_invalid ''addition lines must not have an old line number'')
      else (case dl_new l of
          None \<Rightarrow> Inl (rv_invalid ''addition lines must have unique positive new line numbers per change'')
        | Some n \<Rightarrow>
            if n \<le> 0 \<or> n \<in> numbers
            then Inl (rv_invalid ''addition lines must have unique positive new line numbers per change'')
            else Inr (insert n numbers)))"

definition validate_new_side :: "nat \<Rightarrow> file_version option \<Rightarrow> review_exn + unit" where
  "validate_new_side oid_length new =
     (case new of None \<Rightarrow> Inr ()
      | Some v \<Rightarrow>
          and_then (require (fv_path v \<noteq> []) (rv_invalid ''new-side paths must be non-empty'')) (\<lambda>_.
          and_then (rv_require_utf8 (fv_path v) ''new-side paths must be valid UTF-8'') (\<lambda>_.
          rv_validate_oid (fv_oid v) oid_length ''new-side OIDs must match the object format'')))"

definition change_lines :: "file_change \<Rightarrow> diff_line list" where
  "change_lines c = concat (map dh_lines (fc_hunks c))"

definition validate_change :: "nat \<Rightarrow> file_change \<Rightarrow> review_exn + unit" where
  "validate_change oid_length c =
     and_then (validate_new_side oid_length (fc_new c)) (\<lambda>_.
     and_then (fold_res (validate_added_line (fc_new c \<noteq> None)) {} (change_lines c))
       (\<lambda>_. Inr ()))"

definition validate_bundle :: "evidence_bundle \<Rightarrow> review_exn + unit" where
  "validate_bundle b =
     and_then (require (eb_schema_version b = 1)
       (ReviewError UNSUPPORTED_EVIDENCE_SCHEMA ''evidence schema_version must be 1'')) (\<lambda>_.
     and_then (require (starts_with (lit ''/'') (re_root (eb_repository b)))
       (rv_invalid ''repository root must be an absolute path'')) (\<lambda>_.
     and_then (rv_require_utf8 (re_root (eb_repository b)) ''repository root must be valid UTF-8'') (\<lambda>_.
     case oid_length_of (re_object_format (eb_repository b)) of
       None \<Rightarrow> Inl (rv_invalid ''repository object format must be sha1 or sha256'')
     | Some n \<Rightarrow>
         let r = eb_revisions b in
         and_then (rv_require_utf8 (rv_base_ref r) ''requested refs must be valid UTF-8'') (\<lambda>_.
         and_then (rv_require_utf8 (rv_head_ref r) ''requested refs must be valid UTF-8'') (\<lambda>_.
         and_then (map_res (\<lambda>oid. rv_validate_oid oid n ''revision OIDs must match the object format'')
           [rv_base_oid r, rv_head_oid r, rv_merge_base_oid r]) (\<lambda>_.
         and_then (map_res (validate_change n) (eb_changes b)) (\<lambda>_. Inr ())))))))"

section \<open>Text markers\<close>

definition private_key_labels :: "pystr list" where
  "private_key_labels = map lit
     [''PRIVATE KEY'', ''ENCRYPTED PRIVATE KEY'', ''RSA PRIVATE KEY'', ''EC PRIVATE KEY'',
      ''DSA PRIVATE KEY'', ''OPENSSH PRIVATE KEY'', ''PGP PRIVATE KEY BLOCK'']"

text \<open>A marker is its kind (\<open>True\<close> for BEGIN) and its label.\<close>

definition marker_text :: "bool \<Rightarrow> pystr \<Rightarrow> pystr" where
  "marker_text b label =
     lit ''-----'' @ (if b then lit ''BEGIN'' else lit ''END'') @ 32 # label @ lit ''-----''"

text \<open>The marker pattern at the front of a string: the first alternative that matches.\<close>

definition match_marker :: "pystr \<Rightarrow> (bool \<times> pystr) option" where
  "match_marker s =
     find (\<lambda>(b, label). starts_with (marker_text b label) s)
       (map (Pair True) private_key_labels @ map (Pair False) private_key_labels)"

text \<open>\<open>finditer\<close>: scan from the left, continue after the end of a match.\<close>

function marker_scan :: "pystr \<Rightarrow> (bool \<times> pystr) list" where
  "marker_scan s =
     (case s of [] \<Rightarrow> []
      | c # cs \<Rightarrow>
          (case match_marker s of
             Some (b, label) \<Rightarrow> (b, label) # marker_scan (drop (length (marker_text b label)) s)
           | None \<Rightarrow> marker_scan cs))"
  by pat_completeness auto
termination
  by (relation "measure length") (auto simp: marker_text_def lit_def)

declare marker_scan.simps [simp del]

text \<open>
  A line that is a run of at least \<open>n\<close> marker characters, then nothing or a space and at least one
  more character, none a line feed: \<open>^(c{n,})(?:$| .+)\<close> as a full match. The result is the length of
  the run.
\<close>

definition marker_run :: "nat \<Rightarrow> nat \<Rightarrow> pystr \<Rightarrow> nat option" where
  "marker_run c n s =
     (let k = length (takeWhile (\<lambda>x. x = c) s); rest = drop k s in
      if n \<le> k \<and> (case rest of [] \<Rightarrow> True | x # ys \<Rightarrow> x = 32 \<and> ys \<noteq> [] \<and> 10 \<notin> set ys)
      then Some k else None)"

definition conflict_start :: "pystr \<Rightarrow> nat option" where
  "conflict_start s = marker_run 60 7 s"

definition conflict_end :: "pystr \<Rightarrow> nat option" where
  "conflict_end s = marker_run 62 7 s"

definition conflict_separator :: "pystr \<Rightarrow> nat option" where
  "conflict_separator s = (if s \<noteq> [] \<and> list_all (\<lambda>x. x = 61) s then Some (length s) else None)"

section \<open>Added lines\<close>

definition logical_line_content :: "diff_line \<Rightarrow> pystr" where
  "logical_line_content l =
     (if dl_newline l \<and> ends_with [13] (dl_content l) then butlast (dl_content l) else dl_content l)"

definition added_line :: "diff_line \<Rightarrow> (int \<times> pystr) list" where
  "added_line l =
     (if dl_kind l = ADDITION
      then (case dl_new l of None \<Rightarrow> [] | Some n \<Rightarrow> [(n, logical_line_content l)]) else [])"

definition addition_lines :: "file_change \<Rightarrow> (int \<times> pystr) list" where
  "addition_lines c = sort (concat (map added_line (change_lines c)))"

section \<open>Rules\<close>

definition text_reference :: "file_version \<Rightarrow> int \<Rightarrow> int \<Rightarrow> evidence_reference" where
  "text_reference v a z =
     \<lparr>er_path = fv_path v, er_side = NEW, er_oid = fv_oid v, er_start = Some a, er_end = Some z\<rparr>"

definition file_reference :: "file_version \<Rightarrow> evidence_reference" where
  "file_reference v =
     \<lparr>er_path = fv_path v, er_side = NEW, er_oid = fv_oid v, er_start = None, er_end = None\<rparr>"

text \<open>The constant fields each rule gives its findings.\<close>

fun rule_finding :: "rule_id \<Rightarrow> evidence_reference \<Rightarrow> finding" where
  "rule_finding PRIVATE_KEY_MATERIAL r =
     \<lparr>fi_rule = PRIVATE_KEY_MATERIAL, fi_category = SECURITY, fi_severity = HIGH,
      fi_title = lit ''Private key material added'',
      fi_message = lit ''Added lines contain a paired private-key block.'',
      fi_remediation = lit ''Remove the private key, rotate any exposed credential, and load the replacement from an approved secret store.'',
      fi_references = [r]\<rparr>"
| "rule_finding MERGE_CONFLICT_MARKER r =
     \<lparr>fi_rule = MERGE_CONFLICT_MARKER, fi_category = CORRECTNESS, fi_severity = MEDIUM,
      fi_title = lit ''Unresolved merge conflict added'',
      fi_message = lit ''Added lines contain a complete unresolved merge-conflict block.'',
      fi_remediation = lit ''Resolve the conflict, remove the conflict markers, and verify the intended combined content.'',
      fi_references = [r]\<rparr>"
| "rule_finding EXECUTABLE_BIT_ADDED r =
     \<lparr>fi_rule = EXECUTABLE_BIT_ADDED, fi_category = SECURITY, fi_severity = LOW,
      fi_title = lit ''Executable permission introduced'',
      fi_message = lit ''The head version introduces executable permission for this file.'',
      fi_remediation = lit ''Confirm that executable permission is required; otherwise restore a non-executable regular-file mode.'',
      fi_references = [r]\<rparr>"
| "rule_finding SYMLINK_CHANGED r =
     \<lparr>fi_rule = SYMLINK_CHANGED, fi_category = SECURITY, fi_severity = MEDIUM,
      fi_title = lit ''Symbolic link introduced or changed'',
      fi_message = lit ''The head version introduces a symbolic link or changes its target object.'',
      fi_remediation = lit ''Verify that the link target is intentional and cannot escape or redirect access outside the expected repository path.'',
      fi_references = [r]\<rparr>"
| "rule_finding SUBMODULE_CHANGED r =
     \<lparr>fi_rule = SUBMODULE_CHANGED, fi_category = SUPPLY_CHAIN, fi_severity = MEDIUM,
      fi_title = lit ''Submodule pointer introduced or changed'',
      fi_message = lit ''The head version introduces a submodule or changes its referenced commit.'',
      fi_remediation = lit ''Verify the submodule source and review the referenced commit before accepting the change.'',
      fi_references = [r]\<rparr>"
| "rule_finding BINARY_CONTENT_CHANGED r =
     \<lparr>fi_rule = BINARY_CONTENT_CHANGED, fi_category = REVIEWABILITY, fi_severity = INFO,
      fi_title = lit ''Opaque binary content introduced or changed'',
      fi_message = lit ''The head version introduces binary content or changes its object ID, so text review evidence is unavailable.'',
      fi_remediation = lit ''Verify the binary's provenance and inspect it with an appropriate trusted tool.'',
      fi_references = [r]\<rparr>"

text \<open>A queue of open line numbers per key: the \<open>defaultdict(deque)\<close> of the source.\<close>

type_synonym 'k queues = "'k \<Rightarrow> int list"

text \<open>One marker of a line: push a BEGIN, pair an END with the oldest open BEGIN of its label.\<close>

definition key_step ::
  "int \<Rightarrow> pystr queues \<times> (int \<times> int) list \<Rightarrow> bool \<times> pystr \<Rightarrow> pystr queues \<times> (int \<times> int) list" where
  "key_step n st m =
     (case (st, m) of ((q, out), (b, label)) \<Rightarrow>
        if b then (q(label := q label @ [n]), out)
        else (case q label of [] \<Rightarrow> (q, out)
              | s # rest \<Rightarrow> (q(label := rest), out @ [(s, n)])))"

definition key_line ::
  "pystr queues \<times> (int \<times> int) list \<Rightarrow> int \<times> pystr \<Rightarrow> pystr queues \<times> (int \<times> int) list" where
  "key_line st line = foldl (key_step (fst line)) st (marker_scan (snd line))"

definition key_ranges :: "(int \<times> pystr) list \<Rightarrow> (int \<times> int) list" where
  "key_ranges lines = snd (foldl key_line (\<lambda>_. [], []) lines)"

definition private_key_change :: "file_change \<Rightarrow> finding list" where
  "private_key_change c =
     (case fc_new c of None \<Rightarrow> []
      | Some new \<Rightarrow> map (\<lambda>(s, e). rule_finding PRIVATE_KEY_MATERIAL (text_reference new s e))
          (key_ranges (addition_lines c)))"

definition private_key_findings :: "evidence_bundle \<Rightarrow> finding list" where
  "private_key_findings b = concat (map private_key_change (eb_changes b))"

text \<open>Conflict markers: open starts and, once separated, open blocks, both per marker length.\<close>

record conflict_state =
  cs_starts :: "nat queues"
  cs_blocks :: "nat queues"
  cs_out :: "(int \<times> int) list"

definition conflict_line :: "conflict_state \<Rightarrow> int \<times> pystr \<Rightarrow> conflict_state" where
  "conflict_line st line =
     (let n = fst line; content = snd line in
      case conflict_start content of
        Some k \<Rightarrow> st\<lparr>cs_starts := (cs_starts st)(k := cs_starts st k @ [n])\<rparr>
      | None \<Rightarrow>
        (case conflict_separator content of
          Some k \<Rightarrow>
            (case cs_starts st k of [] \<Rightarrow> st
             | s # rest \<Rightarrow> st\<lparr>cs_starts := (cs_starts st)(k := rest),
                  cs_blocks := (cs_blocks st)(k := cs_blocks st k @ [s])\<rparr>)
        | None \<Rightarrow>
          (case conflict_end content of
            None \<Rightarrow> st
          | Some k \<Rightarrow>
              (case cs_blocks st k of [] \<Rightarrow> st
               | s # rest \<Rightarrow> st\<lparr>cs_blocks := (cs_blocks st)(k := rest), cs_out := cs_out st @ [(s, n)]\<rparr>))))"

definition conflict_ranges :: "(int \<times> pystr) list \<Rightarrow> (int \<times> int) list" where
  "conflict_ranges lines =
     cs_out (foldl conflict_line \<lparr>cs_starts = \<lambda>_. [], cs_blocks = \<lambda>_. [], cs_out = []\<rparr> lines)"

definition merge_conflict_change :: "file_change \<Rightarrow> finding list" where
  "merge_conflict_change c =
     (case fc_new c of None \<Rightarrow> []
      | Some new \<Rightarrow> map (\<lambda>(s, e). rule_finding MERGE_CONFLICT_MARKER (text_reference new s e))
          (conflict_ranges (addition_lines c)))"

definition merge_conflict_findings :: "evidence_bundle \<Rightarrow> finding list" where
  "merge_conflict_findings b = concat (map merge_conflict_change (eb_changes b))"

definition executable_change :: "file_change \<Rightarrow> finding list" where
  "executable_change c =
     (case fc_new c of None \<Rightarrow> []
      | Some new \<Rightarrow>
          if fv_mode new \<noteq> lit ''100755'' then []
          else if (case fc_old c of None \<Rightarrow> False | Some old \<Rightarrow> fv_mode old = lit ''100755'') then []
          else [rule_finding EXECUTABLE_BIT_ADDED (file_reference new)])"

definition executable_findings :: "evidence_bundle \<Rightarrow> finding list" where
  "executable_findings b = concat (map executable_change (eb_changes b))"

definition content_kind_change :: "content_kind \<Rightarrow> rule_id \<Rightarrow> file_change \<Rightarrow> finding list" where
  "content_kind_change kind rule c =
     (case fc_new c of None \<Rightarrow> []
      | Some new \<Rightarrow>
          if fv_content_kind new \<noteq> kind then []
          else if (case fc_old c of None \<Rightarrow> False
                   | Some old \<Rightarrow> fv_content_kind old = kind \<and> fv_oid old = fv_oid new) then []
          else [rule_finding rule (file_reference new)])"

definition content_kind_findings :: "evidence_bundle \<Rightarrow> content_kind \<Rightarrow> rule_id \<Rightarrow> finding list" where
  "content_kind_findings b kind rule = concat (map (content_kind_change kind rule) (eb_changes b))"

definition symlink_findings :: "evidence_bundle \<Rightarrow> finding list" where
  "symlink_findings b = content_kind_findings b SYMLINK SYMLINK_CHANGED"

definition submodule_findings :: "evidence_bundle \<Rightarrow> finding list" where
  "submodule_findings b = content_kind_findings b SUBMODULE SUBMODULE_CHANGED"

definition binary_findings :: "evidence_bundle \<Rightarrow> finding list" where
  "binary_findings b = content_kind_findings b BINARY BINARY_CONTENT_CHANGED"

definition rules :: "(rule_id \<times> (evidence_bundle \<Rightarrow> finding list)) list" where
  "rules =
     [(PRIVATE_KEY_MATERIAL, private_key_findings),
      (MERGE_CONFLICT_MARKER, merge_conflict_findings),
      (EXECUTABLE_BIT_ADDED, executable_findings),
      (SYMLINK_CHANGED, symlink_findings),
      (SUBMODULE_CHANGED, submodule_findings),
      (BINARY_CONTENT_CHANGED, binary_findings)]"

section \<open>Canonical order\<close>

fun severity_rank :: "finding_severity \<Rightarrow> int" where
  "severity_rank CRITICAL = 0"
| "severity_rank HIGH = 1"
| "severity_rank MEDIUM = 2"
| "severity_rank LOW = 3"
| "severity_rank INFO = 4"

definition line_sort_value :: "int option \<Rightarrow> int" where
  "line_sort_value l = (case l of None \<Rightarrow> 0 | Some n \<Rightarrow> n)"

definition reference_sort_key ::
  "evidence_reference \<Rightarrow> bytes \<times> pystr \<times> pystr \<times> int \<times> int" where
  "reference_sort_key r =
     (utf8_bytes (er_path r), lit (side_value (er_side r)), er_oid r,
      line_sort_value (er_start r), line_sort_value (er_end r))"

definition finding_sort_key ::
  "finding \<Rightarrow> int \<times> bytes \<times> int \<times> int \<times> pystr \<times> (bytes \<times> pystr \<times> pystr \<times> int \<times> int) list" where
  "finding_sort_key f =
     (let r = hd (fi_references f) in
      (severity_rank (fi_severity f), utf8_bytes (er_path r), line_sort_value (er_start r),
       line_sort_value (er_end r), lit (rule_id_value (fi_rule f)),
       map reference_sort_key (fi_references f)))"

text \<open>Sorting encodes every path it compares, which raises for a path that is no valid UTF-8.\<close>

definition canonicalize_findings :: "finding list \<Rightarrow> review_exn + finding list" where
  "canonicalize_findings fs =
     (let unique = first_by (\<lambda>f. (fi_rule f, fi_references f)) {} fs in
      if list_all (\<lambda>f. list_all (\<lambda>r. utf8_ok (er_path r)) (fi_references f)) unique
      then Inr (sort_key finding_sort_key unique) else Inl UnicodeError)"

definition review_evidence :: "evidence_bundle \<Rightarrow> review_exn + review_result" where
  "review_evidence b =
     and_then (validate_bundle b) (\<lambda>_.
     and_then (canonicalize_findings (concat (map (\<lambda>(_, evaluator). evaluator b) rules))) (\<lambda>fs.
       Inr \<lparr>rr_repository = eb_repository b, rr_revisions = eb_revisions b, rr_findings = fs,
            rr_schema_version = 1\<rparr>))"

end
