(* ===== verification/Review_Pairing.thy ===== *)
theory Review_Pairing
  imports Review
begin

text \<open>
  The two rules of \<open>_review.py\<close> that pair markers over the added lines of a change: what
  \<open>key_ranges\<close> and \<open>conflict_ranges\<close> return is stated against the order in which the markers occur
  (\<open>in_order\<close> of the prelude), both for each range returned and for whether there is one.
\<close>

section \<open>Added lines\<close>

lemma added_line_mem:
  "x \<in> set (added_line l) \<longleftrightarrow>
     dl_kind l = ADDITION \<and> dl_new l = Some (fst x) \<and> snd x = logical_line_content l"
  unfolding added_line_def
  by (cases "dl_kind l = ADDITION"; cases "dl_new l"; simp add: prod_eq_iff) auto

lemma set_addition_lines: "set (addition_lines c) = \<Union> (set ` added_line ` set (change_lines c))"
  unfolding addition_lines_def set_sort set_concat set_map ..

lemma addition_lines_mem:
  "x \<in> set (addition_lines c) \<longleftrightarrow> (\<exists>l \<in> set (change_lines c). x \<in> set (added_line l))"
  unfolding set_addition_lines by simp

lemma addition_lines_sorted: "sorted (map fst (addition_lines c))"
proof -
  have "sorted xs \<Longrightarrow> sorted (map fst xs)" for xs :: "(int \<times> pystr) list"
    by (induction xs) (auto simp: less_eq_prod_def)
  then show ?thesis by (simp add: addition_lines_def)
qed

text \<open>Every marker starts with a dash, so the matcher has to look at no other position.\<close>

lemma marker_text_dash: "\<exists>rest. marker_text b label = 45 # rest"
  by (simp add: marker_text_def lit_def)

lemma match_marker_dash: "x \<noteq> 45 \<Longrightarrow> match_marker (x # s) = None"
proof -
  assume x: "x \<noteq> 45"
  have "\<not> starts_with (marker_text b label) (x # s)" for b label
    using marker_text_dash [of b label] x by (auto simp: starts_with_def)
  then show ?thesis by (simp add: match_marker_def find_None_iff case_prod_unfold)
qed

lemma marker_scan_code [code]:
  "marker_scan s =
     (case s of [] \<Rightarrow> []
      | c # cs \<Rightarrow>
          if c \<noteq> 45 then marker_scan cs
          else (case match_marker s of
             Some (b, label) \<Rightarrow> (b, label) # marker_scan (drop (length (marker_text b label)) s)
           | None \<Rightarrow> marker_scan cs))"
  by (subst marker_scan.simps) (simp add: match_marker_dash split: list.split)

section \<open>Pairing\<close>

definition marks :: "(int \<times> pystr) list \<Rightarrow> (int \<times> bool \<times> pystr) list" where
  "marks lines = concat (map (\<lambda>(n, s). map (Pair n) (marker_scan s)) lines)"

lemma key_line_marks:
  "foldl key_line st lines = foldl (\<lambda>st (n, m). key_step n st m) st (marks lines)"
proof (induction lines arbitrary: st)
  case (Cons line lines)
  have "foldl (key_step n) st ms = foldl (\<lambda>st (n, m). key_step n st m) st (map (Pair n) ms)"
    for n st ms by (induction ms arbitrary: st) simp_all
  with Cons show ?case by (simp add: key_line_def marks_def split: prod.split)
qed (simp add: marks_def)

definition key_run :: "(int \<times> bool \<times> pystr) list \<Rightarrow> pystr queues \<times> (int \<times> int) list" where
  "key_run ms = foldl (\<lambda>st (n, m). key_step n st m) (\<lambda>_. [], []) ms"

lemma key_ranges_run: "key_ranges lines = snd (key_run (marks lines))"
  by (simp add: key_ranges_def key_run_def key_line_marks)

lemma key_run_Nil [simp]: "key_run [] = (\<lambda>_. [], [])"
  by (simp add: key_run_def)

lemma key_run_snoc: "key_run (ms @ [(n, b, l)]) = key_step n (key_run ms) (b, l)"
  by (simp add: key_run_def)

definition key_mark :: "bool \<Rightarrow> pystr \<Rightarrow> int \<times> bool \<times> pystr \<Rightarrow> bool" where
  "key_mark b l m \<longleftrightarrow> snd m = (b, l)"

definition key_mark_at :: "bool \<Rightarrow> pystr \<Rightarrow> int \<Rightarrow> int \<times> bool \<times> pystr \<Rightarrow> bool" where
  "key_mark_at b l n m \<longleftrightarrow> m = (n, b, l)"

lemma key_run_sound:
  "(\<forall>l. \<forall>s \<in> set (fst (key_run ms) l). (s, True, l) \<in> set ms) \<and>
   (\<forall>(s, e) \<in> set (snd (key_run ms)).
      \<exists>l. in_order [key_mark_at True l s, key_mark_at False l e] ms)"
proof (induction ms rule: rev_induct)
  case (snoc m ms)
  obtain n b l where m: "m = (n, b, l)" by (cases m) auto
  obtain q out where r: "key_run ms = (q, out)" by fastforce
  from snoc.IH r have q: "\<And>l s. s \<in> set (q l) \<Longrightarrow> (s, True, l) \<in> set ms" by auto
  from snoc.IH r have out: "\<And>s e. (s, e) \<in> set out \<Longrightarrow>
      \<exists>l. in_order [key_mark_at True l s, key_mark_at False l e] ms" by auto
  then have out': "\<And>s e. (s, e) \<in> set out \<Longrightarrow>
      \<exists>l. in_order [key_mark_at True l s, key_mark_at False l e] (ms @ [m])"
    by (meson in_order_append)
  show ?case
  proof (cases "\<not> b \<and> q l \<noteq> []")
    case True
    then obtain s rest where Cons: "q l = s # rest" by (cases "q l") auto
    have new: "in_order [key_mark_at True l s, key_mark_at False l n] (ms @ [m])"
      using True q [of s l] Cons by (auto simp: in_order_snoc2 key_mark_at_def m)
    have run: "key_run (ms @ [m]) = (q(l := rest), out @ [(s, n)])"
      using True Cons by (simp add: m r key_run_snoc key_step_def)
    have "\<forall>l'. \<forall>x \<in> set ((q(l := rest)) l'). (x, True, l') \<in> set (ms @ [m])"
      using Cons q by simp
    with new out' show ?thesis unfolding run by auto
  next
    case False
    then have run: "key_run (ms @ [m]) = (if b then q(l := q l @ [n]) else q, out)"
      by (auto simp: m r key_run_snoc key_step_def)
    have "\<forall>l'. \<forall>x \<in> set ((if b then q(l := q l @ [n]) else q) l'). (x, True, l') \<in> set (ms @ [m])"
      using q by (simp add: m)
    with out' show ?thesis unfolding run by auto
  qed
qed simp

lemma key_run_open:
  "snd (key_run ms) = [] \<Longrightarrow> (\<exists>m \<in> set ms. key_mark True l m) \<Longrightarrow> fst (key_run ms) l \<noteq> []"
proof (induction ms rule: rev_induct)
  case (snoc m ms)
  obtain n b l1 where m: "m = (n, b, l1)" by (cases m) auto
  obtain q out where r: "key_run ms = (q, out)" by fastforce
  from snoc show ?case
    by (auto simp: m r key_run_snoc key_step_def key_mark_def split: if_splits list.splits)
qed simp

lemma key_run_complete: "in_order [key_mark True l, key_mark False l] ms \<Longrightarrow> snd (key_run ms) \<noteq> []"
proof (induction ms rule: rev_induct)
  case (snoc m ms)
  obtain n b l1 where m: "m = (n, b, l1)" by (cases m) auto
  obtain q out where r: "key_run ms = (q, out)" by fastforce
  from snoc key_run_open [of ms l] show ?case
    by (auto simp: m r key_run_snoc key_step_def key_mark_def in_order_snoc2 split: list.splits)
qed simp

lemma key_ranges_sound:
  "(s, e) \<in> set (key_ranges lines) \<Longrightarrow>
     \<exists>l. in_order [key_mark_at True l s, key_mark_at False l e] (marks lines)"
  using key_run_sound [of "marks lines"] by (auto simp: key_ranges_run)

lemma in_order_weaken:
  "in_order ps xs \<Longrightarrow> list_all2 (\<lambda>p q. \<forall>x. p x \<longrightarrow> q x) ps qs \<Longrightarrow> in_order qs xs"
proof (induction ps xs arbitrary: qs rule: in_order.induct)
  case (3 p ps x xs)
  then obtain q qs' where "qs = q # qs'" "\<forall>x. p x \<longrightarrow> q x" "list_all2 (\<lambda>p q. \<forall>x. p x \<longrightarrow> q x) ps qs'"
    by (auto simp: list_all2_Cons1)
  with 3 show ?case by (auto split: if_splits dest: in_order_mono)
qed auto

lemma key_ranges_nonempty:
  "key_ranges lines \<noteq> [] \<longleftrightarrow> (\<exists>l. in_order [key_mark True l, key_mark False l] (marks lines))"
proof
  assume "key_ranges lines \<noteq> []"
  then obtain s e where "(s, e) \<in> set (key_ranges lines)"
    by (metis list.set_intros(1) neq_Nil_conv surj_pair)
  then obtain l where "in_order [key_mark_at True l s, key_mark_at False l e] (marks lines)"
    using key_ranges_sound by blast
  then have "in_order [key_mark True l, key_mark False l] (marks lines)"
    by (rule in_order_weaken) (simp add: key_mark_def key_mark_at_def)
  then show "\<exists>l. in_order [key_mark True l, key_mark False l] (marks lines)" by blast
qed (auto simp: key_ranges_run dest: key_run_complete)

lemma marks_fst: "m \<in> set (marks lines) \<Longrightarrow> fst m \<in> fst ` set lines"
  by (force simp: marks_def)

lemma sorted_marks: "sorted (map fst lines) \<Longrightarrow> sorted (map fst (marks lines))"
proof (induction lines)
  case (Cons line lines)
  have "marks (line # lines) = map (Pair (fst line)) (marker_scan (snd line)) @ marks lines"
    by (simp add: marks_def split: prod.split)
  with Cons show ?case
    by (auto simp: sorted_append comp_def dest!: marks_fst)
qed (simp add: marks_def)

lemma in_order_sorted:
  assumes "in_order [p, q] xs" "sorted (map f xs)" "\<And>x. p x \<Longrightarrow> f x = a" "\<And>x. q x \<Longrightarrow> f x = (b :: int)"
  shows "a \<le> b"
  using assms(1,2)
  by (induction xs) (use assms(3,4) in \<open>auto split: if_splits\<close>)

lemma in_order_first: "in_order (p # ps) xs \<Longrightarrow> \<exists>x \<in> set xs. p x"
  by (induction xs) (auto split: if_splits)

lemma key_ranges_ordered:
  assumes "sorted (map fst lines)" "(s, e) \<in> set (key_ranges lines)"
  shows "s \<le> e \<and> s \<in> fst ` set lines \<and> e \<in> fst ` set lines"
proof -
  obtain l where l: "in_order [key_mark_at True l s, key_mark_at False l e] (marks lines)"
    using key_ranges_sound [OF assms(2)] by blast
  have "s \<le> e"
    using in_order_sorted [OF l sorted_marks [OF assms(1)]] by (simp add: key_mark_at_def)
  moreover have "(e, False, l) \<in> set (marks lines)"
    using in_order_mono [OF l] by (auto simp: key_mark_at_def)
  moreover have "(s, True, l) \<in> set (marks lines)"
    using in_order_first [OF l] by (auto simp: key_mark_at_def)
  ultimately show ?thesis using marks_fst by fastforce
qed

section \<open>Conflict blocks\<close>

datatype conflict_kind = Start | Separator | End

definition conflict_mark :: "pystr \<Rightarrow> (conflict_kind \<times> nat) option" where
  "conflict_mark s =
     (case conflict_start s of Some k \<Rightarrow> Some (Start, k)
      | None \<Rightarrow> (case conflict_separator s of Some k \<Rightarrow> Some (Separator, k)
      | None \<Rightarrow> (case conflict_end s of Some k \<Rightarrow> Some (End, k) | None \<Rightarrow> None)))"

text \<open>A line that carries the marker, and such a line with a given number.\<close>

definition is_mark :: "conflict_kind \<Rightarrow> nat \<Rightarrow> int \<times> pystr \<Rightarrow> bool" where
  "is_mark m k line \<longleftrightarrow> conflict_mark (snd line) = Some (m, k)"

definition is_mark_at :: "conflict_kind \<Rightarrow> nat \<Rightarrow> int \<Rightarrow> int \<times> pystr \<Rightarrow> bool" where
  "is_mark_at m k n line \<longleftrightarrow> fst line = n \<and> conflict_mark (snd line) = Some (m, k)"

lemma conflict_line_mark:
  "conflict_line st (n, s) =
     (case conflict_mark s of
        None \<Rightarrow> st
      | Some (Start, k) \<Rightarrow> st\<lparr>cs_starts := (cs_starts st)(k := cs_starts st k @ [n])\<rparr>
      | Some (Separator, k) \<Rightarrow>
          (case cs_starts st k of [] \<Rightarrow> st
           | a # rest \<Rightarrow> st\<lparr>cs_starts := (cs_starts st)(k := rest), cs_blocks := (cs_blocks st)(k := cs_blocks st k @ [a])\<rparr>)
      | Some (End, k) \<Rightarrow>
          (case cs_blocks st k of [] \<Rightarrow> st
           | a # rest \<Rightarrow> st\<lparr>cs_blocks := (cs_blocks st)(k := rest), cs_out := cs_out st @ [(a, n)]\<rparr>))"
  by (simp add: conflict_line_def conflict_mark_def Let_def split: option.split)

definition conflict_run :: "(int \<times> pystr) list \<Rightarrow> conflict_state" where
  "conflict_run lines = foldl conflict_line \<lparr>cs_starts = \<lambda>_. [], cs_blocks = \<lambda>_. [], cs_out = []\<rparr> lines"

lemma conflict_run_Nil [simp]:
  "cs_starts (conflict_run []) k = []" "cs_blocks (conflict_run []) k = []" "cs_out (conflict_run []) = []"
  by (simp_all add: conflict_run_def)

lemma conflict_run_snoc: "conflict_run (ls @ [l]) = conflict_line (conflict_run ls) l"
  by (simp add: conflict_run_def)

lemma conflict_ranges_run: "conflict_ranges lines = cs_out (conflict_run lines)"
  by (simp add: conflict_ranges_def conflict_run_def)

definition conflict_inv :: "(int \<times> pystr) list \<Rightarrow> conflict_state \<Rightarrow> bool" where
  "conflict_inv ls st \<longleftrightarrow>
     (\<forall>k. \<forall>a \<in> set (cs_starts st k). in_order [is_mark_at Start k a] ls) \<and>
     (\<forall>k. \<forall>a \<in> set (cs_blocks st k). in_order [is_mark_at Start k a, is_mark Separator k] ls) \<and>
     (\<forall>(a, z) \<in> set (cs_out st).
        \<exists>k. in_order [is_mark_at Start k a, is_mark Separator k, is_mark_at End k z] ls)"

lemma conflict_inv_extend: "conflict_inv ls st \<Longrightarrow> conflict_inv (ls @ [l]) st"
  unfolding conflict_inv_def by (blast intro: in_order_append)

lemma conflict_step_inv:
  assumes "conflict_inv ls st"
  shows "conflict_inv (ls @ [(n, s)]) (conflict_line st (n, s))"
proof -
  note ext = conflict_inv_extend [OF assms, of "(n, s)"]
  show ?thesis
  proof (cases "conflict_mark s")
    case None
    with ext show ?thesis by (simp add: conflict_line_mark)
  next
    case (Some m)
    obtain c k where m: "conflict_mark s = Some (c, k)" using Some by (cases m) auto
    show ?thesis
    proof (cases c)
      case Start
      then have "in_order [is_mark_at Start k n] (ls @ [(n, s)])"
        using m by (simp add: is_mark_at_def)
      with ext Start show ?thesis by (auto simp: conflict_line_mark m conflict_inv_def)
    next
      case Separator
      show ?thesis
      proof (cases "cs_starts st k")
        case (Cons a rest)
        then have "in_order [is_mark_at Start k a] ls" using assms by (simp add: conflict_inv_def)
        then have "in_order [is_mark_at Start k a, is_mark Separator k] (ls @ [(n, s)])"
          unfolding in_order_snoc2 using m Separator by (simp add: is_mark_def)
        with ext Separator Cons show ?thesis by (auto simp: conflict_line_mark m conflict_inv_def)
      qed (use ext Separator m in \<open>simp add: conflict_line_mark\<close>)
    next
      case End
      show ?thesis
      proof (cases "cs_blocks st k")
        case (Cons a rest)
        then have "in_order [is_mark_at Start k a, is_mark Separator k] ls"
          using assms by (simp add: conflict_inv_def)
        then have "in_order [is_mark_at Start k a, is_mark Separator k, is_mark_at End k n] (ls @ [(n, s)])"
          unfolding in_order_snoc3 using m End by (simp add: is_mark_at_def)
        with ext End Cons show ?thesis by (auto simp: conflict_line_mark m conflict_inv_def)
      qed (use ext End m in \<open>simp add: conflict_line_mark\<close>)
    qed
  qed
qed

lemma conflict_run_inv: "conflict_inv ls (conflict_run ls)"
proof (induction ls rule: rev_induct)
  case Nil
  show ?case by (simp add: conflict_inv_def)
next
  case (snoc l ls)
  then show ?case by (cases l) (simp add: conflict_run_snoc conflict_step_inv)
qed

lemma conflict_out_mono: "cs_out (conflict_line st l) = [] \<Longrightarrow> cs_out st = []"
  by (cases l) (auto simp: conflict_line_mark split: option.splits prod.splits conflict_kind.splits list.splits)

lemma conflict_run_open:
  "cs_out (conflict_run ls) = [] \<Longrightarrow>
     (in_order [is_mark Start k] ls \<longrightarrow> cs_starts (conflict_run ls) k \<noteq> [] \<or> cs_blocks (conflict_run ls) k \<noteq> []) \<and>
     (in_order [is_mark Start k, is_mark Separator k] ls \<longrightarrow> cs_blocks (conflict_run ls) k \<noteq> [])"
proof (induction ls rule: rev_induct)
  case (snoc l ls)
  obtain n s where l: "l = (n, s)" by (cases l)
  from snoc.prems have "cs_out (conflict_run ls) = []"
    by (auto simp: conflict_run_snoc dest: conflict_out_mono)
  note IH = snoc.IH [OF this]
  from snoc.prems IH show ?case
    by (auto simp: l conflict_run_snoc conflict_line_mark in_order_snoc2 is_mark_def
        split: option.splits prod.splits conflict_kind.splits list.splits if_splits)
qed simp

lemma conflict_run_complete:
  "in_order [is_mark Start k, is_mark Separator k, is_mark End k] ls \<Longrightarrow> cs_out (conflict_run ls) \<noteq> []"
proof (induction ls rule: rev_induct)
  case (snoc l ls)
  obtain n s where l: "l = (n, s)" by (cases l)
  show ?case
  proof
    assume none: "cs_out (conflict_run (ls @ [l])) = []"
    then have "cs_out (conflict_run ls) = []"
      by (auto simp: conflict_run_snoc dest: conflict_out_mono)
    with snoc have "in_order [is_mark Start k, is_mark Separator k] ls" "is_mark End k l"
      unfolding in_order_snoc3 by auto
    moreover from this have "cs_blocks (conflict_run ls) k \<noteq> []"
      using conflict_run_open \<open>cs_out (conflict_run ls) = []\<close> by blast
    ultimately show False using none
      by (auto simp: l conflict_run_snoc conflict_line_mark is_mark_def split: list.splits)
  qed
qed simp

lemma conflict_ranges_sound:
  "(a, z) \<in> set (conflict_ranges lines) \<Longrightarrow>
     \<exists>k. in_order [is_mark_at Start k a, is_mark Separator k, is_mark_at End k z] lines"
  using conflict_run_inv [of lines] by (auto simp: conflict_ranges_run conflict_inv_def)

lemma conflict_ranges_nonempty:
  "conflict_ranges lines \<noteq> [] \<longleftrightarrow>
     (\<exists>k. in_order [is_mark Start k, is_mark Separator k, is_mark End k] lines)"
proof
  assume "conflict_ranges lines \<noteq> []"
  then obtain a z where "(a, z) \<in> set (conflict_ranges lines)"
    by (metis list.set_intros(1) neq_Nil_conv surj_pair)
  then obtain k where "in_order [is_mark_at Start k a, is_mark Separator k, is_mark_at End k z] lines"
    using conflict_ranges_sound by blast
  then have "in_order [is_mark Start k, is_mark Separator k, is_mark End k] lines"
    by (rule in_order_weaken) (simp add: is_mark_def is_mark_at_def)
  then show "\<exists>k. in_order [is_mark Start k, is_mark Separator k, is_mark End k] lines" by blast
qed (auto simp: conflict_ranges_run dest: conflict_run_complete)

lemma in_order_skip: "in_order [p, q, r] xs \<Longrightarrow> in_order [p, r] xs"
  by (induction xs) (auto split: if_splits dest: in_order_mono)

lemma conflict_ranges_ordered:
  assumes "sorted (map fst lines)" "(a, z) \<in> set (conflict_ranges lines)"
  shows "a \<le> z \<and> a \<in> fst ` set lines \<and> z \<in> fst ` set lines"
proof -
  obtain k where k: "in_order [is_mark_at Start k a, is_mark Separator k, is_mark_at End k z] lines"
    using conflict_ranges_sound [OF assms(2)] by blast
  have "a \<le> z"
    using in_order_sorted [OF in_order_skip [OF k] assms(1)] by (simp add: is_mark_at_def)
  moreover have "\<exists>x \<in> set lines. is_mark_at End k z x"
    using in_order_mono [OF in_order_mono [OF k]] by simp
  ultimately show ?thesis using in_order_first [OF k] by (force simp: is_mark_at_def)
qed

end
