(* ===== verification/Json_Scan.thy ===== *)
theory Json_Scan
  imports Canonical
begin

text \<open>
  The strict parser \<open>parse_canonical_json\<close> of \<open>src/repoguard/_canonical.py\<close>, over a model of the
  scanner of \<open>json.loads\<close>. The scanner takes fuel, one unit per nested call; the length of the text
  is enough, since every call consumes a character. \<open>float\<close> is the parameter \<open>pf\<close>: it reads the text
  of a number with a fraction or an exponent. The RecursionError the interpreter raises when arrays and
  objects nest too deep for its stack is not modelled.
\<close>

section \<open>Scanner\<close>

definition skip_ws :: "pystr \<Rightarrow> pystr" where
  "skip_ws s = dropWhile (\<lambda>c. c = 32 \<or> c = 9 \<or> c = 10 \<or> c = 13) s"

definition hex_value :: "nat \<Rightarrow> nat option" where
  "hex_value c =
     (if 48 \<le> c \<and> c \<le> 57 then Some (c - 48)
      else if 97 \<le> c \<and> c \<le> 102 then Some (c - 87)
      else if 65 \<le> c \<and> c \<le> 70 then Some (c - 55)
      else None)"

definition hex4 :: "nat \<Rightarrow> nat \<Rightarrow> nat \<Rightarrow> nat \<Rightarrow> nat option" where
  "hex4 a b c d =
     (case (hex_value a, hex_value b, hex_value c, hex_value d) of
        (Some w, Some x, Some y, Some z) \<Rightarrow> Some (((w * 16 + x) * 16 + y) * 16 + z)
      | _ \<Rightarrow> None)"

definition short_escape :: "nat \<Rightarrow> nat option" where
  "short_escape e =
     (if e = 34 \<or> e = 92 \<or> e = 47 then Some e
      else if e = 98 then Some 8 else if e = 102 then Some 12
      else if e = 110 then Some 10 else if e = 114 then Some 13
      else if e = 116 then Some 9 else None)"

text \<open>One escape after its backslash: the character and what follows. A high surrogate followed by
  the escape of a low one is read as one character.\<close>

definition scan_escape :: "pystr \<Rightarrow> (nat \<times> pystr) option" where
  "scan_escape s =
     (case s of
        [] \<Rightarrow> None
      | e # r \<Rightarrow>
          if e \<noteq> 117 then (case short_escape e of None \<Rightarrow> None | Some c \<Rightarrow> Some (c, r))
          else (case r of
              a # b # c # d # r1 \<Rightarrow>
                (case hex4 a b c d of
                   None \<Rightarrow> None
                 | Some u \<Rightarrow>
                     if 55296 \<le> u \<and> u \<le> 56319
                     then (case r1 of
                         q # v # a' # b' # c' # d' # r2 \<Rightarrow>
                           if q = 92 \<and> v = 117 then
                             (case hex4 a' b' c' d' of
                                None \<Rightarrow> None
                              | Some w \<Rightarrow>
                                  if 56320 \<le> w \<and> w \<le> 57343
                                  then Some (65536 + ((u - 55296) * 1024 + (w - 56320)), r2)
                                  else Some (u, r1))
                           else Some (u, r1)
                       | q # v # _ \<Rightarrow> if q = 92 \<and> v = 117 then None else Some (u, r1)
                       | _ \<Rightarrow> Some (u, r1))
                     else Some (u, r1))
            | _ \<Rightarrow> None))"

lemma scan_escape_length: "scan_escape s = Some (c, r) \<Longrightarrow> length r < length s"
  by (auto simp: scan_escape_def split: list.splits if_splits option.splits)

text \<open>A string after its opening quote; a raw control character ends it with an error.\<close>

function scan_string :: "pystr \<Rightarrow> (pystr \<times> pystr) option" where
  "scan_string s =
     (case s of
        [] \<Rightarrow> None
      | c # r \<Rightarrow>
          if c = 34 then Some ([], r)
          else if c = 92 then
            (case scan_escape r of
               None \<Rightarrow> None
             | Some (e, r1) \<Rightarrow> map_option (\<lambda>(t, r2). (e # t, r2)) (scan_string r1))
          else if c < 32 then None
          else map_option (\<lambda>(t, r2). (c # t, r2)) (scan_string r))"
  by pat_completeness auto
termination
  by (relation "measure length") (auto dest: scan_escape_length)

declare scan_string.simps [simp del]

definition digits_value :: "pystr \<Rightarrow> nat" where
  "digits_value ds = foldl (\<lambda>a c. 10 * a + (c - 48)) 0 ds"

text \<open>The fraction and the exponent at the front of a text, empty where there is none.\<close>

definition scan_fraction :: "pystr \<Rightarrow> pystr" where
  "scan_fraction s =
     (case s of c # d # r \<Rightarrow> if c = 46 \<and> is_digit d then c # takeWhile is_digit (d # r) else [] | _ \<Rightarrow> [])"

definition scan_exponent :: "pystr \<Rightarrow> pystr" where
  "scan_exponent s =
     (case s of
        c # d # r \<Rightarrow>
          if c = 101 \<or> c = 69 then
            (if is_digit d then c # takeWhile is_digit (d # r)
             else if (d = 43 \<or> d = 45) \<and> takeWhile is_digit r \<noteq> [] then c # d # takeWhile is_digit r
             else [])
          else []
      | _ \<Rightarrow> [])"

text \<open>The interpreter refuses to convert an integer of more than 4300 digits: a plain ValueError.\<close>

definition scan_number :: "(pystr \<Rightarrow> pyfloat) \<Rightarrow> pystr \<Rightarrow> canonical_error + json \<times> pystr" where
  "scan_number pf s =
     (let (sign, r) = (if take 1 s = [45] then ([45], drop 1 s) else ([], s));
          ip = (if take 1 r = [48] then [48] else takeWhile is_digit r);
          r1 = drop (length ip) r;
          fr = scan_fraction r1;
          r2 = drop (length fr) r1;
          ex = scan_exponent r2;
          r3 = drop (length ex) r2
      in if ip = [] then Inl BytesInvalid
         else if fr = [] \<and> ex = [] then
           (if 4300 < length ip then Inl DigitsExceeded
            else Inr (JInt (if sign = [] then int (digits_value ip) else - int (digits_value ip)), r3))
         else Inr (JFloat (pf (sign @ ip @ fr @ ex)), r3))"

definition scan_atom :: "(pystr \<Rightarrow> pyfloat) \<Rightarrow> pystr \<Rightarrow> canonical_error + json \<times> pystr" where
  "scan_atom pf s =
     (if starts_with (lit ''null'') s then Inr (JNull, drop 4 s)
      else if starts_with (lit ''true'') s then Inr (JBool True, drop 4 s)
      else if starts_with (lit ''false'') s then Inr (JBool False, drop 5 s)
      else if starts_with (lit ''NaN'') s \<or> starts_with (lit ''Infinity'') s \<or> starts_with (lit ''-Infinity'') s
      then Inl NumberInvalid
      else scan_number pf s)"

fun scan_value :: "(pystr \<Rightarrow> pyfloat) \<Rightarrow> nat \<Rightarrow> pystr \<Rightarrow> canonical_error + json \<times> pystr"
  and scan_members :: "(pystr \<Rightarrow> pyfloat) \<Rightarrow> nat \<Rightarrow> (pystr \<times> json) list \<Rightarrow> pystr \<Rightarrow> canonical_error + json \<times> pystr"
  and scan_items :: "(pystr \<Rightarrow> pyfloat) \<Rightarrow> nat \<Rightarrow> json list \<Rightarrow> pystr \<Rightarrow> canonical_error + json \<times> pystr" where
  "scan_value pf 0 s = Inl BytesInvalid"
| "scan_value pf (Suc n) s =
     (case s of
        [] \<Rightarrow> Inl BytesInvalid
      | c # r \<Rightarrow>
          if c = 34 then
            (case scan_string r of None \<Rightarrow> Inl BytesInvalid | Some (t, r1) \<Rightarrow> Inr (JStr t, r1))
          else if c = 123 then
            (case skip_ws r of
               [] \<Rightarrow> Inl BytesInvalid
             | q # r1 \<Rightarrow> if q = 125 then Inr (JObj [], r1) else scan_members pf n [] (q # r1))
          else if c = 91 then
            (case skip_ws r of
               [] \<Rightarrow> Inl BytesInvalid
             | q # r1 \<Rightarrow> if q = 93 then Inr (JList [], r1) else scan_items pf n [] (q # r1))
          else scan_atom pf s)"
| "scan_members pf 0 acc s = Inl BytesInvalid"
| "scan_members pf (Suc n) acc s =
     (case s of
        [] \<Rightarrow> Inl BytesInvalid
      | q # r \<Rightarrow>
          if q \<noteq> 34 then Inl BytesInvalid
          else (case scan_string r of
              None \<Rightarrow> Inl BytesInvalid
            | Some (k, r1) \<Rightarrow>
                (case skip_ws r1 of
                   [] \<Rightarrow> Inl BytesInvalid
                 | c # r2 \<Rightarrow>
                     if c \<noteq> 58 then Inl BytesInvalid
                     else and_then (scan_value pf n (skip_ws r2)) (\<lambda>(v, r3).
                       case skip_ws r3 of
                         [] \<Rightarrow> Inl BytesInvalid
                       | d # r4 \<Rightarrow>
                           if d = 44 then scan_members pf n (acc @ [(k, v)]) (skip_ws r4)
                           else if d = 125 then
                             (if distinct (map fst (acc @ [(k, v)])) then Inr (JObj (acc @ [(k, v)]), r4)
                              else Inl DuplicateKeys)
                           else Inl BytesInvalid))))"
| "scan_items pf 0 acc s = Inl BytesInvalid"
| "scan_items pf (Suc n) acc s =
     and_then (scan_value pf n s) (\<lambda>(v, r).
       case skip_ws r of
         [] \<Rightarrow> Inl BytesInvalid
       | d # r1 \<Rightarrow>
           if d = 44 then scan_items pf n (acc @ [v]) (skip_ws r1)
           else if d = 93 then Inr (JList (acc @ [v]), r1)
           else Inl BytesInvalid)"

definition json_loads :: "(pystr \<Rightarrow> pyfloat) \<Rightarrow> pystr \<Rightarrow> canonical_error + json" where
  "json_loads pf s =
     and_then (scan_value pf (Suc (length s)) (skip_ws s)) (\<lambda>(v, r).
       if skip_ws r = [] then Inr v else Inl BytesInvalid)"

definition parse_canonical_json ::
  "(pystr \<Rightarrow> pyfloat) \<Rightarrow> nat \<Rightarrow> int \<Rightarrow> bytes \<Rightarrow> canonical_error + json" where
  "parse_canonical_json pf max_bytes max_depth raw =
     and_then (require (raw \<noteq> [] \<and> length raw \<le> max_bytes) BytesInvalid) (\<lambda>_.
     and_then (require (\<not> starts_with [239, 187, 191] raw) BytesInvalid) (\<lambda>_.
     case utf8_decode raw of
       None \<Rightarrow> Inl BytesInvalid
     | Some text \<Rightarrow>
         and_then (json_loads pf text) (\<lambda>v.
         and_then (validate_json_value max_depth 0 v) (\<lambda>_.
         and_then (canonical_json_bytes max_depth v) (\<lambda>b.
           if b = raw then Inr v else Inl NotCanonical)))))"

end
