(* ===== verification/Canonical_Facts.thy ===== *)
theory Canonical_Facts
  imports Json_Scan
begin

text \<open>
  The properties of the canonical JSON of \<open>_canonical.py\<close>: which values have a text, that the strict
  parser reads back what the printer writes, that it accepts no other spelling, and what a
  domain-separated digest binds.
\<close>

section \<open>The functions on lists as list functions\<close>

lemma json_lists [simp]:
  "json_list_plain xs = list_all json_plain xs"
  "json_items_plain kvs = list_all (\<lambda>kv. utf8_ok (fst kv) \<and> json_plain (snd kv)) kvs"
  "json_list_digits_ok xs = list_all json_digits_ok xs"
  "json_items_digits_ok kvs = list_all (\<lambda>kv. json_digits_ok (snd kv)) kvs"
  "json_list_texts xs = map json_text xs"
  "json_item_texts kvs = map (apsnd json_text) kvs"
  by (induction xs; simp; fail | induction kvs; simp add: apsnd_def map_prod_def split: prod.split; fail)+

text \<open>A value as Python has it: no dict has a key twice, and the text of every finite float satisfies
  \<open>F\<close>. The texts \<open>repr\<close> gives are JSON numbers with a fraction or an exponent (\<open>is_float_text\<close>), and
  \<open>float\<close> reads them back as the same float (\<open>reads_float\<close>), as its documentation says. The records of a
  session hold no float at all (\<open>json_dicts\<close>).\<close>

fun json_value :: "(pystr \<Rightarrow> bool) \<Rightarrow> json \<Rightarrow> bool"
  and json_list_value :: "(pystr \<Rightarrow> bool) \<Rightarrow> json list \<Rightarrow> bool"
  and json_items_value :: "(pystr \<Rightarrow> bool) \<Rightarrow> (pystr \<times> json) list \<Rightarrow> bool" where
  "json_value F v =
     (case v of JList xs \<Rightarrow> json_list_value F xs
      | JObj kvs \<Rightarrow> distinct (map fst kvs) \<and> json_items_value F kvs
      | JFloat (FFinite r) \<Rightarrow> F r | JFloat FNonFinite \<Rightarrow> True | _ \<Rightarrow> True)"
| "json_list_value F [] = True"
| "json_list_value F (x # xs) \<longleftrightarrow> json_value F x \<and> json_list_value F xs"
| "json_items_value F [] = True"
| "json_items_value F (kv # kvs) \<longleftrightarrow> json_value F (snd kv) \<and> json_items_value F kvs"

declare json_value.simps [simp del]

definition is_float_text :: "pystr \<Rightarrow> bool" where
  "is_float_text r \<longleftrightarrow> scan_number FFinite r = Inr (JFloat (FFinite r), [])"

definition reads_float :: "(pystr \<Rightarrow> pyfloat) \<Rightarrow> pystr \<Rightarrow> bool" where
  "reads_float pf r \<longleftrightarrow> is_float_text r \<and> pf r = FFinite r"

abbreviation json_dicts :: "json \<Rightarrow> bool" where
  "json_dicts \<equiv> json_value (\<lambda>_. False)"

text \<open>The value with the items of every object in the order of their keys.\<close>

fun json_norm :: "json \<Rightarrow> json"
  and json_list_norm :: "json list \<Rightarrow> json list"
  and json_items_norm :: "(pystr \<times> json) list \<Rightarrow> (pystr \<times> json) list" where
  "json_norm v =
     (case v of JList xs \<Rightarrow> JList (json_list_norm xs)
      | JObj kvs \<Rightarrow> JObj (sort_key fst (json_items_norm kvs)) | _ \<Rightarrow> v)"
| "json_list_norm [] = []"
| "json_list_norm (x # xs) = json_norm x # json_list_norm xs"
| "json_items_norm [] = []"
| "json_items_norm (kv # kvs) = (fst kv, json_norm (snd kv)) # json_items_norm kvs"

declare json_norm.simps [simp del]

lemma json_lists2 [simp]:
  "json_list_value F xs = list_all (json_value F) xs"
  "json_items_value F kvs = list_all (\<lambda>kv. json_value F (snd kv)) kvs"
  "json_list_norm xs = map json_norm xs"
  "json_items_norm kvs = map (apsnd json_norm) kvs"
  by (induction xs; simp; fail | induction kvs; simp add: apsnd_def map_prod_def split: prod.split; fail)+

lemma json_cases [simp]:
  "json_text JNull = lit ''null''" "json_text (JBool c) = (if c then lit ''true'' else lit ''false'')"
  "json_text (JInt i) = int_text i" "json_text (JStr s) = quoted s"
  "json_text (JList xs) = 91 # join_on 44 (map json_text xs) @ [93]"
  "json_norm JNull = JNull" "json_norm (JBool c) = JBool c" "json_norm (JInt i) = JInt i"
  "json_norm (JStr s) = JStr s" "json_norm (JList xs) = JList (map json_norm xs)"
  "json_norm (JObj kvs) = JObj (sort_key fst (map (apsnd json_norm) kvs))"
  "json_text (JFloat (FFinite r)) = r" "json_norm (JFloat f) = JFloat f"
  "json_value F (JList xs) = list_all (json_value F) xs" "json_value F (JFloat (FFinite r)) = F r"
  "json_value F (JObj kvs) \<longleftrightarrow> distinct (map fst kvs) \<and> list_all (\<lambda>kv. json_value F (snd kv)) kvs"
  "json_plain (JList xs) = list_all json_plain xs" "json_plain (JStr s) = utf8_ok s" "\<not> json_plain JOther"
  "json_plain (JFloat f) \<longleftrightarrow> f \<noteq> FNonFinite" "json_plain JNull" "json_plain (JBool c)" "json_plain (JInt i)"
  "json_plain (JObj kvs) = list_all (\<lambda>kv. utf8_ok (fst kv) \<and> json_plain (snd kv)) kvs"
  "json_digits_ok (JList xs) = list_all json_digits_ok xs"
  "json_digits_ok (JInt i) \<longleftrightarrow> length (nat_text (nat \<bar>i\<bar>)) \<le> 4300"
  "json_digits_ok (JObj kvs) = list_all (\<lambda>kv. json_digits_ok (snd kv)) kvs"
  by (simp_all add: json_text.simps json_norm.simps json_value.simps json_plain.simps json_digits_ok.simps)

lemma insort_key_map: "insort_key f (g x) (map g xs) = map g (insort_key (\<lambda>y. f (g y)) x xs)"
  by (induction xs) simp_all

lemma sort_key_map: "sort_key f (map g xs) = map g (sort_key (\<lambda>y. f (g y)) xs)"
  by (induction xs) (simp_all add: insort_key_map)

lemma json_text_obj [simp]:
  "json_text (JObj kvs) =
     123 # join_on 44 (map (\<lambda>kv. quoted (fst kv) @ 58 # json_text (snd kv)) (sort_key fst kvs)) @ [125]"
  by (simp add: json_text.simps sort_key_map comp_def case_prod_unfold)

lemma json_text_norm: "json_text (json_norm v) = json_text v"
proof (induction v)
  case (JObj kvs)
  have IH: "json_text (json_norm (snd kv)) = json_text (snd kv)" if "kv \<in> set kvs" for kv
    using JObj [of kv "snd kv"] that by (cases kv) (simp add: snds.simps)
  have "map (\<lambda>kv. quoted (fst kv) @ 58 # json_text (json_norm (snd kv))) (sort_key fst kvs) =
      map (\<lambda>kv. quoted (fst kv) @ 58 # json_text (snd kv)) (sort_key fst kvs)"
    by (rule map_cong [OF refl]) (simp add: IH)
  then have "join_on 44 (map (\<lambda>kv. quoted (fst kv) @ 58 # json_text (json_norm (snd kv))) (sort_key fst kvs)) =
      join_on 44 (map (\<lambda>kv. quoted (fst kv) @ 58 # json_text (snd kv)) (sort_key fst kvs))"
    by (rule arg_cong)
  then show ?case
    by (simp add: comp_def sort_key_map sort_key_id_if_sorted)
qed (simp_all add: json_norm.simps comp_def cong: map_cong)

section \<open>Validation\<close>

lemma json_depth_nonneg: "0 \<le> json_depth v" "0 \<le> json_list_depth xs" "0 \<le> json_items_depth kvs"
  by (induction v and xs and kvs rule: json_depth_json_list_depth_json_items_depth.induct)
    (simp_all add: json_depth.simps split: json.split)

lemma validate_json_value_Inr:
  "validate_json_value m d v = Inr () \<longleftrightarrow> 1 \<le> m \<and> d + json_depth v \<le> m \<and> json_plain v"
  "1 \<le> m \<and> d \<le> m + 1 \<Longrightarrow> validate_json_list m d xs = Inr () \<longleftrightarrow>
     d - 1 + json_list_depth xs \<le> m \<and> list_all json_plain xs"
  "1 \<le> m \<and> d \<le> m + 1 \<Longrightarrow> validate_json_items m d kvs = Inr () \<longleftrightarrow>
     d - 1 + json_items_depth kvs \<le> m \<and> list_all (\<lambda>kv. utf8_ok (fst kv) \<and> json_plain (snd kv)) kvs"
proof (induction m d v and m d xs and m d kvs
    rule: validate_json_value_validate_json_list_validate_json_items.induct)
  case (1 m d v)
  have "0 \<le> json_depth v" by (rule json_depth_nonneg)
  show ?case
  proof (cases "m < 1 \<or> d > m")
    case True
    then have "\<not> (1 \<le> m \<and> d + json_depth v \<le> m)" using \<open>0 \<le> json_depth v\<close> by linarith
    then show ?thesis using True by (auto simp: validate_json_value.simps)
  next
    case False
    with 1 show ?thesis
      by (cases v) (simp_all add: validate_json_value.simps json_depth.simps)
  qed
next
  case (3 m d x xs)
  have "0 \<le> json_depth x" "0 \<le> json_list_depth xs" by (rule json_depth_nonneg)+
  with 3 show ?case by (auto simp: and_then_eq_Inr)
next
  case (5 m d kv kvs)
  have "0 \<le> json_depth (snd kv)" "0 \<le> json_items_depth kvs" by (rule json_depth_nonneg)+
  with 5 show ?case by (auto simp: and_then_eq_Inr)
qed auto

section \<open>Numbers\<close>

lemma nat_text_digits: "list_all is_digit (nat_text n)"
proof (induction n rule: nat_text.induct)
  case (1 n)
  have "is_digit (48 + n mod 10)" "n < 10 \<Longrightarrow> is_digit (48 + n)" by (auto simp: is_digit_def)
  with 1 show ?case by (subst nat_text.simps) simp
qed

lemma nat_text_nonempty [simp]: "nat_text n \<noteq> []"
  by (subst nat_text.simps) simp

lemma digits_value_text: "digits_value (nat_text n) = n"
  by (induction n rule: nat_text.induct) (subst nat_text.simps, simp add: digits_value_def)

lemma nat_text_head: "n \<noteq> 0 \<Longrightarrow> hd (nat_text n) \<noteq> 48"
proof (induction n rule: nat_text.induct)
  case (1 n)
  then show ?case by (subst nat_text.simps) (cases "n < 10"; simp)
qed

lemma nat_text_zero [simp]: "nat_text 0 = [48]"
  by (simp add: nat_text.simps)

definition json_delim :: "pystr \<Rightarrow> bool" where
  "json_delim r \<longleftrightarrow> r = [] \<or> hd r = 44 \<or> hd r = 93 \<or> hd r = 125"

lemma takeWhile_digits:
  "json_delim r \<Longrightarrow> list_all is_digit ds \<Longrightarrow> takeWhile is_digit (ds @ r) = ds"
  by (induction ds) (cases r; auto simp: json_delim_def is_digit_def)+

lemma scan_tail_delim: "json_delim r \<Longrightarrow> scan_fraction r = []" "json_delim r \<Longrightarrow> scan_exponent r = []"
  by (auto simp: json_delim_def scan_fraction_def scan_exponent_def split: list.split)

lemma scan_nat:
  assumes "json_delim r" "length (nat_text n) \<le> 4300"
  shows "scan_number pf (nat_text n @ r) = Inr (JInt (int n), r)"
    and "scan_number pf (45 # nat_text n @ r) = Inr (JInt (- int n), r)"
proof -
  obtain d ds where n: "nat_text n = d # ds" by (cases "nat_text n") simp_all
  have d: "is_digit d" "d = 48 \<longleftrightarrow> n = 0"
    using nat_text_digits [of n] nat_text_head [of n] n by (simp, metis list.inject list.sel(1) n nat_text_zero)
  have ip: "(if d = 48 then [48] else takeWhile is_digit (d # ds @ r)) = nat_text n"
  proof (cases "n = 0")
    case True
    then show ?thesis using d by simp
  next
    case False
    then show ?thesis using d takeWhile_digits [OF assms(1) nat_text_digits [of n]] by (simp add: n)
  qed
  have "digits_value (d # ds) = n" using digits_value_text [of n] by (simp add: n)
  moreover have "d \<noteq> 45" using d(1) by (auto simp: is_digit_def)
  ultimately show "scan_number pf (nat_text n @ r) = Inr (JInt (int n), r)"
    "scan_number pf (45 # nat_text n @ r) = Inr (JInt (- int n), r)"
    using ip assms by (simp_all add: scan_number_def n scan_tail_delim)
qed

lemma scan_int:
  assumes "json_delim r" "length (nat_text (nat \<bar>i\<bar>)) \<le> 4300"
  shows "scan_value pf (Suc n) (int_text i @ r) = Inr (JInt i, r)"
proof -
  obtain d ds where t: "nat_text (nat \<bar>i\<bar>) = d # ds" by (cases "nat_text (nat \<bar>i\<bar>)") simp_all
  have "is_digit d" using nat_text_digits [of "nat \<bar>i\<bar>"] by (simp add: t)
  then have d: "48 \<le> d" "d \<le> 57" by (simp_all add: is_digit_def)
  note scan = scan_nat [OF assms(1,2), of pf, unfolded t append_Cons]
  show ?thesis
  proof (cases "i < 0")
    case True
    then have "int_text i = 45 # d # ds" using t by (simp add: int_text_def)
    then show ?thesis using scan(2) d True
      by (simp add: scan_atom_def starts_with_def lit_def)
  next
    case False
    then have "int_text i = d # ds" using t by (simp add: int_text_def)
    then show ?thesis using scan(1) d False
      by (simp add: scan_atom_def starts_with_def lit_def)
  qed
qed

text \<open>The text of a float keeps its parts before the end of a value.\<close>

lemma takeWhile_digits_delim: "json_delim s \<Longrightarrow> takeWhile is_digit (r @ s) = takeWhile is_digit r"
  by (induction r) (cases s; auto simp: json_delim_def is_digit_def)+

lemma json_delim_head: "json_delim (d # s) \<Longrightarrow> \<not> is_digit d \<and> d \<noteq> 43 \<and> d \<noteq> 45"
  by (auto simp: json_delim_def is_digit_def)

lemma scan_fraction_delim: "json_delim s \<Longrightarrow> scan_fraction (r @ s) = scan_fraction r"
proof (cases r)
  case Nil
  then show "json_delim s \<Longrightarrow> ?thesis" by (simp add: scan_tail_delim) (simp add: scan_fraction_def)
next
  case (Cons c t)
  assume "json_delim s"
  with Cons takeWhile_digits_delim [of s "tl t"] json_delim_head show ?thesis
    by (cases t; cases s) (auto simp: scan_fraction_def)
qed

lemma scan_exponent_delim: "json_delim s \<Longrightarrow> scan_exponent (r @ s) = scan_exponent r"
proof (cases r)
  case Nil
  then show "json_delim s \<Longrightarrow> ?thesis" by (simp add: scan_tail_delim) (simp add: scan_exponent_def)
next
  case (Cons c t)
  assume "json_delim s"
  with Cons takeWhile_digits_delim [of s "tl t"] takeWhile_digits_delim [of s "[]"] json_delim_head show ?thesis
    by (cases t; cases s) (auto simp: scan_exponent_def)
qed

lemma scan_part_length:
  "length (scan_fraction r) \<le> length r" "length (scan_exponent r) \<le> length r"
  "length (if take 1 r = [48] then [48] else takeWhile is_digit r) \<le> length r"
  by (cases r; auto simp: scan_fraction_def scan_exponent_def length_takeWhile_le le_SucI split: list.split)+

lemma scan_number_float:
  assumes "scan_number FFinite r = Inr (JFloat (FFinite r), [])"
  obtains sign t ip fr ex where "sign = (if take 1 r = [45] then [45] else [])"
    "t = (if take 1 r = [45] then drop 1 r else r)" "ip = (if take 1 t = [48] then [48] else takeWhile is_digit t)"
    "fr = scan_fraction (drop (length ip) t)" "ex = scan_exponent (drop (length fr) (drop (length ip) t))"
    "ip \<noteq> []" "\<not> (fr = [] \<and> ex = [])" "sign @ ip @ fr @ ex = r"
    "drop (length ex) (drop (length fr) (drop (length ip) t)) = []"
proof -
  define sign t :: pystr where st: "sign = (if take 1 r = [45] then [45] else [])" "t = (if take 1 r = [45] then drop 1 r else r)"
  define ip fr where fi: "ip = (if take 1 t = [48] then [48] else takeWhile is_digit t)" "fr = scan_fraction (drop (length ip) t)"
  define ex where ex: "ex = scan_exponent (drop (length fr) (drop (length ip) t))"
  have "(if take 1 r = [45] then ([45], drop 1 r) else ([], r)) = (sign, t)" by (simp add: st)
  then have "scan_number FFinite r =
      (if ip = [] then Inl BytesInvalid
       else if fr = [] \<and> ex = [] then
         (if 4300 < length ip then Inl DigitsExceeded
          else Inr (JInt (if sign = [] then int (digits_value ip) else - int (digits_value ip)),
            drop (length ex) (drop (length fr) (drop (length ip) t))))
       else Inr (JFloat (FFinite (sign @ ip @ fr @ ex)), drop (length ex) (drop (length fr) (drop (length ip) t))))"
    unfolding scan_number_def by (simp only: Let_def prod.case fi [symmetric] ex [symmetric])
  with assms have "ip \<noteq> []" "\<not> (fr = [] \<and> ex = [])" "sign @ ip @ fr @ ex = r"
    "drop (length ex) (drop (length fr) (drop (length ip) t)) = []"
    by (simp_all only: split: if_splits) simp_all
  with st fi ex that show thesis by blast
qed

lemma scan_number_delim:
  assumes "json_delim s" "scan_number FFinite r = Inr (JFloat (FFinite r), [])"
  shows "scan_number pf (r @ s) = Inr (JFloat (pf r), s)"
proof -
  from scan_number_float [OF assms(2)] obtain sign t ip fr ex where
    defs: "sign = (if take 1 r = [45] then [45] else [])" "t = (if take 1 r = [45] then drop 1 r else r)"
      "ip = (if take 1 t = [48] then [48] else takeWhile is_digit t)"
      "fr = scan_fraction (drop (length ip) t)" "ex = scan_exponent (drop (length fr) (drop (length ip) t))"
    and parts: "ip \<noteq> []" "\<not> (fr = [] \<and> ex = [])" "sign @ ip @ fr @ ex = r"
      "drop (length ex) (drop (length fr) (drop (length ip) t)) = []" .
  have "r \<noteq> []" using parts by auto
  have t: "t \<noteq> []" using parts(1) by (auto simp: defs(3))
  have "(if take 1 (r @ s) = [45] then ([45], drop 1 (r @ s)) else ([], r @ s)) = (sign, t @ s)"
    using \<open>r \<noteq> []\<close> by (cases r) (simp_all add: defs(1,2))
  moreover have "(if take 1 (t @ s) = [48] then [48] else takeWhile is_digit (t @ s)) = ip"
    using t takeWhile_digits_delim [OF assms(1)] by (cases t) (simp_all add: defs(3))
  moreover have "drop (length ip) (t @ s) = drop (length ip) t @ s"
    using scan_part_length(3) [of t] by (simp add: defs(3))
  moreover have "scan_fraction (drop (length ip) t @ s) = fr" using scan_fraction_delim [OF assms(1)] by (simp only: defs(4))
  moreover have "drop (length fr) (drop (length ip) t @ s) = drop (length fr) (drop (length ip) t) @ s"
    using scan_part_length(1) [of "drop (length ip) t"] by (simp only: defs(4) drop_append) simp
  moreover have "scan_exponent (drop (length fr) (drop (length ip) t) @ s) = ex"
    using scan_exponent_delim [OF assms(1)] by (simp only: defs(5))
  moreover have "drop (length ex) (drop (length fr) (drop (length ip) t) @ s) = s"
    using scan_part_length(2) [of "drop (length fr) (drop (length ip) t)"] parts(4) by (simp only: defs(5) drop_append) simp
  ultimately show ?thesis
    using parts(1-3) unfolding scan_number_def by (simp only: Let_def prod.case) simp
qed

lemma is_float_text_chars:
  assumes "is_float_text r"
  shows "list_all (\<lambda>c. c < 128) r" "\<exists>d t. is_digit d \<and> (r = d # t \<or> r = 45 # d # t)"
proof -
  from scan_number_float [OF assms [unfolded is_float_text_def]] obtain sign t ip fr ex where
    defs: "sign = (if take 1 r = [45] then [45] else [])"
      "ip = (if take 1 t = [48] then [48] else takeWhile is_digit t)"
      "fr = scan_fraction (drop (length ip) t)" "ex = scan_exponent (drop (length fr) (drop (length ip) t))"
    and parts: "ip \<noteq> []" "sign @ ip @ fr @ ex = r" .
  have digits: "list_all is_digit ip" by (auto simp: defs(2) is_digit_def list_all_iff dest: set_takeWhileD)
  then have "list_all (\<lambda>c. c < 128) ip" by (auto simp: list_all_iff is_digit_def)
  moreover have "list_all (\<lambda>c. c < 128) fr"
    by (auto simp: defs(3) scan_fraction_def list_all_iff is_digit_def dest: set_takeWhileD split: list.split)
  moreover have "list_all (\<lambda>c. c < 128) ex"
    by (auto simp: defs(4) scan_exponent_def list_all_iff is_digit_def dest: set_takeWhileD split: list.split)
  moreover have "list_all (\<lambda>c. c < 128) sign" by (simp add: defs(1))
  ultimately show "list_all (\<lambda>c. c < 128) r" using parts(2) by (metis list_all_append)
  show "\<exists>d t. is_digit d \<and> (r = d # t \<or> r = 45 # d # t)"
    using parts digits by (cases ip) (auto simp: defs(1) split: if_splits)
qed

lemma scan_float:
  assumes "json_delim s" "reads_float pf r"
  shows "scan_value pf (Suc n) (r @ s) = Inr (JFloat (FFinite r), s)"
proof -
  from assms(2) have r: "is_float_text r" "pf r = FFinite r" by (simp_all add: reads_float_def)
  from is_float_text_chars(2) [OF r(1)] obtain d t where d: "48 \<le> d" "d \<le> 57" "r = d # t \<or> r = 45 # d # t"
    by (auto simp: is_digit_def)
  have "scan_number pf (r @ s) = Inr (JFloat (FFinite r), s)"
    using scan_number_delim [OF assms(1)] r by (simp add: is_float_text_def)
  with d show ?thesis by (auto simp: scan_atom_def starts_with_def lit_def)
qed

section \<open>Strings\<close>

lemma hex_value_digit: "k < 16 \<Longrightarrow> hex_value (hex_digit k) = Some k"
  by (auto simp: hex_value_def hex_digit_def)

lemma hex4_low: "c < 32 \<Longrightarrow> hex4 48 48 (hex_digit (c div 16)) (hex_digit (c mod 16)) = Some c"
proof -
  assume "c < 32"
  then have "c div 16 < 16" "c mod 16 < 16" by simp_all
  moreover have "hex_value 48 = Some 0" by (simp add: hex_value_def)
  ultimately show ?thesis by (simp add: hex4_def hex_value_digit)
qed

lemma scan_escape_char:
  assumes "escape_char c \<noteq> [c]"
  shows "\<exists>e. escape_char c = 92 # e \<and> scan_escape (e @ r) = Some (c, r)"
  using assms by (auto simp: escape_char_def scan_escape_def short_escape_def hex4_low split: if_splits)

lemma scan_string_escape_char:
  "scan_string (escape_char c @ s) = map_option (\<lambda>(t, r). (c # t, r)) (scan_string s)"
proof (cases "escape_char c = [c]")
  case True
  then have "c \<noteq> 34" "c \<noteq> 92" "\<not> c < 32" by (auto simp: escape_char_def split: if_splits)
  then show ?thesis using True by (simp add: scan_string.simps [of "c # s"])
next
  case False
  then obtain e where "escape_char c = 92 # e" "scan_escape (e @ s) = Some (c, s)"
    using scan_escape_char [of c s] by blast
  then show ?thesis by (simp add: scan_string.simps [of "92 # e @ s"])
qed

lemma scan_quoted: "scan_string (concat (map escape_char s) @ 34 # r) = Some (s, r)"
  by (induction s) (simp_all add: scan_string_escape_char scan_string.simps [of "34 # r"])

lemma scan_string_quoted: "quoted s @ r = 34 # concat (map escape_char s) @ 34 # r"
  by (simp add: quoted_def)

section \<open>Lists and objects\<close>

text \<open>A text that starts with neither white space nor a closing bracket.\<close>

definition json_opens :: "pystr \<Rightarrow> bool" where
  "json_opens t \<longleftrightarrow> t \<noteq> [] \<and> hd t \<notin> {9, 10, 13, 32, 93, 125}"

lemma skip_ws_opens: "json_opens t \<Longrightarrow> skip_ws (t @ r) = t @ r"
  by (cases t) (simp_all add: json_opens_def skip_ws_def)

lemma skip_ws_mark [simp]: "c \<noteq> 32 \<Longrightarrow> c \<noteq> 9 \<Longrightarrow> c \<noteq> 10 \<Longrightarrow> c \<noteq> 13 \<Longrightarrow> skip_ws (c # s) = c # s"
  by (simp add: skip_ws_def)

lemma json_text_opens: "json_plain v \<Longrightarrow> json_value is_float_text v \<Longrightarrow> json_opens (json_text v)"
proof (cases v)
  case (JFloat f)
  assume "json_plain v" "json_value is_float_text v"
  then obtain r where "f = FFinite r" "is_float_text r" using JFloat by (cases f) simp_all
  with JFloat is_float_text_chars(2) [of r] show ?thesis by (auto simp: json_opens_def is_digit_def)
next
  case (JInt i)
  obtain d ds where t: "nat_text (nat \<bar>i\<bar>) = d # ds" by (cases "nat_text (nat \<bar>i\<bar>)") simp_all
  then have "is_digit d" using nat_text_digits [of "nat \<bar>i\<bar>"] by simp
  then show ?thesis using t JInt by (auto simp: int_text_def json_opens_def is_digit_def)
qed (auto simp: json_opens_def lit_def quoted_def)

definition scans :: "(pystr \<Rightarrow> pyfloat) \<Rightarrow> json \<Rightarrow> bool" where
  "scans pf v \<longleftrightarrow> json_opens (json_text v) \<and>
     (\<forall>n r. json_delim r \<longrightarrow> length (json_text v) \<le> n \<longrightarrow> scan_value pf n (json_text v @ r) = Inr (json_norm v, r))"

lemma scansD:
  "scans pf v \<Longrightarrow> json_delim r \<Longrightarrow> length (json_text v) \<le> n \<Longrightarrow> scan_value pf n (json_text v @ r) = Inr (json_norm v, r)"
  by (simp add: scans_def)

lemma scans_skip: "scans pf v \<Longrightarrow> skip_ws (json_text v @ r) = json_text v @ r"
  by (simp add: scans_def skip_ws_opens)

lemma json_delim_simps [simp]: "json_delim (44 # r)" "json_delim (93 # r)" "json_delim (125 # r)" "json_delim []"
  by (simp_all add: json_delim_def)

lemma join_on_Cons2: "ws \<noteq> [] \<Longrightarrow> join_on d (w # ws) = w @ d # join_on d ws"
  by (cases ws) simp_all

lemma scan_items_texts:
  assumes "xs \<noteq> []" "list_all (scans pf) xs" "length (join_on 44 (map json_text xs)) < n"
  shows "scan_items pf n acc (join_on 44 (map json_text xs) @ 93 # r) = Inr (JList (acc @ map json_norm xs), r)"
  using assms
proof (induction xs arbitrary: n acc)
  case (Cons x xs)
  then obtain k where n: "n = Suc k" by (cases n) auto
  show ?case
  proof (cases xs)
    case Nil
    with Cons.prems n show ?thesis by (simp add: scansD)
  next
    case (Cons y ys)
    then have xs: "xs \<noteq> []" by simp
    have len: "length (json_text x) \<le> k" "length (join_on 44 (map json_text xs)) < k"
      using Cons.prems(3) xs by (simp_all add: n join_on_Cons2)
    have "skip_ws (join_on 44 (map json_text xs) @ 93 # r) = join_on 44 (map json_text xs) @ 93 # r"
      using Cons.prems(2) Cons by (cases ys) (auto simp: scans_skip)
    with Cons.prems(2) xs len Cons.IH [OF xs _ len(2)] show ?thesis
      by (simp add: n join_on_Cons2 scansD)
  qed
qed simp

abbreviation item_text :: "pystr \<times> json \<Rightarrow> pystr" where
  "item_text kv \<equiv> quoted (fst kv) @ 58 # json_text (snd kv)"

lemma skip_ws_item: "kvs \<noteq> [] \<Longrightarrow> skip_ws (join_on 44 (map item_text kvs) @ r) = join_on 44 (map item_text kvs) @ r"
  by (cases kvs; cases "tl kvs"; simp add: quoted_def)

lemma item_head: "kvs \<noteq> [] \<Longrightarrow> \<exists>t. join_on 44 (map item_text kvs) @ r = 34 # t"
  by (cases kvs; cases "tl kvs"; simp add: quoted_def)

lemma scan_members_step:
  assumes "scans pf v" "length (json_text v) \<le> n"
  shows "scan_members pf (Suc n) acc (item_text (k, v) @ 125 # r) =
      (if distinct (map fst (acc @ [(k, json_norm v)])) then Inr (JObj (acc @ [(k, json_norm v)]), r) else Inl DuplicateKeys)"
    and "scan_members pf (Suc n) acc (item_text (k, v) @ 44 # r) =
      scan_members pf n (acc @ [(k, json_norm v)]) (skip_ws r)"
  using assms by (simp_all add: scan_string_quoted scan_quoted scansD scans_skip)

lemma scan_members_texts:
  assumes "kvs \<noteq> []" "list_all (\<lambda>kv. scans pf (snd kv)) kvs" "length (join_on 44 (map item_text kvs)) < n"
    and "distinct (map fst (acc @ kvs))"
  shows "scan_members pf n acc (join_on 44 (map item_text kvs) @ 125 # r) =
    Inr (JObj (acc @ map (apsnd json_norm) kvs), r)"
  using assms
proof (induction kvs arbitrary: n acc)
  case (Cons kv kvs)
  then obtain m where n: "n = Suc m" by (cases n) auto
  obtain k v where kv: "kv = (k, v)" by (cases kv)
  have v: "scans pf v" using Cons.prems(2) by (simp add: kv)
  show ?case
  proof (cases "kvs = []")
    case True
    with Cons.prems have "length (json_text v) \<le> m" by (simp add: n kv quoted_def)
    with scan_members_step(1) [OF v this, of acc k r] Cons.prems(4) True show ?thesis
      by (simp add: n kv)
  next
    case False
    have len: "length (json_text v) \<le> m" "length (join_on 44 (map item_text kvs)) < m"
      using Cons.prems(3) False by (simp_all add: n kv join_on_Cons2 quoted_def)
    have "distinct (map fst ((acc @ [(k, json_norm v)]) @ kvs))" using Cons.prems(4) by (simp add: kv)
    with Cons.IH [OF False _ len(2)] Cons.prems(2) False
      scan_members_step(2) [OF v len(1), of acc k "join_on 44 (map item_text kvs) @ 125 # r"]
    show ?thesis by (simp add: n kv join_on_Cons2 skip_ws_item)
  qed
qed simp

section \<open>Round trip\<close>

lemma distinct_sort_key: "distinct (map fst kvs) \<Longrightarrow> distinct (map fst (sort_key fst kvs))"
  by (metis distinct_map distinct_sort set_sort)

lemma json_value_mono: "json_value F v \<Longrightarrow> (\<And>r. F r \<Longrightarrow> G r) \<Longrightarrow> json_value G v"
proof (induction v)
  case (JFloat f)
  then show ?case by (cases f) (simp_all add: json_value.simps)
next
  case (JObj kvs)
  then have "\<forall>kv \<in> set kvs. json_value F (snd kv) \<longrightarrow> json_value G (snd kv)"
    by (metis prod.collapse snds.intros)
  with JObj.prems(1) show ?case by (simp add: list_all_iff)
qed (simp_all add: list_all_iff json_value.simps)

lemma json_dicts_value: "json_dicts v \<Longrightarrow> json_value F v"
  by (erule json_value_mono) simp

lemma json_value_texts: "json_value (reads_float pf) v \<Longrightarrow> json_value is_float_text v"
  by (erule json_value_mono) (simp add: reads_float_def)

lemma scans_json: "json_plain v \<Longrightarrow> json_value (reads_float pf) v \<Longrightarrow> json_digits_ok v \<Longrightarrow> scans pf v"
proof (induction v)
  case (JFloat f)
  then obtain r where r: "f = FFinite r" "reads_float pf r" by (cases f) simp_all
  then have "json_opens (json_text (JFloat f))" using JFloat json_text_opens json_value_texts by blast
  moreover from this have "json_text (JFloat f) \<noteq> []" by (simp add: json_opens_def)
  then have "scan_value pf n (json_text (JFloat f) @ s) = Inr (json_norm (JFloat f), s)"
    if "json_delim s" "length (json_text (JFloat f)) \<le> n" for n s
    using that r scan_float [of s pf r "n - 1"] by (cases n) simp_all
  ultimately show ?case by (simp add: scans_def)
next
  case (JInt i)
  then have "json_opens (json_text (JInt i))" by (intro json_text_opens) (simp_all add: json_value.simps)
  moreover from this have "json_text (JInt i) \<noteq> []" by (simp add: json_opens_def)
  then have "scan_value pf n (json_text (JInt i) @ r) = Inr (json_norm (JInt i), r)"
    if "json_delim r" "length (json_text (JInt i)) \<le> n" for n r
    using that JInt(3) scan_int [of r i pf "n - 1"] by (cases n) simp_all
  ultimately show ?case by (simp add: scans_def)
next
  case (JList xs)
  then have "list_all (scans pf) xs" by (simp add: list_all_iff)
  then have "scan_value pf (Suc n) (json_text (JList xs) @ r) = Inr (json_norm (JList xs), r)"
    if "length (json_text (JList xs)) \<le> Suc n" for n r
  proof (cases xs)
    case (Cons x ys)
    let ?t = "join_on 44 (map json_text xs)"
    have "scans pf x" using \<open>list_all (scans pf) xs\<close> Cons by simp
    then have "json_opens ?t" using Cons by (cases ys) (auto simp: scans_def json_opens_def)
    then obtain c t where ct: "?t = c # t" "c \<noteq> 93" by (cases ?t) (auto simp: json_opens_def)
    have "skip_ws (?t @ 93 # r) = ?t @ 93 # r" using \<open>json_opens ?t\<close> by (rule skip_ws_opens)
    moreover have "scan_items pf n [] (?t @ 93 # r) = Inr (JList (map json_norm xs), r)"
      using scan_items_texts [of xs pf n "[]" r] \<open>list_all (scans pf) xs\<close> that Cons by simp
    ultimately show ?thesis using ct by simp
  qed simp
  then have "scan_value pf n (json_text (JList xs) @ r) = Inr (json_norm (JList xs), r)"
    if "length (json_text (JList xs)) \<le> n" for n r
    using that by (cases n) simp_all
  then show ?case by (simp add: scans_def json_opens_def)
next
  case (JObj kvs)
  let ?s = "sort_key fst kvs"
  let ?t = "join_on 44 (map item_text ?s)"
  have "scans pf (snd kv)" if "kv \<in> set kvs" for kv
    using JObj.IH [of kv "snd kv"] JObj.prems that by (cases kv) (force simp: snds.simps list_all_iff)
  then have scans: "list_all (\<lambda>kv. scans pf (snd kv)) ?s" by (simp add: list_all_iff)
  have dist: "distinct (map fst ?s)" using JObj.prems(2) by (intro distinct_sort_key) simp
  have "scan_value pf (Suc n) (json_text (JObj kvs) @ r) = Inr (json_norm (JObj kvs), r)"
    if "length (json_text (JObj kvs)) \<le> Suc n" for n r
  proof (cases "kvs = []")
    case False
    then have ne: "?s \<noteq> []" by (metis length_0_conv length_sort)
    then obtain t where t: "?t @ 125 # r = 34 # t" using item_head by blast
    have "scan_members pf n [] (?t @ 125 # r) = Inr (JObj (map (apsnd json_norm) ?s), r)"
      using scan_members_texts [OF ne scans, of n "[]" r] that dist by simp
    with t skip_ws_item [OF ne, of "125 # r"] show ?thesis
      by (simp add: sort_key_map)
  qed simp
  then have "scan_value pf n (json_text (JObj kvs) @ r) = Inr (json_norm (JObj kvs), r)"
    if "length (json_text (JObj kvs)) \<le> n" for n r
    using that by (cases n) simp_all
  then show ?case by (simp add: scans_def json_opens_def)
next
  case JNull
  have "scan_value pf n (json_text JNull @ r) = Inr (json_norm JNull, r)" if "length (json_text JNull) \<le> n" for n r
    using that by (cases n) (simp_all add: lit_def scan_atom_def starts_with_def)
  then show ?case by (simp add: scans_def json_opens_def lit_def)
next
  case (JBool c)
  have "scan_value pf n (json_text (JBool c) @ r) = Inr (json_norm (JBool c), r)"
    if "length (json_text (JBool c)) \<le> n" for n r
    using that by (cases n; cases c) (simp_all add: lit_def scan_atom_def starts_with_def)
  then show ?case by (cases c) (simp_all add: scans_def json_opens_def lit_def)
next
  case (JStr s)
  have "scan_value pf n (json_text (JStr s) @ r) = Inr (json_norm (JStr s), r)"
    if "length (json_text (JStr s)) \<le> n" for n r
    using that by (cases n) (simp_all add: quoted_def scan_quoted)
  then show ?case by (simp add: scans_def json_opens_def quoted_def)
qed simp_all

lemma json_loads_value:
  assumes "json_plain v" "json_value (reads_float pf) v" "json_digits_ok v"
  shows "json_loads pf (json_text v) = Inr (json_norm v)"
proof -
  note scans = scans_json [OF assms]
  have "scan_value pf (Suc (length (json_text v))) (json_text v @ []) = Inr (json_norm v, [])"
    by (rule scansD [OF scans]) simp_all
  moreover have "skip_ws (json_text v @ []) = json_text v @ []" by (rule scans_skip [OF scans])
  ultimately show ?thesis by (simp add: json_loads_def) (simp add: skip_ws_def)
qed

lemmas json_loads_text = json_loads_value [OF _ json_dicts_value]

lemma snd_mem_IH:
  assumes "\<And>kv v. kv \<in> set kvs \<Longrightarrow> v \<in> Basic_BNFs.snds kv \<Longrightarrow> P v"
  shows "\<forall>kv \<in> set kvs. P (snd kv)"
  using assms by (metis prod.collapse snds.intros)

lemma json_norm_keeps:
  "json_plain (json_norm v) = json_plain v" "json_digits_ok (json_norm v) = json_digits_ok v"
  "json_value F (json_norm v) = json_value F v"
proof (induction v)
  case (JObj kvs)
  have IH: "\<forall>kv \<in> set kvs. json_plain (json_norm (snd kv)) = json_plain (snd kv)"
    "\<forall>kv \<in> set kvs. json_digits_ok (json_norm (snd kv)) = json_digits_ok (snd kv)"
    "\<forall>kv \<in> set kvs. json_value F (json_norm (snd kv)) = json_value F (snd kv)"
    by (rule snd_mem_IH, rule JObj, assumption+)+
  have "distinct (map fst (sort_key fst kvs)) = distinct (map fst kvs)"
    by (metis distinct_map distinct_sort set_sort)
  with IH show "json_plain (json_norm (JObj kvs)) = json_plain (JObj kvs)"
    "json_digits_ok (json_norm (JObj kvs)) = json_digits_ok (JObj kvs)"
    "json_value F (json_norm (JObj kvs)) = json_value F (JObj kvs)"
    by (simp_all add: list_all_iff sort_key_map)
qed (simp_all add: list_all_iff json_value.simps json_norm.simps)

lemma Max_insert_zero: "finite S \<Longrightarrow> Max (insert 0 (insert a S)) = max a (Max (insert 0 S))" for a :: int
  by (subst insert_commute) simp

lemma json_list_depth_Max: "json_list_depth xs = Max (insert 0 ((\<lambda>x. 1 + json_depth x) ` set xs))"
  by (induction xs) (simp_all add: Max_insert_zero del: Max_insert)

lemma json_items_depth_Max: "json_items_depth kvs = Max (insert 0 ((\<lambda>kv. 1 + json_depth (snd kv)) ` set kvs))"
  by (induction kvs) (simp_all add: Max_insert_zero del: Max_insert)

lemma json_depth_cases [simp]:
  "json_depth (JList xs) = json_list_depth xs" "json_depth (JObj kvs) = json_items_depth kvs"
  by (simp_all add: json_depth.simps)

lemma json_norm_depth: "json_depth (json_norm v) = json_depth v"
proof (induction v)
  case (JList xs)
  then have "(\<lambda>x. 1 + json_depth x) ` json_norm ` set xs = (\<lambda>x. 1 + json_depth x) ` set xs"
    unfolding image_image by (intro image_cong) simp_all
  then show ?case by (simp add: json_list_depth_Max)
next
  case (JObj kvs)
  have IH: "\<forall>kv \<in> set kvs. json_depth (json_norm (snd kv)) = json_depth (snd kv)"
    by (rule snd_mem_IH, rule JObj)
  then have "(\<lambda>kv. 1 + json_depth (snd kv)) ` apsnd json_norm ` set kvs = (\<lambda>kv. 1 + json_depth (snd kv)) ` set kvs"
    unfolding image_image by (intro image_cong) simp_all
  then show ?case by (simp add: json_items_depth_Max sort_key_map)
qed (simp_all add: json_norm.simps)

lemma canonical_json_bytes_Inr:
  "canonical_json_bytes m v = Inr b \<longleftrightarrow>
     1 \<le> m \<and> json_depth v \<le> m \<and> json_plain v \<and> json_digits_ok v \<and> utf8_encode (json_text v) = Some b"
  using validate_json_value_Inr(1) [of m 0 v]
  by (auto simp: canonical_json_bytes_def and_then_eq_Inr split: option.splits)

lemma canonical_json_bytes_norm: "canonical_json_bytes m (json_norm v) = Inr b \<longleftrightarrow> canonical_json_bytes m v = Inr b"
  unfolding canonical_json_bytes_Inr json_norm_keeps json_norm_depth json_text_norm ..

lemma canonical_bytes_json_norm:
  "canonical_json_bytes m v = Inr b \<Longrightarrow> canonical_json_bytes n w = Inr b \<Longrightarrow> json_value is_float_text v \<Longrightarrow>
     json_value is_float_text w \<Longrightarrow> json_norm v = json_norm w"
proof -
  have "json_value is_float_text x \<Longrightarrow> json_value (reads_float FFinite) x" for x
    by (erule json_value_mono) (simp add: reads_float_def)
  then show "canonical_json_bytes m v = Inr b \<Longrightarrow> canonical_json_bytes n w = Inr b \<Longrightarrow> json_value is_float_text v \<Longrightarrow>
     json_value is_float_text w \<Longrightarrow> json_norm v = json_norm w"
    unfolding canonical_json_bytes_Inr by (metis json_loads_value utf8_encode_inj sum.inject(2))
qed

lemma json_text_ascii_head: "json_plain v \<Longrightarrow> json_value is_float_text v \<Longrightarrow> \<exists>c t. json_text v = c # t \<and> c < 128"
proof (cases v)
  case (JFloat f)
  assume "json_plain v" "json_value is_float_text v"
  then obtain r where r: "f = FFinite r" "is_float_text r" using JFloat by (cases f) simp_all
  with is_float_text_chars [OF r(2)] JFloat show ?thesis by auto
next
  case (JInt i)
  obtain d ds where t: "nat_text (nat \<bar>i\<bar>) = d # ds" by (cases "nat_text (nat \<bar>i\<bar>)") simp_all
  then have "is_digit d" using nat_text_digits [of "nat \<bar>i\<bar>"] by simp
  then show ?thesis using t JInt by (auto simp: int_text_def is_digit_def)
qed (auto simp: lit_def quoted_def)

lemma parse_canonical_bytes:
  assumes "canonical_json_bytes m v = Inr b" "json_value (reads_float pf) v"
  shows "parse_canonical_json pf max_bytes m b = (if length b \<le> max_bytes then Inr (json_norm v) else Inl BytesInvalid)"
proof -
  note v = assms(1) [unfolded canonical_json_bytes_Inr]
  obtain c t where ct: "json_text v = c # t" "c < 128" using v json_text_ascii_head json_value_texts assms(2) by blast
  with v obtain b' where b: "b = c # b'" by (auto split: option.splits)
  then have heads: "b \<noteq> []" "\<not> starts_with [239, 187, 191] b" using ct(2) by (simp_all add: starts_with_def)
  have "validate_json_value m 0 (json_norm v) = Inr ()"
    using v by (simp add: validate_json_value_Inr json_norm_keeps json_norm_depth)
  moreover have "utf8_decode b = Some (json_text v)" using v utf8_decode_encode by blast
  moreover have "canonical_json_bytes m (json_norm v) = Inr b" using assms(1) by (simp add: canonical_json_bytes_norm)
  ultimately show ?thesis
    using heads v assms(2) by (simp add: parse_canonical_json_def json_loads_value)
qed

lemma parse_canonical_json_Inr:
  "parse_canonical_json pf max_bytes m raw = Inr v \<Longrightarrow> canonical_json_bytes m v = Inr raw \<and> length raw \<le> max_bytes"
  by (auto simp: parse_canonical_json_def and_then_eq_Inr split: option.splits if_splits)

section \<open>When there is a text\<close>

lemma utf8_ok_append [simp]: "utf8_ok (s @ t) \<longleftrightarrow> utf8_ok s \<and> utf8_ok t"
  by (auto simp: utf8_ok_def utf8_encode_append split: option.splits)

lemma utf8_ok_ascii: "list_all (\<lambda>c. c < 128) s \<Longrightarrow> utf8_ok s"
  unfolding list_all_iff utf8_ok_def by (simp add: utf8_encode_ascii)

lemma utf8_ok_Cons: "c < 128 \<Longrightarrow> utf8_ok (c # s) \<longleftrightarrow> utf8_ok s"
  using utf8_ok_append [of "[c]" s] utf8_ok_ascii [of "[c]"] by simp

lemma utf8_ok_escape: "utf8_ok [c] \<Longrightarrow> utf8_ok (escape_char c)"
proof (cases "escape_char c = [c]")
  case False
  then have "list_all (\<lambda>c. c < 128) (escape_char c)"
    by (auto simp: escape_char_def hex_digit_def split: if_splits)
  then show ?thesis by (rule utf8_ok_ascii)
qed simp

lemma utf8_ok_quoted: "utf8_ok s \<Longrightarrow> utf8_ok (quoted s)"
proof -
  assume "utf8_ok s"
  then have "utf8_ok (concat (map escape_char s))"
  proof (induction s)
    case (Cons c s)
    then have "utf8_ok [c]" "utf8_ok s" using utf8_ok_append [of "[c]" s] by simp_all
    with Cons.IH show ?case by (simp add: utf8_ok_escape)
  qed (simp add: utf8_ok_def)
  moreover have "utf8_ok [34]" by (rule utf8_ok_ascii) simp
  ultimately show ?thesis by (simp add: quoted_def utf8_ok_Cons)
qed

lemma utf8_ok_join: "list_all utf8_ok ws \<Longrightarrow> utf8_ok (join_on 44 ws)"
  by (induction "44::nat" ws rule: join_on.induct) (simp_all add: utf8_ok_Cons utf8_ok_def [of "[]"])

lemma utf8_ok_digits: "utf8_ok (nat_text n)"
proof (rule utf8_ok_ascii)
  show "list_all (\<lambda>c. c < 128) (nat_text n)"
    using nat_text_digits [of n] by (auto simp: list_all_iff is_digit_def)
qed

lemma utf8_ok_json_value: "json_plain v \<Longrightarrow> json_value is_float_text v \<Longrightarrow> utf8_ok (json_text v)"
proof (induction v)
  case (JFloat f)
  then obtain r where "f = FFinite r" "is_float_text r" by (cases f) simp_all
  then show ?case using is_float_text_chars(1) utf8_ok_ascii by simp
next
  case (JInt i)
  then show ?case by (simp add: int_text_def utf8_ok_digits utf8_ok_Cons)
next
  case (JList xs)
  then have "list_all utf8_ok (map json_text xs)" by (simp add: list_all_iff)
  moreover have "utf8_ok [93]" by (rule utf8_ok_ascii) simp
  ultimately show ?case by (simp add: utf8_ok_Cons utf8_ok_join)
next
  case (JObj kvs)
  have "\<forall>kv \<in> set kvs. json_plain (snd kv) \<longrightarrow> json_value is_float_text (snd kv) \<longrightarrow> utf8_ok (json_text (snd kv))"
    by (rule snd_mem_IH) (blast intro: JObj.IH)
  with JObj.prems have "list_all utf8_ok (map item_text (sort_key fst kvs))"
    by (simp add: list_all_iff utf8_ok_quoted utf8_ok_Cons)
  moreover have "utf8_ok [125]" by (rule utf8_ok_ascii) simp
  ultimately show ?case by (simp add: utf8_ok_Cons utf8_ok_join)
qed (simp_all add: utf8_ok_quoted utf8_ok_ascii lit_def)

lemmas utf8_ok_json_text = utf8_ok_json_value [OF _ json_dicts_value]

lemma canonical_json_bytes_defined:
  "json_value is_float_text v \<Longrightarrow> (\<exists>b. canonical_json_bytes m v = Inr b) \<longleftrightarrow>
     1 \<le> m \<and> json_depth v \<le> m \<and> json_plain v \<and> json_digits_ok v"
  unfolding canonical_json_bytes_Inr using utf8_ok_json_value by (auto simp: utf8_ok_def)

lemma domain_sha256_Inr:
  "domain_sha256 sha d v = Some (Inr h) \<longleftrightarrow>
     d \<noteq> [] \<and> 0 \<notin> set d \<and> (\<forall>c \<in> set d. c < 128) \<and> (\<exists>b. canonical_json_bytes 64 v = Inr b \<and> h = sha (d @ 0 # b))"
  by (auto simp: domain_sha256_def and_then_eq_Inr leD linorder_not_le dest: leD)

lemma append_zero_eq: "0 \<notin> set d \<Longrightarrow> 0 \<notin> set e \<Longrightarrow> d @ 0 # b = e @ (0::nat) # c \<Longrightarrow> d = e \<and> b = c"
  by (induction d arbitrary: e) (case_tac [!] e, auto)

section \<open>Properties\<close>

text \<open>
  A value made of dicts, lists, strings, numbers, booleans and null has a canonical form exactly
  when it is nested no deeper than the limit, every string in it is valid Unicode and no integer is
  longer than the interpreter prints; no float in it is infinite or not a number.
\<close>

theorem canonical_json_accepts:
  assumes "json_value is_float_text v"
  shows "(\<exists>b. canonical_json_bytes m v = Inr b) \<longleftrightarrow>
    1 \<le> m \<and> json_depth v \<le> m \<and> json_plain v \<and> json_digits_ok v"
  by (rule canonical_json_bytes_defined [OF assms])

definition demo_json :: json where
  "demo_json = JObj [([98], JList [JInt (- 12), JNull, JFloat (FFinite [49, 46, 53])]), ([97], JStr [34, 10, 233])]"

lemma demo_json_value: "json_value (reads_float FFinite) demo_json" "json_value is_float_text demo_json"
  by code_simp+

definition demo_json_bytes :: bytes where
  "demo_json_bytes = [123, 34, 97, 34, 58, 34, 92, 34, 92, 110, 195, 169, 34, 44, 34, 98, 34, 58, 91, 45,
     49, 50, 44, 110, 117, 108, 108, 44, 49, 46, 53, 93, 125]"

lemma demo_json_text: "canonical_json_bytes 64 demo_json = Inr demo_json_bytes"
  by code_simp

theorem canonical_json_accepts_witness: "json_depth demo_json \<le> 64 \<and> json_plain demo_json"
  using canonical_json_accepts [OF demo_json_value(2), of 64] demo_json_text by blast

text \<open>
  C24. Writing and then reading gives the value back: the canonical bytes of a value, floats included,
  are accepted by the strict parser when they are within its byte limit, and it returns the value with
  the items of every dict in the order of their keys; longer bytes are refused as invalid. The value
  returned has the same canonical bytes. Of \<open>float\<close> only its documentation is used: it reads the text
  \<open>repr\<close> gives for a finite float back as that float.
\<close>

theorem canonical_json_round_trip:
  assumes "canonical_json_bytes m v = Inr b" "json_value (reads_float pf) v"
  shows "parse_canonical_json pf max_bytes m b = (if length b \<le> max_bytes then Inr (json_norm v) else Inl BytesInvalid) \<and>
    canonical_json_bytes m (json_norm v) = Inr b"
  using parse_canonical_bytes [OF assms] assms(1) by (simp add: canonical_json_bytes_norm)

theorem canonical_json_round_trip_witness:
  "parse_canonical_json FFinite 100 64 demo_json_bytes = Inr (json_norm demo_json) \<and>
   parse_canonical_json FFinite 10 64 demo_json_bytes = Inl BytesInvalid"
  using canonical_json_round_trip [OF demo_json_text demo_json_value(1), of 100]
    canonical_json_round_trip [OF demo_json_text demo_json_value(1), of 10]
  by (simp add: demo_json_bytes_def)

text \<open>
  C25. The parser accepts one spelling of a value only: whatever it accepts is no longer than the
  limit and is, byte for byte, what the printer gives for the value it returns.
\<close>

theorem parse_canonical_json_exact:
  assumes "parse_canonical_json pf max_bytes m raw = Inr v"
  shows "canonical_json_bytes m v = Inr raw \<and> length raw \<le> max_bytes \<and> json_depth v \<le> m \<and> json_plain v"
  using parse_canonical_json_Inr [OF assms] by (simp add: canonical_json_bytes_Inr)

theorem parse_canonical_json_exact_witness:
  "canonical_json_bytes 64 (json_norm demo_json) = Inr demo_json_bytes"
proof -
  have "length demo_json_bytes \<le> 100" by (simp add: demo_json_bytes_def)
  with parse_canonical_bytes [OF demo_json_text demo_json_value(1)]
  have "parse_canonical_json FFinite 100 64 demo_json_bytes = Inr (json_norm demo_json)" by simp
  from parse_canonical_json_exact [OF this] show ?thesis by blast
qed

text \<open>
  C26. A domain-separated digest binds the domain and the value, floats included: equal digests mean the
  same domain and the same value up to the order of dict items, unless the two texts that were hashed,
  which are different, collide. Of floats only this is used: \<open>repr\<close> prints a finite one as a JSON number
  with a fraction or an exponent.
\<close>

theorem domain_digest_binds:
  assumes "domain_sha256 sha d v = Some (Inr h)" "domain_sha256 sha e w = Some (Inr h)"
    and "json_value is_float_text v" "json_value is_float_text w"
  shows "d = e \<and> json_norm v = json_norm w \<or>
    (\<exists>b c. canonical_json_bytes 64 v = Inr b \<and> canonical_json_bytes 64 w = Inr c \<and>
       d @ 0 # b \<noteq> e @ 0 # c \<and> sha (d @ 0 # b) = h \<and> sha (e @ 0 # c) = h)"
proof -
  from assms(1,2) obtain b c where b: "canonical_json_bytes 64 v = Inr b" "h = sha (d @ 0 # b)"
    and c: "canonical_json_bytes 64 w = Inr c" "h = sha (e @ 0 # c)"
    and z: "0 \<notin> set d" "0 \<notin> set e"
    unfolding domain_sha256_Inr by blast
  show ?thesis
  proof (cases "d @ 0 # b = e @ 0 # c")
    case True
    with append_zero_eq [OF z] have "d = e" "b = c" by blast+
    with b c canonical_bytes_json_norm assms(3,4) show ?thesis by blast
  qed (use b c in metis)
qed

theorem domain_digest_binds_witness:
  "domain_sha256 (\<lambda>b. b) [100] (json_norm demo_json) = Some (Inr (100 # 0 # demo_json_bytes)) \<and>
   json_norm (json_norm demo_json) = json_norm demo_json"
proof -
  have d: "domain_sha256 (\<lambda>b. b) [100] demo_json = Some (Inr (100 # 0 # demo_json_bytes))"
    by (simp add: domain_sha256_Inr demo_json_text)
  have n: "domain_sha256 (\<lambda>b. b) [100] (json_norm demo_json) = Some (Inr (100 # 0 # demo_json_bytes))"
    by (simp add: domain_sha256_Inr canonical_json_bytes_norm demo_json_text)
  from domain_digest_binds [OF n d _ demo_json_value(2)] n demo_json_value(2) json_norm_keeps(3) show ?thesis by auto
qed

end
