(* ===== verification/Repair_Paths.thy ===== *)
theory Repair_Paths
  imports Prelude
begin

text \<open>
  The path checks of \<open>src/repoguard/_repair_paths.py\<close>. Two tables of the language's Unicode database
  are a parameter: whether the category of a character starts with C, and case folding.
\<close>

record unicode_db =
  ud_control :: "nat \<Rightarrow> bool"
  ud_casefold :: "pystr \<Rightarrow> pystr"

text \<open>Every failed check of this module and of the record constructors is a \<open>ValueError\<close>; the checks
  for exact types raise a \<open>TypeError\<close>.\<close>

datatype py_error = PyValueError | PyTypeError

definition byte_length :: "pystr \<Rightarrow> nat" where
  "byte_length s = length (utf8_bytes s)"

definition strip_spaces :: "pystr \<Rightarrow> pystr" where
  "strip_spaces s = rev (dropWhile (\<lambda>c. c = 32) (rev (dropWhile (\<lambda>c. c = 32) s)))"

definition has_control :: "unicode_db \<Rightarrow> pystr \<Rightarrow> bool" where
  "has_control ud s \<longleftrightarrow> list_ex (ud_control ud) s"

definition safe_component :: "unicode_db \<Rightarrow> pystr \<Rightarrow> bool" where
  "safe_component ud c \<longleftrightarrow>
     c \<noteq> [] \<and> c \<noteq> [46] \<and> c \<noteq> [46, 46] \<and> ud_casefold ud c \<noteq> lit ''.git'' \<and> byte_length c \<le> 255"

definition validate_repository_path :: "unicode_db \<Rightarrow> pystr \<Rightarrow> py_error + pystr" where
  "validate_repository_path ud s =
     and_then (require (utf8_ok s) PyValueError) (\<lambda>_.
     and_then (require (s \<noteq> [] \<and> byte_length s \<le> 1024 \<and> \<not> starts_with [47] s \<and> 92 \<notin> set s) PyValueError) (\<lambda>_.
     and_then (require (s = strip_spaces s) PyValueError) (\<lambda>_.
     and_then (require (\<not> has_control ud s) PyValueError) (\<lambda>_.
     and_then (require (list_all (safe_component ud) (split_on 47 s)) PyValueError) (\<lambda>_. Inr s)))))"

text \<open>\<open>str(PurePosixPath(s))\<close>: one root slash (two when there are exactly two), no empty component
  and no \<open>.\<close>.\<close>

definition posix_root :: "pystr \<Rightarrow> pystr" where
  "posix_root s =
     (if starts_with [47, 47] s \<and> \<not> starts_with [47, 47, 47] s then [47, 47]
      else if starts_with [47] s then [47] else [])"

definition posix_parts :: "pystr \<Rightarrow> pystr list" where
  "posix_parts s = filter (\<lambda>c. c \<noteq> [] \<and> c \<noteq> [46]) (split_on 47 s)"

definition posix_text :: "pystr \<Rightarrow> pystr" where
  "posix_text s =
     (if posix_root s = [] \<and> posix_parts s = [] then [46] else posix_root s @ join_on 47 (posix_parts s))"

definition validate_container_path :: "unicode_db \<Rightarrow> pystr \<Rightarrow> py_error + pystr" where
  "validate_container_path ud s =
     and_then (require (utf8_ok s) PyValueError) (\<lambda>_.
     and_then (require (s \<noteq> [] \<and> byte_length s \<le> 1024) PyValueError) (\<lambda>_.
     and_then (require (\<not> has_control ud s) PyValueError) (\<lambda>_.
     and_then (require (posix_root s \<noteq> [] \<and> posix_text s = s) PyValueError) (\<lambda>_.
     and_then (require (list_all (\<lambda>c. c \<noteq> [] \<and> c \<noteq> [46] \<and> c \<noteq> [46, 46] \<and> byte_length c \<le> 255) (posix_parts s))
       PyValueError) (\<lambda>_. Inr s)))))"

definition path_sort_key :: "pystr \<Rightarrow> bytes" where
  "path_sort_key s = utf8_bytes s"

definition canonical_repository_paths :: "unicode_db \<Rightarrow> nat \<Rightarrow> nat \<Rightarrow> pystr list \<Rightarrow> py_error + pystr list" where
  "canonical_repository_paths ud minimum maximum paths =
     and_then (require (minimum \<le> length paths \<and> length paths \<le> maximum) PyValueError) (\<lambda>_.
     and_then (map_res (validate_repository_path ud) paths) (\<lambda>_.
     and_then (require (sort_key path_sort_key paths = paths \<and> distinct paths) PyValueError) (\<lambda>_. Inr paths)))"

section \<open>What the checks accept\<close>

definition repository_path_ok :: "unicode_db \<Rightarrow> pystr \<Rightarrow> bool" where
  "repository_path_ok ud s \<longleftrightarrow>
     utf8_ok s \<and> s \<noteq> [] \<and> byte_length s \<le> 1024 \<and> \<not> starts_with [47] s \<and> 92 \<notin> set s \<and>
     s = strip_spaces s \<and> \<not> has_control ud s \<and> list_all (safe_component ud) (split_on 47 s)"

lemma validate_repository_path_Inr:
  "validate_repository_path ud s = Inr t \<longleftrightarrow> repository_path_ok ud s \<and> t = s"
  by (auto simp: validate_repository_path_def repository_path_ok_def res_iffs)

definition repository_paths_ok :: "unicode_db \<Rightarrow> nat \<Rightarrow> nat \<Rightarrow> pystr list \<Rightarrow> bool" where
  "repository_paths_ok ud minimum maximum ps \<longleftrightarrow>
     minimum \<le> length ps \<and> length ps \<le> maximum \<and> list_all (repository_path_ok ud) ps \<and>
     sorted (map path_sort_key ps) \<and> distinct ps"

lemma map_res_paths:
  "map_res (validate_repository_path ud) ps = Inr qs \<longleftrightarrow> list_all (repository_path_ok ud) ps \<and> qs = ps"
  by (induction ps arbitrary: qs) (auto simp: res_iffs validate_repository_path_Inr)

lemma sort_key_fixed: "sort_key f xs = xs \<longleftrightarrow> sorted (map f xs)"
  by (metis sort_key_id_if_sorted sorted_sort_key)

lemma canonical_repository_paths_Inr:
  "canonical_repository_paths ud a b ps = Inr qs \<longleftrightarrow> repository_paths_ok ud a b ps \<and> qs = ps"
  by (auto simp: canonical_repository_paths_def repository_paths_ok_def res_iffs map_res_paths sort_key_fixed)

lemma canonical_repository_paths_error:
  "canonical_repository_paths ud a b ps = Inl e \<Longrightarrow> e = PyValueError"
proof -
  have "validate_repository_path ud s \<noteq> Inl PyTypeError" for s
    by (auto simp: validate_repository_path_def res_iffs)
  then have "map_res (validate_repository_path ud) ps \<noteq> Inl PyTypeError" by (rule map_res_no_Inl)
  then show "canonical_repository_paths ud a b ps = Inl e \<Longrightarrow> e = PyValueError"
    by (cases e) (auto simp: canonical_repository_paths_def res_iffs)
qed

text \<open>How the file system resolves a relative path below a directory, \<open>None\<close> once it leaves it.\<close>

fun resolve_below :: "pystr list \<Rightarrow> pystr list \<Rightarrow> pystr list option" where
  "resolve_below up [] = Some up"
| "resolve_below up (c # cs) =
     (if c = [] \<or> c = [46] then resolve_below up cs
      else if c = [46, 46] then (if up = [] then None else resolve_below (butlast up) cs)
      else resolve_below (up @ [c]) cs)"

lemma resolve_below_safe: "list_all (safe_component ud) cs \<Longrightarrow> resolve_below up cs = Some (up @ cs)"
  by (induction cs arbitrary: up) (simp_all add: safe_component_def)

text \<open>
  C39. An accepted repository path stays inside the repository: it resolves, component by component,
  to exactly the components it spells, and none of them is a \<open>.git\<close> directory.
\<close>

theorem repository_path_stays_inside:
  assumes "validate_repository_path ud s = Inr t"
  shows "t = s \<and> resolve_below [] (split_on 47 s) = Some (split_on 47 s) \<and>
    join_on 47 (split_on 47 s) = s \<and> (\<forall>c \<in> set (split_on 47 s). ud_casefold ud c \<noteq> lit ''.git'')"
proof -
  have ok: "repository_path_ok ud s" "t = s" using assms by (simp_all add: validate_repository_path_Inr)
  then have safe: "list_all (safe_component ud) (split_on 47 s)" by (simp add: repository_path_ok_def)
  then have "\<forall>c \<in> set (split_on 47 s). ud_casefold ud c \<noteq> lit ''.git''"
    unfolding list_all_iff safe_component_def by blast
  then show ?thesis using resolve_below_safe [OF safe, of "[]"] ok(2) by simp
qed

text \<open>The tables restricted to ASCII, for the examples.\<close>

definition ascii_db :: unicode_db where
  "ascii_db = \<lparr>ud_control = \<lambda>c. c < 32 \<or> c = 127,
     ud_casefold = map (\<lambda>c. if 65 \<le> c \<and> c \<le> 90 then c + 32 else c)\<rparr>"

lemma demo_path: "validate_repository_path ascii_db (lit ''src/.gitignore'') = Inr (lit ''src/.gitignore'')"
  by code_simp

theorem repository_path_stays_inside_witness:
  "resolve_below [] (split_on 47 (lit ''src/.gitignore'')) = Some (split_on 47 (lit ''src/.gitignore''))"
  using repository_path_stays_inside [OF demo_path] by blast

text \<open>
  A path list is accepted exactly when its length is within the limits, every path is relative,
  free of backslashes and control characters, with no empty, \<open>.\<close>, \<open>..\<close> or \<open>.git\<close> component, and the
  paths are strictly ascending in their UTF-8 bytes; the accepted value is the list itself.
\<close>

theorem repository_paths_accepted:
  "(\<exists>qs. canonical_repository_paths ud a b ps = Inr qs) \<longleftrightarrow>
     a \<le> length ps \<and> length ps \<le> b \<and> list_all (repository_path_ok ud) ps \<and>
     sorted_wrt (\<lambda>p q. path_sort_key p < path_sort_key q) ps"
proof -
  have inj: "inj_on path_sort_key (set ps)" if "list_all (repository_path_ok ud) ps"
  proof (rule inj_onI)
    fix p q assume "p \<in> set ps" "q \<in> set ps" "path_sort_key p = path_sort_key q"
    moreover from this have "utf8_ok p" "utf8_ok q"
      using that by (auto simp: list_all_iff repository_path_ok_def)
    ultimately show "p = q" by (simp add: path_sort_key_def utf8_bytes_inj)
  qed
  have "sorted (map path_sort_key ps) \<and> distinct ps \<longleftrightarrow> sorted_wrt (\<lambda>p q. path_sort_key p < path_sort_key q) ps"
    if "list_all (repository_path_ok ud) ps"
    using strict_sorted_iff [of "map path_sort_key ps"] inj [OF that]
    by (simp add: sorted_wrt_map distinct_map)
  then show ?thesis
    by (auto simp: canonical_repository_paths_Inr repository_paths_ok_def)
qed

end
