(* ===== verification/Repair_Models.thy ===== *)
theory Repair_Models
  imports Json_Scan Repair_Paths
begin

text \<open>
  The records of a repair session (\<open>src/repoguard/repair.py\<close>), the checks their constructors make,
  their JSON mappings, and the decoders, digests and state transitions of
  \<open>src/repoguard/_repair_models.py\<close>.

  A constructor's checks are the predicate \<open>..._ok\<close> of its record; the tests for exact Python types hold
  by typing, and a failed check is a \<open>ValueError\<close>. SHA-256 is the parameter \<open>sha\<close>: bytes to the
  hexadecimal digest.
\<close>

section \<open>Enumerations\<close>

datatype repair_error_code =
    UNSUPPORTED_EVIDENCE_SCHEMA | INVALID_EVIDENCE | UNSUPPORTED_REVIEW_SCHEMA | INVALID_REVIEW
    | IDENTITY_MISMATCH | INVALID_TARGETS | INVALID_CONFIG | INVALID_PATH | SESSION_NOT_FOUND
    | SESSION_LOCKED | INVALID_STATE | SESSION_EXPIRED | SESSION_CORRUPT | PERSISTENCE_FAILED
    | GIT_UNAVAILABLE | GIT_FAILED | MISSING_OBJECT | MATERIALIZATION_FAILED | RESOURCE_LIMIT
    | PROVIDER_REQUIRED | PROVIDER_MISMATCH | PROVIDER_RATE_LIMITED | PROVIDER_TIMEOUT
    | PROVIDER_UNAVAILABLE | PROVIDER_AUTHENTICATION | PROVIDER_PERMISSION | PROVIDER_BAD_REQUEST
    | PROVIDER_INVALID_RESPONSE | PROVIDER_FAILED | MODEL_RESPONSE_INVALID | PATCH_INVALID
    | PATCH_LIMIT | UNSUPPORTED_PLATFORM | SANDBOX_UNAVAILABLE | IMAGE_UNAVAILABLE | IMAGE_MISMATCH
    | VALIDATION_FAILED | APPROVAL_REQUIRED | APPROVAL_MISMATCH | INVALID_DECISION | REF_CONFLICT
    | PUBLICATION_FAILED | RECOVERY_FAILED | CLEANUP_FAILED | CANCELLED | EXPIRED | INVALID_WORKFLOW

fun repair_error_code_value :: "repair_error_code \<Rightarrow> string" where
  "repair_error_code_value UNSUPPORTED_EVIDENCE_SCHEMA = ''unsupported_evidence_schema''"
| "repair_error_code_value INVALID_EVIDENCE = ''invalid_evidence''"
| "repair_error_code_value UNSUPPORTED_REVIEW_SCHEMA = ''unsupported_review_schema''"
| "repair_error_code_value INVALID_REVIEW = ''invalid_review''"
| "repair_error_code_value IDENTITY_MISMATCH = ''identity_mismatch''"
| "repair_error_code_value INVALID_TARGETS = ''invalid_targets''"
| "repair_error_code_value INVALID_CONFIG = ''invalid_config''"
| "repair_error_code_value INVALID_PATH = ''invalid_path''"
| "repair_error_code_value SESSION_NOT_FOUND = ''session_not_found''"
| "repair_error_code_value SESSION_LOCKED = ''session_locked''"
| "repair_error_code_value INVALID_STATE = ''invalid_state''"
| "repair_error_code_value SESSION_EXPIRED = ''session_expired''"
| "repair_error_code_value SESSION_CORRUPT = ''session_corrupt''"
| "repair_error_code_value PERSISTENCE_FAILED = ''persistence_failed''"
| "repair_error_code_value GIT_UNAVAILABLE = ''git_unavailable''"
| "repair_error_code_value GIT_FAILED = ''git_failed''"
| "repair_error_code_value MISSING_OBJECT = ''missing_object''"
| "repair_error_code_value MATERIALIZATION_FAILED = ''materialization_failed''"
| "repair_error_code_value RESOURCE_LIMIT = ''resource_limit''"
| "repair_error_code_value PROVIDER_REQUIRED = ''provider_required''"
| "repair_error_code_value PROVIDER_MISMATCH = ''provider_mismatch''"
| "repair_error_code_value PROVIDER_RATE_LIMITED = ''provider_rate_limited''"
| "repair_error_code_value PROVIDER_TIMEOUT = ''provider_timeout''"
| "repair_error_code_value PROVIDER_UNAVAILABLE = ''provider_unavailable''"
| "repair_error_code_value PROVIDER_AUTHENTICATION = ''provider_authentication''"
| "repair_error_code_value PROVIDER_PERMISSION = ''provider_permission''"
| "repair_error_code_value PROVIDER_BAD_REQUEST = ''provider_bad_request''"
| "repair_error_code_value PROVIDER_INVALID_RESPONSE = ''provider_invalid_response''"
| "repair_error_code_value PROVIDER_FAILED = ''provider_failed''"
| "repair_error_code_value MODEL_RESPONSE_INVALID = ''model_response_invalid''"
| "repair_error_code_value PATCH_INVALID = ''patch_invalid''"
| "repair_error_code_value PATCH_LIMIT = ''patch_limit''"
| "repair_error_code_value UNSUPPORTED_PLATFORM = ''unsupported_platform''"
| "repair_error_code_value SANDBOX_UNAVAILABLE = ''sandbox_unavailable''"
| "repair_error_code_value IMAGE_UNAVAILABLE = ''image_unavailable''"
| "repair_error_code_value IMAGE_MISMATCH = ''image_mismatch''"
| "repair_error_code_value VALIDATION_FAILED = ''validation_failed''"
| "repair_error_code_value APPROVAL_REQUIRED = ''approval_required''"
| "repair_error_code_value APPROVAL_MISMATCH = ''approval_mismatch''"
| "repair_error_code_value INVALID_DECISION = ''invalid_decision''"
| "repair_error_code_value REF_CONFLICT = ''ref_conflict''"
| "repair_error_code_value PUBLICATION_FAILED = ''publication_failed''"
| "repair_error_code_value RECOVERY_FAILED = ''recovery_failed''"
| "repair_error_code_value CLEANUP_FAILED = ''cleanup_failed''"
| "repair_error_code_value CANCELLED = ''cancelled''"
| "repair_error_code_value EXPIRED = ''expired''"
| "repair_error_code_value INVALID_WORKFLOW = ''invalid_workflow''"

definition all_repair_error_code :: "repair_error_code list" where
  "all_repair_error_code =
    [UNSUPPORTED_EVIDENCE_SCHEMA, INVALID_EVIDENCE, UNSUPPORTED_REVIEW_SCHEMA, INVALID_REVIEW,
     IDENTITY_MISMATCH, INVALID_TARGETS, INVALID_CONFIG, INVALID_PATH, SESSION_NOT_FOUND,
     SESSION_LOCKED, INVALID_STATE, SESSION_EXPIRED, SESSION_CORRUPT, PERSISTENCE_FAILED,
     GIT_UNAVAILABLE, GIT_FAILED, MISSING_OBJECT, MATERIALIZATION_FAILED, RESOURCE_LIMIT,
     PROVIDER_REQUIRED, PROVIDER_MISMATCH, PROVIDER_RATE_LIMITED, PROVIDER_TIMEOUT,
     PROVIDER_UNAVAILABLE, PROVIDER_AUTHENTICATION, PROVIDER_PERMISSION, PROVIDER_BAD_REQUEST,
     PROVIDER_INVALID_RESPONSE, PROVIDER_FAILED, MODEL_RESPONSE_INVALID, PATCH_INVALID,
     PATCH_LIMIT, UNSUPPORTED_PLATFORM, SANDBOX_UNAVAILABLE, IMAGE_UNAVAILABLE, IMAGE_MISMATCH,
     VALIDATION_FAILED, APPROVAL_REQUIRED, APPROVAL_MISMATCH, INVALID_DECISION, REF_CONFLICT,
     PUBLICATION_FAILED, RECOVERY_FAILED, CLEANUP_FAILED, CANCELLED, EXPIRED, INVALID_WORKFLOW]"

datatype repair_state =
    CREATED | GENERATING | VALIDATING | VALIDATED | APPROVED | APPLYING | APPLIED | REJECTED
    | CANCELLED | EXPIRED | FAILED

fun repair_state_value :: "repair_state \<Rightarrow> string" where
  "repair_state_value CREATED = ''created''"
| "repair_state_value GENERATING = ''generating''"
| "repair_state_value VALIDATING = ''validating''"
| "repair_state_value VALIDATED = ''validated''"
| "repair_state_value APPROVED = ''approved''"
| "repair_state_value APPLYING = ''applying''"
| "repair_state_value APPLIED = ''applied''"
| "repair_state_value REJECTED = ''rejected''"
| "repair_state_value CANCELLED = ''cancelled''"
| "repair_state_value EXPIRED = ''expired''"
| "repair_state_value FAILED = ''failed''"

definition all_repair_state :: "repair_state list" where
  "all_repair_state =
    [CREATED, GENERATING, VALIDATING, VALIDATED, APPROVED, APPLYING, APPLIED, REJECTED, CANCELLED,
     EXPIRED, FAILED]"

datatype repair_stage =
    INPUT | SESSION | MATERIALIZATION | RETRIEVAL | PROMPT | PROVIDER | PATCH | SANDBOX | VALIDATION
    | APPROVAL | APPLICATION | PERSISTENCE | RECOVERY | CLEANUP

fun repair_stage_value :: "repair_stage \<Rightarrow> string" where
  "repair_stage_value INPUT = ''input''"
| "repair_stage_value SESSION = ''session''"
| "repair_stage_value MATERIALIZATION = ''materialization''"
| "repair_stage_value RETRIEVAL = ''retrieval''"
| "repair_stage_value PROMPT = ''prompt''"
| "repair_stage_value PROVIDER = ''provider''"
| "repair_stage_value PATCH = ''patch''"
| "repair_stage_value SANDBOX = ''sandbox''"
| "repair_stage_value VALIDATION = ''validation''"
| "repair_stage_value APPROVAL = ''approval''"
| "repair_stage_value APPLICATION = ''application''"
| "repair_stage_value PERSISTENCE = ''persistence''"
| "repair_stage_value RECOVERY = ''recovery''"
| "repair_stage_value CLEANUP = ''cleanup''"

definition all_repair_stage :: "repair_stage list" where
  "all_repair_stage =
    [INPUT, SESSION, MATERIALIZATION, RETRIEVAL, PROMPT, PROVIDER, PATCH, SANDBOX, VALIDATION,
     APPROVAL, APPLICATION, PERSISTENCE, RECOVERY, CLEANUP]"

datatype repair_context_outcome =
    NOT_REQUESTED | USED | DEGRADED

fun repair_context_outcome_value :: "repair_context_outcome \<Rightarrow> string" where
  "repair_context_outcome_value NOT_REQUESTED = ''not_requested''"
| "repair_context_outcome_value USED = ''used''"
| "repair_context_outcome_value DEGRADED = ''degraded''"

definition all_repair_context_outcome :: "repair_context_outcome list" where
  "all_repair_context_outcome = [NOT_REQUESTED, USED, DEGRADED]"

datatype validation_failure_kind =
    COMMAND_EXIT_NONZERO | COMMAND_TIMEOUT | COMMAND_SIGNAL | OUTPUT_LIMIT | RESOURCE_LIMIT
    | RESIDUAL_PROCESS | TRACKED_TREE_CHANGED | SANDBOX_REPORT_INVALID | SANDBOX_RUNTIME_FAILED

fun validation_failure_kind_value :: "validation_failure_kind \<Rightarrow> string" where
  "validation_failure_kind_value COMMAND_EXIT_NONZERO = ''command_exit_nonzero''"
| "validation_failure_kind_value COMMAND_TIMEOUT = ''command_timeout''"
| "validation_failure_kind_value COMMAND_SIGNAL = ''command_signal''"
| "validation_failure_kind_value OUTPUT_LIMIT = ''output_limit''"
| "validation_failure_kind_value RESOURCE_LIMIT = ''resource_limit''"
| "validation_failure_kind_value RESIDUAL_PROCESS = ''residual_process''"
| "validation_failure_kind_value TRACKED_TREE_CHANGED = ''tracked_tree_changed''"
| "validation_failure_kind_value SANDBOX_REPORT_INVALID = ''sandbox_report_invalid''"
| "validation_failure_kind_value SANDBOX_RUNTIME_FAILED = ''sandbox_runtime_failed''"

definition all_validation_failure_kind :: "validation_failure_kind list" where
  "all_validation_failure_kind =
    [COMMAND_EXIT_NONZERO, COMMAND_TIMEOUT, COMMAND_SIGNAL, OUTPUT_LIMIT, RESOURCE_LIMIT,
     RESIDUAL_PROCESS, TRACKED_TREE_CHANGED, SANDBOX_REPORT_INVALID, SANDBOX_RUNTIME_FAILED]"

definition enum_value :: "('e \<Rightarrow> string) \<Rightarrow> 'e list \<Rightarrow> pystr \<Rightarrow> py_error + 'e" where
  "enum_value f all s = (case find (\<lambda>e. lit (f e) = s) all of Some e \<Rightarrow> Inr e | None \<Rightarrow> Inl PyValueError)"

section \<open>State transitions\<close>

definition terminal_states :: "repair_state list" where
  "terminal_states = [APPLIED, REJECTED, CANCELLED, EXPIRED, FAILED]"

definition is_terminal :: "repair_state \<Rightarrow> bool" where
  "is_terminal s \<longleftrightarrow> s \<in> set terminal_states"

fun transitions :: "repair_state \<Rightarrow> repair_state list" where
  "transitions CREATED = [GENERATING, CANCELLED, EXPIRED]"
| "transitions GENERATING = [VALIDATING, CANCELLED, EXPIRED, FAILED]"
| "transitions VALIDATING = [VALIDATED, CANCELLED, EXPIRED, FAILED]"
| "transitions VALIDATED = [APPROVED, REJECTED, CANCELLED, EXPIRED]"
| "transitions APPROVED = [APPLYING, REJECTED, CANCELLED, EXPIRED]"
| "transitions APPLYING = [APPLIED, APPROVED, CANCELLED, FAILED]"
| "transitions APPLIED = []"
| "transitions REJECTED = []"
| "transitions CANCELLED = []"
| "transitions EXPIRED = []"
| "transitions FAILED = []"

definition can_transition :: "repair_state \<Rightarrow> repair_state \<Rightarrow> bool" where
  "can_transition current target \<longleftrightarrow> target \<in> set (transitions current)"

section \<open>Records\<close>

record prompt_identity =
  pi_name :: pystr
  pi_version :: int
  pi_system :: pystr
  pi_schema :: pystr
  pi_combined :: pystr

record context_summary =
  cx_outcome :: repair_context_outcome
  cx_index :: "pystr option"
  cx_query :: "pystr option"
  cx_query_count :: int
  cx_candidate_count :: int
  cx_hit_count :: int
  cx_hits :: "pystr option"
  cx_degradation :: "pystr option"

record repair_candidate =
  ca_schema_version :: int
  ca_id :: pystr
  ca_request :: pystr
  ca_prompt :: prompt_identity
  ca_context :: context_summary
  ca_diff :: pystr
  ca_tree :: pystr
  ca_commit :: pystr
  ca_paths :: "pystr list"
  ca_line_count :: int
  ca_attempt_count :: int
  ca_input_tokens :: int
  ca_output_tokens :: int

record command_result =
  cr_index :: int
  cr_exit :: "int option"
  cr_signal :: "int option"
  cr_timed_out :: bool
  cr_duration :: int
  cr_stdout :: pystr
  cr_stdout_bytes :: int
  cr_stdout_truncated :: bool
  cr_stderr :: pystr
  cr_stderr_bytes :: int
  cr_stderr_truncated :: bool

record repair_validation =
  va_schema_version :: int
  va_sha256 :: pystr
  va_candidate :: pystr
  va_policy :: pystr
  va_manifest :: pystr
  va_image :: pystr
  va_started :: int
  va_finished :: int
  va_success :: bool
  va_failure :: "validation_failure_kind option"
  va_results :: "command_result list"
  va_peak_memory :: int
  va_oom_killed :: bool
  va_residual :: int
  va_entries :: int
  va_inodes :: int
  va_tree_clean :: bool

record repair_approval =
  ap_schema_version :: int
  ap_sha256 :: pystr
  ap_candidate :: pystr
  ap_validation :: pystr
  ap_subject :: pystr
  ap_confirmation :: pystr
  ap_at :: int

record repair_application =
  al_schema_version :: int
  al_sha256 :: pystr
  al_approval :: pystr
  al_ref :: pystr
  al_commit :: pystr
  al_at :: int

record repair_decision =
  de_schema_version :: int
  de_sha256 :: pystr
  de_state :: repair_state
  de_subject :: pystr
  de_reason :: pystr
  de_candidate :: "pystr option"
  de_at :: int

record repair_failure =
  fl_schema_version :: int
  fl_code :: repair_error_code
  fl_stage :: repair_stage
  fl_retryable :: bool
  fl_at :: int

record repair_snapshot =
  sn_schema_version :: int
  sn_session :: pystr
  sn_state :: repair_state
  sn_request :: pystr
  sn_created :: int
  sn_updated :: int
  sn_target_count :: int
  sn_paths :: "pystr list"
  sn_candidate :: "repair_candidate option"
  sn_validation :: "repair_validation option"
  sn_approval :: "repair_approval option"
  sn_application :: "repair_application option"
  sn_decision :: "repair_decision option"
  sn_failure :: "repair_failure option"
  sn_cleanup_pending :: bool

record repair_preview =
  pv_schema_version :: int
  pv_session :: pystr
  pv_state :: repair_state
  pv_candidate :: pystr
  pv_validation :: "pystr option"
  pv_paths :: "pystr list"
  pv_diff :: pystr
  pv_confirmation :: pystr

section \<open>Constructor checks\<close>

definition approval_confirmation :: pystr where
  "approval_confirmation =
     lit ''I approve this exact RepoGuard candidate and validation result for ref-only application.''"

definition ref_prefix :: pystr where
  "ref_prefix = lit ''refs/repoguard/repairs/''"

definition is_sha256 :: "pystr \<Rightarrow> bool" where
  "is_sha256 s \<longleftrightarrow> length s = 64 \<and> list_all is_lower_hex s"

definition is_oid_text :: "pystr \<Rightarrow> bool" where
  "is_oid_text s \<longleftrightarrow> (length s = 40 \<or> length s = 64) \<and> list_all is_lower_hex s"

definition is_image_id :: "pystr \<Rightarrow> bool" where
  "is_image_id s \<longleftrightarrow> starts_with (lit ''sha256:'') s \<and> is_sha256 (drop 7 s)"

definition bounded_int :: "int \<Rightarrow> int \<Rightarrow> int option \<Rightarrow> bool" where
  "bounded_int v minimum maximum \<longleftrightarrow> minimum \<le> v \<and> (case maximum of None \<Rightarrow> True | Some m \<Rightarrow> v \<le> m)"

definition text_ok :: "unicode_db \<Rightarrow> nat \<Rightarrow> nat \<Rightarrow> pystr \<Rightarrow> bool" where
  "text_ok ud minimum maximum s \<longleftrightarrow>
     utf8_ok s \<and> minimum \<le> byte_length s \<and> byte_length s \<le> maximum \<and> \<not> has_control ud s"

definition subject_ok :: "unicode_db \<Rightarrow> pystr \<Rightarrow> bool" where
  "subject_ok ud s \<longleftrightarrow> text_ok ud 1 256 s"

definition timestamp_order :: "int \<Rightarrow> int \<Rightarrow> bool" where
  "timestamp_order started finished \<longleftrightarrow> 0 \<le> started \<and> 0 \<le> finished \<and> started \<le> finished"

definition opt_all :: "('a \<Rightarrow> bool) \<Rightarrow> 'a option \<Rightarrow> bool" where
  "opt_all P x \<longleftrightarrow> (case x of None \<Rightarrow> True | Some v \<Rightarrow> P v)"

definition prompt_identity_ok :: "unicode_db \<Rightarrow> prompt_identity \<Rightarrow> bool" where
  "prompt_identity_ok ud p \<longleftrightarrow>
     text_ok ud 1 128 (pi_name p) \<and> pi_version p = 1 \<and>
     is_sha256 (pi_system p) \<and> is_sha256 (pi_schema p) \<and> is_sha256 (pi_combined p)"

definition degradation_codes :: "pystr list" where
  "degradation_codes = map lit [''closed_index'', ''deadline_exceeded'', ''backend_failure'']"

definition context_summary_ok :: "context_summary \<Rightarrow> bool" where
  "context_summary_ok c \<longleftrightarrow>
     opt_all is_sha256 (cx_index c) \<and> opt_all is_sha256 (cx_query c) \<and> opt_all is_sha256 (cx_hits c) \<and>
     bounded_int (cx_query_count c) 0 (Some 16) \<and> bounded_int (cx_candidate_count c) 0 None \<and>
     bounded_int (cx_hit_count c) 0 (Some 12) \<and>
     (case cx_outcome c of
        NOT_REQUESTED \<Rightarrow>
          cx_index c = None \<and> cx_query c = None \<and> cx_hits c = None \<and> cx_degradation c = None \<and>
          cx_query_count c = 0 \<and> cx_candidate_count c = 0 \<and> cx_hit_count c = 0
      | USED \<Rightarrow>
          cx_index c \<noteq> None \<and> cx_query c \<noteq> None \<and> cx_hits c \<noteq> None \<and> cx_degradation c = None
      | DEGRADED \<Rightarrow>
          cx_index c \<noteq> None \<and> cx_query c \<noteq> None \<and>
          (case cx_degradation c of None \<Rightarrow> False | Some d \<Rightarrow> d \<in> set degradation_codes) \<and>
          cx_candidate_count c = 0 \<and> cx_hit_count c = 0 \<and> cx_hits c = None)"

definition candidate_ok :: "unicode_db \<Rightarrow> repair_candidate \<Rightarrow> bool" where
  "candidate_ok ud c \<longleftrightarrow>
     ca_schema_version c = 1 \<and>
     is_sha256 (ca_id c) \<and> is_sha256 (ca_request c) \<and> is_sha256 (ca_diff c) \<and>
     prompt_identity_ok ud (ca_prompt c) \<and> context_summary_ok (ca_context c) \<and>
     is_oid_text (ca_tree c) \<and> is_oid_text (ca_commit c) \<and>
     repository_paths_ok ud 1 32 (ca_paths c) \<and>
     bounded_int (ca_line_count c) 1 (Some 10000) \<and> bounded_int (ca_attempt_count c) 0 (Some 3) \<and>
     bounded_int (ca_input_tokens c) 0 None \<and> bounded_int (ca_output_tokens c) 0 None"

definition command_result_ok :: "command_result \<Rightarrow> bool" where
  "command_result_ok r \<longleftrightarrow>
     bounded_int (cr_index r) 0 (Some 7) \<and>
     opt_all (\<lambda>v. bounded_int v 0 None) (cr_exit r) \<and> opt_all (\<lambda>v. bounded_int v 0 None) (cr_signal r) \<and>
     bounded_int (cr_duration r) 0 None \<and> is_sha256 (cr_stdout r) \<and> is_sha256 (cr_stderr r) \<and>
     bounded_int (cr_stdout_bytes r) 0 None \<and> bounded_int (cr_stderr_bytes r) 0 None \<and>
     \<not> (cr_exit r \<noteq> None \<and> cr_signal r \<noteq> None)"

definition clean_result :: "command_result \<Rightarrow> bool" where
  "clean_result r \<longleftrightarrow>
     cr_exit r = Some 0 \<and> cr_signal r = None \<and> \<not> cr_timed_out r \<and>
     \<not> cr_stdout_truncated r \<and> \<not> cr_stderr_truncated r"

definition validation_ok :: "repair_validation \<Rightarrow> bool" where
  "validation_ok v \<longleftrightarrow>
     va_schema_version v = 1 \<and>
     is_sha256 (va_sha256 v) \<and> is_sha256 (va_candidate v) \<and> is_sha256 (va_policy v) \<and>
     is_sha256 (va_manifest v) \<and> is_image_id (va_image v) \<and>
     timestamp_order (va_started v) (va_finished v) \<and>
     length (va_results v) \<le> 8 \<and> list_all command_result_ok (va_results v) \<and>
     map cr_index (va_results v) = map int [0..<length (va_results v)] \<and>
     bounded_int (va_peak_memory v) 0 None \<and> bounded_int (va_residual v) 0 None \<and>
     bounded_int (va_entries v) 0 None \<and> bounded_int (va_inodes v) 0 None \<and>
     (if va_success v
      then va_failure v = None \<and> va_results v \<noteq> [] \<and> list_all clean_result (va_results v) \<and>
        \<not> va_oom_killed v \<and> va_residual v = 0 \<and> va_tree_clean v
      else va_failure v \<noteq> None)"

definition approval_ok :: "unicode_db \<Rightarrow> repair_approval \<Rightarrow> bool" where
  "approval_ok ud a \<longleftrightarrow>
     ap_schema_version a = 1 \<and>
     is_sha256 (ap_sha256 a) \<and> is_sha256 (ap_candidate a) \<and> is_sha256 (ap_validation a) \<and>
     subject_ok ud (ap_subject a) \<and> utf8_ok (ap_confirmation a) \<and>
     ap_confirmation a = approval_confirmation \<and> bounded_int (ap_at a) 0 None"

definition application_ok :: "repair_application \<Rightarrow> bool" where
  "application_ok a \<longleftrightarrow>
     al_schema_version a = 1 \<and> is_sha256 (al_sha256 a) \<and> is_sha256 (al_approval a) \<and>
     utf8_ok (al_ref a) \<and> starts_with ref_prefix (al_ref a) \<and>
     is_sha256 (drop (length ref_prefix) (al_ref a)) \<and>
     is_oid_text (al_commit a) \<and> bounded_int (al_at a) 0 None"

definition decision_ok :: "unicode_db \<Rightarrow> repair_decision \<Rightarrow> bool" where
  "decision_ok ud d \<longleftrightarrow>
     de_schema_version d = 1 \<and> is_sha256 (de_sha256 d) \<and>
     de_state d \<in> {REJECTED, CANCELLED, EXPIRED} \<and> subject_ok ud (de_subject d) \<and>
     (if de_state d = REJECTED then text_ok ud 1 1000 (de_reason d) \<and> de_candidate d \<noteq> None
      else de_reason d = [] \<or> text_ok ud 1 1000 (de_reason d)) \<and>
     opt_all is_sha256 (de_candidate d) \<and> bounded_int (de_at d) 0 None"

definition retryable_codes :: "repair_error_code list" where
  "retryable_codes = [SESSION_LOCKED, PROVIDER_RATE_LIMITED, PROVIDER_TIMEOUT, PROVIDER_UNAVAILABLE]"

definition failure_ok :: "repair_failure \<Rightarrow> bool" where
  "failure_ok f \<longleftrightarrow>
     fl_schema_version f = 1 \<and> (fl_retryable f \<longleftrightarrow> fl_code f \<in> set retryable_codes) \<and>
     bounded_int (fl_at f) 0 None"

definition preview_ok :: "unicode_db \<Rightarrow> repair_preview \<Rightarrow> bool" where
  "preview_ok ud p \<longleftrightarrow>
     pv_schema_version p = 1 \<and> is_sha256 (pv_session p) \<and> is_sha256 (pv_candidate p) \<and>
     opt_all is_sha256 (pv_validation p) \<and> repository_paths_ok ud 1 32 (pv_paths p) \<and>
     utf8_ok (pv_diff p) \<and> 13 \<notin> set (pv_diff p) \<and> 0 \<notin> set (pv_diff p) \<and>
     utf8_ok (pv_confirmation p) \<and> pv_confirmation p = approval_confirmation"

text \<open>\<open>_validate_snapshot_shape\<close>: which records a state requires and how they fit each other.\<close>

definition snapshot_shape :: "repair_snapshot \<Rightarrow> bool" where
  "snapshot_shape s \<longleftrightarrow>
     (sn_candidate s \<noteq> None \<longrightarrow> sn_state s \<noteq> CREATED) \<and>
     opt_all (\<lambda>v. case sn_candidate s of None \<Rightarrow> False | Some c \<Rightarrow> va_candidate v = ca_id c) (sn_validation s) \<and>
     opt_all (\<lambda>a. case (sn_candidate s, sn_validation s) of
         (Some c, Some v) \<Rightarrow> va_success v \<and> ap_candidate a = ca_id c \<and> ap_validation a = va_sha256 v
       | _ \<Rightarrow> False) (sn_approval s) \<and>
     opt_all (\<lambda>l. sn_state s = APPLIED \<and> (case (sn_candidate s, sn_approval s) of
         (Some c, Some a) \<Rightarrow>
           al_approval l = ap_sha256 a \<and> al_commit l = ca_commit c \<and> al_ref l = ref_prefix @ ca_id c
       | _ \<Rightarrow> False)) (sn_application s) \<and>
     opt_all (\<lambda>d. de_state d = sn_state s) (sn_decision s) \<and>
     (sn_failure s \<noteq> None \<longrightarrow> sn_state s = FAILED) \<and>
     opt_all (\<lambda>c. ca_request c = sn_request s) (sn_candidate s) \<and>
     opt_all (\<lambda>d. opt_all (\<lambda>i. case sn_candidate s of None \<Rightarrow> False | Some c \<Rightarrow> i = ca_id c) (de_candidate d))
       (sn_decision s) \<and>
     (sn_state s \<in> {VALIDATING, VALIDATED, APPROVED, APPLYING, APPLIED, REJECTED} \<longrightarrow> sn_candidate s \<noteq> None) \<and>
     (sn_state s \<in> {VALIDATED, APPROVED, APPLYING, APPLIED, REJECTED} \<longrightarrow>
        (case sn_validation s of None \<Rightarrow> False | Some v \<Rightarrow> va_success v)) \<and>
     (sn_state s \<in> {APPROVED, APPLYING, APPLIED} \<longrightarrow> sn_approval s \<noteq> None) \<and>
     (sn_state s = APPLIED \<longrightarrow> sn_application s \<noteq> None) \<and>
     (sn_state s \<in> {REJECTED, CANCELLED, EXPIRED} \<longrightarrow> sn_decision s \<noteq> None) \<and>
     (sn_state s = FAILED \<longrightarrow> sn_failure s \<noteq> None) \<and>
     (sn_cleanup_pending s \<longrightarrow> is_terminal (sn_state s))"

definition snapshot_ok :: "unicode_db \<Rightarrow> repair_snapshot \<Rightarrow> bool" where
  "snapshot_ok ud s \<longleftrightarrow>
     sn_schema_version s = 1 \<and> is_sha256 (sn_session s) \<and> is_sha256 (sn_request s) \<and>
     timestamp_order (sn_created s) (sn_updated s) \<and> bounded_int (sn_target_count s) 1 (Some 16) \<and>
     repository_paths_ok ud 1 32 (sn_paths s) \<and> snapshot_shape s"

text \<open>A snapshot every record of which its constructor accepted.\<close>

definition snapshot_valid :: "unicode_db \<Rightarrow> repair_snapshot \<Rightarrow> bool" where
  "snapshot_valid ud s \<longleftrightarrow>
     snapshot_ok ud s \<and> opt_all (candidate_ok ud) (sn_candidate s) \<and>
     opt_all validation_ok (sn_validation s) \<and> opt_all (approval_ok ud) (sn_approval s) \<and>
     opt_all application_ok (sn_application s) \<and> opt_all (decision_ok ud) (sn_decision s) \<and>
     opt_all failure_ok (sn_failure s)"

end
