(* ===== verification/Repair_Codec.thy ===== *)
theory Repair_Codec
  imports Repair_Models
begin

text \<open>
  The JSON mappings of the repair records: the functions \<open>repair_..._to_dict\<close> of
  \<open>src/repoguard/repair.py\<close> and the decoders \<open>_repair_..._from_dict\<close> of \<open>_repair_models.py\<close>, which
  check the set of keys, the exact type of every value and then the constructor's conditions.
\<close>

section \<open>Encoders\<close>

definition j_option :: "('a \<Rightarrow> json) \<Rightarrow> 'a option \<Rightarrow> json" where
  "j_option f x = (case x of None \<Rightarrow> JNull | Some v \<Rightarrow> f v)"

definition prompt_identity_items :: "prompt_identity \<Rightarrow> (pystr \<times> json) list" where
  "prompt_identity_items x =
     [(lit ''name'', JStr (pi_name x)),
      (lit ''version'', JInt (pi_version x)),
      (lit ''system_sha256'', JStr (pi_system x)),
      (lit ''response_schema_sha256'', JStr (pi_schema x)),
      (lit ''combined_sha256'', JStr (pi_combined x))]"

definition prompt_identity_to_dict :: "prompt_identity \<Rightarrow> json" where
  "prompt_identity_to_dict x = JObj (prompt_identity_items x)"

definition context_summary_items :: "context_summary \<Rightarrow> (pystr \<times> json) list" where
  "context_summary_items x =
     [(lit ''outcome'', JStr (lit (repair_context_outcome_value (cx_outcome x)))),
      (lit ''index_identity_sha256'', j_option JStr (cx_index x)),
      (lit ''query_sha256'', j_option JStr (cx_query x)),
      (lit ''query_count'', JInt (cx_query_count x)),
      (lit ''candidate_count'', JInt (cx_candidate_count x)),
      (lit ''selected_hit_count'', JInt (cx_hit_count x)),
      (lit ''hit_identity_sha256'', j_option JStr (cx_hits x)),
      (lit ''degradation_code'', j_option JStr (cx_degradation x))]"

definition context_summary_to_dict :: "context_summary \<Rightarrow> json" where
  "context_summary_to_dict x = JObj (context_summary_items x)"

definition candidate_items :: "repair_candidate \<Rightarrow> (pystr \<times> json) list" where
  "candidate_items x =
     [(lit ''schema_version'', JInt (ca_schema_version x)),
      (lit ''candidate_id'', JStr (ca_id x)),
      (lit ''request_sha256'', JStr (ca_request x)),
      (lit ''prompt'', prompt_identity_to_dict (ca_prompt x)),
      (lit ''context'', context_summary_to_dict (ca_context x)),
      (lit ''diff_sha256'', JStr (ca_diff x)),
      (lit ''tree_oid'', JStr (ca_tree x)),
      (lit ''commit_oid'', JStr (ca_commit x)),
      (lit ''changed_paths'', JList (map JStr (ca_paths x))),
      (lit ''changed_line_count'', JInt (ca_line_count x)),
      (lit ''provider_attempt_count'', JInt (ca_attempt_count x)),
      (lit ''input_tokens'', JInt (ca_input_tokens x)),
      (lit ''output_tokens'', JInt (ca_output_tokens x))]"

definition candidate_to_dict :: "repair_candidate \<Rightarrow> json" where
  "candidate_to_dict x = JObj (candidate_items x)"

definition command_result_items :: "command_result \<Rightarrow> (pystr \<times> json) list" where
  "command_result_items x =
     [(lit ''command_index'', JInt (cr_index x)),
      (lit ''exit_code'', j_option JInt (cr_exit x)),
      (lit ''signal'', j_option JInt (cr_signal x)),
      (lit ''timed_out'', JBool (cr_timed_out x)),
      (lit ''duration_us'', JInt (cr_duration x)),
      (lit ''stdout_sha256'', JStr (cr_stdout x)),
      (lit ''stdout_bytes'', JInt (cr_stdout_bytes x)),
      (lit ''stdout_truncated'', JBool (cr_stdout_truncated x)),
      (lit ''stderr_sha256'', JStr (cr_stderr x)),
      (lit ''stderr_bytes'', JInt (cr_stderr_bytes x)),
      (lit ''stderr_truncated'', JBool (cr_stderr_truncated x))]"

definition command_result_to_dict :: "command_result \<Rightarrow> json" where
  "command_result_to_dict x = JObj (command_result_items x)"

definition validation_items :: "repair_validation \<Rightarrow> (pystr \<times> json) list" where
  "validation_items x =
     [(lit ''schema_version'', JInt (va_schema_version x)),
      (lit ''validation_sha256'', JStr (va_sha256 x)),
      (lit ''candidate_id'', JStr (va_candidate x)),
      (lit ''policy_sha256'', JStr (va_policy x)),
      (lit ''sandbox_manifest_sha256'', JStr (va_manifest x)),
      (lit ''image_id'', JStr (va_image x)),
      (lit ''started_at_us'', JInt (va_started x)),
      (lit ''finished_at_us'', JInt (va_finished x)),
      (lit ''success'', JBool (va_success x)),
      (lit ''failure_kind'', j_option (\<lambda>e. JStr (lit (validation_failure_kind_value e))) (va_failure x)),
      (lit ''command_results'', JList (map command_result_to_dict (va_results x))),
      (lit ''peak_memory_bytes'', JInt (va_peak_memory x)),
      (lit ''oom_killed'', JBool (va_oom_killed x)),
      (lit ''residual_process_count'', JInt (va_residual x)),
      (lit ''workspace_entry_count'', JInt (va_entries x)),
      (lit ''workspace_inode_count'', JInt (va_inodes x)),
      (lit ''tracked_tree_clean'', JBool (va_tree_clean x))]"

definition validation_to_dict :: "repair_validation \<Rightarrow> json" where
  "validation_to_dict x = JObj (validation_items x)"

definition approval_items :: "repair_approval \<Rightarrow> (pystr \<times> json) list" where
  "approval_items x =
     [(lit ''schema_version'', JInt (ap_schema_version x)),
      (lit ''approval_sha256'', JStr (ap_sha256 x)),
      (lit ''candidate_id'', JStr (ap_candidate x)),
      (lit ''validation_sha256'', JStr (ap_validation x)),
      (lit ''subject'', JStr (ap_subject x)),
      (lit ''confirmation'', JStr (ap_confirmation x)),
      (lit ''approved_at_us'', JInt (ap_at x))]"

definition approval_to_dict :: "repair_approval \<Rightarrow> json" where
  "approval_to_dict x = JObj (approval_items x)"

definition application_items :: "repair_application \<Rightarrow> (pystr \<times> json) list" where
  "application_items x =
     [(lit ''schema_version'', JInt (al_schema_version x)),
      (lit ''application_sha256'', JStr (al_sha256 x)),
      (lit ''approval_sha256'', JStr (al_approval x)),
      (lit ''ref'', JStr (al_ref x)),
      (lit ''commit_oid'', JStr (al_commit x)),
      (lit ''applied_at_us'', JInt (al_at x))]"

definition application_to_dict :: "repair_application \<Rightarrow> json" where
  "application_to_dict x = JObj (application_items x)"

definition decision_items :: "repair_decision \<Rightarrow> (pystr \<times> json) list" where
  "decision_items x =
     [(lit ''schema_version'', JInt (de_schema_version x)),
      (lit ''decision_sha256'', JStr (de_sha256 x)),
      (lit ''state'', JStr (lit (repair_state_value (de_state x)))),
      (lit ''subject'', JStr (de_subject x)),
      (lit ''reason'', JStr (de_reason x)),
      (lit ''candidate_id'', j_option JStr (de_candidate x)),
      (lit ''decided_at_us'', JInt (de_at x))]"

definition decision_to_dict :: "repair_decision \<Rightarrow> json" where
  "decision_to_dict x = JObj (decision_items x)"

definition failure_items :: "repair_failure \<Rightarrow> (pystr \<times> json) list" where
  "failure_items x =
     [(lit ''schema_version'', JInt (fl_schema_version x)),
      (lit ''code'', JStr (lit (repair_error_code_value (fl_code x)))),
      (lit ''stage'', JStr (lit (repair_stage_value (fl_stage x)))),
      (lit ''retryable'', JBool (fl_retryable x)),
      (lit ''occurred_at_us'', JInt (fl_at x))]"

definition failure_to_dict :: "repair_failure \<Rightarrow> json" where
  "failure_to_dict x = JObj (failure_items x)"

definition snapshot_items :: "repair_snapshot \<Rightarrow> (pystr \<times> json) list" where
  "snapshot_items x =
     [(lit ''schema_version'', JInt (sn_schema_version x)),
      (lit ''session_id'', JStr (sn_session x)),
      (lit ''state'', JStr (lit (repair_state_value (sn_state x)))),
      (lit ''request_sha256'', JStr (sn_request x)),
      (lit ''created_at_us'', JInt (sn_created x)),
      (lit ''updated_at_us'', JInt (sn_updated x)),
      (lit ''target_count'', JInt (sn_target_count x)),
      (lit ''allowed_paths'', JList (map JStr (sn_paths x))),
      (lit ''candidate'', j_option candidate_to_dict (sn_candidate x)),
      (lit ''validation'', j_option validation_to_dict (sn_validation x)),
      (lit ''approval'', j_option approval_to_dict (sn_approval x)),
      (lit ''application'', j_option application_to_dict (sn_application x)),
      (lit ''decision'', j_option decision_to_dict (sn_decision x)),
      (lit ''failure'', j_option failure_to_dict (sn_failure x)),
      (lit ''cleanup_pending'', JBool (sn_cleanup_pending x))]"

definition snapshot_to_dict :: "repair_snapshot \<Rightarrow> json" where
  "snapshot_to_dict x = JObj (snapshot_items x)"

definition preview_items :: "repair_preview \<Rightarrow> (pystr \<times> json) list" where
  "preview_items x =
     [(lit ''schema_version'', JInt (pv_schema_version x)),
      (lit ''session_id'', JStr (pv_session x)),
      (lit ''state'', JStr (lit (repair_state_value (pv_state x)))),
      (lit ''candidate_id'', JStr (pv_candidate x)),
      (lit ''validation_sha256'', j_option JStr (pv_validation x)),
      (lit ''changed_paths'', JList (map JStr (pv_paths x))),
      (lit ''canonical_diff'', JStr (pv_diff x)),
      (lit ''confirmation'', JStr (pv_confirmation x))]"

definition preview_to_dict :: "repair_preview \<Rightarrow> json" where
  "preview_to_dict x = JObj (preview_items x)"

section \<open>Exact values\<close>

text \<open>A mapping whose keys have been checked, as a lookup function; \<open>JOther\<close> stands for no value.\<close>

type_synonym mapping = "pystr \<Rightarrow> json"

definition lookup :: "(pystr \<times> json) list \<Rightarrow> mapping" where
  "lookup kvs k = (case map_of kvs k of None \<Rightarrow> JOther | Some v \<Rightarrow> v)"

definition exact_mapping :: "string list \<Rightarrow> json \<Rightarrow> py_error + mapping" where
  "exact_mapping keys v =
     (case v of JObj kvs \<Rightarrow> if set (map fst kvs) = set (map lit keys) then Inr (lookup kvs) else Inl PyValueError
      | _ \<Rightarrow> Inl PyValueError)"

definition exact_list :: "json \<Rightarrow> py_error + json list" where
  "exact_list v = (case v of JList xs \<Rightarrow> Inr xs | _ \<Rightarrow> Inl PyTypeError)"

definition exact_str :: "json \<Rightarrow> py_error + pystr" where
  "exact_str v = (case v of JStr s \<Rightarrow> Inr s | _ \<Rightarrow> Inl PyTypeError)"

definition exact_int :: "json \<Rightarrow> py_error + int" where
  "exact_int v = (case v of JInt i \<Rightarrow> Inr i | _ \<Rightarrow> Inl PyTypeError)"

definition exact_bool :: "json \<Rightarrow> py_error + bool" where
  "exact_bool v = (case v of JBool b \<Rightarrow> Inr b | _ \<Rightarrow> Inl PyTypeError)"

definition optional_record :: "(json \<Rightarrow> py_error + 'a) \<Rightarrow> json \<Rightarrow> py_error + 'a option" where
  "optional_record decoder v = (if v = JNull then Inr None else and_then (decoder v) (\<lambda>x. Inr (Some x)))"

definition optional_str :: "json \<Rightarrow> py_error + pystr option" where
  "optional_str v = optional_record exact_str v"

definition optional_int :: "json \<Rightarrow> py_error + int option" where
  "optional_int v = optional_record exact_int v"

definition exact_enum :: "('e \<Rightarrow> string) \<Rightarrow> 'e list \<Rightarrow> json \<Rightarrow> py_error + 'e" where
  "exact_enum f all v = and_then (exact_str v) (enum_value f all)"

definition optional_enum :: "('e \<Rightarrow> string) \<Rightarrow> 'e list \<Rightarrow> json \<Rightarrow> py_error + 'e option" where
  "optional_enum f all v = optional_record (exact_enum f all) v"

definition exact_records :: "(json \<Rightarrow> py_error + 'a) \<Rightarrow> json \<Rightarrow> py_error + 'a list" where
  "exact_records decoder v = and_then (exact_list v) (map_res decoder)"

definition exact_strs :: "json \<Rightarrow> py_error + pystr list" where
  "exact_strs v = exact_records exact_str v"

definition checked :: "('a \<Rightarrow> bool) \<Rightarrow> 'a \<Rightarrow> py_error + 'a" where
  "checked P x = and_then (require (P x) PyValueError) (\<lambda>_. Inr x)"

section \<open>Decoders\<close>

definition prompt_identity_keys :: "string list" where
  "prompt_identity_keys =
    [''name'', ''version'', ''system_sha256'', ''response_schema_sha256'', ''combined_sha256'']"

definition prompt_identity_from_dict :: "unicode_db \<Rightarrow> json \<Rightarrow> py_error + prompt_identity" where
  "prompt_identity_from_dict ud v =
     and_then (exact_mapping prompt_identity_keys v) (\<lambda>m.
     and_then (exact_str (m (lit ''name''))) (\<lambda>x0.
     and_then (exact_int (m (lit ''version''))) (\<lambda>x1.
     and_then (exact_str (m (lit ''system_sha256''))) (\<lambda>x2.
     and_then (exact_str (m (lit ''response_schema_sha256''))) (\<lambda>x3.
     and_then (exact_str (m (lit ''combined_sha256''))) (\<lambda>x4.
     checked (prompt_identity_ok ud)
       \<lparr>pi_name = x0, pi_version = x1, pi_system = x2, pi_schema = x3,
         pi_combined = x4\<rparr>))))))"

definition context_summary_keys :: "string list" where
  "context_summary_keys =
    [''outcome'', ''index_identity_sha256'', ''query_sha256'', ''query_count'',
     ''candidate_count'', ''selected_hit_count'', ''hit_identity_sha256'', ''degradation_code'']"

definition context_summary_from_dict :: "json \<Rightarrow> py_error + context_summary" where
  "context_summary_from_dict v =
     and_then (exact_mapping context_summary_keys v) (\<lambda>m.
     and_then (exact_enum repair_context_outcome_value all_repair_context_outcome (m (lit ''outcome''))) (\<lambda>x0.
     and_then (optional_str (m (lit ''index_identity_sha256''))) (\<lambda>x1.
     and_then (optional_str (m (lit ''query_sha256''))) (\<lambda>x2.
     and_then (exact_int (m (lit ''query_count''))) (\<lambda>x3.
     and_then (exact_int (m (lit ''candidate_count''))) (\<lambda>x4.
     and_then (exact_int (m (lit ''selected_hit_count''))) (\<lambda>x5.
     and_then (optional_str (m (lit ''hit_identity_sha256''))) (\<lambda>x6.
     and_then (optional_str (m (lit ''degradation_code''))) (\<lambda>x7.
     checked (context_summary_ok)
       \<lparr>cx_outcome = x0, cx_index = x1, cx_query = x2, cx_query_count = x3,
         cx_candidate_count = x4, cx_hit_count = x5, cx_hits = x6, cx_degradation = x7\<rparr>)))))))))"

definition candidate_keys :: "string list" where
  "candidate_keys =
    [''schema_version'', ''candidate_id'', ''request_sha256'', ''prompt'', ''context'',
     ''diff_sha256'', ''tree_oid'', ''commit_oid'', ''changed_paths'', ''changed_line_count'',
     ''provider_attempt_count'', ''input_tokens'', ''output_tokens'']"

definition candidate_from_dict :: "unicode_db \<Rightarrow> json \<Rightarrow> py_error + repair_candidate" where
  "candidate_from_dict ud v =
     and_then (exact_mapping candidate_keys v) (\<lambda>m.
     and_then (exact_int (m (lit ''schema_version''))) (\<lambda>x0.
     and_then (exact_str (m (lit ''candidate_id''))) (\<lambda>x1.
     and_then (exact_str (m (lit ''request_sha256''))) (\<lambda>x2.
     and_then (prompt_identity_from_dict ud (m (lit ''prompt''))) (\<lambda>x3.
     and_then (context_summary_from_dict (m (lit ''context''))) (\<lambda>x4.
     and_then (exact_str (m (lit ''diff_sha256''))) (\<lambda>x5.
     and_then (exact_str (m (lit ''tree_oid''))) (\<lambda>x6.
     and_then (exact_str (m (lit ''commit_oid''))) (\<lambda>x7.
     and_then (exact_strs (m (lit ''changed_paths''))) (\<lambda>x8.
     and_then (exact_int (m (lit ''changed_line_count''))) (\<lambda>x9.
     and_then (exact_int (m (lit ''provider_attempt_count''))) (\<lambda>x10.
     and_then (exact_int (m (lit ''input_tokens''))) (\<lambda>x11.
     and_then (exact_int (m (lit ''output_tokens''))) (\<lambda>x12.
     checked (candidate_ok ud)
       \<lparr>ca_schema_version = x0, ca_id = x1, ca_request = x2, ca_prompt = x3,
         ca_context = x4, ca_diff = x5, ca_tree = x6, ca_commit = x7, ca_paths = x8,
         ca_line_count = x9, ca_attempt_count = x10, ca_input_tokens = x11,
         ca_output_tokens = x12\<rparr>))))))))))))))"

definition command_result_keys :: "string list" where
  "command_result_keys =
    [''command_index'', ''exit_code'', ''signal'', ''timed_out'', ''duration_us'',
     ''stdout_sha256'', ''stdout_bytes'', ''stdout_truncated'', ''stderr_sha256'',
     ''stderr_bytes'', ''stderr_truncated'']"

definition command_result_from_dict :: "json \<Rightarrow> py_error + command_result" where
  "command_result_from_dict v =
     and_then (exact_mapping command_result_keys v) (\<lambda>m.
     and_then (exact_int (m (lit ''command_index''))) (\<lambda>x0.
     and_then (optional_int (m (lit ''exit_code''))) (\<lambda>x1.
     and_then (optional_int (m (lit ''signal''))) (\<lambda>x2.
     and_then (exact_bool (m (lit ''timed_out''))) (\<lambda>x3.
     and_then (exact_int (m (lit ''duration_us''))) (\<lambda>x4.
     and_then (exact_str (m (lit ''stdout_sha256''))) (\<lambda>x5.
     and_then (exact_int (m (lit ''stdout_bytes''))) (\<lambda>x6.
     and_then (exact_bool (m (lit ''stdout_truncated''))) (\<lambda>x7.
     and_then (exact_str (m (lit ''stderr_sha256''))) (\<lambda>x8.
     and_then (exact_int (m (lit ''stderr_bytes''))) (\<lambda>x9.
     and_then (exact_bool (m (lit ''stderr_truncated''))) (\<lambda>x10.
     checked (command_result_ok)
       \<lparr>cr_index = x0, cr_exit = x1, cr_signal = x2, cr_timed_out = x3, cr_duration = x4,
         cr_stdout = x5, cr_stdout_bytes = x6, cr_stdout_truncated = x7, cr_stderr = x8,
         cr_stderr_bytes = x9, cr_stderr_truncated = x10\<rparr>))))))))))))"

definition validation_keys :: "string list" where
  "validation_keys =
    [''schema_version'', ''validation_sha256'', ''candidate_id'', ''policy_sha256'',
     ''sandbox_manifest_sha256'', ''image_id'', ''started_at_us'', ''finished_at_us'', ''success'',
     ''failure_kind'', ''command_results'', ''peak_memory_bytes'', ''oom_killed'',
     ''residual_process_count'', ''workspace_entry_count'', ''workspace_inode_count'',
     ''tracked_tree_clean'']"

definition validation_from_dict :: "json \<Rightarrow> py_error + repair_validation" where
  "validation_from_dict v =
     and_then (exact_mapping validation_keys v) (\<lambda>m.
     and_then (optional_str (m (lit ''failure_kind''))) (\<lambda>_.
     and_then (exact_int (m (lit ''schema_version''))) (\<lambda>x0.
     and_then (exact_str (m (lit ''validation_sha256''))) (\<lambda>x1.
     and_then (exact_str (m (lit ''candidate_id''))) (\<lambda>x2.
     and_then (exact_str (m (lit ''policy_sha256''))) (\<lambda>x3.
     and_then (exact_str (m (lit ''sandbox_manifest_sha256''))) (\<lambda>x4.
     and_then (exact_str (m (lit ''image_id''))) (\<lambda>x5.
     and_then (exact_int (m (lit ''started_at_us''))) (\<lambda>x6.
     and_then (exact_int (m (lit ''finished_at_us''))) (\<lambda>x7.
     and_then (exact_bool (m (lit ''success''))) (\<lambda>x8.
     and_then (optional_enum validation_failure_kind_value all_validation_failure_kind (m (lit ''failure_kind''))) (\<lambda>x9.
     and_then (exact_records command_result_from_dict (m (lit ''command_results''))) (\<lambda>x10.
     and_then (exact_int (m (lit ''peak_memory_bytes''))) (\<lambda>x11.
     and_then (exact_bool (m (lit ''oom_killed''))) (\<lambda>x12.
     and_then (exact_int (m (lit ''residual_process_count''))) (\<lambda>x13.
     and_then (exact_int (m (lit ''workspace_entry_count''))) (\<lambda>x14.
     and_then (exact_int (m (lit ''workspace_inode_count''))) (\<lambda>x15.
     and_then (exact_bool (m (lit ''tracked_tree_clean''))) (\<lambda>x16.
     checked (validation_ok)
       \<lparr>va_schema_version = x0, va_sha256 = x1, va_candidate = x2, va_policy = x3,
         va_manifest = x4, va_image = x5, va_started = x6, va_finished = x7, va_success = x8,
         va_failure = x9, va_results = x10, va_peak_memory = x11, va_oom_killed = x12,
         va_residual = x13, va_entries = x14, va_inodes = x15, va_tree_clean = x16\<rparr>)))))))))))))))))))"

definition approval_keys :: "string list" where
  "approval_keys =
    [''schema_version'', ''approval_sha256'', ''candidate_id'', ''validation_sha256'', ''subject'',
     ''confirmation'', ''approved_at_us'']"

definition approval_from_dict :: "unicode_db \<Rightarrow> json \<Rightarrow> py_error + repair_approval" where
  "approval_from_dict ud v =
     and_then (exact_mapping approval_keys v) (\<lambda>m.
     and_then (exact_int (m (lit ''schema_version''))) (\<lambda>x0.
     and_then (exact_str (m (lit ''approval_sha256''))) (\<lambda>x1.
     and_then (exact_str (m (lit ''candidate_id''))) (\<lambda>x2.
     and_then (exact_str (m (lit ''validation_sha256''))) (\<lambda>x3.
     and_then (exact_str (m (lit ''subject''))) (\<lambda>x4.
     and_then (exact_str (m (lit ''confirmation''))) (\<lambda>x5.
     and_then (exact_int (m (lit ''approved_at_us''))) (\<lambda>x6.
     checked (approval_ok ud)
       \<lparr>ap_schema_version = x0, ap_sha256 = x1, ap_candidate = x2, ap_validation = x3,
         ap_subject = x4, ap_confirmation = x5, ap_at = x6\<rparr>))))))))"

definition application_keys :: "string list" where
  "application_keys =
    [''schema_version'', ''application_sha256'', ''approval_sha256'', ''ref'', ''commit_oid'',
     ''applied_at_us'']"

definition application_from_dict :: "json \<Rightarrow> py_error + repair_application" where
  "application_from_dict v =
     and_then (exact_mapping application_keys v) (\<lambda>m.
     and_then (exact_int (m (lit ''schema_version''))) (\<lambda>x0.
     and_then (exact_str (m (lit ''application_sha256''))) (\<lambda>x1.
     and_then (exact_str (m (lit ''approval_sha256''))) (\<lambda>x2.
     and_then (exact_str (m (lit ''ref''))) (\<lambda>x3.
     and_then (exact_str (m (lit ''commit_oid''))) (\<lambda>x4.
     and_then (exact_int (m (lit ''applied_at_us''))) (\<lambda>x5.
     checked (application_ok)
       \<lparr>al_schema_version = x0, al_sha256 = x1, al_approval = x2, al_ref = x3,
         al_commit = x4, al_at = x5\<rparr>)))))))"

definition decision_keys :: "string list" where
  "decision_keys =
    [''schema_version'', ''decision_sha256'', ''state'', ''subject'', ''reason'', ''candidate_id'',
     ''decided_at_us'']"

definition decision_from_dict :: "unicode_db \<Rightarrow> json \<Rightarrow> py_error + repair_decision" where
  "decision_from_dict ud v =
     and_then (exact_mapping decision_keys v) (\<lambda>m.
     and_then (exact_int (m (lit ''schema_version''))) (\<lambda>x0.
     and_then (exact_str (m (lit ''decision_sha256''))) (\<lambda>x1.
     and_then (exact_enum repair_state_value all_repair_state (m (lit ''state''))) (\<lambda>x2.
     and_then (exact_str (m (lit ''subject''))) (\<lambda>x3.
     and_then (exact_str (m (lit ''reason''))) (\<lambda>x4.
     and_then (optional_str (m (lit ''candidate_id''))) (\<lambda>x5.
     and_then (exact_int (m (lit ''decided_at_us''))) (\<lambda>x6.
     checked (decision_ok ud)
       \<lparr>de_schema_version = x0, de_sha256 = x1, de_state = x2, de_subject = x3,
         de_reason = x4, de_candidate = x5, de_at = x6\<rparr>))))))))"

definition failure_keys :: "string list" where
  "failure_keys =
    [''schema_version'', ''code'', ''stage'', ''retryable'', ''occurred_at_us'']"

definition failure_from_dict :: "json \<Rightarrow> py_error + repair_failure" where
  "failure_from_dict v =
     and_then (exact_mapping failure_keys v) (\<lambda>m.
     and_then (exact_int (m (lit ''schema_version''))) (\<lambda>x0.
     and_then (exact_enum repair_error_code_value all_repair_error_code (m (lit ''code''))) (\<lambda>x1.
     and_then (exact_enum repair_stage_value all_repair_stage (m (lit ''stage''))) (\<lambda>x2.
     and_then (exact_bool (m (lit ''retryable''))) (\<lambda>x3.
     and_then (exact_int (m (lit ''occurred_at_us''))) (\<lambda>x4.
     checked (failure_ok)
       \<lparr>fl_schema_version = x0, fl_code = x1, fl_stage = x2, fl_retryable = x3,
         fl_at = x4\<rparr>))))))"

definition snapshot_keys :: "string list" where
  "snapshot_keys =
    [''schema_version'', ''session_id'', ''state'', ''request_sha256'', ''created_at_us'',
     ''updated_at_us'', ''target_count'', ''allowed_paths'', ''candidate'', ''validation'',
     ''approval'', ''application'', ''decision'', ''failure'', ''cleanup_pending'']"

definition snapshot_from_dict :: "unicode_db \<Rightarrow> json \<Rightarrow> py_error + repair_snapshot" where
  "snapshot_from_dict ud v =
     and_then (exact_mapping snapshot_keys v) (\<lambda>m.
     and_then (exact_int (m (lit ''schema_version''))) (\<lambda>x0.
     and_then (exact_str (m (lit ''session_id''))) (\<lambda>x1.
     and_then (exact_enum repair_state_value all_repair_state (m (lit ''state''))) (\<lambda>x2.
     and_then (exact_str (m (lit ''request_sha256''))) (\<lambda>x3.
     and_then (exact_int (m (lit ''created_at_us''))) (\<lambda>x4.
     and_then (exact_int (m (lit ''updated_at_us''))) (\<lambda>x5.
     and_then (exact_int (m (lit ''target_count''))) (\<lambda>x6.
     and_then (exact_strs (m (lit ''allowed_paths''))) (\<lambda>x7.
     and_then (optional_record (candidate_from_dict ud) (m (lit ''candidate''))) (\<lambda>x8.
     and_then (optional_record validation_from_dict (m (lit ''validation''))) (\<lambda>x9.
     and_then (optional_record (approval_from_dict ud) (m (lit ''approval''))) (\<lambda>x10.
     and_then (optional_record application_from_dict (m (lit ''application''))) (\<lambda>x11.
     and_then (optional_record (decision_from_dict ud) (m (lit ''decision''))) (\<lambda>x12.
     and_then (optional_record failure_from_dict (m (lit ''failure''))) (\<lambda>x13.
     and_then (exact_bool (m (lit ''cleanup_pending''))) (\<lambda>x14.
     checked (snapshot_ok ud)
       \<lparr>sn_schema_version = x0, sn_session = x1, sn_state = x2, sn_request = x3,
         sn_created = x4, sn_updated = x5, sn_target_count = x6, sn_paths = x7, sn_candidate = x8,
         sn_validation = x9, sn_approval = x10, sn_application = x11, sn_decision = x12,
         sn_failure = x13, sn_cleanup_pending = x14\<rparr>))))))))))))))))"

definition preview_keys :: "string list" where
  "preview_keys =
    [''schema_version'', ''session_id'', ''state'', ''candidate_id'', ''validation_sha256'',
     ''changed_paths'', ''canonical_diff'', ''confirmation'']"

definition preview_from_dict :: "unicode_db \<Rightarrow> json \<Rightarrow> py_error + repair_preview" where
  "preview_from_dict ud v =
     and_then (exact_mapping preview_keys v) (\<lambda>m.
     and_then (exact_int (m (lit ''schema_version''))) (\<lambda>x0.
     and_then (exact_str (m (lit ''session_id''))) (\<lambda>x1.
     and_then (exact_enum repair_state_value all_repair_state (m (lit ''state''))) (\<lambda>x2.
     and_then (exact_str (m (lit ''candidate_id''))) (\<lambda>x3.
     and_then (optional_str (m (lit ''validation_sha256''))) (\<lambda>x4.
     and_then (exact_strs (m (lit ''changed_paths''))) (\<lambda>x5.
     and_then (exact_str (m (lit ''canonical_diff''))) (\<lambda>x6.
     and_then (exact_str (m (lit ''confirmation''))) (\<lambda>x7.
     checked (preview_ok ud)
       \<lparr>pv_schema_version = x0, pv_session = x1, pv_state = x2, pv_candidate = x3,
         pv_validation = x4, pv_paths = x5, pv_diff = x6, pv_confirmation = x7\<rparr>)))))))))"

end
