(* ===== verification/Repair_Store.thy ===== *)
theory Repair_Store
  imports Repair_Codec Repair_Paths
begin

text \<open>
  The event log of a repair session, \<open>src/repoguard/_repair_store.py\<close>: one immutable file per event,
  each carrying the digest of the one before, the complete snapshot, and what a validation run holds.
  \<open>load_event_chain\<close> replays and checks the whole directory; \<open>append\<close> checks one event against the
  state it loads and writes the next file.

  A directory is the list of its entries, name and content. File metadata (owner, mode, link count),
  descriptors and locks are not modelled. The environment of a run is the Unicode tables, the float
  reader, the integer a float is equal to when there is one, and the hash function.
\<close>

record repair_env =
  rp_unicode :: unicode_db
  rp_float :: "pystr \<Rightarrow> pyfloat"
  rp_float_int :: "pystr \<Rightarrow> int option"
  rp_sha256 :: "bytes \<Rightarrow> pystr"

section \<open>Event kinds\<close>

datatype event_kind =
    K_created | K_generating | K_candidate | K_validating | K_validation_intent
  | K_validation_intent_abandoned | K_validation_run | K_validation_result | K_validated | K_approved
  | K_applying | K_applied | K_rejected | K_cancelled | K_expired | K_failed | K_application_conflict
  | K_recovered | K_cleanup_complete | K_cleanup_pending

fun event_kind_value :: "event_kind \<Rightarrow> string" where
  "event_kind_value K_created = ''created''"
| "event_kind_value K_generating = ''generating''"
| "event_kind_value K_candidate = ''candidate''"
| "event_kind_value K_validating = ''validating''"
| "event_kind_value K_validation_intent = ''validation_intent''"
| "event_kind_value K_validation_intent_abandoned = ''validation_intent_abandoned''"
| "event_kind_value K_validation_run = ''validation_run''"
| "event_kind_value K_validation_result = ''validation_result''"
| "event_kind_value K_validated = ''validated''"
| "event_kind_value K_approved = ''approved''"
| "event_kind_value K_applying = ''applying''"
| "event_kind_value K_applied = ''applied''"
| "event_kind_value K_rejected = ''rejected''"
| "event_kind_value K_cancelled = ''cancelled''"
| "event_kind_value K_expired = ''expired''"
| "event_kind_value K_failed = ''failed''"
| "event_kind_value K_application_conflict = ''application_conflict''"
| "event_kind_value K_recovered = ''recovered''"
| "event_kind_value K_cleanup_complete = ''cleanup_complete''"
| "event_kind_value K_cleanup_pending = ''cleanup_pending''"

definition all_event_kind :: "event_kind list" where
  "all_event_kind =
    [K_created, K_generating, K_candidate, K_validating, K_validation_intent,
     K_validation_intent_abandoned, K_validation_run, K_validation_result, K_validated, K_approved,
     K_applying, K_applied, K_rejected, K_cancelled, K_expired, K_failed, K_application_conflict,
     K_recovered, K_cleanup_complete, K_cleanup_pending]"

fun event_state_pairs :: "event_kind \<Rightarrow> (repair_state \<times> repair_state) list option" where
  "event_state_pairs K_created = None"
| "event_state_pairs K_generating = Some [(CREATED, GENERATING)]"
| "event_state_pairs K_candidate = Some [(GENERATING, GENERATING)]"
| "event_state_pairs K_validating = Some [(GENERATING, VALIDATING)]"
| "event_state_pairs K_validation_intent = Some [(VALIDATING, VALIDATING)]"
| "event_state_pairs K_validation_intent_abandoned = Some [(VALIDATING, VALIDATING)]"
| "event_state_pairs K_validation_run =
     Some [(VALIDATING, VALIDATING), (CANCELLED, CANCELLED), (EXPIRED, EXPIRED), (FAILED, FAILED)]"
| "event_state_pairs K_validation_result = Some [(VALIDATING, VALIDATING)]"
| "event_state_pairs K_validated = Some [(VALIDATING, VALIDATED)]"
| "event_state_pairs K_approved = Some [(VALIDATED, APPROVED)]"
| "event_state_pairs K_applying = Some [(APPROVED, APPLYING)]"
| "event_state_pairs K_applied = Some [(APPLYING, APPLIED)]"
| "event_state_pairs K_rejected = Some [(VALIDATED, REJECTED), (APPROVED, REJECTED)]"
| "event_state_pairs K_cancelled =
     Some [(CREATED, CANCELLED), (GENERATING, CANCELLED), (VALIDATING, CANCELLED),
       (VALIDATED, CANCELLED), (APPROVED, CANCELLED)]"
| "event_state_pairs K_expired =
     Some [(CREATED, EXPIRED), (GENERATING, EXPIRED), (VALIDATING, EXPIRED), (VALIDATED, EXPIRED),
       (APPROVED, EXPIRED)]"
| "event_state_pairs K_failed = Some [(GENERATING, FAILED), (VALIDATING, FAILED)]"
| "event_state_pairs K_application_conflict = Some [(APPLYING, APPROVED)]"
| "event_state_pairs K_recovered = Some [(APPLYING, APPROVED)]"
| "event_state_pairs K_cleanup_complete = Some (map (\<lambda>s. (s, s)) terminal_states)"
| "event_state_pairs K_cleanup_pending = Some (map (\<lambda>s. (s, s)) terminal_states)"

definition can_transition_or_same :: "repair_state \<Rightarrow> repair_state \<Rightarrow> bool" where
  "can_transition_or_same previous current \<longleftrightarrow> previous = current \<or> can_transition previous current"

definition event_state_pair_is_valid :: "event_kind \<Rightarrow> repair_state \<Rightarrow> repair_state \<Rightarrow> bool" where
  "event_state_pair_is_valid kind previous current \<longleftrightarrow>
     (case event_state_pairs kind of
        None \<Rightarrow> False
      | Some pairs \<Rightarrow> (previous, current) \<in> set pairs \<and> can_transition_or_same previous current)"

text \<open>The mutable fields of a snapshot, and those each kind of event changes.\<close>

datatype mutable_field =
  F_candidate | F_validation | F_approval | F_application | F_decision | F_failure | F_cleanup_pending

definition changed_fields :: "repair_snapshot \<Rightarrow> repair_snapshot \<Rightarrow> mutable_field set" where
  "changed_fields p c =
     set ((if sn_candidate p \<noteq> sn_candidate c then [F_candidate] else []) @
       (if sn_validation p \<noteq> sn_validation c then [F_validation] else []) @
       (if sn_approval p \<noteq> sn_approval c then [F_approval] else []) @
       (if sn_application p \<noteq> sn_application c then [F_application] else []) @
       (if sn_decision p \<noteq> sn_decision c then [F_decision] else []) @
       (if sn_failure p \<noteq> sn_failure c then [F_failure] else []) @
       (if sn_cleanup_pending p \<noteq> sn_cleanup_pending c then [F_cleanup_pending] else []))"

fun event_snapshot_changes :: "event_kind \<Rightarrow> mutable_field set option" where
  "event_snapshot_changes K_generating = Some {}"
| "event_snapshot_changes K_candidate = Some {F_candidate}"
| "event_snapshot_changes K_validating = Some {}"
| "event_snapshot_changes K_validation_intent = Some {}"
| "event_snapshot_changes K_validation_intent_abandoned = Some {}"
| "event_snapshot_changes K_validation_run = Some {}"
| "event_snapshot_changes K_validation_result = Some {F_validation}"
| "event_snapshot_changes K_validated = Some {}"
| "event_snapshot_changes K_approved = Some {F_approval}"
| "event_snapshot_changes K_applying = Some {}"
| "event_snapshot_changes K_applied = Some {F_application, F_cleanup_pending}"
| "event_snapshot_changes K_rejected = Some {F_decision, F_cleanup_pending}"
| "event_snapshot_changes K_cancelled = Some {F_decision, F_cleanup_pending}"
| "event_snapshot_changes K_expired = Some {F_decision, F_cleanup_pending}"
| "event_snapshot_changes K_failed = Some {F_failure, F_cleanup_pending}"
| "event_snapshot_changes K_application_conflict = Some {}"
| "event_snapshot_changes K_recovered = Some {}"
| "event_snapshot_changes K_cleanup_complete = Some {F_cleanup_pending}"
| "event_snapshot_changes K_created = None"
| "event_snapshot_changes K_cleanup_pending = None"

definition lease_carry_states :: "repair_state list" where
  "lease_carry_states = [VALIDATING, CANCELLED, EXPIRED, FAILED]"

section \<open>Validation run leases\<close>

record validation_lease =
  ls_container :: "pystr option"
  ls_name :: pystr
  ls_labels :: "(pystr \<times> pystr) list"
  ls_session :: pystr
  ls_candidate :: pystr
  ls_token :: pystr

definition is_alnum :: "nat \<Rightarrow> bool" where
  "is_alnum c \<longleftrightarrow> (48 \<le> c \<and> c \<le> 57) \<or> (65 \<le> c \<and> c \<le> 90) \<or> (97 \<le> c \<and> c \<le> 122)"

definition is_container_name :: "pystr \<Rightarrow> bool" where
  "is_container_name s \<longleftrightarrow>
     s \<noteq> [] \<and> length s \<le> 128 \<and> is_alnum (hd s) \<and>
     list_all (\<lambda>c. is_alnum c \<or> c = 95 \<or> c = 46 \<or> c = 45) (tl s)"

definition lease_labels :: "validation_lease \<Rightarrow> (pystr \<times> pystr) list" where
  "lease_labels l =
     [(lit ''com.repoguard.component'', lit ''safe-repair-validation''),
      (lit ''com.repoguard.session'', ls_session l),
      (lit ''com.repoguard.candidate'', ls_candidate l),
      (lit ''com.repoguard.run-token-sha256'', ls_token l)]"

definition lease_ok :: "validation_lease \<Rightarrow> bool" where
  "lease_ok l \<longleftrightarrow>
     opt_all is_sha256 (ls_container l) \<and>
     is_sha256 (ls_session l) \<and> is_sha256 (ls_candidate l) \<and> is_sha256 (ls_token l) \<and>
     is_container_name (ls_name l) \<and>
     sorted (ls_labels l) \<and> distinct (map fst (ls_labels l)) \<and>
     set (ls_labels l) = set (lease_labels l)"

definition lease_items :: "validation_lease \<Rightarrow> (pystr \<times> json) list" where
  "lease_items l =
     [(lit ''container_id'', j_option JStr (ls_container l)),
      (lit ''container_name'', JStr (ls_name l)),
      (lit ''labels'', JList (map (\<lambda>(n, v). JList [JStr n, JStr v]) (ls_labels l))),
      (lit ''session_id'', JStr (ls_session l)),
      (lit ''candidate_id'', JStr (ls_candidate l)),
      (lit ''run_token_sha256'', JStr (ls_token l))]"

definition lease_to_dict :: "validation_lease \<Rightarrow> json" where
  "lease_to_dict l = JObj (lease_items l)"

definition lease_keys :: "string list" where
  "lease_keys =
     [''container_id'', ''container_name'', ''labels'', ''session_id'', ''candidate_id'', ''run_token_sha256'']"

definition label_from_json :: "json \<Rightarrow> py_error + pystr \<times> pystr" where
  "label_from_json v =
     (case v of JList [JStr n, JStr x] \<Rightarrow> Inr (n, x) | _ \<Rightarrow> Inl PyValueError)"

definition lease_from_dict :: "json \<Rightarrow> py_error + validation_lease" where
  "lease_from_dict v =
     and_then (exact_mapping lease_keys v) (\<lambda>m.
     and_then (exact_records label_from_json (m (lit ''labels''))) (\<lambda>labels.
     and_then (exact_str (m (lit ''container_name''))) (\<lambda>name.
     and_then (exact_str (m (lit ''session_id''))) (\<lambda>session.
     and_then (exact_str (m (lit ''candidate_id''))) (\<lambda>candidate.
     and_then (exact_str (m (lit ''run_token_sha256''))) (\<lambda>token.
     and_then (optional_str (m (lit ''container_id''))) (\<lambda>container.
     checked lease_ok
       \<lparr>ls_container = container, ls_name = name, ls_labels = labels, ls_session = session,
         ls_candidate = candidate, ls_token = token\<rparr>)))))))"

section \<open>Digests\<close>

text \<open>\<open>_canonical_bytes\<close>: the text of a dict, without a bound on its depth.\<close>

definition rm_canonical_bytes :: "json \<Rightarrow> py_error + bytes" where
  "rm_canonical_bytes v =
     (case v of
        JObj kvs \<Rightarrow>
          if json_plain v \<and> json_digits_ok v
          then (case utf8_encode (json_text v) of None \<Rightarrow> Inl PyValueError | Some b \<Rightarrow> Inr b)
          else Inl PyValueError
      | _ \<Rightarrow> Inl PyTypeError)"

definition digest_domain :: "string \<Rightarrow> pystr" where
  "digest_domain kind = lit ''repoguard.m5.'' @ lit kind @ lit ''.v1''"

definition rm_domain_digest :: "repair_env \<Rightarrow> string \<Rightarrow> json \<Rightarrow> py_error + pystr" where
  "rm_domain_digest env kind v =
     and_then (rm_canonical_bytes v) (\<lambda>b. Inr (rp_sha256 env (digest_domain kind @ 0 # b)))"

definition drop_keys :: "string list \<Rightarrow> (pystr \<times> json) list \<Rightarrow> json" where
  "drop_keys names kvs = JObj (filter (\<lambda>kv. fst kv \<notin> set (map lit names)) kvs)"

text \<open>One record of a snapshot against the digest it carries: absent records pass.\<close>

definition record_digest_is_valid ::
  "repair_env \<Rightarrow> string \<Rightarrow> ('a \<Rightarrow> json) \<Rightarrow> ('a \<Rightarrow> pystr) \<Rightarrow> 'a option \<Rightarrow> py_error + bool" where
  "record_digest_is_valid env kind mapping digest r =
     (case r of None \<Rightarrow> Inr True
      | Some x \<Rightarrow> and_then (rm_domain_digest env kind (mapping x)) (\<lambda>d. Inr (digest x = d)))"

definition candidate_digest_mapping :: "repair_candidate \<Rightarrow> json" where
  "candidate_digest_mapping c =
     drop_keys [''candidate_id'', ''changed_paths'', ''changed_line_count'', ''provider_attempt_count'',
       ''input_tokens'', ''output_tokens''] (candidate_items c)"

definition validation_digest_mapping :: "repair_validation \<Rightarrow> json" where
  "validation_digest_mapping v = drop_keys [''validation_sha256''] (validation_items v)"

definition approval_digest_mapping :: "repair_approval \<Rightarrow> json" where
  "approval_digest_mapping a = drop_keys [''approval_sha256''] (approval_items a)"

definition application_digest_mapping :: "repair_application \<Rightarrow> json" where
  "application_digest_mapping a = drop_keys [''application_sha256''] (application_items a)"

definition decision_digest_mapping :: "repair_decision \<Rightarrow> json" where
  "decision_digest_mapping d = drop_keys [''decision_sha256''] (decision_items d)"

text \<open>The checks run in order and stop at the first record that fails.\<close>

definition both :: "py_error + bool \<Rightarrow> py_error + bool \<Rightarrow> py_error + bool" where
  "both m n = and_then m (\<lambda>b. if b then n else Inr False)"

definition snapshot_record_digests_are_valid :: "repair_env \<Rightarrow> repair_snapshot \<Rightarrow> py_error + bool" where
  "snapshot_record_digests_are_valid env s =
     both (record_digest_is_valid env ''candidate'' candidate_digest_mapping ca_id (sn_candidate s))
    (both (record_digest_is_valid env ''validation'' validation_digest_mapping va_sha256 (sn_validation s))
    (both (record_digest_is_valid env ''approval'' approval_digest_mapping ap_sha256 (sn_approval s))
    (both (record_digest_is_valid env ''application'' application_digest_mapping al_sha256 (sn_application s))
      (record_digest_is_valid env ''decision'' decision_digest_mapping de_sha256 (sn_decision s)))))"

section \<open>Updates\<close>

definition same_identity :: "repair_snapshot \<Rightarrow> repair_snapshot \<Rightarrow> bool" where
  "same_identity p c \<longleftrightarrow>
     sn_schema_version p = sn_schema_version c \<and> sn_session p = sn_session c \<and>
     sn_request p = sn_request c \<and> sn_created p = sn_created c \<and>
     sn_target_count p = sn_target_count c \<and> sn_paths p = sn_paths c"

definition snapshot_update_is_valid :: "event_kind \<Rightarrow> repair_snapshot \<Rightarrow> repair_snapshot \<Rightarrow> bool" where
  "snapshot_update_is_valid kind p c =
     (if \<not> same_identity p c then False
      else if kind = K_cleanup_pending then changed_fields p c \<subseteq> {F_cleanup_pending} \<and> sn_cleanup_pending c
      else if Some (changed_fields p c) \<noteq> event_snapshot_changes kind then False
      else (case kind of
          K_candidate \<Rightarrow> sn_candidate p = None \<and> sn_candidate c \<noteq> None
        | K_validation_result \<Rightarrow> sn_validation p = None \<and> sn_validation c \<noteq> None
        | K_approved \<Rightarrow> sn_approval p = None \<and> sn_approval c \<noteq> None
        | K_applied \<Rightarrow> sn_application p = None \<and> sn_application c \<noteq> None \<and> sn_cleanup_pending c
        | K_rejected \<Rightarrow> sn_decision p = None \<and> sn_decision c \<noteq> None \<and> sn_cleanup_pending c
        | K_cancelled \<Rightarrow> sn_decision p = None \<and> sn_decision c \<noteq> None \<and> sn_cleanup_pending c
        | K_expired \<Rightarrow> sn_decision p = None \<and> sn_decision c \<noteq> None \<and> sn_cleanup_pending c
        | K_failed \<Rightarrow> sn_failure p = None \<and> sn_failure c \<noteq> None \<and> sn_cleanup_pending c
        | K_cleanup_complete \<Rightarrow> sn_cleanup_pending p \<and> \<not> sn_cleanup_pending c
        | _ \<Rightarrow> True))"

definition validation_run_matches_snapshot :: "validation_lease \<Rightarrow> repair_snapshot \<Rightarrow> bool" where
  "validation_run_matches_snapshot l s \<longleftrightarrow>
     ls_session l = sn_session s \<and> (case sn_candidate s of None \<Rightarrow> False | Some c \<Rightarrow> ls_candidate l = ca_id c)"

definition same_validation_intent :: "validation_lease \<Rightarrow> validation_lease \<Rightarrow> bool" where
  "same_validation_intent p c \<longleftrightarrow>
     ls_name p = ls_name c \<and> ls_labels p = ls_labels c \<and> ls_session p = ls_session c \<and>
     ls_candidate p = ls_candidate c \<and> ls_token p = ls_token c"

definition validation_run_update_is_valid ::
  "event_kind \<Rightarrow> repair_snapshot \<Rightarrow> repair_snapshot \<Rightarrow> validation_lease option \<Rightarrow> validation_lease option \<Rightarrow> bool" where
  "validation_run_update_is_valid kind ps cs p c =
     (if \<not> opt_all (\<lambda>l. validation_run_matches_snapshot l ps) p then False
      else if \<not> opt_all (\<lambda>l. validation_run_matches_snapshot l cs) c then False
      else (case kind of
          K_validation_intent \<Rightarrow>
            p = None \<and> (case c of None \<Rightarrow> False | Some l \<Rightarrow> ls_container l = None) \<and> sn_validation cs = None
        | K_validation_run \<Rightarrow>
            (case (p, c) of
               (Some lp, Some lc) \<Rightarrow>
                 ls_container lp = None \<and> ls_container lc \<noteq> None \<and> same_validation_intent lp lc
             | _ \<Rightarrow> False) \<and> sn_validation cs = None
        | K_validation_intent_abandoned \<Rightarrow>
            (case p of None \<Rightarrow> False | Some l \<Rightarrow> ls_container l = None) \<and> c = None \<and>
            sn_state cs = VALIDATING \<and> sn_validation cs = None
        | K_validation_result \<Rightarrow>
            (case p of None \<Rightarrow> False | Some l \<Rightarrow> ls_container l \<noteq> None) \<and> c = p \<and> sn_validation cs \<noteq> None
        | _ \<Rightarrow>
            if p = None then c = None
            else if c = p then kind \<noteq> K_cleanup_complete \<and> sn_state cs \<in> set lease_carry_states
            else if c \<noteq> None then False
            else kind \<in> {K_validated, K_failed, K_cleanup_pending, K_cleanup_complete}))"

definition candidate_preview_update_is_valid ::
  "event_kind \<Rightarrow> repair_snapshot \<Rightarrow> repair_snapshot \<Rightarrow> pystr option \<Rightarrow> pystr option \<Rightarrow> bool" where
  "candidate_preview_update_is_valid kind ps cs p c \<longleftrightarrow>
     (if kind = K_candidate
      then sn_candidate ps = None \<and> sn_candidate cs \<noteq> None \<and> p = None \<and> c \<noteq> None
      else sn_candidate cs = sn_candidate ps \<and> c = p \<and> (sn_candidate cs = None \<longleftrightarrow> c = None))"

section \<open>Event records\<close>

text \<open>What the last event of a log says.\<close>

record loaded_state =
  ld_snapshot :: repair_snapshot
  ld_sequence :: nat
  ld_sha256 :: pystr
  ld_timestamp :: int
  ld_preview :: "pystr option"
  ld_run :: "validation_lease option"

definition max_record_bytes :: nat where
  "max_record_bytes = 4194304"

text \<open>A zero-padded decimal, at least 16 digits wide.\<close>

definition sequence_text :: "nat \<Rightarrow> pystr" where
  "sequence_text n = replicate (16 - length (nat_text n)) 48 @ nat_text n"

definition event_name :: "nat \<Rightarrow> pystr" where
  "event_name n = sequence_text n @ lit ''.json''"

definition is_event_name :: "pystr \<Rightarrow> bool" where
  "is_event_name s \<longleftrightarrow> length s = 21 \<and> list_all is_digit (take 16 s) \<and> drop 16 s = lit ''.json''"

text \<open>A temporary left by an interrupted write: \<open>.<event name>.tmp-<32 hexadecimal digits>\<close>.\<close>

definition is_event_temp :: "pystr \<Rightarrow> bool" where
  "is_event_temp s \<longleftrightarrow>
     length s = 59 \<and> take 1 s = [46] \<and> is_event_name (take 21 (drop 1 s)) \<and>
     take 5 (drop 22 s) = lit ''.tmp-'' \<and> list_all is_lower_hex (drop 27 s)"

definition event_items ::
  "nat \<Rightarrow> pystr \<Rightarrow> event_kind \<Rightarrow> int \<Rightarrow> repair_snapshot \<Rightarrow> pystr option \<Rightarrow> validation_lease option \<Rightarrow> (pystr \<times> json) list" where
  "event_items sequence previous kind timestamp snapshot preview run =
     [(lit ''schema_version'', JInt 1),
      (lit ''sequence'', JInt (int sequence)),
      (lit ''previous_sha256'', JStr previous),
      (lit ''kind'', JStr (lit (event_kind_value kind))),
      (lit ''state'', JStr (lit (repair_state_value (sn_state snapshot)))),
      (lit ''timestamp_us'', JInt timestamp),
      (lit ''snapshot'', snapshot_to_dict snapshot),
      (lit ''preview_sha256'', j_option JStr preview),
      (lit ''validation_run'', j_option lease_to_dict run)]"

definition event_keys :: "string list" where
  "event_keys =
     [''schema_version'', ''sequence'', ''previous_sha256'', ''kind'', ''state'', ''timestamp_us'',
      ''snapshot'', ''preview_sha256'', ''validation_run'']"

text \<open>Serialising a snapshot repeats its constructor's checks.\<close>

definition event_mapping ::
  "repair_env \<Rightarrow> nat \<Rightarrow> pystr \<Rightarrow> event_kind \<Rightarrow> int \<Rightarrow> repair_snapshot \<Rightarrow> pystr option \<Rightarrow> validation_lease option \<Rightarrow> py_error + json" where
  "event_mapping env sequence previous kind timestamp snapshot preview run =
     and_then (require (snapshot_ok (rp_unicode env) snapshot) PyValueError) (\<lambda>_.
       Inr (JObj (event_items sequence previous kind timestamp snapshot preview run)))"

definition optional_sha256 :: "json \<Rightarrow> py_error + pystr option" where
  "optional_sha256 v =
     (case v of JNull \<Rightarrow> Inr None
      | JStr s \<Rightarrow> if is_sha256 s then Inr (Some s) else Inl PyValueError
      | _ \<Rightarrow> Inl PyValueError)"

text \<open>A stored record: canonical JSON of a dict, of bounded size.\<close>

definition read_canonical_mapping :: "repair_env \<Rightarrow> bytes \<Rightarrow> py_error + json" where
  "read_canonical_mapping env raw =
     and_then (require (length raw \<le> max_record_bytes) PyValueError) (\<lambda>_.
     case utf8_decode raw of
       None \<Rightarrow> Inl PyValueError
     | Some text \<Rightarrow>
         (case json_loads (rp_float env) text of
            Inr (JObj kvs) \<Rightarrow>
              (case rm_canonical_bytes (JObj kvs) of
                 Inl e \<Rightarrow> Inl e
               | Inr b \<Rightarrow> if b = raw then Inr (JObj kvs) else Inl PyValueError)
          | _ \<Rightarrow> Inl PyValueError))"

definition validate_event_mapping :: "json \<Rightarrow> nat \<Rightarrow> pystr \<Rightarrow> py_error + mapping" where
  "validate_event_mapping v sequence previous =
     and_then (exact_mapping event_keys v) (\<lambda>m.
     and_then (require (m (lit ''schema_version'') = JInt 1 \<and> m (lit ''sequence'') = JInt (int sequence)) PyValueError) (\<lambda>_.
     and_then (require (m (lit ''previous_sha256'') = JStr previous) PyValueError) (\<lambda>_.
     and_then (exact_enum event_kind_value all_event_kind (m (lit ''kind''))) (\<lambda>_.
     and_then (exact_str (m (lit ''state''))) (\<lambda>_.
     and_then (exact_int (m (lit ''timestamp_us''))) (\<lambda>_.
     and_then (require (case m (lit ''snapshot'') of JObj _ \<Rightarrow> True | _ \<Rightarrow> False) PyValueError) (\<lambda>_.
     and_then (optional_sha256 (m (lit ''preview_sha256''))) (\<lambda>_. Inr m))))))))"

text \<open>Whether an event may follow the state before it; without one, whether it may start a log.\<close>

definition event_follows ::
  "loaded_state option \<Rightarrow> event_kind \<Rightarrow> repair_snapshot \<Rightarrow> pystr option \<Rightarrow> validation_lease option \<Rightarrow> bool" where
  "event_follows prev kind snapshot preview run \<longleftrightarrow>
     (case prev of
        None \<Rightarrow> sn_state snapshot = CREATED \<and> kind = K_created \<and> preview = None \<and> run = None
      | Some p \<Rightarrow>
          event_state_pair_is_valid kind (sn_state (ld_snapshot p)) (sn_state snapshot) \<and>
          sn_created snapshot = sn_created (ld_snapshot p) \<and> sn_updated (ld_snapshot p) \<le> sn_updated snapshot \<and>
          validation_run_update_is_valid kind (ld_snapshot p) snapshot (ld_run p) run \<and>
          candidate_preview_update_is_valid kind (ld_snapshot p) snapshot (ld_preview p) preview \<and>
          snapshot_update_is_valid kind (ld_snapshot p) snapshot)"

definition previous_sha256 :: "loaded_state option \<Rightarrow> pystr" where
  "previous_sha256 prev = (case prev of None \<Rightarrow> replicate 64 48 | Some p \<Rightarrow> ld_sha256 p)"

definition load_event ::
  "repair_env \<Rightarrow> pystr \<Rightarrow> loaded_state option \<Rightarrow> nat \<Rightarrow> bytes \<Rightarrow> py_error + loaded_state" where
  "load_event env session prev sequence raw =
     and_then (read_canonical_mapping env raw) (\<lambda>v.
     and_then (validate_event_mapping v sequence (previous_sha256 prev)) (\<lambda>m.
     and_then (snapshot_from_dict (rp_unicode env) (m (lit ''snapshot''))) (\<lambda>snapshot.
     and_then (snapshot_record_digests_are_valid env snapshot) (\<lambda>valid.
     and_then (require valid PyValueError) (\<lambda>_.
     and_then (optional_sha256 (m (lit ''preview_sha256''))) (\<lambda>preview.
     and_then (optional_record lease_from_dict (m (lit ''validation_run''))) (\<lambda>run.
     and_then (require (sn_session snapshot = session \<and>
       m (lit ''state'') = JStr (lit (repair_state_value (sn_state snapshot)))) PyValueError) (\<lambda>_.
     and_then (exact_enum event_kind_value all_event_kind (m (lit ''kind''))) (\<lambda>kind.
     and_then (require ((prev = None \<longrightarrow> sequence = 0) \<and> event_follows prev kind snapshot preview run) PyValueError) (\<lambda>_.
     and_then (require (m (lit ''timestamp_us'') = JInt (sn_updated snapshot)) PyValueError) (\<lambda>_.
     and_then (rm_domain_digest env ''event'' v) (\<lambda>digest.
       Inr \<lparr>ld_snapshot = snapshot, ld_sequence = sequence, ld_sha256 = digest,
         ld_timestamp = sn_updated snapshot, ld_preview = preview, ld_run = run\<rparr>))))))))))))"

type_synonym event_dir = "(pystr \<times> bytes) list"

definition event_files :: "event_dir \<Rightarrow> event_dir" where
  "event_files dir = sort_key fst (filter (\<lambda>f. \<not> is_event_temp (fst f)) dir)"

fun load_chain ::
  "repair_env \<Rightarrow> pystr \<Rightarrow> loaded_state option \<Rightarrow> nat \<Rightarrow> event_dir \<Rightarrow> py_error + loaded_state option" where
  "load_chain env session prev n [] = Inr prev"
| "load_chain env session prev n (f # fs) =
     and_then (require (fst f = event_name n) PyValueError) (\<lambda>_.
     and_then (load_event env session prev n (snd f)) (\<lambda>ld.
       load_chain env session (Some ld) (Suc n) fs))"

definition load_event_chain :: "repair_env \<Rightarrow> pystr \<Rightarrow> event_dir \<Rightarrow> py_error + loaded_state" where
  "load_event_chain env session dir =
     and_then (load_chain env session None 0 (event_files dir)) (\<lambda>ld.
       case ld of None \<Rightarrow> Inl PyValueError | Some l \<Rightarrow> Inr l)"

section \<open>The session store\<close>

text \<open>The files of a session: the event directory, the preview, the cache \<open>state.json\<close>, and the private
  directory until it is removed.\<close>

record session_store =
  ss_session :: pystr
  ss_read_only :: bool
  ss_events :: event_dir
  ss_preview_file :: "bytes option"
  ss_cache :: "bytes option"
  ss_private :: "event_dir option"

datatype store_error =
    StoreError repair_error_code repair_stage "repair_state option"
  | StoreValueError
  | StoreTypeError
  | StoreOSError

abbreviation session_corrupt :: store_error where
  "session_corrupt \<equiv> StoreError SESSION_CORRUPT PERSISTENCE None"

text \<open>The state the event files hold; every failure to read them is a corrupt session.\<close>

definition read_log :: "repair_env \<Rightarrow> session_store \<Rightarrow> store_error + loaded_state" where
  "read_log env st =
     (case load_event_chain env (ss_session st) (ss_events st) of
        Inl e \<Rightarrow> Inl session_corrupt
      | Inr ld \<Rightarrow> Inr ld)"

definition store_result :: "py_error + 'a \<Rightarrow> store_error + 'a" where
  "store_result m =
     (case m of Inl e \<Rightarrow> Inl (if e = PyTypeError then StoreTypeError else StoreValueError) | Inr x \<Rightarrow> Inr x)"

text \<open>The cache is a copy of the last state. It is compared by the equality of Python values: the items of a
  dict have no order, and booleans, integers and floats are equal as numbers.\<close>

definition cache_items :: "loaded_state \<Rightarrow> (pystr \<times> json) list" where
  "cache_items ld =
     [(lit ''schema_version'', JInt 1),
      (lit ''event_sequence'', JInt (int (ld_sequence ld))),
      (lit ''event_sha256'', JStr (ld_sha256 ld)),
      (lit ''preview_sha256'', j_option JStr (ld_preview ld)),
      (lit ''snapshot'', snapshot_to_dict (ld_snapshot ld)),
      (lit ''validation_run'', j_option lease_to_dict (ld_run ld))]"

definition cache_mapping :: "repair_env \<Rightarrow> loaded_state \<Rightarrow> py_error + json" where
  "cache_mapping env ld =
     and_then (require (snapshot_ok (rp_unicode env) (ld_snapshot ld)) PyValueError) (\<lambda>_.
       Inr (JObj (cache_items ld)))"

fun py_value :: "(pystr \<Rightarrow> int option) \<Rightarrow> json \<Rightarrow> json"
  and py_values :: "(pystr \<Rightarrow> int option) \<Rightarrow> json list \<Rightarrow> json list"
  and py_items :: "(pystr \<Rightarrow> int option) \<Rightarrow> (pystr \<times> json) list \<Rightarrow> (pystr \<times> json) list" where
  "py_value fi v =
     (case v of JBool b \<Rightarrow> JInt (if b then 1 else 0)
      | JFloat (FFinite r) \<Rightarrow> (case fi r of None \<Rightarrow> v | Some i \<Rightarrow> JInt i)
      | JList xs \<Rightarrow> JList (py_values fi xs)
      | JObj kvs \<Rightarrow> JObj (sort_key fst (py_items fi kvs))
      | _ \<Rightarrow> v)"
| "py_values fi [] = []"
| "py_values fi (x # xs) = py_value fi x # py_values fi xs"
| "py_items fi [] = []"
| "py_items fi (kv # kvs) = (fst kv, py_value fi (snd kv)) # py_items fi kvs"

declare py_value.simps [simp del]

definition read_cache :: "repair_env \<Rightarrow> session_store \<Rightarrow> json option" where
  "read_cache env st =
     (case ss_cache st of None \<Rightarrow> None
      | Some raw \<Rightarrow> (case read_canonical_mapping env raw of Inl e \<Rightarrow> None | Inr v \<Rightarrow> Some v))"

definition write_cache :: "repair_env \<Rightarrow> session_store \<Rightarrow> loaded_state \<Rightarrow> store_error + session_store" where
  "write_cache env st ld =
     and_then (store_result (cache_mapping env ld)) (\<lambda>v.
     and_then (store_result (rm_canonical_bytes v)) (\<lambda>raw. Inr (st\<lparr>ss_cache := Some raw\<rparr>)))"

definition cache_is_fresh :: "repair_env \<Rightarrow> session_store \<Rightarrow> loaded_state \<Rightarrow> bool" where
  "cache_is_fresh env st ld =
     (case read_cache env st of None \<Rightarrow> False
      | Some v \<Rightarrow> py_value (rp_float_int env) v = py_value (rp_float_int env) (JObj (cache_items ld)))"

text \<open>Reading the event directory removes what an interrupted write left behind.\<close>

definition clean_events :: "session_store \<Rightarrow> session_store" where
  "clean_events st = st\<lparr>ss_events := filter (\<lambda>f. \<not> is_event_temp (fst f)) (ss_events st)\<rparr>"

definition load :: "repair_env \<Rightarrow> session_store \<Rightarrow> store_error + session_store \<times> loaded_state" where
  "load env st =
     and_then (read_log env st) (\<lambda>ld.
       let cleaned = clean_events st in
       if \<not> ss_read_only st \<and> \<not> cache_is_fresh env st ld
       then and_then (write_cache env cleaned ld) (\<lambda>st'. Inr (st', ld))
       else Inr (cleaned, ld))"

text \<open>The lease the event leaves behind: a registration, a clearing, or the one before.\<close>

definition next_validation_run ::
  "event_kind \<Rightarrow> repair_snapshot \<Rightarrow> validation_lease option \<Rightarrow> bool \<Rightarrow> loaded_state \<Rightarrow> store_error + validation_lease option" where
  "next_validation_run kind snapshot run clear current =
     (case run of
        Some l \<Rightarrow>
          if kind \<notin> {K_validation_intent, K_validation_run} \<or>
             kind = K_validation_intent \<and> sn_state snapshot \<noteq> VALIDATING \<or>
             kind = K_validation_run \<and> sn_state snapshot \<notin> set lease_carry_states
          then Inl StoreValueError else Inr (Some l)
      | None \<Rightarrow>
          if kind \<in> {K_validation_intent, K_validation_run} then Inl StoreValueError
          else if clear then (if ld_run current = None then Inl StoreValueError else Inr None)
          else Inr (ld_run current))"

definition next_preview :: "repair_env \<Rightarrow> session_store \<Rightarrow> event_kind \<Rightarrow> loaded_state \<Rightarrow> store_error + pystr option" where
  "next_preview env st kind current =
     (if kind = K_candidate \<and> ld_preview current = None
      then (case ss_preview_file st of
          None \<Rightarrow> Inl StoreValueError
        | Some raw \<Rightarrow>
            and_then (store_result (read_canonical_mapping env raw)) (\<lambda>v.
            and_then (store_result (rm_domain_digest env ''preview'' v)) (\<lambda>d. Inr (Some d))))
      else Inr (ld_preview current))"

text \<open>An event file is created, never replaced.\<close>

definition write_event_immutable :: "session_store \<Rightarrow> pystr \<Rightarrow> bytes \<Rightarrow> store_error + session_store" where
  "write_event_immutable st name raw =
     (if \<not> is_event_name name \<or> max_record_bytes < length raw then Inl StoreValueError
      else if name \<in> fst ` set (ss_events st) then Inl StoreOSError
      else Inr (st\<lparr>ss_events := ss_events st @ [(name, raw)]\<rparr>))"

definition append_event ::
  "repair_env \<Rightarrow> session_store \<Rightarrow> event_kind \<Rightarrow> repair_snapshot \<Rightarrow> validation_lease option \<Rightarrow> bool \<Rightarrow>
   store_error + session_store \<times> loaded_state" where
  "append_event env st kind snapshot run clear =
     and_then (require (\<not> ss_read_only st) StoreValueError) (\<lambda>_.
     and_then (require (sn_session snapshot = ss_session st) StoreValueError) (\<lambda>_.
     and_then (require (\<not> (run \<noteq> None \<and> clear)) StoreValueError) (\<lambda>_.
     and_then (load env st) (\<lambda>(loaded, current).
     let previous = ld_snapshot current in
     and_then (next_validation_run kind snapshot run clear current) (\<lambda>next_run.
     and_then (require (sn_created snapshot = sn_created previous \<and> sn_updated previous \<le> sn_updated snapshot)
       StoreValueError) (\<lambda>_.
     and_then (require (event_state_pair_is_valid kind (sn_state previous) (sn_state snapshot))
       (StoreError INVALID_STATE PERSISTENCE (Some (sn_state previous)))) (\<lambda>_.
     and_then (require (validation_run_update_is_valid kind previous snapshot (ld_run current) next_run)
       StoreValueError) (\<lambda>_.
     and_then (next_preview env loaded kind current) (\<lambda>preview.
     and_then (require (candidate_preview_update_is_valid kind previous snapshot (ld_preview current) preview)
       StoreValueError) (\<lambda>_.
     and_then (require (snapshot_update_is_valid kind previous snapshot) StoreValueError) (\<lambda>_.
     and_then (store_result (snapshot_record_digests_are_valid env snapshot)) (\<lambda>valid.
     and_then (require valid StoreValueError) (\<lambda>_.
     let sequence = Suc (ld_sequence current) in
     and_then (store_result (event_mapping env sequence (ld_sha256 current) kind (sn_updated snapshot)
       snapshot preview next_run)) (\<lambda>event.
     and_then (store_result (rm_domain_digest env ''event'' event)) (\<lambda>digest.
     and_then (store_result (rm_canonical_bytes event)) (\<lambda>raw.
     and_then (write_event_immutable loaded (event_name sequence) raw) (\<lambda>written.
     let result = \<lparr>ld_snapshot = snapshot, ld_sequence = sequence, ld_sha256 = digest,
       ld_timestamp = sn_updated snapshot, ld_preview = preview, ld_run = next_run\<rparr> in
     and_then (write_cache env written result) (\<lambda>st'. Inr (st', result)))))))))))))))))))"

text \<open>A new session: its request, the first event and the cache. An error of the file system is reported
  as a failure of the store.\<close>

definition os_failed :: "store_error + 'a \<Rightarrow> store_error + 'a" where
  "os_failed m =
     (case m of Inl StoreOSError \<Rightarrow> Inl (StoreError PERSISTENCE_FAILED PERSISTENCE None) | _ \<Rightarrow> m)"

definition create_session_store ::
  "repair_env \<Rightarrow> pystr \<Rightarrow> json \<Rightarrow> repair_snapshot \<Rightarrow> store_error + session_store" where
  "create_session_store env session request snapshot =
     and_then (require (is_sha256 session) StoreValueError) (\<lambda>_.
     and_then (require (sn_session snapshot = session \<and> sn_state snapshot = CREATED) StoreValueError) (\<lambda>_.
     os_failed (
       and_then (store_result (rm_canonical_bytes request)) (\<lambda>payload.
       and_then (store_result (event_mapping env 0 (replicate 64 48) K_created (sn_updated snapshot)
         snapshot None None)) (\<lambda>event.
       and_then (store_result (rm_domain_digest env ''event'' event)) (\<lambda>digest.
       and_then (store_result (rm_canonical_bytes event)) (\<lambda>raw.
       and_then (write_event_immutable \<lparr>ss_session = session, ss_read_only = False, ss_events = [],
           ss_preview_file = None, ss_cache = None, ss_private = Some [(lit ''request.json'', payload)]\<rparr>
         (event_name 0) raw) (\<lambda>written.
       write_cache env written \<lparr>ld_snapshot = snapshot, ld_sequence = 0, ld_sha256 = digest,
         ld_timestamp = sn_updated snapshot, ld_preview = None, ld_run = None\<rparr>))))))))"

text \<open>The private directory: payloads are created once and never replaced.\<close>

definition payload_name_ok :: "pystr \<Rightarrow> bool" where
  "payload_name_ok name \<longleftrightarrow>
     utf8_ok name \<and> name \<noteq> [] \<and> byte_length name \<le> 128 \<and> 47 \<notin> set name \<and> 92 \<notin> set name \<and>
     \<not> starts_with [46] name"

definition require_private :: "session_store \<Rightarrow> store_error + event_dir" where
  "require_private st = (case ss_private st of None \<Rightarrow> Inl session_corrupt | Some files \<Rightarrow> Inr files)"

definition write_payload :: "session_store \<Rightarrow> event_dir \<Rightarrow> pystr \<Rightarrow> bytes \<Rightarrow> store_error + session_store" where
  "write_payload st files name raw =
     (if name \<in> fst ` set files then Inl StoreOSError
      else Inr (st\<lparr>ss_private := Some (files @ [(name, raw)])\<rparr>))"

definition write_private_json :: "session_store \<Rightarrow> pystr \<Rightarrow> json \<Rightarrow> store_error + session_store" where
  "write_private_json st name v =
     and_then (require (\<not> ss_read_only st) StoreValueError) (\<lambda>_.
     and_then (require_private st) (\<lambda>files.
     and_then (require (payload_name_ok name) StoreValueError) (\<lambda>_.
     and_then (store_result (rm_canonical_bytes v)) (\<lambda>raw. write_payload st files name raw))))"

definition write_private_bytes :: "session_store \<Rightarrow> pystr \<Rightarrow> bytes \<Rightarrow> store_error + session_store" where
  "write_private_bytes st name raw =
     and_then (require (\<not> ss_read_only st) StoreValueError) (\<lambda>_.
     and_then (require_private st) (\<lambda>files.
     and_then (require (payload_name_ok name) StoreValueError) (\<lambda>_.
     and_then (require (length raw \<le> max_record_bytes) StoreValueError) (\<lambda>_. write_payload st files name raw))))"

definition read_private_bytes :: "session_store \<Rightarrow> pystr \<Rightarrow> nat \<Rightarrow> store_error + bytes" where
  "read_private_bytes st name maximum =
     and_then (require_private st) (\<lambda>files.
     and_then (require (payload_name_ok name) StoreValueError) (\<lambda>_.
     case map_of files name of None \<Rightarrow> Inl StoreOSError
     | Some raw \<Rightarrow> if maximum < length raw then Inl StoreValueError else Inr raw))"

definition read_private_json :: "repair_env \<Rightarrow> session_store \<Rightarrow> pystr \<Rightarrow> store_error + json" where
  "read_private_json env st name =
     and_then (read_private_bytes st name max_record_bytes) (\<lambda>raw. store_result (read_canonical_mapping env raw))"

text \<open>Removing the private directory succeeds when the checks on the metadata of its tree do; a store
  without one has nothing to remove.\<close>

definition cleanup_private :: "bool \<Rightarrow> session_store \<Rightarrow> store_error + session_store \<times> bool" where
  "cleanup_private tree_is_safe st =
     and_then (require (\<not> ss_read_only st) StoreValueError) (\<lambda>_.
       if ss_private st = None then Inr (st, True)
       else if tree_is_safe then Inr (st\<lparr>ss_private := None\<rparr>, True) else Inr (st, False))"

text \<open>Reading the preview checks it against the digest the log recorded.\<close>

definition write_preview :: "repair_env \<Rightarrow> session_store \<Rightarrow> json \<Rightarrow> store_error + session_store" where
  "write_preview env st v =
     and_then (require (\<not> ss_read_only st) StoreValueError) (\<lambda>_.
     and_then (store_result (rm_canonical_bytes v)) (\<lambda>raw.
       if ss_preview_file st \<noteq> None then Inl StoreOSError else Inr (st\<lparr>ss_preview_file := Some raw\<rparr>)))"

definition read_preview :: "repair_env \<Rightarrow> session_store \<Rightarrow> store_error + session_store \<times> json" where
  "read_preview env st =
     (case ss_preview_file st of
        None \<Rightarrow> Inl StoreOSError
      | Some raw \<Rightarrow>
          and_then (store_result (read_canonical_mapping env raw)) (\<lambda>v.
          and_then (load env st) (\<lambda>(loaded, ld).
          case ld_preview ld of
            None \<Rightarrow> Inl session_corrupt
          | Some expected \<Rightarrow>
              and_then (store_result (rm_domain_digest env ''preview'' v)) (\<lambda>d.
                if d \<noteq> expected then Inl session_corrupt else Inr (loaded, v)))))"

end
