(* ===== verification/Repair_Codec_Facts.thy ===== *)
theory Repair_Codec_Facts
  imports Repair_Codec Canonical_Facts
begin

text \<open>
  The decoders of the repair records undo the encoders, do not depend on the order of dict items, and
  return only records their constructors accept.
\<close>

section \<open>Decoders do not depend on the order of dict items\<close>

definition norm_ok :: "(json \<Rightarrow> py_error + 'a) \<Rightarrow> bool" where
  "norm_ok D \<longleftrightarrow> (\<forall>v. json_dicts v \<longrightarrow> D (json_norm v) = D v)"

lemma norm_okD: "norm_ok D \<Longrightarrow> json_dicts v \<Longrightarrow> D (json_norm v) = D v"
  by (simp add: norm_ok_def)

lemma distinct_sort_key_fst: "distinct (map fst (sort_key fst kvs)) \<longleftrightarrow> distinct (map fst kvs)"
  by (metis distinct_map distinct_sort set_sort)

lemma map_of_sort_key: "distinct (map fst kvs) \<Longrightarrow> map_of (sort_key fst kvs) = map_of kvs"
  by (subst map_of_inject_set) (simp_all add: distinct_sort_key_fst)

lemma map_of_apsnd: "map_of (map (apsnd f) kvs) k = map_option f (map_of kvs k)"
  by (induction kvs) auto

lemma lookup_norm:
  "distinct (map fst kvs) \<Longrightarrow> lookup (sort_key fst (map (apsnd json_norm) kvs)) k = json_norm (lookup kvs k)"
  by (simp add: lookup_def map_of_sort_key map_of_apsnd json_norm.simps [of JOther] split: option.split)

lemma lookup_dicts:
  assumes "list_all (\<lambda>kv. json_dicts (snd kv)) kvs"
  shows "json_dicts (lookup kvs k)"
proof (cases "map_of kvs k")
  case (Some a)
  then have "(k, a) \<in> set kvs" by (rule map_of_SomeD)
  with assms have "json_dicts a" by (auto simp: list_all_iff)
  with Some show ?thesis by (simp add: lookup_def)
qed (simp add: lookup_def json_value.simps)

lemma norm_ok_mapping:
  assumes "\<And>m. (\<And>k. json_dicts (m k)) \<Longrightarrow> K (\<lambda>k. json_norm (m k)) = K m"
  shows "norm_ok (\<lambda>v. and_then (exact_mapping keys v) K)"
  unfolding norm_ok_def
proof (intro allI impI)
  fix v assume v: "json_dicts v"
  show "and_then (exact_mapping keys (json_norm v)) K = and_then (exact_mapping keys v) K"
  proof (cases v)
    case (JObj kvs)
    with v have d: "distinct (map fst kvs)" "\<And>k. json_dicts (lookup kvs k)"
      by (simp_all add: lookup_dicts)
    have "lookup (sort_key fst (map (apsnd json_norm) kvs)) = (\<lambda>k. json_norm (lookup kvs k))"
      using lookup_norm [OF d(1)] by blast
    with assms [of "lookup kvs", OF d(2)] show ?thesis
      by (simp add: JObj exact_mapping_def image_image)
  qed (simp_all add: exact_mapping_def json_norm.simps)
qed

named_theorems decodes

lemma norm_ok_values [decodes]:
  "norm_ok exact_str" "norm_ok exact_int" "norm_ok exact_bool"
  by (auto simp: norm_ok_def exact_str_def exact_int_def exact_bool_def json_norm.simps split: json.split)

lemma norm_ok_list [decodes]: "norm_ok D \<Longrightarrow> norm_ok (exact_records D)"
proof -
  assume D: "norm_ok D"
  have "map_res D (map json_norm xs) = map_res D xs" if "list_all json_dicts xs" for xs
    using that by (induction xs) (simp_all add: norm_okD [OF D])
  then show ?thesis
    unfolding norm_ok_def exact_records_def
    by (auto simp: exact_list_def json_norm.simps split: json.split)
qed

lemma norm_ok_optional [decodes]: "norm_ok D \<Longrightarrow> norm_ok (optional_record D)"
  unfolding norm_ok_def optional_record_def
  by (intro allI impI) (simp, auto simp: json_norm.simps split: json.splits)

lemma norm_ok_derived [decodes]:
  "norm_ok optional_str" "norm_ok optional_int" "norm_ok exact_strs" "norm_ok (exact_enum f all)"
  "norm_ok (optional_enum f all)"
proof -
  show enum: "norm_ok (exact_enum f all)"
    using norm_ok_values(1) by (simp add: norm_ok_def exact_enum_def)
  show "norm_ok optional_str" "norm_ok optional_int" "norm_ok exact_strs" "norm_ok (optional_enum f all)"
    using norm_ok_optional [OF norm_ok_values(1)] norm_ok_optional [OF norm_ok_values(2)]
      norm_ok_list [OF norm_ok_values(1)] norm_ok_optional [OF enum]
    by (simp_all add: optional_str_def [abs_def] optional_int_def [abs_def] exact_strs_def [abs_def]
      optional_enum_def [abs_def])
qed

lemma norm_ok_prompt_identity [decodes]: "norm_ok (prompt_identity_from_dict ud)"
  unfolding prompt_identity_from_dict_def [abs_def]
  by (rule norm_ok_mapping) (simp add: decodes norm_okD)

lemma norm_ok_context_summary [decodes]: "norm_ok context_summary_from_dict"
  unfolding context_summary_from_dict_def [abs_def]
  by (rule norm_ok_mapping) (simp add: decodes norm_okD)

lemma norm_ok_candidate [decodes]: "norm_ok (candidate_from_dict ud)"
  unfolding candidate_from_dict_def [abs_def]
  by (rule norm_ok_mapping) (simp add: decodes norm_okD)

lemma norm_ok_command_result [decodes]: "norm_ok command_result_from_dict"
  unfolding command_result_from_dict_def [abs_def]
  by (rule norm_ok_mapping) (simp add: decodes norm_okD)

lemma norm_ok_validation [decodes]: "norm_ok validation_from_dict"
  unfolding validation_from_dict_def [abs_def]
  by (rule norm_ok_mapping) (simp add: decodes norm_okD)

lemma norm_ok_approval [decodes]: "norm_ok (approval_from_dict ud)"
  unfolding approval_from_dict_def [abs_def]
  by (rule norm_ok_mapping) (simp add: decodes norm_okD)

lemma norm_ok_application [decodes]: "norm_ok application_from_dict"
  unfolding application_from_dict_def [abs_def]
  by (rule norm_ok_mapping) (simp add: decodes norm_okD)

lemma norm_ok_decision [decodes]: "norm_ok (decision_from_dict ud)"
  unfolding decision_from_dict_def [abs_def]
  by (rule norm_ok_mapping) (simp add: decodes norm_okD)

lemma norm_ok_failure [decodes]: "norm_ok failure_from_dict"
  unfolding failure_from_dict_def [abs_def]
  by (rule norm_ok_mapping) (simp add: decodes norm_okD)

lemma norm_ok_snapshot [decodes]: "norm_ok (snapshot_from_dict ud)"
  unfolding snapshot_from_dict_def [abs_def]
  by (rule norm_ok_mapping) (simp add: decodes norm_okD)

lemma norm_ok_preview [decodes]: "norm_ok (preview_from_dict ud)"
  unfolding preview_from_dict_def [abs_def]
  by (rule norm_ok_mapping) (simp add: decodes norm_okD)

section \<open>Decoding what was encoded\<close>

lemma exact_values [simp]:
  "exact_str (JStr s) = Inr s" "exact_int (JInt i) = Inr i" "exact_bool (JBool b) = Inr b"
  by (simp_all add: exact_str_def exact_int_def exact_bool_def)

lemma optional_record_encode:
  "(\<And>x. x \<in> set_option y \<Longrightarrow> D (f x) = Inr x \<and> f x \<noteq> JNull) \<Longrightarrow> optional_record D (j_option f y) = Inr y"
  by (cases y) (simp_all add: optional_record_def j_option_def)

lemma optional_values [simp]:
  "optional_str (j_option JStr y) = Inr y" "optional_int (j_option JInt z) = Inr z"
  unfolding optional_str_def optional_int_def by (rule optional_record_encode; simp)+

lemma exact_records_encode:
  "(\<And>x. x \<in> set xs \<Longrightarrow> D (f x) = Inr x) \<Longrightarrow> exact_records D (JList (map f xs)) = Inr xs"
  by (induction xs) (auto simp: exact_records_def exact_list_def)

lemma exact_strs_encode [simp]: "exact_strs (JList (map JStr xs)) = Inr xs"
  unfolding exact_strs_def by (rule exact_records_encode) simp

lemma enum_value_lit:
  assumes "distinct (map f all)" "e \<in> set all"
  shows "enum_value f all (lit (f e)) = Inr e"
proof -
  have "find (\<lambda>d. lit (f d) = lit (f e)) all = Some e"
    using assms by (induction all) auto
  then show ?thesis by (simp add: enum_value_def)
qed

lemma enum_repair_state [simp]: "enum_value repair_state_value all_repair_state (lit (repair_state_value e)) = Inr e"
proof (rule enum_value_lit)
  show "distinct (map repair_state_value all_repair_state)" by code_simp
  show "e \<in> set all_repair_state" by (cases e) (simp_all add: all_repair_state_def)
qed

lemma enum_repair_stage [simp]: "enum_value repair_stage_value all_repair_stage (lit (repair_stage_value e)) = Inr e"
proof (rule enum_value_lit)
  show "distinct (map repair_stage_value all_repair_stage)" by code_simp
  show "e \<in> set all_repair_stage" by (cases e) (simp_all add: all_repair_stage_def)
qed

lemma enum_repair_context_outcome [simp]: "enum_value repair_context_outcome_value all_repair_context_outcome (lit (repair_context_outcome_value e)) = Inr e"
proof (rule enum_value_lit)
  show "distinct (map repair_context_outcome_value all_repair_context_outcome)" by code_simp
  show "e \<in> set all_repair_context_outcome" by (cases e) (simp_all add: all_repair_context_outcome_def)
qed

lemma enum_validation_failure_kind [simp]: "enum_value validation_failure_kind_value all_validation_failure_kind (lit (validation_failure_kind_value e)) = Inr e"
proof (rule enum_value_lit)
  show "distinct (map validation_failure_kind_value all_validation_failure_kind)" by code_simp
  show "e \<in> set all_validation_failure_kind" by (cases e) (simp_all add: all_validation_failure_kind_def)
qed

lemma enum_repair_error_code [simp]: "enum_value repair_error_code_value all_repair_error_code (lit (repair_error_code_value e)) = Inr e"
proof (rule enum_value_lit)
  show "distinct (map repair_error_code_value all_repair_error_code)" by code_simp
  show "e \<in> set all_repair_error_code" by (cases e) (simp_all add: all_repair_error_code_def)
qed

lemma exact_enum_lit [simp]: "exact_enum f all (JStr s) = enum_value f all s"
  by (simp add: exact_enum_def)

lemma optional_enum_lit [simp]:
  "(\<And>e. enum_value f all (lit (f e)) = Inr e) \<Longrightarrow> optional_enum f all (j_option (\<lambda>e. JStr (lit (f e))) y) = Inr y"
  unfolding optional_enum_def by (rule optional_record_encode) simp

lemma optional_str_enum [simp]: "optional_str (j_option (\<lambda>e. JStr (lit (g e))) y) = Inr (map_option (\<lambda>e. lit (g e)) y)"
  by (cases y) (simp_all add: optional_str_def optional_record_def j_option_def)

lemma exact_mapping_items:
  "map fst items = map lit keys \<Longrightarrow> exact_mapping keys (JObj items) = Inr (lookup items)"
  using arg_cong [of "map fst items" "map lit keys" set] by (simp add: exact_mapping_def)

lemma lookup_Cons: "lookup ((j, v) # kvs) k = (if k = j then v else lookup kvs k)"
  by (simp add: lookup_def)

lemmas decode_simps = exact_mapping_items lookup_Cons checked_def

lemma prompt_identity_surj:
  "\<lparr>pi_name = pi_name x, pi_version = pi_version x, pi_system = pi_system x,
    pi_schema = pi_schema x, pi_combined = pi_combined x\<rparr> = x"
  by (cases x) simp

lemma prompt_identity_keys: "map fst (prompt_identity_items x) = map lit prompt_identity_keys"
  by (simp add: prompt_identity_items_def prompt_identity_keys_def)

lemma prompt_identity_decode:
  assumes "prompt_identity_ok ud x"
  shows "prompt_identity_from_dict ud (prompt_identity_to_dict x) = Inr x"
proof -
  have "exact_mapping prompt_identity_keys (prompt_identity_to_dict x) = Inr (lookup (prompt_identity_items x))"
    unfolding prompt_identity_to_dict_def by (rule exact_mapping_items) (rule prompt_identity_keys)
  with assms show ?thesis
    by (simp add: prompt_identity_from_dict_def prompt_identity_items_def lookup_Cons checked_def prompt_identity_surj)
qed

lemma context_summary_surj:
  "\<lparr>cx_outcome = cx_outcome x, cx_index = cx_index x, cx_query = cx_query x,
    cx_query_count = cx_query_count x, cx_candidate_count = cx_candidate_count x,
    cx_hit_count = cx_hit_count x, cx_hits = cx_hits x,
    cx_degradation = cx_degradation x\<rparr> = x"
  by (cases x) simp

lemma context_summary_keys: "map fst (context_summary_items x) = map lit context_summary_keys"
  by (simp add: context_summary_items_def context_summary_keys_def)

lemma context_summary_decode:
  assumes "context_summary_ok x"
  shows "context_summary_from_dict (context_summary_to_dict x) = Inr x"
proof -
  have "exact_mapping context_summary_keys (context_summary_to_dict x) = Inr (lookup (context_summary_items x))"
    unfolding context_summary_to_dict_def by (rule exact_mapping_items) (rule context_summary_keys)
  with assms show ?thesis
    by (simp add: context_summary_from_dict_def context_summary_items_def lookup_Cons checked_def context_summary_surj)
qed

lemma candidate_surj:
  "\<lparr>ca_schema_version = ca_schema_version x, ca_id = ca_id x, ca_request = ca_request x,
    ca_prompt = ca_prompt x, ca_context = ca_context x, ca_diff = ca_diff x, ca_tree = ca_tree x,
    ca_commit = ca_commit x, ca_paths = ca_paths x, ca_line_count = ca_line_count x,
    ca_attempt_count = ca_attempt_count x, ca_input_tokens = ca_input_tokens x,
    ca_output_tokens = ca_output_tokens x\<rparr> = x"
  by (cases x) simp

lemma candidate_keys: "map fst (candidate_items x) = map lit candidate_keys"
  by (simp add: candidate_items_def candidate_keys_def)

lemma candidate_decode:
  assumes "candidate_ok ud x"
  shows "candidate_from_dict ud (candidate_to_dict x) = Inr x"
proof -
  have "exact_mapping candidate_keys (candidate_to_dict x) = Inr (lookup (candidate_items x))"
    unfolding candidate_to_dict_def by (rule exact_mapping_items) (rule candidate_keys)
  with assms show ?thesis
    by (simp add: candidate_from_dict_def candidate_items_def lookup_Cons checked_def candidate_surj candidate_ok_def prompt_identity_decode context_summary_decode)
qed

lemma command_result_surj:
  "\<lparr>cr_index = cr_index x, cr_exit = cr_exit x, cr_signal = cr_signal x,
    cr_timed_out = cr_timed_out x, cr_duration = cr_duration x, cr_stdout = cr_stdout x,
    cr_stdout_bytes = cr_stdout_bytes x, cr_stdout_truncated = cr_stdout_truncated x,
    cr_stderr = cr_stderr x, cr_stderr_bytes = cr_stderr_bytes x,
    cr_stderr_truncated = cr_stderr_truncated x\<rparr> = x"
  by (cases x) simp

lemma command_result_keys: "map fst (command_result_items x) = map lit command_result_keys"
  by (simp add: command_result_items_def command_result_keys_def)

lemma command_result_decode:
  assumes "command_result_ok x"
  shows "command_result_from_dict (command_result_to_dict x) = Inr x"
proof -
  have "exact_mapping command_result_keys (command_result_to_dict x) = Inr (lookup (command_result_items x))"
    unfolding command_result_to_dict_def by (rule exact_mapping_items) (rule command_result_keys)
  with assms show ?thesis
    by (simp add: command_result_from_dict_def command_result_items_def lookup_Cons checked_def command_result_surj)
qed

lemma validation_surj:
  "\<lparr>va_schema_version = va_schema_version x, va_sha256 = va_sha256 x,
    va_candidate = va_candidate x, va_policy = va_policy x, va_manifest = va_manifest x,
    va_image = va_image x, va_started = va_started x, va_finished = va_finished x,
    va_success = va_success x, va_failure = va_failure x, va_results = va_results x,
    va_peak_memory = va_peak_memory x, va_oom_killed = va_oom_killed x,
    va_residual = va_residual x, va_entries = va_entries x, va_inodes = va_inodes x,
    va_tree_clean = va_tree_clean x\<rparr> = x"
  by (cases x) simp

lemma validation_keys: "map fst (validation_items x) = map lit validation_keys"
  by (simp add: validation_items_def validation_keys_def)

lemma validation_decode:
  assumes "validation_ok x"
  shows "validation_from_dict (validation_to_dict x) = Inr x"
proof -
  have "exact_records command_result_from_dict (JList (map command_result_to_dict (va_results x))) = Inr (va_results x)"
    using assms by (intro exact_records_encode command_result_decode) (simp add: validation_ok_def list_all_iff)
  moreover have "exact_mapping validation_keys (validation_to_dict x) = Inr (lookup (validation_items x))"
    unfolding validation_to_dict_def by (rule exact_mapping_items) (rule validation_keys)
  ultimately show ?thesis
    using assms by (simp add: validation_from_dict_def validation_items_def lookup_Cons checked_def validation_surj)
qed

lemma approval_surj:
  "\<lparr>ap_schema_version = ap_schema_version x, ap_sha256 = ap_sha256 x,
    ap_candidate = ap_candidate x, ap_validation = ap_validation x, ap_subject = ap_subject x,
    ap_confirmation = ap_confirmation x, ap_at = ap_at x\<rparr> = x"
  by (cases x) simp

lemma approval_keys: "map fst (approval_items x) = map lit approval_keys"
  by (simp add: approval_items_def approval_keys_def)

lemma approval_decode:
  assumes "approval_ok ud x"
  shows "approval_from_dict ud (approval_to_dict x) = Inr x"
proof -
  have "exact_mapping approval_keys (approval_to_dict x) = Inr (lookup (approval_items x))"
    unfolding approval_to_dict_def by (rule exact_mapping_items) (rule approval_keys)
  with assms show ?thesis
    by (simp add: approval_from_dict_def approval_items_def lookup_Cons checked_def approval_surj)
qed

lemma application_surj:
  "\<lparr>al_schema_version = al_schema_version x, al_sha256 = al_sha256 x,
    al_approval = al_approval x, al_ref = al_ref x, al_commit = al_commit x,
    al_at = al_at x\<rparr> = x"
  by (cases x) simp

lemma application_keys: "map fst (application_items x) = map lit application_keys"
  by (simp add: application_items_def application_keys_def)

lemma application_decode:
  assumes "application_ok x"
  shows "application_from_dict (application_to_dict x) = Inr x"
proof -
  have "exact_mapping application_keys (application_to_dict x) = Inr (lookup (application_items x))"
    unfolding application_to_dict_def by (rule exact_mapping_items) (rule application_keys)
  with assms show ?thesis
    by (simp add: application_from_dict_def application_items_def lookup_Cons checked_def application_surj)
qed

lemma decision_surj:
  "\<lparr>de_schema_version = de_schema_version x, de_sha256 = de_sha256 x, de_state = de_state x,
    de_subject = de_subject x, de_reason = de_reason x, de_candidate = de_candidate x,
    de_at = de_at x\<rparr> = x"
  by (cases x) simp

lemma decision_keys: "map fst (decision_items x) = map lit decision_keys"
  by (simp add: decision_items_def decision_keys_def)

lemma decision_decode:
  assumes "decision_ok ud x"
  shows "decision_from_dict ud (decision_to_dict x) = Inr x"
proof -
  have "exact_mapping decision_keys (decision_to_dict x) = Inr (lookup (decision_items x))"
    unfolding decision_to_dict_def by (rule exact_mapping_items) (rule decision_keys)
  with assms show ?thesis
    by (simp add: decision_from_dict_def decision_items_def lookup_Cons checked_def decision_surj)
qed

lemma failure_surj:
  "\<lparr>fl_schema_version = fl_schema_version x, fl_code = fl_code x, fl_stage = fl_stage x,
    fl_retryable = fl_retryable x, fl_at = fl_at x\<rparr> = x"
  by (cases x) simp

lemma failure_keys: "map fst (failure_items x) = map lit failure_keys"
  by (simp add: failure_items_def failure_keys_def)

lemma failure_decode:
  assumes "failure_ok x"
  shows "failure_from_dict (failure_to_dict x) = Inr x"
proof -
  have "exact_mapping failure_keys (failure_to_dict x) = Inr (lookup (failure_items x))"
    unfolding failure_to_dict_def by (rule exact_mapping_items) (rule failure_keys)
  with assms show ?thesis
    by (simp add: failure_from_dict_def failure_items_def lookup_Cons checked_def failure_surj)
qed

lemma preview_surj:
  "\<lparr>pv_schema_version = pv_schema_version x, pv_session = pv_session x,
    pv_state = pv_state x, pv_candidate = pv_candidate x, pv_validation = pv_validation x,
    pv_paths = pv_paths x, pv_diff = pv_diff x, pv_confirmation = pv_confirmation x\<rparr> = x"
  by (cases x) simp

lemma preview_keys: "map fst (preview_items x) = map lit preview_keys"
  by (simp add: preview_items_def preview_keys_def)

lemma preview_decode:
  assumes "preview_ok ud x"
  shows "preview_from_dict ud (preview_to_dict x) = Inr x"
proof -
  have "exact_mapping preview_keys (preview_to_dict x) = Inr (lookup (preview_items x))"
    unfolding preview_to_dict_def by (rule exact_mapping_items) (rule preview_keys)
  with assms show ?thesis
    by (simp add: preview_from_dict_def preview_items_def lookup_Cons checked_def preview_surj)
qed

lemma snapshot_surj:
  "\<lparr>sn_schema_version = sn_schema_version x, sn_session = sn_session x,
    sn_state = sn_state x, sn_request = sn_request x, sn_created = sn_created x,
    sn_updated = sn_updated x, sn_target_count = sn_target_count x, sn_paths = sn_paths x,
    sn_candidate = sn_candidate x, sn_validation = sn_validation x, sn_approval = sn_approval x,
    sn_application = sn_application x, sn_decision = sn_decision x, sn_failure = sn_failure x,
    sn_cleanup_pending = sn_cleanup_pending x\<rparr> = x"
  by (cases x) simp

lemma snapshot_keys: "map fst (snapshot_items x) = map lit snapshot_keys"
  by (simp add: snapshot_items_def snapshot_keys_def)

lemma to_dict_not_null [simp]:
  "candidate_to_dict c \<noteq> JNull" "validation_to_dict v \<noteq> JNull" "approval_to_dict a \<noteq> JNull"
  "application_to_dict l \<noteq> JNull" "decision_to_dict d \<noteq> JNull" "failure_to_dict f \<noteq> JNull"
  by (simp_all add: candidate_to_dict_def validation_to_dict_def approval_to_dict_def
    application_to_dict_def decision_to_dict_def failure_to_dict_def)

lemma opt_all_mem: "opt_all P y \<Longrightarrow> x \<in> set_option y \<Longrightarrow> P x"
  by (cases y) (simp_all add: opt_all_def)

lemma optional_record_decode:
  assumes "opt_all P y" "\<And>x. P x \<Longrightarrow> D (f x) = Inr x" "\<And>x. f x \<noteq> JNull"
  shows "optional_record D (j_option f y) = Inr y"
  using assms by (intro optional_record_encode) (auto dest: opt_all_mem)

lemma snapshot_decode:
  assumes "snapshot_valid ud x"
  shows "snapshot_from_dict ud (snapshot_to_dict x) = Inr x"
proof -
  have "exact_mapping snapshot_keys (snapshot_to_dict x) = Inr (lookup (snapshot_items x))"
    unfolding snapshot_to_dict_def by (rule exact_mapping_items) (rule snapshot_keys)
  moreover note valid = assms [unfolded snapshot_valid_def]
  have "optional_record (candidate_from_dict ud) (j_option candidate_to_dict (sn_candidate x)) = Inr (sn_candidate x)"
    "optional_record validation_from_dict (j_option validation_to_dict (sn_validation x)) = Inr (sn_validation x)"
    "optional_record (approval_from_dict ud) (j_option approval_to_dict (sn_approval x)) = Inr (sn_approval x)"
    "optional_record application_from_dict (j_option application_to_dict (sn_application x)) = Inr (sn_application x)"
    "optional_record (decision_from_dict ud) (j_option decision_to_dict (sn_decision x)) = Inr (sn_decision x)"
    "optional_record failure_from_dict (j_option failure_to_dict (sn_failure x)) = Inr (sn_failure x)"
    using valid
    by (auto intro: optional_record_decode candidate_decode validation_decode approval_decode
      application_decode decision_decode failure_decode)
  ultimately show ?thesis
    using valid by (simp add: snapshot_from_dict_def snapshot_items_def lookup_Cons checked_def snapshot_surj)
qed

section \<open>What a decoder returns\<close>

definition yields :: "('a \<Rightarrow> bool) \<Rightarrow> py_error + 'a \<Rightarrow> bool" where
  "yields P m \<longleftrightarrow> (\<forall>x. m = Inr x \<longrightarrow> P x)"

lemma yieldsD: "yields P m \<Longrightarrow> m = Inr x \<Longrightarrow> P x"
  by (simp add: yields_def)

lemma yields_then: "(\<And>x. yields P (k x)) \<Longrightarrow> yields P (and_then m k)"
  by (auto simp: yields_def and_then_eq_Inr)

lemma yields_then_using: "yields Q m \<Longrightarrow> (\<And>x. Q x \<Longrightarrow> yields P (k x)) \<Longrightarrow> yields P (and_then m k)"
  by (auto simp: yields_def and_then_eq_Inr)

lemma yields_checked: "(Q x \<Longrightarrow> P x) \<Longrightarrow> yields P (checked Q x)"
  by (auto simp: yields_def checked_def res_iffs)

lemma yields_optional: "(\<And>v. yields P (D v)) \<Longrightarrow> yields (opt_all P) (optional_record D v)"
  by (auto simp: yields_def optional_record_def opt_all_def and_then_eq_Inr)

lemma prompt_identity_yields: "yields (prompt_identity_ok ud) (prompt_identity_from_dict ud v)"
  unfolding prompt_identity_from_dict_def by (intro yields_then yields_checked)

lemma context_summary_yields: "yields context_summary_ok (context_summary_from_dict v)"
  unfolding context_summary_from_dict_def by (intro yields_then yields_checked)

lemma candidate_yields: "yields (candidate_ok ud) (candidate_from_dict ud v)"
  unfolding candidate_from_dict_def by (intro yields_then yields_checked)

lemma command_result_yields: "yields command_result_ok (command_result_from_dict v)"
  unfolding command_result_from_dict_def by (intro yields_then yields_checked)

lemma validation_yields: "yields validation_ok (validation_from_dict v)"
  unfolding validation_from_dict_def by (intro yields_then yields_checked)

lemma approval_yields: "yields (approval_ok ud) (approval_from_dict ud v)"
  unfolding approval_from_dict_def by (intro yields_then yields_checked)

lemma application_yields: "yields application_ok (application_from_dict v)"
  unfolding application_from_dict_def by (intro yields_then yields_checked)

lemma decision_yields: "yields (decision_ok ud) (decision_from_dict ud v)"
  unfolding decision_from_dict_def by (intro yields_then yields_checked)

lemma failure_yields: "yields failure_ok (failure_from_dict v)"
  unfolding failure_from_dict_def by (intro yields_then yields_checked)

lemma preview_yields: "yields (preview_ok ud) (preview_from_dict ud v)"
  unfolding preview_from_dict_def by (intro yields_then yields_checked)

lemma snapshot_yields: "yields (snapshot_valid ud) (snapshot_from_dict ud v)"
  unfolding snapshot_from_dict_def
  apply (intro yields_then [of _ _ "exact_mapping _ _"] yields_then [of _ _ "exact_int _"] yields_then [of _ _ "exact_str _"]
     yields_then [of _ _ "exact_strs _"] yields_then [of _ _ "exact_bool _"] yields_then [of _ _ "exact_enum _ _ _"])
  apply (rule yields_then_using [OF yields_optional [OF candidate_yields]])
  apply (rule yields_then_using [OF yields_optional [OF validation_yields]])
  apply (rule yields_then_using [OF yields_optional [OF approval_yields]])
  apply (rule yields_then_using [OF yields_optional [OF application_yields]])
  apply (rule yields_then_using [OF yields_optional [OF decision_yields]])
  apply (rule yields_then_using [OF yields_optional [OF failure_yields]])
  apply (rule yields_then)
  apply (rule yields_checked)
  apply (simp add: snapshot_valid_def)
  done

section \<open>The mappings have no key twice\<close>

lemma json_dicts_values [simp]:
  "json_dicts (JStr s)" "json_dicts (JInt i)" "json_dicts (JBool b)" "json_dicts JNull"
  by (simp_all add: json_value.simps)

lemma json_dicts_option: "(\<And>x. json_dicts (f x)) \<Longrightarrow> json_dicts (j_option f y)"
  by (simp add: j_option_def split: option.split)

lemma json_dicts_records:
  "json_dicts (prompt_identity_to_dict p)" "json_dicts (context_summary_to_dict c)"
  "json_dicts (command_result_to_dict r)" "json_dicts (approval_to_dict a)"
  "json_dicts (application_to_dict l)" "json_dicts (decision_to_dict d)" "json_dicts (failure_to_dict f)"
  by (simp_all add: prompt_identity_to_dict_def prompt_identity_items_def context_summary_to_dict_def
    context_summary_items_def command_result_to_dict_def command_result_items_def approval_to_dict_def
    approval_items_def application_to_dict_def application_items_def decision_to_dict_def
    decision_items_def failure_to_dict_def failure_items_def json_dicts_option)

lemma json_dicts_candidate: "json_dicts (candidate_to_dict c)"
  by (simp add: candidate_to_dict_def candidate_items_def json_dicts_records list_all_iff)

lemma json_dicts_validation: "json_dicts (validation_to_dict v)"
  by (simp add: validation_to_dict_def validation_items_def json_dicts_records json_dicts_option list_all_iff)

lemma json_dicts_snapshot: "json_dicts (snapshot_to_dict s)"
  by (simp add: snapshot_to_dict_def snapshot_items_def json_dicts_records json_dicts_candidate
    json_dicts_validation json_dicts_option list_all_iff)

lemma json_dicts_preview: "json_dicts (preview_to_dict s)"
  by (simp add: preview_to_dict_def preview_items_def json_dicts_option list_all_iff)

section \<open>Properties\<close>

text \<open>
  C37. Every valid session snapshot survives persistence: decoding its JSON mapping, with the items of
  every dict in any order that sorting gives, returns the same snapshot.
\<close>

theorem snapshot_round_trip:
  assumes "snapshot_valid ud s"
  shows "snapshot_from_dict ud (snapshot_to_dict s) = Inr s \<and>
    snapshot_from_dict ud (json_norm (snapshot_to_dict s)) = Inr s"
  using snapshot_decode [OF assms] norm_okD [OF norm_ok_snapshot json_dicts_snapshot] by simp

end
