(* ===== verification/Repair_Log_Facts.thy ===== *)
theory Repair_Log_Facts
  imports Repair_Store Repair_Codec_Facts
begin

text \<open>
  The event log of \<open>_repair_store.py\<close>: what a written event reads back as, the order of the event
  file names, how a chain of events grows by one, the inductive predicate \<open>session_run\<close> of the logs
  that load, what a successful append did, and what two logs with one head digest have in common.
\<close>

section \<open>Leases and events as JSON\<close>

lemma lease_keys_items: "map fst (lease_items l) = map lit lease_keys"
  by (simp add: lease_items_def lease_keys_def)

lemma lease_surj:
  "\<lparr>ls_container = ls_container x, ls_name = ls_name x, ls_labels = ls_labels x,
    ls_session = ls_session x, ls_candidate = ls_candidate x, ls_token = ls_token x\<rparr> = x"
  by (cases x) simp

lemma label_from_json_encode: "label_from_json ((\<lambda>(n, v). JList [JStr n, JStr v]) p) = Inr p"
  by (simp add: label_from_json_def split: prod.split)

lemma lease_decode: "lease_ok l \<Longrightarrow> lease_from_dict (lease_to_dict l) = Inr l"
proof -
  assume ok: "lease_ok l"
  have "exact_mapping lease_keys (lease_to_dict l) = Inr (lookup (lease_items l))"
    unfolding lease_to_dict_def by (rule exact_mapping_items) (rule lease_keys_items)
  moreover have "exact_records label_from_json (JList (map (\<lambda>(n, v). JList [JStr n, JStr v]) (ls_labels l))) = Inr (ls_labels l)"
    by (rule exact_records_encode) (rule label_from_json_encode)
  ultimately show ?thesis
    using ok by (simp add: lease_from_dict_def lease_items_def lookup_Cons checked_def lease_surj)
qed

lemma lease_yields: "yields lease_ok (lease_from_dict v)"
  unfolding lease_from_dict_def by (intro yields_then yields_checked)

lemma norm_ok_label: "norm_ok label_from_json"
  unfolding norm_ok_def label_from_json_def
  by (auto simp: json_norm.simps split: json.splits list.splits)

lemma norm_ok_lease [decodes]: "norm_ok lease_from_dict"
  unfolding lease_from_dict_def [abs_def]
  by (rule norm_ok_mapping) (simp add: decodes norm_ok_list [OF norm_ok_label] norm_okD)

lemma json_dicts_lease: "json_dicts (lease_to_dict l)"
  by (auto simp: lease_to_dict_def lease_items_def json_dicts_option list_all_iff)

lemma json_dicts_event: "json_dicts (JObj (event_items n p k t s v r))"
  by (simp add: event_items_def json_dicts_snapshot json_dicts_lease json_dicts_option)

lemma enum_event_kind [simp]: "enum_value event_kind_value all_event_kind (lit (event_kind_value e)) = Inr e"
proof (rule enum_value_lit)
  show "distinct (map event_kind_value all_event_kind)" by code_simp
  show "e \<in> set all_event_kind" by (cases e) (simp_all add: all_event_kind_def)
qed

section \<open>Reading what was written\<close>

lemma rm_canonical_bytes_Inr:
  "rm_canonical_bytes v = Inr b \<longleftrightarrow>
     (\<exists>kvs. v = JObj kvs) \<and> json_plain v \<and> json_digits_ok v \<and> utf8_encode (json_text v) = Some b"
  by (auto simp: rm_canonical_bytes_def split: json.splits option.splits if_splits)

lemma rm_canonical_bytes_norm: "rm_canonical_bytes (json_norm v) = Inr b \<longleftrightarrow> rm_canonical_bytes v = Inr b"
proof -
  have "(\<exists>kvs. json_norm v = JObj kvs) \<longleftrightarrow> (\<exists>kvs. v = JObj kvs)"
    by (cases v) (simp_all add: json_norm.simps)
  then show ?thesis
    unfolding rm_canonical_bytes_Inr json_norm_keeps json_text_norm by blast
qed

lemma read_canonical_mapping_bytes:
  assumes "rm_canonical_bytes v = Inr raw" "json_value (reads_float (rp_float env)) v" "length raw \<le> max_record_bytes"
  shows "read_canonical_mapping env raw = Inr (json_norm v)"
proof -
  note v = assms(1) [unfolded rm_canonical_bytes_Inr]
  then obtain kvs where kvs: "json_norm v = JObj kvs" by (cases v) auto
  have "utf8_decode raw = Some (json_text v)" using v utf8_decode_encode by blast
  moreover have "json_loads (rp_float env) (json_text v) = Inr (JObj kvs)"
    using json_loads_value v assms(2) by (simp add: kvs [symmetric])
  moreover have "rm_canonical_bytes (JObj kvs) = Inr raw"
    using assms(1) by (simp add: kvs [symmetric] rm_canonical_bytes_norm)
  ultimately show ?thesis
    using assms(3) by (simp add: read_canonical_mapping_def kvs)
qed

lemma read_canonical_mapping_Inr:
  "read_canonical_mapping env raw = Inr v \<Longrightarrow> rm_canonical_bytes v = Inr raw \<and> length raw \<le> max_record_bytes"
  by (auto simp: read_canonical_mapping_def res_iffs split: option.splits sum.splits json.splits if_splits)

text \<open>The digests of SHA-256 are 64 lower-case hexadecimal digits.\<close>

definition digest_function :: "(bytes \<Rightarrow> pystr) \<Rightarrow> bool" where
  "digest_function sha \<longleftrightarrow> (\<forall>b. is_sha256 (sha b))"

lemma exact_mapping_norm:
  assumes "map fst items = map lit keys" "distinct (map fst items)"
  shows "exact_mapping keys (json_norm (JObj items)) = Inr (\<lambda>k. json_norm (lookup items k))"
proof -
  have "set (map fst items) = set (map lit keys)" using assms(1) by simp
  moreover have "lookup (sort_key fst (map (apsnd json_norm) items)) = (\<lambda>k. json_norm (lookup items k))"
    using lookup_norm [OF assms(2)] by blast
  ultimately show ?thesis by (simp add: exact_mapping_def image_image)
qed

lemma event_mapping_norm:
  "exact_mapping event_keys (json_norm (JObj (event_items n p k t s v r))) =
     Inr (\<lambda>j. json_norm (lookup (event_items n p k t s v r) j))"
  by (rule exact_mapping_norm) (simp_all add: event_items_def event_keys_def)

lemma json_norm_option: "json_norm (j_option f x) = j_option (\<lambda>y. json_norm (f y)) x"
  by (simp add: j_option_def split: option.split)

lemma json_norm_snapshot: "\<exists>kvs. json_norm (snapshot_to_dict s) = JObj kvs"
  by (simp add: snapshot_to_dict_def)

lemma optional_sha256_encode: "opt_all is_sha256 v \<Longrightarrow> optional_sha256 (j_option JStr v) = Inr v"
  by (cases v) (simp_all add: optional_sha256_def j_option_def opt_all_def)

lemma optional_lease_encode:
  "opt_all lease_ok r \<Longrightarrow> optional_record lease_from_dict (j_option (\<lambda>l. json_norm (lease_to_dict l)) r) = Inr r"
proof (rule optional_record_decode)
  show "lease_from_dict (json_norm (lease_to_dict l)) = Inr l" if "lease_ok l" for l
    using norm_okD [OF norm_ok_lease json_dicts_lease] lease_decode [OF that] by simp
qed (simp_all add: lease_to_dict_def)

lemma rm_domain_digest_Inr:
  "rm_domain_digest env kind v = Inr d \<longleftrightarrow>
     (\<exists>b. rm_canonical_bytes v = Inr b \<and> d = rp_sha256 env (digest_domain kind @ 0 # b))"
  by (auto simp: rm_domain_digest_def res_iffs)

lemma load_event_written:
  assumes raw: "rm_canonical_bytes (JObj (event_items n (previous_sha256 prev) kind (sn_updated s) s preview run)) = Inr raw"
    and "length raw \<le> max_record_bytes" "snapshot_valid (rp_unicode env) s"
    and "snapshot_record_digests_are_valid env s = Inr True"
    and "opt_all is_sha256 preview" "opt_all lease_ok run" "sn_session s = session"
    and "prev = None \<longrightarrow> n = 0" "event_follows prev kind s preview run"
  shows "load_event env session prev n raw =
    Inr \<lparr>ld_snapshot = s, ld_sequence = n, ld_sha256 = rp_sha256 env (digest_domain ''event'' @ 0 # raw),
      ld_timestamp = sn_updated s, ld_preview = preview, ld_run = run\<rparr>"
proof -
  let ?items = "event_items n (previous_sha256 prev) kind (sn_updated s) s preview run"
  let ?m = "\<lambda>j. json_norm (lookup ?items j)"
  note fields = event_items_def lookup_Cons json_norm_option
  have read: "read_canonical_mapping env raw = Inr (json_norm (JObj ?items))"
    by (rule read_canonical_mapping_bytes [OF raw json_dicts_value [OF json_dicts_event] assms(2)])
  have snap: "snapshot_from_dict (rp_unicode env) (json_norm (snapshot_to_dict s)) = Inr s"
    using snapshot_decode [OF assms(3)] norm_okD [OF norm_ok_snapshot json_dicts_snapshot] by simp
  have "case json_norm (snapshot_to_dict s) of JObj _ \<Rightarrow> True | _ \<Rightarrow> False"
    using json_norm_snapshot [of s] by auto
  then have validate: "validate_event_mapping (json_norm (JObj ?items)) n (previous_sha256 prev) = Inr ?m"
    using event_mapping_norm optional_sha256_encode [OF assms(5)]
    by (simp add: validate_event_mapping_def fields)
  have "rm_canonical_bytes (json_norm (JObj ?items)) = Inr raw"
    using raw by (simp only: rm_canonical_bytes_norm)
  then have digest: "rm_domain_digest env ''event'' (json_norm (JObj ?items)) =
      Inr (rp_sha256 env (digest_domain ''event'' @ 0 # raw))"
    by (simp only: rm_domain_digest_Inr) blast
  have at: "?m (lit ''snapshot'') = json_norm (snapshot_to_dict s)"
    "?m (lit ''preview_sha256'') = j_option JStr preview"
    "?m (lit ''validation_run'') = j_option (\<lambda>l. json_norm (lease_to_dict l)) run"
    "?m (lit ''state'') = JStr (lit (repair_state_value (sn_state s)))"
    "?m (lit ''kind'') = JStr (lit (event_kind_value kind))"
    "?m (lit ''timestamp_us'') = JInt (sn_updated s)"
    by (simp_all add: fields)
  show ?thesis
    unfolding load_event_def read validate and_then_Inr at
    using snap assms(4,7-9) optional_sha256_encode [OF assms(5)] optional_lease_encode [OF assms(6)] digest
    by simp
qed

section \<open>File names\<close>

lemma digits_value_Cons: "digits_value (c # cs) = (c - 48) * 10 ^ length cs + digits_value cs"
proof -
  have "foldl (\<lambda>a c. 10 * a + (c - 48)) a cs = a * 10 ^ length cs + foldl (\<lambda>a c. 10 * a + (c - 48)) 0 cs"
    for a :: nat and cs
  proof (induction cs arbitrary: a)
    case (Cons c cs)
    have "foldl (\<lambda>a c. 10 * a + (c - 48)) (10 * a + (c - 48)) cs =
        (10 * a + (c - 48)) * 10 ^ length cs + foldl (\<lambda>a c. 10 * a + (c - 48)) 0 cs" by (rule Cons)
    moreover have "foldl (\<lambda>a c. 10 * a + (c - 48)) (10 * 0 + (c - 48)) cs =
        (10 * 0 + (c - 48)) * 10 ^ length cs + foldl (\<lambda>a c. 10 * a + (c - 48)) 0 cs" by (rule Cons)
    ultimately show ?case by (simp add: algebra_simps)
  qed simp
  from this [of "c - 48" cs] show ?thesis by (simp add: digits_value_def)
qed

lemma digits_value_bound: "list_all is_digit cs \<Longrightarrow> digits_value cs < 10 ^ length cs"
proof (induction cs)
  case (Cons c cs)
  then have "c - 48 \<le> 9" by (auto simp: is_digit_def)
  then have "(c - 48) * 10 ^ length cs \<le> 9 * 10 ^ length cs" by (rule mult_le_mono1)
  moreover have "digits_value cs < 10 ^ length cs" using Cons by simp
  ultimately have "(c - 48) * 10 ^ length cs + digits_value cs < 10 * 10 ^ length cs" by linarith
  then show ?case by (simp add: digits_value_Cons)
qed (simp add: digits_value_def)

lemma digits_value_less:
  assumes "length xs = length ys" "list_all is_digit xs" "list_all is_digit ys" "digits_value xs < digits_value ys"
  shows "xs < ys"
  using assms
proof (induction xs ys rule: list_induct2)
  case (Cons x xs y ys)
  have d: "48 \<le> x" "48 \<le> y" using Cons.prems by (simp_all add: is_digit_def)
  show ?case
  proof (cases "x = y")
    case True
    with Cons show ?thesis by (simp add: digits_value_Cons)
  next
    case False
    have "\<not> y < x"
    proof
      assume "y < x"
      then have "Suc (y - 48) \<le> x - 48" using d by arith
      then have "Suc (y - 48) * 10 ^ length xs \<le> (x - 48) * 10 ^ length xs" by (rule mult_le_mono1)
      moreover have "digits_value ys < 10 ^ length ys" using Cons.prems by (intro digits_value_bound) simp
      ultimately show False using Cons.prems(3) Cons.hyps by (simp add: digits_value_Cons)
    qed
    with False show ?thesis by simp
  qed
qed simp

lemma digits_value_zeros: "digits_value (replicate k 48 @ cs) = digits_value cs"
  by (induction k) (simp_all add: digits_value_Cons)

lemma sequence_text_value: "digits_value (sequence_text n) = n"
  by (simp add: sequence_text_def digits_value_zeros digits_value_text)

lemma sequence_text_digits: "list_all is_digit (sequence_text n)"
  using nat_text_digits [of n] by (auto simp: sequence_text_def list_all_iff is_digit_def)

lemma nat_text_mono: "m \<le> n \<Longrightarrow> length (nat_text m) \<le> length (nat_text n)"
proof (induction n arbitrary: m rule: nat_text.induct)
  case (1 n)
  show ?case
  proof (cases "m < 10")
    case True
    have "1 \<le> length (nat_text n)" by (simp add: Suc_leI)
    then show ?thesis using True by (simp add: nat_text.simps [of m])
  next
    case False
    then have "\<not> n < 10" "m div 10 \<le> n div 10" using 1(2) by (simp_all add: div_le_mono)
    with 1(1) False show ?thesis by (simp add: nat_text.simps [of m] nat_text.simps [of n])
  qed
qed

lemma event_name_length: "length (event_name n) = 21 \<longleftrightarrow> length (nat_text n) \<le> 16"
  by (simp add: event_name_def sequence_text_def lit_def) arith

lemma less_append: "length xs = length ys \<Longrightarrow> xs < ys \<Longrightarrow> xs @ zs < ys @ (ws :: nat list)"
  by (induction xs ys rule: list_induct2) auto

lemma event_name_less:
  assumes "m < n" "length (event_name n) = 21"
  shows "event_name m < event_name n"
proof -
  have len: "length (nat_text n) \<le> 16" "length (nat_text m) \<le> 16"
    using assms nat_text_mono [of m n] by (simp_all add: event_name_length)
  then have "length (sequence_text m) = length (sequence_text n)" by (simp add: sequence_text_def)
  moreover from this have "sequence_text m < sequence_text n"
    using assms(1) by (intro digits_value_less) (simp_all add: sequence_text_digits sequence_text_value)
  ultimately show ?thesis unfolding event_name_def by (rule less_append)
qed

lemma insort_key_snoc: "f x \<le> f y \<Longrightarrow> insort_key f x (zs @ [y]) = insort_key f x zs @ [y]"
  by (induction zs) auto

lemma sort_key_snoc: "(\<And>x. x \<in> set xs \<Longrightarrow> f x \<le> f y) \<Longrightarrow> sort_key f (xs @ [y]) = sort_key f xs @ [y]"
  by (induction xs) (simp_all add: insort_key_snoc)

section \<open>Chains\<close>

lemma load_chain_append:
  "load_chain env sid prev n (fs @ gs) =
     and_then (load_chain env sid prev n fs) (\<lambda>p. load_chain env sid p (n + length fs) gs)"
  by (induction fs arbitrary: prev n) (simp_all add: and_then_assoc)

lemma load_event_sequence: "load_event env sid prev n raw = Inr ld \<Longrightarrow> ld_sequence ld = n"
  by (auto simp: load_event_def res_iffs)

lemma load_chain_sequence:
  "load_chain env sid prev n fs = Inr (Some ld) \<Longrightarrow> fs \<noteq> [] \<Longrightarrow> Suc (ld_sequence ld) = n + length fs"
proof (induction fs arbitrary: prev n)
  case (Cons f fs)
  then obtain p where "load_event env sid prev n (snd f) = Inr p"
    "load_chain env sid (Some p) (Suc n) fs = Inr (Some ld)" by (auto simp: res_iffs)
  with Cons.IH show ?case by (cases fs) (auto dest: load_event_sequence)
qed simp

lemma load_chain_names:
  "load_chain env sid prev n fs = Inr ld \<Longrightarrow> map fst fs = map event_name [n..<n + length fs]"
proof (induction fs arbitrary: prev n)
  case (Cons f fs)
  from Cons.prems have f: "fst f = event_name n" by (auto simp: res_iffs)
  from Cons.prems obtain p where "load_chain env sid (Some p) (Suc n) fs = Inr ld" by (auto simp: res_iffs)
  note names = Cons.IH [OF this]
  have "[n..<n + length (f # fs)] = n # [Suc n..<Suc n + length fs]" by (subst upt_conv_Cons) simp_all
  with f names show ?case by (simp del: upt_Suc)
qed simp

lemma load_event_chain_Inr:
  "load_event_chain env sid dir = Inr ld \<longleftrightarrow> load_chain env sid None 0 (event_files dir) = Inr (Some ld)"
  by (auto simp: load_event_chain_def res_iffs split: option.splits)

lemma read_log_Inr: "read_log env st = Inr ld \<longleftrightarrow> load_event_chain env (ss_session st) (ss_events st) = Inr ld"
  by (auto simp: read_log_def split: sum.splits)

lemma event_files_snoc:
  assumes "load_event_chain env sid dir = Inr ld" "is_event_name (event_name (Suc (ld_sequence ld)))"
  shows "event_files (dir @ [(event_name (Suc (ld_sequence ld)), raw)]) =
    event_files dir @ [(event_name (Suc (ld_sequence ld)), raw)]"
proof -
  let ?n = "Suc (ld_sequence ld)"
  have chain: "load_chain env sid None 0 (event_files dir) = Inr (Some ld)"
    using assms(1) by (simp add: load_event_chain_Inr)
  then have ne: "event_files dir \<noteq> []" by auto
  have n: "?n = length (event_files dir)" using load_chain_sequence [OF chain ne] by simp
  have len: "length (event_name ?n) = 21" using assms(2) by (simp add: is_event_name_def)
  then have temp: "\<not> is_event_temp (event_name ?n)" by (simp add: is_event_temp_def)
  have names: "map fst (event_files dir) = map event_name [0..<?n]"
    using load_chain_names [OF chain] by (simp add: n)
  have "set (event_files dir) = {f \<in> set dir. \<not> is_event_temp (fst f)}" by (auto simp: event_files_def)
  then have "fst f \<le> event_name ?n" if "f \<in> set (filter (\<lambda>f. \<not> is_event_temp (fst f)) dir)" for f
  proof -
    have "f \<in> set (event_files dir)" using that by (simp add: event_files_def)
    then have "fst f \<in> set (map event_name [0..<?n])" unfolding names [symmetric] by simp
    then obtain i where "i < ?n" "fst f = event_name i" unfolding set_map by (metis imageE atLeastLessThan_iff set_upt)
    then show ?thesis using event_name_less [OF _ len] by (simp add: less_imp_le)
  qed
  note below = this
  have "filter (\<lambda>f. \<not> is_event_temp (fst f)) (dir @ [(event_name ?n, raw)]) =
      filter (\<lambda>f. \<not> is_event_temp (fst f)) dir @ [(event_name ?n, raw)]" by (simp add: temp)
  then show ?thesis unfolding event_files_def by (simp only: ) (rule sort_key_snoc, use below in simp)
qed

section \<open>What a loaded log guarantees\<close>

text \<open>One event after another: the abstract step between loaded states.\<close>

definition event_state :: "repair_env \<Rightarrow> pystr \<Rightarrow> loaded_state \<Rightarrow> bool" where
  "event_state env sid ld \<longleftrightarrow>
     snapshot_valid (rp_unicode env) (ld_snapshot ld) \<and>
     snapshot_record_digests_are_valid env (ld_snapshot ld) = Inr True \<and>
     sn_session (ld_snapshot ld) = sid \<and> ld_timestamp ld = sn_updated (ld_snapshot ld) \<and>
     opt_all is_sha256 (ld_preview ld) \<and> opt_all lease_ok (ld_run ld)"

text \<open>A run of a session: the kinds of its events, oldest first, and the state they lead to.\<close>

inductive session_run :: "repair_env \<Rightarrow> pystr \<Rightarrow> event_kind list \<Rightarrow> loaded_state \<Rightarrow> bool"
  for env sid where
  created: "event_state env sid ld \<Longrightarrow> ld_sequence ld = 0 \<Longrightarrow>
    event_follows None kind (ld_snapshot ld) (ld_preview ld) (ld_run ld) \<Longrightarrow> session_run env sid [kind] ld"
| event: "session_run env sid ks p \<Longrightarrow> event_state env sid ld \<Longrightarrow> ld_sequence ld = Suc (ld_sequence p) \<Longrightarrow>
    event_follows (Some p) kind (ld_snapshot ld) (ld_preview ld) (ld_run ld) \<Longrightarrow>
    session_run env sid (ks @ [kind]) ld"

lemma optional_sha256_Inr: "optional_sha256 v = Inr p \<Longrightarrow> opt_all is_sha256 p"
  by (auto simp: optional_sha256_def opt_all_def split: json.splits if_splits)

lemma load_event_state:
  assumes "load_event env sid prev n raw = Inr ld"
  shows "event_state env sid ld \<and> (\<exists>kind. event_follows prev kind (ld_snapshot ld) (ld_preview ld) (ld_run ld)) \<and>
    (prev = None \<longrightarrow> n = 0)"
proof -
  from assms obtain m s p r kind where
    s: "snapshot_from_dict (rp_unicode env) (m (lit ''snapshot'')) = Inr s"
    and dig: "snapshot_record_digests_are_valid env s = Inr True"
    and p: "optional_sha256 (m (lit ''preview_sha256'')) = Inr p"
    and r: "optional_record lease_from_dict (m (lit ''validation_run'')) = Inr r"
    and sid: "sn_session s = sid" and f: "event_follows prev kind s p r" "prev = None \<longrightarrow> n = 0"
    and ld: "ld_snapshot ld = s" "ld_preview ld = p" "ld_run ld = r" "ld_timestamp ld = sn_updated s"
    unfolding load_event_def by (auto simp: res_iffs)
  have "snapshot_valid (rp_unicode env) s" using yieldsD [OF snapshot_yields s] .
  moreover have "opt_all lease_ok r" using yieldsD [OF yields_optional [OF lease_yields] r] .
  ultimately show ?thesis
    using dig sid f optional_sha256_Inr [OF p] by (auto simp: event_state_def ld)
qed

lemma load_chain_run:
  "load_chain env sid None 0 fs = Inr (Some ld) \<Longrightarrow> \<exists>ks. session_run env sid ks ld \<and> length ks = length fs"
proof (induction fs arbitrary: ld rule: rev_induct)
  case (snoc f fs)
  then obtain prev where prev: "load_chain env sid None 0 fs = Inr prev"
    and ld: "load_event env sid prev (length fs) (snd f) = Inr ld"
    by (auto simp: load_chain_append res_iffs)
  note st = load_event_state [OF ld]
  then obtain kind where kind: "event_follows prev kind (ld_snapshot ld) (ld_preview ld) (ld_run ld)" by blast
  show ?case
  proof (cases prev)
    case None
    then have "fs = []" using st by simp
    with st kind None load_event_sequence [OF ld] show ?thesis
      by (auto intro!: exI [of _ "[kind]"] session_run.created)
  next
    case (Some p)
    then obtain ks where "session_run env sid ks p" "length ks = length fs" using snoc.IH prev by blast
    moreover have "fs \<noteq> []" using prev Some by auto
    then have "Suc (ld_sequence p) = length fs" using load_chain_sequence [OF prev [unfolded Some]] by simp
    ultimately show ?thesis
      using st kind Some load_event_sequence [OF ld]
      by (auto intro!: exI [of _ "ks @ [kind]"] session_run.event)
  qed
qed simp

lemma load_run: "read_log env st = Inr ld \<Longrightarrow> \<exists>ks. session_run env (ss_session st) ks ld"
  unfolding read_log_Inr load_event_chain_Inr using load_chain_run by blast

section \<open>Appending\<close>

lemma store_result_Inr [simp]: "store_result m = Inr x \<longleftrightarrow> m = Inr x"
  by (simp add: store_result_def split: sum.split)

lemma event_mapping_Inr:
  "event_mapping env n p k t s v r = Inr e \<longleftrightarrow> snapshot_ok (rp_unicode env) s \<and> e = JObj (event_items n p k t s v r)"
  by (auto simp: event_mapping_def res_iffs)

lemma write_event_Inr:
  "write_event_immutable st name raw = Inr st' \<longleftrightarrow>
     is_event_name name \<and> length raw \<le> max_record_bytes \<and> name \<notin> fst ` set (ss_events st) \<and>
     st' = st\<lparr>ss_events := ss_events st @ [(name, raw)]\<rparr>"
  by (auto simp: write_event_immutable_def)

lemma next_validation_run_ok:
  "next_validation_run kind s run clear cur = Inr r \<Longrightarrow> opt_all lease_ok run \<Longrightarrow> opt_all lease_ok (ld_run cur) \<Longrightarrow>
     opt_all lease_ok r"
  by (auto simp: next_validation_run_def opt_all_def split: option.splits if_splits)

lemma next_preview_ok:
  assumes "digest_function (rp_sha256 env)" "next_preview env st kind cur = Inr p" "opt_all is_sha256 (ld_preview cur)"
  shows "opt_all is_sha256 p"
  using assms
  by (auto simp: next_preview_def opt_all_def digest_function_def res_iffs rm_domain_digest_Inr
      split: option.splits if_splits)

lemma write_cache_Inr:
  "write_cache env st ld = Inr st' \<longleftrightarrow>
     snapshot_ok (rp_unicode env) (ld_snapshot ld) \<and>
     (\<exists>b. rm_canonical_bytes (JObj (cache_items ld)) = Inr b \<and> st' = st\<lparr>ss_cache := Some b\<rparr>)"
  by (auto simp: write_cache_def cache_mapping_def res_iffs)

lemma event_files_clean [simp]: "event_files (ss_events (clean_events st)) = event_files (ss_events st)"
  by (simp add: event_files_def clean_events_def)

lemma clean_events_same [simp]:
  "ss_session (clean_events st) = ss_session st" "ss_read_only (clean_events st) = ss_read_only st"
  "ss_preview_file (clean_events st) = ss_preview_file st" "ss_private (clean_events st) = ss_private st"
  "ss_events (clean_events st) = filter (\<lambda>f. \<not> is_event_temp (fst f)) (ss_events st)"
  by (simp_all add: clean_events_def)

text \<open>Loading reads the log, and changes no file but the cache and left-over temporaries.\<close>

lemma load_Inr:
  "load env st = Inr (st1, ld) \<Longrightarrow>
     read_log env st = Inr ld \<and> ss_events st1 = ss_events (clean_events st) \<and> ss_session st1 = ss_session st \<and>
     ss_read_only st1 = ss_read_only st \<and> ss_preview_file st1 = ss_preview_file st \<and> ss_private st1 = ss_private st"
  by (auto simp: load_def res_iffs Let_def write_cache_Inr split: if_splits)

lemma next_preview_same: "ss_preview_file st1 = ss_preview_file st \<Longrightarrow> next_preview env st1 = next_preview env st"
  by (intro ext) (simp add: next_preview_def)

lemma append_event_parts:
  assumes "append_event env st kind s run clear = Inr (st', ld)"
  shows "\<exists>st1 cur raw b. load env st = Inr (st1, cur) \<and> sn_session s = ss_session st \<and>
    next_validation_run kind s run clear cur = Inr (ld_run ld) \<and>
    next_preview env st1 kind cur = Inr (ld_preview ld) \<and>
    event_follows (Some cur) kind s (ld_preview ld) (ld_run ld) \<and>
    snapshot_record_digests_are_valid env s = Inr True \<and>
    rm_canonical_bytes (JObj (event_items (Suc (ld_sequence cur)) (ld_sha256 cur) kind (sn_updated s) s
      (ld_preview ld) (ld_run ld))) = Inr raw \<and>
    length raw \<le> max_record_bytes \<and> is_event_name (event_name (Suc (ld_sequence cur))) \<and>
    rm_canonical_bytes (JObj (cache_items ld)) = Inr b \<and>
    st' = st1\<lparr>ss_events := ss_events st1 @ [(event_name (Suc (ld_sequence cur)), raw)], ss_cache := Some b\<rparr> \<and>
    ld = \<lparr>ld_snapshot = s, ld_sequence = Suc (ld_sequence cur),
      ld_sha256 = rp_sha256 env (digest_domain ''event'' @ 0 # raw), ld_timestamp = sn_updated s,
      ld_preview = ld_preview ld, ld_run = ld_run ld\<rparr>"
  using assms
  by (auto simp: append_event_def res_iffs Let_def event_follows_def event_mapping_Inr
      rm_domain_digest_Inr write_event_Inr write_cache_Inr)

lemma append_event_Inr:
  assumes "append_event env st kind s run clear = Inr (st', ld)"
  shows "\<exists>cur raw. read_log env st = Inr cur \<and> sn_session s = ss_session st \<and>
    next_validation_run kind s run clear cur = Inr (ld_run ld) \<and>
    next_preview env st kind cur = Inr (ld_preview ld) \<and>
    event_follows (Some cur) kind s (ld_preview ld) (ld_run ld) \<and>
    snapshot_record_digests_are_valid env s = Inr True \<and>
    rm_canonical_bytes (JObj (event_items (Suc (ld_sequence cur)) (ld_sha256 cur) kind (sn_updated s) s
      (ld_preview ld) (ld_run ld))) = Inr raw \<and>
    length raw \<le> max_record_bytes \<and> is_event_name (event_name (Suc (ld_sequence cur))) \<and>
    ss_session st' = ss_session st \<and> ss_read_only st' = ss_read_only st \<and>
    ss_events st' = ss_events (clean_events st) @ [(event_name (Suc (ld_sequence cur)), raw)] \<and>
    ld = \<lparr>ld_snapshot = s, ld_sequence = Suc (ld_sequence cur),
      ld_sha256 = rp_sha256 env (digest_domain ''event'' @ 0 # raw), ld_timestamp = sn_updated s,
      ld_preview = ld_preview ld, ld_run = ld_run ld\<rparr>"
proof -
  from append_event_parts [OF assms] obtain st1 cur raw b where
    parts: "load env st = Inr (st1, cur)" "sn_session s = ss_session st"
      "next_validation_run kind s run clear cur = Inr (ld_run ld)" "next_preview env st1 kind cur = Inr (ld_preview ld)"
      "event_follows (Some cur) kind s (ld_preview ld) (ld_run ld)" "snapshot_record_digests_are_valid env s = Inr True"
      "rm_canonical_bytes (JObj (event_items (Suc (ld_sequence cur)) (ld_sha256 cur) kind (sn_updated s) s
        (ld_preview ld) (ld_run ld))) = Inr raw"
      "length raw \<le> max_record_bytes" "is_event_name (event_name (Suc (ld_sequence cur)))"
    and st': "st' = st1\<lparr>ss_events := ss_events st1 @ [(event_name (Suc (ld_sequence cur)), raw)], ss_cache := Some b\<rparr>"
    and ld: "ld = \<lparr>ld_snapshot = s, ld_sequence = Suc (ld_sequence cur),
      ld_sha256 = rp_sha256 env (digest_domain ''event'' @ 0 # raw), ld_timestamp = sn_updated s,
      ld_preview = ld_preview ld, ld_run = ld_run ld\<rparr>" by metis
  note loaded = load_Inr [OF parts(1)]
  have "ss_session st' = ss_session st" "ss_read_only st' = ss_read_only st"
    "ss_events st' = ss_events (clean_events st) @ [(event_name (Suc (ld_sequence cur)), raw)]"
    using loaded by (simp_all add: st')
  moreover have "next_preview env st kind cur = Inr (ld_preview ld)"
    using parts(4) loaded next_preview_same by metis
  ultimately show ?thesis using loaded parts ld by blast
qed

lemma append_event_load:
  assumes append: "append_event env st kind s run clear = Inr (st', ld)"
    and ok: "snapshot_valid (rp_unicode env) s" "opt_all lease_ok run" "digest_function (rp_sha256 env)"
  shows "read_log env st' = Inr ld"
proof -
  from append_event_Inr [OF append] obtain cur raw where cur: "read_log env st = Inr cur"
    and sid: "sn_session s = ss_session st"
    and run: "next_validation_run kind s run clear cur = Inr (ld_run ld)"
    and pv: "next_preview env st kind cur = Inr (ld_preview ld)"
    and follows: "event_follows (Some cur) kind s (ld_preview ld) (ld_run ld)"
    and dig: "snapshot_record_digests_are_valid env s = Inr True"
    and raw: "rm_canonical_bytes (JObj (event_items (Suc (ld_sequence cur)) (ld_sha256 cur) kind
        (sn_updated s) s (ld_preview ld) (ld_run ld))) = Inr raw" "length raw \<le> max_record_bytes"
    and name: "is_event_name (event_name (Suc (ld_sequence cur)))"
    and st': "ss_session st' = ss_session st"
      "ss_events st' = ss_events (clean_events st) @ [(event_name (Suc (ld_sequence cur)), raw)]"
    and ld: "ld = \<lparr>ld_snapshot = s, ld_sequence = Suc (ld_sequence cur),
      ld_sha256 = rp_sha256 env (digest_domain ''event'' @ 0 # raw), ld_timestamp = sn_updated s,
      ld_preview = ld_preview ld, ld_run = ld_run ld\<rparr>" by blast
  let ?n = "Suc (ld_sequence cur)" and ?files = "event_files (ss_events st)"
  from load_run [OF cur] obtain ks where "session_run env (ss_session st) ks cur" ..
  then have old: "event_state env (ss_session st) cur" by cases simp_all
  have "opt_all lease_ok (ld_run ld)"
    using next_validation_run_ok [OF run ok(2)] old by (simp add: event_state_def)
  moreover have "opt_all is_sha256 (ld_preview ld)"
    using next_preview_ok [OF ok(3) pv] old by (simp add: event_state_def)
  ultimately have event: "load_event env (ss_session st) (Some cur) ?n raw = Inr ld"
    using load_event_written [of ?n "Some cur" kind s "ld_preview ld" "ld_run ld" raw env "ss_session st"]
      raw ok(1) dig sid follows ld by (simp add: previous_sha256_def)
  have chain: "load_event_chain env (ss_session st) (ss_events (clean_events st)) = Inr cur"
    using cur unfolding read_log_Inr load_event_chain_Inr event_files_clean .
  then have files: "load_chain env (ss_session st) None 0 ?files = Inr (Some cur)"
    unfolding load_event_chain_Inr event_files_clean .
  then have "?files \<noteq> []" by auto
  then have "length ?files = ?n" using load_chain_sequence [OF files] by simp
  then have "load_chain env (ss_session st) None 0 (?files @ [(event_name ?n, raw)]) = Inr (Some ld)"
    using files event by (simp add: load_chain_append)
  then show ?thesis
    unfolding read_log_Inr load_event_chain_Inr st' event_files_snoc [OF chain name] event_files_clean .
qed

section \<open>Tampering\<close>

lemma load_event_bytes:
  assumes "load_event env sid prev n raw = Inr ld"
  shows "\<exists>v m. rm_canonical_bytes v = Inr raw \<and> validate_event_mapping v n (previous_sha256 prev) = Inr m \<and>
    ld_sha256 ld = rp_sha256 env (digest_domain ''event'' @ 0 # raw) \<and> read_canonical_mapping env raw = Inr v"
proof -
  from assms obtain v m where v: "read_canonical_mapping env raw = Inr v"
    "validate_event_mapping v n (previous_sha256 prev) = Inr m"
    "rm_domain_digest env ''event'' v = Inr (ld_sha256 ld)"
    unfolding load_event_def by (auto simp: res_iffs)
  moreover from v(1) have "rm_canonical_bytes v = Inr raw" by (simp add: read_canonical_mapping_Inr)
  ultimately show ?thesis by (auto simp: rm_domain_digest_Inr)
qed

lemma validate_event_mapping_fields:
  "validate_event_mapping v n p = Inr m \<Longrightarrow>
     exact_mapping event_keys v = Inr m \<and> m (lit ''sequence'') = JInt (int n) \<and> m (lit ''previous_sha256'') = JStr p"
  by (auto simp: validate_event_mapping_def res_iffs)

lemma load_event_same_bytes:
  assumes "load_event env sid prev n raw = Inr ld" "load_event env sid' prev' n' raw = Inr ld'"
  shows "n = n' \<and> previous_sha256 prev = previous_sha256 prev'"
proof -
  obtain v m where v: "read_canonical_mapping env raw = Inr v" "validate_event_mapping v n (previous_sha256 prev) = Inr m"
    using load_event_bytes [OF assms(1)] by blast
  obtain v' m' where v': "read_canonical_mapping env raw = Inr v'" "validate_event_mapping v' n' (previous_sha256 prev') = Inr m'"
    using load_event_bytes [OF assms(2)] by blast
  have "v' = v" using v(1) v'(1) by simp
  with validate_event_mapping_fields [OF v(2)] validate_event_mapping_fields [OF v'(2)] show ?thesis by auto
qed

text \<open>Two different texts, one hashed for each log, with the same hash.\<close>

definition collide :: "(bytes \<Rightarrow> pystr) \<Rightarrow> bytes set \<Rightarrow> bytes set \<Rightarrow> bool" where
  "collide sha X Y \<longleftrightarrow> (\<exists>x \<in> X. \<exists>y \<in> Y. x \<noteq> y \<and> sha x = sha y)"

definition event_texts :: "event_dir \<Rightarrow> bytes set" where
  "event_texts fs = (\<lambda>f. digest_domain ''event'' @ 0 # snd f) ` set fs"

lemma collide_snoc: "collide sha (event_texts fs) (event_texts gs) \<Longrightarrow>
    collide sha (event_texts (fs @ [f])) (event_texts (gs @ [g]))"
  by (auto simp: collide_def event_texts_def)

lemma load_chain_same_digest:
  assumes "load_chain env sid None 0 fs = Inr (Some ld)" "load_chain env sid' None 0 gs = Inr (Some ld')"
    and "ld_sha256 ld = ld_sha256 ld'"
  shows "fs = gs \<or> collide (rp_sha256 env) (event_texts fs) (event_texts gs)"
  using assms
proof (induction fs arbitrary: gs ld ld' rule: rev_induct)
  case (snoc f fs)
  from snoc.prems obtain prev where prev: "load_chain env sid None 0 fs = Inr prev"
    and f: "fst f = event_name (length fs)" "load_event env sid prev (length fs) (snd f) = Inr ld"
    by (auto simp: load_chain_append res_iffs)
  from snoc.prems(2) have "gs \<noteq> []" by auto
  then obtain hs g where gs: "gs = hs @ [g]" by (metis rev_exhaust)
  with snoc.prems obtain prev' where prev': "load_chain env sid' None 0 hs = Inr prev'"
    and g: "fst g = event_name (length hs)" "load_event env sid' prev' (length hs) (snd g) = Inr ld'"
    by (auto simp: load_chain_append res_iffs)
  have hash: "rp_sha256 env (digest_domain ''event'' @ 0 # snd f) = rp_sha256 env (digest_domain ''event'' @ 0 # snd g)"
    using load_event_bytes [OF f(2)] load_event_bytes [OF g(2)] snoc.prems(3) by auto
  show ?case
  proof (cases "snd f = snd g")
    case False
    then have "collide (rp_sha256 env) (event_texts (fs @ [f])) (event_texts gs)"
      using hash by (auto simp: collide_def event_texts_def gs)
    then show ?thesis ..
  next
    case raw: True
    note same = load_event_same_bytes [OF f(2) g(2) [folded raw]]
    with f(1) g(1) raw have fg: "f = g" by (simp add: prod_eq_iff)
    have "fs = hs \<or> collide (rp_sha256 env) (event_texts fs) (event_texts hs)"
    proof (cases "fs = []")
      case False
      then obtain p where p: "prev = Some p" using prev load_event_state [OF f(2)] by (cases prev) auto
      moreover have "hs \<noteq> []" using same False by auto
      then obtain q where q: "prev' = Some q" using prev' load_event_state [OF g(2)] by (cases prev') auto
      ultimately show ?thesis
        using snoc.IH [of p hs q] prev prev' same by (simp add: previous_sha256_def)
    qed (use same in simp)
    with fg collide_snoc show ?thesis unfolding gs by blast
  qed
qed simp

end
