(* ===== verification/Repair_Run.thy ===== *)
theory Repair_Run
  imports Repair_Log_Facts
begin

text \<open>
  Runs of a session: what each kind of event may change, which events a record of the snapshot must
  have come from, and the interface of the event log its clients rely on (the locale
  \<open>event_log\<close>, interpreted on the store), with the order of loaded states it gives.
\<close>

section \<open>What one event changes\<close>

lemma changed_fields_mem [simp]:
  "F_candidate \<in> changed_fields p c \<longleftrightarrow> sn_candidate p \<noteq> sn_candidate c"
  "F_validation \<in> changed_fields p c \<longleftrightarrow> sn_validation p \<noteq> sn_validation c"
  "F_approval \<in> changed_fields p c \<longleftrightarrow> sn_approval p \<noteq> sn_approval c"
  "F_application \<in> changed_fields p c \<longleftrightarrow> sn_application p \<noteq> sn_application c"
  "F_decision \<in> changed_fields p c \<longleftrightarrow> sn_decision p \<noteq> sn_decision c"
  "F_failure \<in> changed_fields p c \<longleftrightarrow> sn_failure p \<noteq> sn_failure c"
  "F_cleanup_pending \<in> changed_fields p c \<longleftrightarrow> sn_cleanup_pending p \<noteq> sn_cleanup_pending c"
  by (simp_all add: changed_fields_def)

definition changes_allowed :: "event_kind \<Rightarrow> mutable_field set" where
  "changes_allowed kind =
     (case event_snapshot_changes kind of Some F \<Rightarrow> F | None \<Rightarrow> {F_cleanup_pending})"

lemma update_changes:
  assumes "snapshot_update_is_valid kind p c"
  shows "same_identity p c" "F \<in> changed_fields p c \<Longrightarrow> F \<in> changes_allowed kind"
proof -
  show "same_identity p c" using assms unfolding snapshot_update_is_valid_def by (metis (full_types))
  assume F: "F \<in> changed_fields p c"
  show "F \<in> changes_allowed kind"
  proof (cases "kind = K_cleanup_pending")
    case True
    then have "changed_fields p c \<subseteq> {F_cleanup_pending}"
      using assms unfolding snapshot_update_is_valid_def by (metis (full_types))
    with F True show ?thesis by (auto simp: changes_allowed_def)
  next
    case False
    then have "event_snapshot_changes kind = Some (changed_fields p c)"
      using assms unfolding snapshot_update_is_valid_def by (metis (full_types))
    with F show ?thesis by (simp add: changes_allowed_def)
  qed
qed

lemma changes_allowed_mem:
  "F_candidate \<in> changes_allowed kind \<longleftrightarrow> kind = K_candidate"
  "F_validation \<in> changes_allowed kind \<longleftrightarrow> kind = K_validation_result"
  "F_approval \<in> changes_allowed kind \<longleftrightarrow> kind = K_approved"
  "F_application \<in> changes_allowed kind \<longleftrightarrow> kind = K_applied"
  "F_decision \<in> changes_allowed kind \<longleftrightarrow> kind \<in> {K_rejected, K_cancelled, K_expired}"
  "F_failure \<in> changes_allowed kind \<longleftrightarrow> kind = K_failed"
  by (cases kind; simp add: changes_allowed_def)+

text \<open>A record of the snapshot is written once: the kind that may write it starts from \<open>None\<close>.\<close>

lemma update_starts:
  "snapshot_update_is_valid K_candidate p c \<Longrightarrow> sn_candidate p = None"
  "snapshot_update_is_valid K_validation_result p c \<Longrightarrow> sn_validation p = None"
  "snapshot_update_is_valid K_approved p c \<Longrightarrow> sn_approval p = None"
  "snapshot_update_is_valid K_applied p c \<Longrightarrow> sn_application p = None"
  "snapshot_update_is_valid K_rejected p c \<Longrightarrow> sn_decision p = None"
  "snapshot_update_is_valid K_cancelled p c \<Longrightarrow> sn_decision p = None"
  "snapshot_update_is_valid K_expired p c \<Longrightarrow> sn_decision p = None"
  "snapshot_update_is_valid K_failed p c \<Longrightarrow> sn_failure p = None"
  by (simp_all add: snapshot_update_is_valid_def split: if_splits)

lemma update_fields:
  assumes "snapshot_update_is_valid kind p c"
  shows "sn_candidate c = sn_candidate p \<or> kind = K_candidate \<and> sn_candidate p = None"
    and "sn_validation c = sn_validation p \<or> kind = K_validation_result \<and> sn_validation p = None"
    and "sn_approval c = sn_approval p \<or> kind = K_approved \<and> sn_approval p = None"
    and "sn_application c = sn_application p \<or> kind = K_applied \<and> sn_application p = None"
    and "sn_decision c = sn_decision p \<or> kind \<in> {K_rejected, K_cancelled, K_expired} \<and> sn_decision p = None"
    and "sn_failure c = sn_failure p \<or> kind = K_failed \<and> sn_failure p = None"
  using update_changes(2) [OF assms, of F_candidate] update_changes(2) [OF assms, of F_validation]
    update_changes(2) [OF assms, of F_approval] update_changes(2) [OF assms, of F_application]
    update_changes(2) [OF assms, of F_decision] update_changes(2) [OF assms, of F_failure]
    update_starts [of p c] assms
  unfolding changed_fields_mem changes_allowed_mem insert_iff empty_iff by metis+

lemma follows_parts:
  assumes "event_follows (Some p) kind s pv run"
  shows "event_state_pair_is_valid kind (sn_state (ld_snapshot p)) (sn_state s)"
    "validation_run_update_is_valid kind (ld_snapshot p) s (ld_run p) run"
    "candidate_preview_update_is_valid kind (ld_snapshot p) s (ld_preview p) pv"
    "snapshot_update_is_valid kind (ld_snapshot p) s"
    "sn_updated (ld_snapshot p) \<le> sn_updated s"
  using assms by (simp_all add: event_follows_def)

lemma pair_states:
  assumes "event_state_pair_is_valid kind a b"
  shows "b = GENERATING \<Longrightarrow> a = GENERATING \<or> kind = K_generating"
    "b = VALIDATING \<Longrightarrow> a = VALIDATING \<or> kind = K_validating"
    "b \<in> {VALIDATED, APPROVED, APPLYING, APPLIED, REJECTED} \<Longrightarrow>
       a \<in> {VALIDATED, APPROVED, APPLYING, APPLIED, REJECTED} \<or> kind = K_validated"
    "b = APPLYING \<Longrightarrow> kind = K_applying \<and> a = APPROVED"
    "b = APPLIED \<Longrightarrow> a = APPLIED \<or> kind = K_applied \<and> a = APPLYING"
    "kind = K_candidate \<Longrightarrow> a = GENERATING"
    "kind = K_approved \<Longrightarrow> a = VALIDATED"
    "kind = K_validation_intent \<Longrightarrow> a = VALIDATING"
    "is_terminal a \<Longrightarrow> b = a \<and> kind \<in> {K_validation_run, K_cleanup_complete, K_cleanup_pending}"
  using assms by (cases kind; auto simp: event_state_pair_is_valid_def terminal_states_def is_terminal_def)+

lemma run_update:
  assumes "validation_run_update_is_valid kind ps s p r" "r = Some l"
  shows "p = Some l \<or> kind = K_validation_intent \<and> ls_container l = None \<or>
    kind = K_validation_run \<and> (\<exists>l'. p = Some l' \<and> ls_container l' = None)"
  using assms by (cases kind) (auto simp: validation_run_update_is_valid_def split: if_splits option.splits)

lemma run_update_result:
  "validation_run_update_is_valid K_validation_result ps s p r \<Longrightarrow> \<exists>l. p = Some l \<and> ls_container l \<noteq> None"
  by (auto simp: validation_run_update_is_valid_def split: if_splits option.splits)

section \<open>History\<close>

text \<open>The events that lead to a publication, in the order a log can have them.\<close>

definition milestones :: "event_kind list" where
  "milestones =
     [K_generating, K_candidate, K_validating, K_validation_intent, K_validation_run,
      K_validation_result, K_validated, K_approved, K_applying, K_applied]"

definition passed :: "nat \<Rightarrow> event_kind list \<Rightarrow> bool" where
  "passed n ks \<longleftrightarrow> in_order (map (=) (take n milestones)) ks"

lemma passed_append: "passed n ks \<Longrightarrow> passed n (ks @ [k])"
  unfolding passed_def by (rule in_order_append)

lemma passed_Suc:
  assumes "passed n ks" "n < length milestones" "k = milestones ! n"
  shows "passed (Suc n) (ks @ [k])"
  using assms unfolding passed_def
  by (simp add: take_Suc_conv_app_nth in_order_snoc)

definition published_states :: "repair_state set" where
  "published_states = {VALIDATED, APPROVED, APPLYING, APPLIED, REJECTED}"

definition history :: "event_kind list \<Rightarrow> loaded_state \<Rightarrow> bool" where
  "history ks ld \<longleftrightarrow>
     (let s = ld_snapshot ld in
      (sn_state s = GENERATING \<longrightarrow> passed 1 ks) \<and>
      (sn_candidate s \<noteq> None \<longrightarrow> passed 2 ks) \<and>
      (sn_state s = VALIDATING \<longrightarrow> passed 3 ks) \<and>
      (ld_run ld \<noteq> None \<longrightarrow> passed 4 ks) \<and>
      (\<forall>l. ld_run ld = Some l \<longrightarrow> ls_container l \<noteq> None \<longrightarrow> passed 5 ks) \<and>
      (sn_validation s \<noteq> None \<longrightarrow> passed 6 ks) \<and>
      (sn_state s \<in> published_states \<longrightarrow> passed 7 ks) \<and>
      (sn_approval s \<noteq> None \<longrightarrow> passed 8 ks) \<and>
      (sn_state s = APPLYING \<longrightarrow> passed 9 ks) \<and>
      (sn_state s = APPLIED \<longrightarrow> passed 10 ks))"

lemma history_parts:
  assumes "history ks ld"
  shows "sn_state (ld_snapshot ld) = GENERATING \<Longrightarrow> passed 1 ks"
    "sn_candidate (ld_snapshot ld) \<noteq> None \<Longrightarrow> passed 2 ks"
    "sn_state (ld_snapshot ld) = VALIDATING \<Longrightarrow> passed 3 ks"
    "ld_run ld \<noteq> None \<Longrightarrow> passed 4 ks"
    "ld_run ld = Some l \<Longrightarrow> ls_container l \<noteq> None \<Longrightarrow> passed 5 ks"
    "sn_validation (ld_snapshot ld) \<noteq> None \<Longrightarrow> passed 6 ks"
    "sn_state (ld_snapshot ld) \<in> published_states \<Longrightarrow> passed 7 ks"
    "sn_approval (ld_snapshot ld) \<noteq> None \<Longrightarrow> passed 8 ks"
    "sn_state (ld_snapshot ld) = APPLYING \<Longrightarrow> passed 9 ks"
    "sn_state (ld_snapshot ld) = APPLIED \<Longrightarrow> passed 10 ks"
  using assms by (simp_all add: history_def Let_def)

text \<open>Which records a state requires.\<close>

lemma shape_requires:
  assumes "snapshot_valid ud s"
  shows "sn_state s = VALIDATING \<Longrightarrow> sn_candidate s \<noteq> None"
    "sn_state s \<in> published_states \<Longrightarrow> sn_candidate s \<noteq> None \<and> (\<exists>v. sn_validation s = Some v \<and> va_success v)"
    "sn_state s \<in> {APPROVED, APPLYING, APPLIED} \<Longrightarrow> sn_approval s \<noteq> None"
    "sn_state s = CREATED \<Longrightarrow> sn_candidate s = None \<and> sn_validation s = None \<and> sn_approval s = None \<and>
       sn_application s = None \<and> sn_decision s = None \<and> sn_failure s = None \<and> \<not> sn_cleanup_pending s"
  using assms
proof -
  have shape: "snapshot_shape s" and dec: "opt_all (decision_ok ud) (sn_decision s)"
    using assms by (simp_all add: snapshot_valid_def snapshot_ok_def)
  show "sn_state s = VALIDATING \<Longrightarrow> sn_candidate s \<noteq> None"
    using shape by (simp add: snapshot_shape_def)
  show "sn_state s \<in> published_states \<Longrightarrow> sn_candidate s \<noteq> None \<and> (\<exists>v. sn_validation s = Some v \<and> va_success v)"
    using shape by (auto simp: snapshot_shape_def published_states_def split: option.splits)
  show "sn_state s \<in> {APPROVED, APPLYING, APPLIED} \<Longrightarrow> sn_approval s \<noteq> None"
    using shape by (auto simp: snapshot_shape_def)
  assume s: "sn_state s = CREATED"
  then have c: "sn_candidate s = None" using shape by (simp add: snapshot_shape_def)
  then have "sn_validation s = None" using shape
    by (cases "sn_validation s") (simp_all add: snapshot_shape_def opt_all_def)
  moreover have "sn_approval s = None" using shape c
    by (cases "sn_approval s") (simp_all add: snapshot_shape_def opt_all_def)
  moreover have "sn_application s = None" using shape s
    by (cases "sn_application s") (simp_all add: snapshot_shape_def opt_all_def)
  moreover have "sn_decision s = None" using shape s dec
    by (cases "sn_decision s") (auto simp: snapshot_shape_def opt_all_def decision_ok_def)
  moreover have "sn_failure s = None" "\<not> sn_cleanup_pending s" using shape s
    by (auto simp: snapshot_shape_def is_terminal_def terminal_states_def)
  ultimately show "sn_candidate s = None \<and> sn_validation s = None \<and> sn_approval s = None \<and>
       sn_application s = None \<and> sn_decision s = None \<and> sn_failure s = None \<and> \<not> sn_cleanup_pending s"
    using c by blast
qed

lemma session_run_state: "session_run env sid ks ld \<Longrightarrow> event_state env sid ld"
  by (erule session_run.cases) simp_all

lemma milestone_nth:
  "milestones ! 0 = K_generating" "milestones ! 1 = K_candidate" "milestones ! 2 = K_validating"
  "milestones ! 3 = K_validation_intent" "milestones ! 4 = K_validation_run" "milestones ! 5 = K_validation_result"
  "milestones ! 6 = K_validated" "milestones ! 7 = K_approved" "milestones ! 8 = K_applying"
  "milestones ! 9 = K_applied" "milestones ! Suc 0 = K_candidate" "length milestones = 10"
  by (simp_all add: milestones_def)

lemma passed_next:
  "passed 0 ks"
  "passed 1 (ks @ [K_generating])"
  "passed 1 ks \<Longrightarrow> passed 2 (ks @ [K_candidate])" "passed 2 ks \<Longrightarrow> passed 3 (ks @ [K_validating])"
  "passed 3 ks \<Longrightarrow> passed 4 (ks @ [K_validation_intent])" "passed 4 ks \<Longrightarrow> passed 5 (ks @ [K_validation_run])"
  "passed 5 ks \<Longrightarrow> passed 6 (ks @ [K_validation_result])" "passed 6 ks \<Longrightarrow> passed 7 (ks @ [K_validated])"
  "passed 7 ks \<Longrightarrow> passed 8 (ks @ [K_approved])" "passed 8 ks \<Longrightarrow> passed 9 (ks @ [K_applying])"
  "passed 9 ks \<Longrightarrow> passed 10 (ks @ [K_applied])"
proof -
  show zero: "passed 0 ks" for ks by (simp add: passed_def)
  show "passed 1 (ks @ [K_generating])"
    using passed_Suc [OF zero, of K_generating ks] by (simp add: milestone_nth)
  show "passed 1 ks \<Longrightarrow> passed 2 (ks @ [K_candidate])"
    using passed_Suc [of 1 ks K_candidate] by (simp add: milestone_nth numeral_2_eq_2)
qed (use passed_Suc [of 2 ks] passed_Suc [of 3 ks] passed_Suc [of 4 ks]
    passed_Suc [of 5 ks] passed_Suc [of 6 ks] passed_Suc [of 7 ks] passed_Suc [of 8 ks] passed_Suc [of 9 ks]
    in \<open>simp_all add: milestone_nth numeral_eq_Suc [symmetric]\<close>)

lemma history_step:
  assumes run: "session_run env sid ks p" and H: "history ks p" and st: "event_state env sid ld"
    and follows: "event_follows (Some p) kind (ld_snapshot ld) (ld_preview ld) (ld_run ld)"
  shows "history (ks @ [kind]) ld"
proof -
  let ?s = "ld_snapshot ld" and ?q = "ld_snapshot p"
  note parts = follows_parts [OF follows]
  note pair = pair_states [OF parts(1)] and fields = update_fields [OF parts(4)]
  note old = history_parts [OF H] and grow = passed_append [where k = kind]
  have valid: "snapshot_valid (rp_unicode env) ?s" "snapshot_valid (rp_unicode env) ?q"
    using st session_run_state [OF run] by (simp_all add: event_state_def)
  note req = shape_requires [OF valid(1)] and req_old = shape_requires [OF valid(2)]
  have "sn_state ?s = GENERATING \<Longrightarrow> passed 1 (ks @ [kind])"
    using pair(1) old(1) grow passed_next(2) by metis
  moreover have "sn_candidate ?s \<noteq> None \<Longrightarrow> passed 2 (ks @ [kind])"
    using fields(1) pair(6) old(1,2) grow passed_next(3) by metis
  moreover have "sn_state ?s = VALIDATING \<Longrightarrow> passed 3 (ks @ [kind])"
    using pair(2) req(1) fields(1) old(2,3) grow passed_next(4) event_kind.distinct by metis
  moreover have "ld_run ld \<noteq> None \<Longrightarrow> passed 4 (ks @ [kind])"
    using run_update [OF parts(2)] pair(8) old(3,4) grow passed_next(5) by (metis option.exhaust_sel option.distinct(1))
  moreover have "passed 5 (ks @ [kind])" if "ld_run ld = Some l" "ls_container l \<noteq> None" for l
    using run_update [OF parts(2) that(1)] that old(4,5) grow passed_next(6) by (metis option.distinct(1))
  moreover have "sn_validation ?s \<noteq> None \<Longrightarrow> passed 6 (ks @ [kind])"
    using fields(2) run_update_result parts(2) old(5,6) grow passed_next(7) by metis
  moreover have "sn_state ?s \<in> published_states \<Longrightarrow> passed 7 (ks @ [kind])"
  proof -
    assume pub: "sn_state ?s \<in> published_states"
    show ?thesis
    proof (cases "kind = K_validated")
      case True
      then have "sn_validation ?q \<noteq> None" using req(2) [OF pub] fields(2) by auto
      then show ?thesis using old(6) True passed_next(8) by simp
    next
      case False
      then show ?thesis using pair(3) pub old(7) grow by (simp add: published_states_def)
    qed
  qed
  moreover have "sn_approval ?s \<noteq> None \<Longrightarrow> passed 8 (ks @ [kind])"
    using fields(3) pair(7) old(7,8) grow passed_next(9) by (metis insertCI published_states_def)
  moreover have "sn_state ?s = APPLYING \<Longrightarrow> passed 9 (ks @ [kind])"
    using pair(4) req_old(3) old(8) passed_next(10) by (metis insertCI)
  moreover have "sn_state ?s = APPLIED \<Longrightarrow> passed 10 (ks @ [kind])"
    using pair(5) old(9,10) grow passed_next(11) by metis
  ultimately show ?thesis by (simp add: history_def Let_def)
qed

lemma session_history: "session_run env sid ks ld \<Longrightarrow> history ks ld"
proof (induction rule: session_run.induct)
  case (created ld kind)
  then have s: "sn_state (ld_snapshot ld) = CREATED" "ld_run ld = None" by (simp_all add: event_follows_def)
  moreover have "snapshot_valid (rp_unicode env) (ld_snapshot ld)" using created by (simp add: event_state_def)
  note shape_requires(4) [OF this s(1)]
  ultimately show ?case by (simp add: history_def Let_def published_states_def)
qed (rule history_step)

section \<open>Sequences of events\<close>

text \<open>What a client of the event log relies on: it reads back what it appended, and an appended event
  follows the state the log had.\<close>

locale event_log =
  fixes load_log :: "'st \<Rightarrow> 'err + 'ld"
    and append_log :: "'st \<Rightarrow> 'req \<Rightarrow> 'err + 'st \<times> 'ld"
    and request_ok :: "'req \<Rightarrow> bool"
    and follows :: "'ld \<Rightarrow> 'ld \<Rightarrow> bool"
  assumes append_load: "append_log st r = Inr (st', ld) \<Longrightarrow> request_ok r \<Longrightarrow> load_log st' = Inr ld"
    and append_follows: "append_log st r = Inr (st', ld) \<Longrightarrow> \<exists>p. load_log st = Inr p \<and> follows p ld"
begin

lemma appends_follow:
  assumes "fold_res (\<lambda>st r. and_then (append_log st r) (\<lambda>x. Inr (fst x))) st rs = Inr st'"
    and "list_all request_ok rs" "load_log st = Inr p"
  shows "\<exists>ld. load_log st' = Inr ld \<and> follows\<^sup>*\<^sup>* p ld"
  using assms
proof (induction rs arbitrary: st p)
  case (Cons r rs)
  then obtain st1 ld1 where first: "append_log st r = Inr (st1, ld1)"
    and rest: "fold_res (\<lambda>st r. and_then (append_log st r) (\<lambda>x. Inr (fst x))) st1 rs = Inr st'"
    by (auto simp: res_iffs)
  have "load_log st1 = Inr ld1" using append_load [OF first] Cons.prems(2) by simp
  moreover have "follows p ld1" using append_follows [OF first] Cons.prems(3) by auto
  ultimately show ?case
    using Cons.IH [OF rest] Cons.prems(2) by (auto intro: converse_rtranclp_into_rtranclp)
qed simp

lemma appends_keep:
  assumes "\<And>p q. follows p q \<Longrightarrow> I p \<Longrightarrow> I q"
    and "fold_res (\<lambda>st r. and_then (append_log st r) (\<lambda>x. Inr (fst x))) st rs = Inr st'"
    and "list_all request_ok rs" "load_log st = Inr p" "I p"
  shows "\<exists>ld. load_log st' = Inr ld \<and> I ld"
proof -
  obtain ld where ld: "load_log st' = Inr ld" "follows\<^sup>*\<^sup>* p ld" using appends_follow [OF assms(2-4)] by blast
  from ld(2) assms(5) have "I ld" by (induction rule: rtranclp_induct) (use assms(1) in blast)+
  with ld(1) show ?thesis by blast
qed

end

text \<open>A request to append: the kind, the snapshot, a lease to register, and whether to clear it.\<close>

type_synonym append_request = "event_kind \<times> repair_snapshot \<times> validation_lease option \<times> bool"

definition append_request :: "repair_env \<Rightarrow> session_store \<Rightarrow> append_request \<Rightarrow> store_error + session_store \<times> loaded_state" where
  "append_request env st r = (case r of (kind, s, run, clear) \<Rightarrow> append_event env st kind s run clear)"

definition request_valid :: "repair_env \<Rightarrow> append_request \<Rightarrow> bool" where
  "request_valid env r \<longleftrightarrow>
     (case r of (kind, s, run, clear) \<Rightarrow>
        snapshot_valid (rp_unicode env) s \<and> opt_all lease_ok run \<and> digest_function (rp_sha256 env))"

definition state_follows :: "loaded_state \<Rightarrow> loaded_state \<Rightarrow> bool" where
  "state_follows p q \<longleftrightarrow>
     (\<exists>kind. event_follows (Some p) kind (ld_snapshot q) (ld_preview q) (ld_run q)) \<and>
     ld_sequence q = Suc (ld_sequence p)"

interpretation log: event_log "read_log env" "append_request env" "request_valid env" state_follows for env
proof unfold_locales
  fix st r st' ld assume append: "append_request env st r = Inr (st', ld)"
  obtain kind s run clear where r: "r = (kind, s, run, clear)" by (cases r) auto
  show "read_log env st' = Inr ld" if "request_valid env r"
    using append_event_load append that by (simp add: append_request_def request_valid_def r)
  show "\<exists>p. read_log env st = Inr p \<and> state_follows p ld"
  proof -
    from append have "append_event env st kind s run clear = Inr (st', ld)" by (simp add: append_request_def r)
    from append_event_Inr [OF this] obtain cur where "read_log env st = Inr cur"
      "event_follows (Some cur) kind s (ld_preview ld) (ld_run ld)"
      "ld_snapshot ld = s" "ld_sequence ld = Suc (ld_sequence cur)"
      by (metis loaded_state.select_convs(1,2))
    then show ?thesis unfolding state_follows_def by metis
  qed
qed

definition append_all :: "repair_env \<Rightarrow> session_store \<Rightarrow> append_request list \<Rightarrow> store_error + session_store" where
  "append_all env st rs = fold_res (\<lambda>st r. and_then (append_request env st r) (\<lambda>x. Inr (fst x))) st rs"

text \<open>What later events keep of an earlier state.\<close>

definition keeps_some :: "'a option \<Rightarrow> 'a option \<Rightarrow> bool" where
  "keeps_some p q \<longleftrightarrow> p \<noteq> None \<longrightarrow> q = p"

definition extends :: "loaded_state \<Rightarrow> loaded_state \<Rightarrow> bool" where
  "extends p q \<longleftrightarrow>
     same_identity (ld_snapshot p) (ld_snapshot q) \<and>
     sn_updated (ld_snapshot p) \<le> sn_updated (ld_snapshot q) \<and>
     keeps_some (sn_candidate (ld_snapshot p)) (sn_candidate (ld_snapshot q)) \<and>
     keeps_some (sn_validation (ld_snapshot p)) (sn_validation (ld_snapshot q)) \<and>
     keeps_some (sn_approval (ld_snapshot p)) (sn_approval (ld_snapshot q)) \<and>
     keeps_some (sn_application (ld_snapshot p)) (sn_application (ld_snapshot q)) \<and>
     keeps_some (sn_decision (ld_snapshot p)) (sn_decision (ld_snapshot q)) \<and>
     keeps_some (sn_failure (ld_snapshot p)) (sn_failure (ld_snapshot q)) \<and>
     keeps_some (ld_preview p) (ld_preview q) \<and>
     (is_terminal (sn_state (ld_snapshot p)) \<longrightarrow> sn_state (ld_snapshot q) = sn_state (ld_snapshot p))"

lemma keeps_some_trans: "keeps_some a b \<Longrightarrow> keeps_some b c \<Longrightarrow> keeps_some a c"
  by (auto simp: keeps_some_def)

lemma same_identity_trans: "same_identity a b \<Longrightarrow> same_identity b c \<Longrightarrow> same_identity a c"
  by (simp add: same_identity_def)

lemma extends_refl: "extends p p"
  by (simp add: extends_def same_identity_def keeps_some_def)

lemma extends_trans:
  assumes "extends a b" "extends b c"
  shows "extends a c"
proof -
  note ab = assms(1) [unfolded extends_def] and bc = assms(2) [unfolded extends_def]
  have "same_identity (ld_snapshot a) (ld_snapshot c)" using ab bc same_identity_trans by blast
  moreover have "sn_updated (ld_snapshot a) \<le> sn_updated (ld_snapshot c)" using ab bc by linarith
  moreover have "is_terminal (sn_state (ld_snapshot a)) \<longrightarrow> sn_state (ld_snapshot c) = sn_state (ld_snapshot a)"
    using ab bc by simp
  moreover have "keeps_some (sn_candidate (ld_snapshot a)) (sn_candidate (ld_snapshot c))"
    by (rule keeps_some_trans [of _ "sn_candidate (ld_snapshot b)"]) (use ab bc in simp_all)
  moreover have "keeps_some (sn_validation (ld_snapshot a)) (sn_validation (ld_snapshot c))"
    by (rule keeps_some_trans [of _ "sn_validation (ld_snapshot b)"]) (use ab bc in simp_all)
  moreover have "keeps_some (sn_approval (ld_snapshot a)) (sn_approval (ld_snapshot c))"
    by (rule keeps_some_trans [of _ "sn_approval (ld_snapshot b)"]) (use ab bc in simp_all)
  moreover have "keeps_some (sn_application (ld_snapshot a)) (sn_application (ld_snapshot c))"
    by (rule keeps_some_trans [of _ "sn_application (ld_snapshot b)"]) (use ab bc in simp_all)
  moreover have "keeps_some (sn_decision (ld_snapshot a)) (sn_decision (ld_snapshot c))"
    by (rule keeps_some_trans [of _ "sn_decision (ld_snapshot b)"]) (use ab bc in simp_all)
  moreover have "keeps_some (sn_failure (ld_snapshot a)) (sn_failure (ld_snapshot c))"
    by (rule keeps_some_trans [of _ "sn_failure (ld_snapshot b)"]) (use ab bc in simp_all)
  moreover have "keeps_some (ld_preview a) (ld_preview c)"
    by (rule keeps_some_trans [of _ "ld_preview b"]) (use ab bc in simp_all)
  ultimately show ?thesis
    unfolding extends_def by (intro conjI)
qed

lemma state_follows_extends:
  assumes "state_follows p q"
  shows "extends p q"
proof -
  from assms obtain kind where f: "event_follows (Some p) kind (ld_snapshot q) (ld_preview q) (ld_run q)"
    by (auto simp: state_follows_def)
  note parts = follows_parts [OF f]
  note fields = update_fields [OF parts(4)]
  have "keeps_some (ld_preview p) (ld_preview q)"
    using parts(3) by (auto simp: candidate_preview_update_is_valid_def keeps_some_def split: if_splits)
  moreover have "same_identity (ld_snapshot p) (ld_snapshot q)" by (rule update_changes(1) [OF parts(4)])
  moreover have "is_terminal (sn_state (ld_snapshot p)) \<longrightarrow> sn_state (ld_snapshot q) = sn_state (ld_snapshot p)"
    using pair_states(9) [OF parts(1)] by blast
  ultimately show ?thesis
    unfolding extends_def keeps_some_def using fields parts(5) by (intro conjI) metis+
qed

section \<open>The digests of the records\<close>

lemma both_True: "both m n = Inr True \<longleftrightarrow> m = Inr True \<and> n = Inr True"
  by (auto simp: both_def res_iffs split: if_splits)

lemma record_digest_True:
  "record_digest_is_valid env kind f d (Some x) = Inr True \<longleftrightarrow> rm_domain_digest env kind (f x) = Inr (d x)"
  by (auto simp: record_digest_is_valid_def res_iffs)

lemma snapshot_digests:
  assumes "snapshot_record_digests_are_valid env s = Inr True"
  shows "sn_candidate s = Some c \<Longrightarrow> rm_domain_digest env ''candidate'' (candidate_digest_mapping c) = Inr (ca_id c)"
    "sn_validation s = Some v \<Longrightarrow> rm_domain_digest env ''validation'' (validation_digest_mapping v) = Inr (va_sha256 v)"
    "sn_approval s = Some a \<Longrightarrow> rm_domain_digest env ''approval'' (approval_digest_mapping a) = Inr (ap_sha256 a)"
    "sn_application s = Some l \<Longrightarrow> rm_domain_digest env ''application'' (application_digest_mapping l) = Inr (al_sha256 l)"
    "sn_decision s = Some d \<Longrightarrow> rm_domain_digest env ''decision'' (decision_digest_mapping d) = Inr (de_sha256 d)"
  using assms unfolding snapshot_record_digests_are_valid_def both_True
  by (simp_all only: record_digest_True)

lemma shape_approved:
  assumes "snapshot_valid ud s" "sn_approval s = Some a"
  shows "\<exists>c v. sn_candidate s = Some c \<and> sn_validation s = Some v \<and> va_success v \<and>
    list_all clean_result (va_results v) \<and> va_results v \<noteq> [] \<and> va_candidate v = ca_id c \<and>
    ap_candidate a = ca_id c \<and> ap_validation a = va_sha256 v \<and> ap_confirmation a = approval_confirmation"
proof -
  have shape: "snapshot_shape s" and val: "opt_all validation_ok (sn_validation s)" and ap: "approval_ok ud a"
    using assms by (simp_all add: snapshot_valid_def snapshot_ok_def opt_all_def)
  from shape assms(2) obtain c v where cv: "sn_candidate s = Some c" "sn_validation s = Some v"
    and eq: "va_success v" "ap_candidate a = ca_id c" "ap_validation a = va_sha256 v"
    by (auto simp: snapshot_shape_def opt_all_def split: option.splits)
  moreover from shape cv have "va_candidate v = ca_id c" by (simp add: snapshot_shape_def opt_all_def)
  moreover from val cv eq(1) have "list_all clean_result (va_results v)" "va_results v \<noteq> []"
    by (simp_all add: opt_all_def validation_ok_def)
  moreover from ap have "ap_confirmation a = approval_confirmation" by (simp add: approval_ok_def)
  ultimately show ?thesis by blast
qed

lemma shape_applied:
  assumes "snapshot_valid ud s" "sn_state s = APPLIED"
  shows "\<exists>l a c. sn_application s = Some l \<and> sn_approval s = Some a \<and> sn_candidate s = Some c \<and>
    al_approval l = ap_sha256 a \<and> al_commit l = ca_commit c \<and> al_ref l = ref_prefix @ ca_id c"
proof -
  have shape: "snapshot_shape s" using assms by (simp add: snapshot_valid_def snapshot_ok_def)
  with assms(2) obtain l where l: "sn_application s = Some l" by (auto simp: snapshot_shape_def)
  with shape show ?thesis
    by (auto simp: snapshot_shape_def opt_all_def split: option.splits)
qed

end
