(* ===== verification/Json_Size.thy ===== *)
theory Json_Size
  imports Canonical_Facts
begin

text \<open>A bound for the length of the text of a JSON value, by the structure of the value.\<close>

lemma utf8_encode_length: "utf8_encode s = Some b \<Longrightarrow> length b \<le> 4 * length s"
proof (induction s arbitrary: b)
  case (Cons c s)
  then obtain x y where xy: "utf8_char c = Some x" "utf8_encode s = Some y" "b = x @ y"
    by (auto split: option.splits)
  have "length x \<le> 4" using xy(1) by (auto simp: utf8_char.simps split: if_splits)
  with Cons.IH [OF xy(2)] xy(3) show ?case by simp
qed simp

lemma escape_char_length: "length (escape_char c) \<le> 6"
  by (simp add: escape_char_def)

lemma quoted_length: "length (quoted s) \<le> 2 + 6 * length s"
proof -
  have "length (concat (map escape_char s)) \<le> 6 * length s"
    by (induction s) (auto intro: order_trans [OF add_mono [OF escape_char_length]])
  then show ?thesis by (simp add: quoted_def)
qed

text \<open>A bound for the text of a value, by its structure.\<close>

fun json_bound :: "json \<Rightarrow> int"
  and json_list_bound :: "json list \<Rightarrow> int"
  and json_items_bound :: "(pystr \<times> json) list \<Rightarrow> int" where
  "json_bound v =
     (case v of JInt i \<Rightarrow> int (length (int_text i)) | JStr s \<Rightarrow> 2 + 6 * int (length s)
      | JFloat (FFinite r) \<Rightarrow> int (length r)
      | JList xs \<Rightarrow> 2 + json_list_bound xs | JObj kvs \<Rightarrow> 2 + json_items_bound kvs | _ \<Rightarrow> 5)"
| "json_list_bound [] = 0"
| "json_list_bound (x # xs) = 1 + json_bound x + json_list_bound xs"
| "json_items_bound [] = 0"
| "json_items_bound (kv # kvs) = 4 + 6 * int (length (fst kv)) + json_bound (snd kv) + json_items_bound kvs"

declare json_bound.simps [simp del]

lemma json_bound_cases:
  "json_bound (JStr s) = 2 + 6 * int (length s)" "json_bound (JInt i) = int (length (int_text i))"
  "json_bound (JList xs) = 2 + json_list_bound xs" "json_bound (JObj kvs) = 2 + json_items_bound kvs"
  "json_bound JNull = 5" "json_bound (JBool b) = 5"
  by (simp_all add: json_bound.simps)

lemma join_on_length: "int (length (join_on d ws)) \<le> sum_list (map (\<lambda>w. 1 + int (length w)) ws)"
  by (induction d ws rule: join_on.induct) simp_all

lemma json_list_bound_sum: "json_list_bound xs = sum_list (map (\<lambda>x. 1 + json_bound x) xs)"
  by (induction xs) simp_all

lemma json_items_bound_sum:
  "json_items_bound kvs = sum_list (map (\<lambda>kv. 4 + 6 * int (length (fst kv)) + json_bound (snd kv)) kvs)"
  by (induction kvs) simp_all

lemma json_text_length: "int (length (json_text v)) \<le> json_bound v"
proof (induction v)
  case (JStr s)
  then show ?case using quoted_length [of s] by (simp add: json_bound_cases)
next
  case (JList xs)
  then have "sum_list (map (\<lambda>x. 1 + int (length (json_text x))) xs) \<le> sum_list (map (\<lambda>x. 1 + json_bound x) xs)"
    by (intro sum_list_mono) simp
  moreover have "int (length (join_on 44 (map json_text xs))) \<le> sum_list (map (\<lambda>x. 1 + int (length (json_text x))) xs)"
    using join_on_length [of 44 "map json_text xs"] by (simp add: comp_def)
  ultimately show ?case by (simp add: json_bound_cases json_list_bound_sum)
next
  case (JObj kvs)
  let ?s = "sort_key fst kvs"
  have IH: "\<forall>kv \<in> set kvs. int (length (json_text (snd kv))) \<le> json_bound (snd kv)"
    by (rule snd_mem_IH) (rule JObj)
  have item: "1 + int (length (item_text kv)) \<le> 4 + 6 * int (length (fst kv)) + json_bound (snd kv)"
    if "kv \<in> set kvs" for kv
    using quoted_length [of "fst kv"] IH that by fastforce
  have "int (length (join_on 44 (map item_text ?s))) \<le> sum_list (map (\<lambda>kv. 1 + int (length (item_text kv))) ?s)"
    using join_on_length [of 44 "map item_text ?s"] by (simp add: comp_def)
  also have "\<dots> \<le> sum_list (map (\<lambda>kv. 4 + 6 * int (length (fst kv)) + json_bound (snd kv)) ?s)"
    by (rule sum_list_mono) (use item in simp)
  finally show ?case by (simp add: json_bound_cases json_items_bound_sum sum_list_sort_key)
qed (auto simp: json_bound.simps json_text.simps lit_def split: pyfloat.split)

end
