(* ===== verification/Repair_Plain.thy ===== *)
theory Repair_Plain
  imports Repair_Run Json_Size
begin

text \<open>
  When a record has a canonical text: every valid record of a session is a plain value the encoder
  accepts, and the length of its text is bounded by its structure.
\<close>

section \<open>Canonical bytes\<close>

lemma rm_canonical_bytes_defined:
  assumes "json_dicts (JObj kvs)" "json_plain (JObj kvs)" "json_digits_ok (JObj kvs)"
  shows "\<exists>raw. rm_canonical_bytes (JObj kvs) = Inr raw \<and> int (length raw) \<le> 4 * json_bound (JObj kvs)"
proof -
  obtain raw where raw: "utf8_encode (json_text (JObj kvs)) = Some raw"
    using utf8_ok_json_text [OF assms(2,1)] by (auto simp: utf8_ok_def)
  have "int (length raw) \<le> 4 * json_bound (JObj kvs)"
    using utf8_encode_length [OF raw] json_text_length [of "JObj kvs"] by linarith
  then show ?thesis using raw assms by (auto simp: rm_canonical_bytes_Inr)
qed

section \<open>Valid records have a text\<close>

lemma utf8_ok_hex: "list_all is_lower_hex s \<Longrightarrow> utf8_ok s"
  by (rule utf8_ok_ascii) (auto simp: list_all_iff is_lower_hex_def)

lemma utf8_ok_sha256 [simp]: "is_sha256 s \<Longrightarrow> utf8_ok s" and utf8_ok_oid [simp]: "is_oid_text s \<Longrightarrow> utf8_ok s"
  by (simp_all add: is_sha256_def is_oid_text_def utf8_ok_hex)

lemma utf8_ok_image: "is_image_id s \<Longrightarrow> utf8_ok s"
proof -
  assume s: "is_image_id s"
  have "lit ''sha256:'' @ drop 7 s = s"
    using s starts_with_drop [of "lit ''sha256:''" s] by (simp add: is_image_id_def lit_length numeral_eq_Suc)
  moreover have "utf8_ok (lit ''sha256:'' @ drop 7 s)"
    using s by (simp add: is_image_id_def utf8_ok_lit)
  ultimately show ?thesis by simp
qed

lemma json_plain_option [simp]:
  "json_plain (j_option JStr y) \<longleftrightarrow> opt_all utf8_ok y" "json_plain (j_option JInt z)"
  "json_plain (j_option (\<lambda>e. JStr (lit (g e))) w) \<longleftrightarrow> opt_all (\<lambda>e. utf8_ok (lit (g e))) w"
  by (simp_all add: j_option_def opt_all_def split: option.split)

lemma json_plain_record: "opt_all (\<lambda>x. json_plain (f x)) y \<Longrightarrow> json_plain (j_option f y)"
  by (simp add: j_option_def opt_all_def split: option.splits)

lemma opt_all_mono: "opt_all P y \<Longrightarrow> (\<And>x. P x \<Longrightarrow> Q x) \<Longrightarrow> opt_all Q y"
  by (simp add: opt_all_def split: option.splits)

lemma utf8_ok_enums [simp]:
  "utf8_ok (lit (repair_state_value a))" "utf8_ok (lit (repair_stage_value b))"
  "utf8_ok (lit (repair_context_outcome_value c))" "utf8_ok (lit (validation_failure_kind_value d))"
  "utf8_ok (lit (event_kind_value e))"
proof -
  show "utf8_ok (lit (repair_state_value a))" by (cases a) (simp_all add: utf8_ok_lit)
  show "utf8_ok (lit (repair_stage_value b))" by (cases b) (simp_all add: utf8_ok_lit)
  show "utf8_ok (lit (repair_context_outcome_value c))" by (cases c) (simp_all add: utf8_ok_lit)
  show "utf8_ok (lit (validation_failure_kind_value d))" by (cases d) (simp_all add: utf8_ok_lit)
  show "utf8_ok (lit (event_kind_value e))" by (cases e) (simp_all add: utf8_ok_lit)
qed

lemma utf8_ok_error_code [simp]: "utf8_ok (lit (repair_error_code_value a))"
  by (cases a) (simp_all add: utf8_ok_lit)

lemma json_plain_prompt: "prompt_identity_ok ud p \<Longrightarrow> json_plain (prompt_identity_to_dict p)"
  by (simp add: prompt_identity_ok_def text_ok_def prompt_identity_to_dict_def prompt_identity_items_def utf8_ok_lit)

lemma json_plain_context: "context_summary_ok c \<Longrightarrow> json_plain (context_summary_to_dict c)"
proof -
  assume ok: "context_summary_ok c"
  then have "opt_all utf8_ok (cx_index c)" "opt_all utf8_ok (cx_query c)" "opt_all utf8_ok (cx_hits c)"
    by (auto simp: context_summary_ok_def intro: opt_all_mono)
  moreover have "\<forall>d \<in> set degradation_codes. utf8_ok d" by (simp add: degradation_codes_def utf8_ok_lit)
  then have "opt_all utf8_ok (cx_degradation c)"
    using ok by (cases "cx_outcome c") (auto simp: context_summary_ok_def opt_all_def split: option.splits)
  ultimately show ?thesis
    by (simp add: context_summary_to_dict_def context_summary_items_def utf8_ok_lit)
qed

lemma json_plain_paths: "repository_paths_ok ud a b ps \<Longrightarrow> list_all json_plain (map JStr ps)"
  by (auto simp: repository_paths_ok_def repository_path_ok_def list_all_iff)

lemma json_plain_candidate: "candidate_ok ud c \<Longrightarrow> json_plain (candidate_to_dict c)"
proof -
  assume ok: "candidate_ok ud c"
  then have "json_plain (prompt_identity_to_dict (ca_prompt c))" "list_all json_plain (map JStr (ca_paths c))"
    by (auto simp: candidate_ok_def intro: json_plain_prompt json_plain_paths)
  with ok show ?thesis
    by (simp add: candidate_ok_def candidate_to_dict_def candidate_items_def utf8_ok_lit json_plain_context)
qed

lemma json_plain_result: "command_result_ok r \<Longrightarrow> json_plain (command_result_to_dict r)"
  by (simp add: command_result_ok_def command_result_to_dict_def command_result_items_def utf8_ok_lit)

lemma json_plain_validation: "validation_ok v \<Longrightarrow> json_plain (validation_to_dict v)"
proof -
  assume ok: "validation_ok v"
  then have "list_all json_plain (map command_result_to_dict (va_results v))"
    by (auto simp: validation_ok_def list_all_iff json_plain_result)
  moreover have "opt_all (\<lambda>e. utf8_ok (lit (validation_failure_kind_value e))) (va_failure v)"
    by (simp add: opt_all_def split: option.split)
  ultimately show ?thesis
    using ok by (simp add: validation_ok_def validation_to_dict_def validation_items_def utf8_ok_lit utf8_ok_image)
qed

lemma json_plain_approval: "approval_ok ud a \<Longrightarrow> json_plain (approval_to_dict a)"
  by (simp add: approval_ok_def subject_ok_def text_ok_def approval_to_dict_def approval_items_def utf8_ok_lit
    approval_confirmation_def)

lemma json_plain_application: "application_ok a \<Longrightarrow> json_plain (application_to_dict a)"
  by (simp add: application_ok_def application_to_dict_def application_items_def utf8_ok_lit)

lemma json_plain_decision: "decision_ok ud d \<Longrightarrow> json_plain (decision_to_dict d)"
proof -
  assume ok: "decision_ok ud d"
  then have "utf8_ok (de_reason d)" by (auto simp: decision_ok_def text_ok_def utf8_ok_def split: if_splits)
  moreover have "opt_all utf8_ok (de_candidate d)" using ok by (auto simp: decision_ok_def intro: opt_all_mono)
  ultimately show ?thesis using ok
    by (simp add: decision_ok_def subject_ok_def text_ok_def decision_to_dict_def decision_items_def utf8_ok_lit)
qed

lemma json_plain_failure: "json_plain (failure_to_dict f)"
  by (simp add: failure_to_dict_def failure_items_def utf8_ok_lit)

lemma json_plain_snapshot:
  assumes "snapshot_valid ud s"
  shows "json_plain (snapshot_to_dict s)"
proof -
  have "opt_all (\<lambda>x. json_plain (candidate_to_dict x)) (sn_candidate s)"
    "opt_all (\<lambda>x. json_plain (validation_to_dict x)) (sn_validation s)"
    "opt_all (\<lambda>x. json_plain (approval_to_dict x)) (sn_approval s)"
    "opt_all (\<lambda>x. json_plain (application_to_dict x)) (sn_application s)"
    "opt_all (\<lambda>x. json_plain (decision_to_dict x)) (sn_decision s)"
    "opt_all (\<lambda>x. json_plain (failure_to_dict x)) (sn_failure s)"
    using assms unfolding snapshot_valid_def
    by (auto intro: opt_all_mono json_plain_candidate json_plain_validation json_plain_approval
      json_plain_application json_plain_decision json_plain_failure)
  moreover have "list_all json_plain (map JStr (sn_paths s))"
    using assms json_plain_paths by (auto simp: snapshot_valid_def snapshot_ok_def)
  ultimately show ?thesis using assms
    by (simp add: snapshot_valid_def snapshot_ok_def snapshot_to_dict_def snapshot_items_def utf8_ok_lit
      json_plain_record)
qed

lemma json_plain_lease: "lease_ok l \<Longrightarrow> json_plain (lease_to_dict l)"
proof -
  assume ok: "lease_ok l"
  have "\<forall>p \<in> set (lease_labels l). utf8_ok (fst p) \<and> utf8_ok (snd p)"
    using ok by (simp add: lease_labels_def lease_ok_def utf8_ok_lit)
  then have "\<forall>p \<in> set (ls_labels l). utf8_ok (fst p) \<and> utf8_ok (snd p)"
    using ok by (simp add: lease_ok_def)
  moreover have "utf8_ok (ls_name l)"
  proof (rule utf8_ok_ascii)
    have "ls_name l = hd (ls_name l) # tl (ls_name l)" using ok by (simp add: lease_ok_def is_container_name_def)
    moreover have "hd (ls_name l) < 128" "list_all (\<lambda>c. c < 128) (tl (ls_name l))"
      using ok by (auto simp: lease_ok_def is_container_name_def is_alnum_def list_all_iff)
    ultimately show "list_all (\<lambda>c. c < 128) (ls_name l)" by (metis list.pred_inject(2))
  qed
  moreover have "opt_all utf8_ok (ls_container l)" using ok by (auto simp: lease_ok_def intro: opt_all_mono)
  ultimately show ?thesis
    using ok by (auto simp: lease_ok_def lease_to_dict_def lease_items_def utf8_ok_lit list_all_iff)
qed

lemma json_plain_event:
  assumes "snapshot_valid ud s" "utf8_ok p" "opt_all is_sha256 pv" "opt_all lease_ok run"
  shows "json_plain (JObj (event_items n p kind t s pv run))"
proof -
  have "opt_all utf8_ok pv" "opt_all (\<lambda>l. json_plain (lease_to_dict l)) run"
    using assms by (auto intro: opt_all_mono json_plain_lease)
  with assms show ?thesis
    by (simp add: event_items_def utf8_ok_lit json_plain_snapshot json_plain_record)
qed

lemma drop_keys_keeps:
  "json_plain (JObj kvs) \<Longrightarrow> json_plain (drop_keys ns kvs)" "json_dicts (JObj kvs) \<Longrightarrow> json_dicts (drop_keys ns kvs)"
  "json_digits_ok (JObj kvs) \<Longrightarrow> json_digits_ok (drop_keys ns kvs)"
  by (auto simp: drop_keys_def list_all_iff distinct_map_filter)

end
