(* ===== verification/Repair_Demo.thy ===== *)
theory Repair_Demo
  imports Repair_Plain
begin

text \<open>
  A concrete session for the witnesses, from its creation to the publication of its candidate, with a
  constant hash function.
\<close>

section \<open>The environment and the first snapshots\<close>

definition demo_digest :: pystr where "demo_digest = replicate 64 48"

definition demo_env :: repair_env where
  "demo_env = \<lparr>rp_unicode = ascii_db, rp_float = \<lambda>_. FNonFinite, rp_float_int = \<lambda>_. None, rp_sha256 = \<lambda>_. demo_digest\<rparr>"

definition demo_snapshot :: "repair_state \<Rightarrow> repair_snapshot" where
  "demo_snapshot state = \<lparr>sn_schema_version = 1, sn_session = demo_digest, sn_state = state,
     sn_request = demo_digest, sn_created = 1, sn_updated = 1, sn_target_count = 1,
     sn_paths = [lit ''a''], sn_candidate = None, sn_validation = None, sn_approval = None,
     sn_application = None, sn_decision = None, sn_failure = None, sn_cleanup_pending = False\<rparr>"

definition demo_candidate :: repair_candidate where
  "demo_candidate = \<lparr>ca_schema_version = 1, ca_id = demo_digest, ca_request = demo_digest,
     ca_prompt = \<lparr>pi_name = lit ''p'', pi_version = 1, pi_system = demo_digest, pi_schema = demo_digest,
       pi_combined = demo_digest\<rparr>,
     ca_context = \<lparr>cx_outcome = NOT_REQUESTED, cx_index = None, cx_query = None, cx_query_count = 0,
       cx_candidate_count = 0, cx_hit_count = 0, cx_hits = None, cx_degradation = None\<rparr>,
     ca_diff = demo_digest, ca_tree = demo_digest, ca_commit = demo_digest, ca_paths = [lit ''a''],
     ca_line_count = 1, ca_attempt_count = 1, ca_input_tokens = 1, ca_output_tokens = 1\<rparr>"

section \<open>A published session\<close>

definition demo_result :: command_result where
  "demo_result = \<lparr>cr_index = 0, cr_exit = Some 0, cr_signal = None, cr_timed_out = False, cr_duration = 1,
     cr_stdout = demo_digest, cr_stdout_bytes = 0, cr_stdout_truncated = False,
     cr_stderr = demo_digest, cr_stderr_bytes = 0, cr_stderr_truncated = False\<rparr>"

definition demo_validation :: repair_validation where
  "demo_validation = \<lparr>va_schema_version = 1, va_sha256 = demo_digest, va_candidate = demo_digest,
     va_policy = demo_digest, va_manifest = demo_digest, va_image = lit ''sha256:'' @ demo_digest,
     va_started = 1, va_finished = 1, va_success = True, va_failure = None, va_results = [demo_result],
     va_peak_memory = 0, va_oom_killed = False, va_residual = 0, va_entries = 1, va_inodes = 1,
     va_tree_clean = True\<rparr>"

definition demo_approval :: repair_approval where
  "demo_approval = \<lparr>ap_schema_version = 1, ap_sha256 = demo_digest, ap_candidate = demo_digest,
     ap_validation = demo_digest, ap_subject = lit ''s'', ap_confirmation = approval_confirmation, ap_at = 1\<rparr>"

definition demo_application :: repair_application where
  "demo_application = \<lparr>al_schema_version = 1, al_sha256 = demo_digest, al_approval = demo_digest,
     al_ref = ref_prefix @ demo_digest, al_commit = demo_digest, al_at = 1\<rparr>"

definition demo_lease :: "pystr option \<Rightarrow> validation_lease" where
  "demo_lease container = \<lparr>ls_container = container, ls_name = lit ''n'',
     ls_labels = [(lit ''com.repoguard.candidate'', demo_digest),
       (lit ''com.repoguard.component'', lit ''safe-repair-validation''),
       (lit ''com.repoguard.run-token-sha256'', demo_digest), (lit ''com.repoguard.session'', demo_digest)],
     ls_session = demo_digest, ls_candidate = demo_digest, ls_token = demo_digest\<rparr>"

definition demo_state :: "nat \<Rightarrow> repair_snapshot \<Rightarrow> pystr option \<Rightarrow> validation_lease option \<Rightarrow> loaded_state" where
  "demo_state n s pv run = \<lparr>ld_snapshot = s, ld_sequence = n, ld_sha256 = demo_digest, ld_timestamp = 1,
     ld_preview = pv, ld_run = run\<rparr>"

definition demo_generated :: "repair_state \<Rightarrow> repair_snapshot" where
  "demo_generated state = (demo_snapshot state)\<lparr>sn_candidate := Some demo_candidate\<rparr>"

definition demo_validated :: "repair_state \<Rightarrow> repair_snapshot" where
  "demo_validated state = (demo_generated state)\<lparr>sn_validation := Some demo_validation\<rparr>"

definition demo_approved :: "repair_state \<Rightarrow> repair_snapshot" where
  "demo_approved state = (demo_validated state)\<lparr>sn_approval := Some demo_approval\<rparr>"

definition demo_applied :: repair_snapshot where
  "demo_applied = (demo_approved APPLIED)\<lparr>sn_application := Some demo_application, sn_cleanup_pending := True\<rparr>"

lemma demo_records:
  "candidate_ok ascii_db demo_candidate" "validation_ok demo_validation" "approval_ok ascii_db demo_approval"
  "application_ok demo_application" "lease_ok (demo_lease None)" "lease_ok (demo_lease (Some demo_digest))"
  "is_sha256 demo_digest" "repository_paths_ok ascii_db 1 32 [lit ''a'']"
  by code_simp+

lemma demo_digest_ok:
  assumes "json_dicts (drop_keys ns kvs)" "json_plain (drop_keys ns kvs)" "json_digits_ok (drop_keys ns kvs)"
  shows "rm_domain_digest demo_env kind (drop_keys ns kvs) = Inr demo_digest"
proof -
  obtain raw where "rm_canonical_bytes (drop_keys ns kvs) = Inr raw"
    using rm_canonical_bytes_defined [of "filter (\<lambda>kv. fst kv \<notin> set (map lit ns)) kvs"] assms
    unfolding drop_keys_def by blast
  then show ?thesis by (simp add: rm_domain_digest_def demo_env_def)
qed

lemma json_digits_small [simp]:
  "json_digits_ok (JStr s)" "json_digits_ok (JBool b)" "json_digits_ok JNull" "json_digits_ok (JInt 0)" "json_digits_ok (JInt 1)"
  by (simp_all add: json_digits_ok.simps nat_text.simps)

lemma demo_digits:
  "json_digits_ok (candidate_to_dict demo_candidate)" "json_digits_ok (validation_to_dict demo_validation)"
  "json_digits_ok (approval_to_dict demo_approval)" "json_digits_ok (application_to_dict demo_application)"
  by (simp_all add: candidate_to_dict_def candidate_items_def demo_candidate_def prompt_identity_to_dict_def
    prompt_identity_items_def context_summary_to_dict_def context_summary_items_def j_option_def
    validation_to_dict_def validation_items_def demo_validation_def demo_result_def command_result_to_dict_def
    command_result_items_def approval_to_dict_def approval_items_def demo_approval_def
    application_to_dict_def application_items_def demo_application_def nat_text.simps [of "Suc 0"] del: json_lists)

lemma demo_digests:
  "rm_domain_digest demo_env ''candidate'' (candidate_digest_mapping demo_candidate) = Inr demo_digest"
  "rm_domain_digest demo_env ''validation'' (validation_digest_mapping demo_validation) = Inr demo_digest"
  "rm_domain_digest demo_env ''approval'' (approval_digest_mapping demo_approval) = Inr demo_digest"
  "rm_domain_digest demo_env ''application'' (application_digest_mapping demo_application) = Inr demo_digest"
  using json_dicts_candidate [of demo_candidate] json_plain_candidate [OF demo_records(1)]
    json_dicts_validation [of demo_validation] json_plain_validation [OF demo_records(2)]
    json_dicts_records(4) [of demo_approval] json_dicts_records(5) [of demo_application] json_plain_approval [OF demo_records(3)]
    json_plain_application [OF demo_records(4)] demo_digits
  unfolding candidate_digest_mapping_def validation_digest_mapping_def approval_digest_mapping_def
    application_digest_mapping_def candidate_to_dict_def validation_to_dict_def approval_to_dict_def
    application_to_dict_def
  by - (rule demo_digest_ok; rule drop_keys_keeps; assumption)+

lemma demo_ids:
  "ca_id demo_candidate = demo_digest" "va_sha256 demo_validation = demo_digest"
  "ap_sha256 demo_approval = demo_digest" "al_sha256 demo_application = demo_digest"
  by (simp_all add: demo_candidate_def demo_validation_def demo_approval_def demo_application_def)

lemma demo_digest_records:
  "record_digest_is_valid demo_env k f d None = Inr True"
  "record_digest_is_valid demo_env ''candidate'' candidate_digest_mapping ca_id (Some demo_candidate) = Inr True"
  "record_digest_is_valid demo_env ''validation'' validation_digest_mapping va_sha256 (Some demo_validation) = Inr True"
  "record_digest_is_valid demo_env ''approval'' approval_digest_mapping ap_sha256 (Some demo_approval) = Inr True"
  "record_digest_is_valid demo_env ''application'' application_digest_mapping al_sha256 (Some demo_application) = Inr True"
  by (simp add: record_digest_is_valid_def) (simp_all add: record_digest_True demo_digests demo_ids)

lemmas demo_snapshots = demo_snapshot_def demo_generated_def demo_validated_def demo_approved_def demo_applied_def

lemma demo_snapshot_digests:
  "snapshot_record_digests_are_valid demo_env (demo_snapshot st) = Inr True"
  "snapshot_record_digests_are_valid demo_env (demo_generated st) = Inr True"
  "snapshot_record_digests_are_valid demo_env (demo_validated st) = Inr True"
  "snapshot_record_digests_are_valid demo_env (demo_approved st) = Inr True"
  "snapshot_record_digests_are_valid demo_env demo_applied = Inr True"
  by (simp_all add: snapshot_record_digests_are_valid_def both_True demo_digest_records demo_snapshots)

lemma demo_fields:
  "ca_request demo_candidate = demo_digest" "ca_commit demo_candidate = demo_digest"
  "va_candidate demo_validation = demo_digest" "va_success demo_validation"
  "ap_candidate demo_approval = demo_digest" "ap_validation demo_approval = demo_digest"
  "al_approval demo_application = demo_digest" "al_commit demo_application = demo_digest"
  "al_ref demo_application = ref_prefix @ demo_digest"
  by (simp_all add: demo_candidate_def demo_validation_def demo_approval_def demo_application_def)

lemma demo_snapshot_valid:
  "st \<in> {CREATED, GENERATING} \<Longrightarrow> snapshot_valid ascii_db (demo_snapshot st)"
  "st \<in> {GENERATING, VALIDATING} \<Longrightarrow> snapshot_valid ascii_db (demo_generated st)"
  "st \<in> {VALIDATING, VALIDATED} \<Longrightarrow> snapshot_valid ascii_db (demo_validated st)"
  "st \<in> {APPROVED, APPLYING} \<Longrightarrow> snapshot_valid ascii_db (demo_approved st)"
  "snapshot_valid ascii_db demo_applied"
  using demo_records
  by (auto simp: snapshot_valid_def snapshot_ok_def snapshot_shape_def opt_all_def demo_snapshots demo_fields demo_ids
    timestamp_order_def bounded_int_def is_terminal_def terminal_states_def)

text \<open>The eleven states of the session, from its creation to the publication.\<close>

definition demo_states :: "(event_kind \<times> loaded_state) list" where
  "demo_states =
     [(K_created, demo_state 0 (demo_snapshot CREATED) None None),
      (K_generating, demo_state 1 (demo_snapshot GENERATING) None None),
      (K_candidate, demo_state 2 (demo_generated GENERATING) (Some demo_digest) None),
      (K_validating, demo_state 3 (demo_generated VALIDATING) (Some demo_digest) None),
      (K_validation_intent, demo_state 4 (demo_generated VALIDATING) (Some demo_digest) (Some (demo_lease None))),
      (K_validation_run, demo_state 5 (demo_generated VALIDATING) (Some demo_digest) (Some (demo_lease (Some demo_digest)))),
      (K_validation_result, demo_state 6 (demo_validated VALIDATING) (Some demo_digest) (Some (demo_lease (Some demo_digest)))),
      (K_validated, demo_state 7 (demo_validated VALIDATED) (Some demo_digest) None),
      (K_approved, demo_state 8 (demo_approved APPROVED) (Some demo_digest) None),
      (K_applying, demo_state 9 (demo_approved APPLYING) (Some demo_digest) None),
      (K_applied, demo_state 10 demo_applied (Some demo_digest) None)]"

lemma demo_event_state:
  assumes "snapshot_valid ascii_db s" "snapshot_record_digests_are_valid demo_env s = Inr True"
    and "sn_session s = demo_digest" "sn_updated s = 1" "opt_all is_sha256 pv" "opt_all lease_ok run"
  shows "event_state demo_env demo_digest (demo_state n s pv run)"
  using assms by (simp add: event_state_def demo_state_def demo_env_def)

lemma demo_same:
  "sn_session (demo_snapshot st) = demo_digest" "sn_updated (demo_snapshot st) = 1"
  "sn_session (demo_generated st) = demo_digest" "sn_updated (demo_generated st) = 1"
  "sn_session (demo_validated st) = demo_digest" "sn_updated (demo_validated st) = 1"
  "sn_session (demo_approved st) = demo_digest" "sn_updated (demo_approved st) = 1"
  "sn_session demo_applied = demo_digest" "sn_updated demo_applied = 1"
  by (simp_all add: demo_snapshots)

lemma demo_event_states: "list_all (\<lambda>(_, ld). event_state demo_env demo_digest ld) demo_states"
  using demo_records
  by (simp add: demo_states_def demo_event_state demo_snapshot_valid demo_snapshot_digests opt_all_def demo_same)

lemma demo_follows:
  "event_follows None K_created (demo_snapshot CREATED) None None"
  "event_follows (Some (demo_state 0 (demo_snapshot CREATED) None None)) K_generating (demo_snapshot GENERATING) None None"
  "event_follows (Some (demo_state 1 (demo_snapshot GENERATING) None None)) K_candidate
     (demo_generated GENERATING) (Some demo_digest) None"
  "event_follows (Some (demo_state 2 (demo_generated GENERATING) (Some demo_digest) None)) K_validating
     (demo_generated VALIDATING) (Some demo_digest) None"
  "event_follows (Some (demo_state 3 (demo_generated VALIDATING) (Some demo_digest) None)) K_validation_intent
     (demo_generated VALIDATING) (Some demo_digest) (Some (demo_lease None))"
  "event_follows (Some (demo_state 4 (demo_generated VALIDATING) (Some demo_digest) (Some (demo_lease None)))) K_validation_run
     (demo_generated VALIDATING) (Some demo_digest) (Some (demo_lease (Some demo_digest)))"
  "event_follows (Some (demo_state 5 (demo_generated VALIDATING) (Some demo_digest) (Some (demo_lease (Some demo_digest)))))
     K_validation_result (demo_validated VALIDATING) (Some demo_digest) (Some (demo_lease (Some demo_digest)))"
  "event_follows (Some (demo_state 6 (demo_validated VALIDATING) (Some demo_digest) (Some (demo_lease (Some demo_digest)))))
     K_validated (demo_validated VALIDATED) (Some demo_digest) None"
  "event_follows (Some (demo_state 7 (demo_validated VALIDATED) (Some demo_digest) None)) K_approved
     (demo_approved APPROVED) (Some demo_digest) None"
  "event_follows (Some (demo_state 8 (demo_approved APPROVED) (Some demo_digest) None)) K_applying
     (demo_approved APPLYING) (Some demo_digest) None"
  "event_follows (Some (demo_state 9 (demo_approved APPLYING) (Some demo_digest) None)) K_applied
     demo_applied (Some demo_digest) None"
  by (simp_all add: event_follows_def demo_state_def event_state_pair_is_valid_def can_transition_or_same_def
    can_transition_def validation_run_update_is_valid_def candidate_preview_update_is_valid_def
    snapshot_update_is_valid_def changed_fields_def same_identity_def demo_snapshots opt_all_def
    validation_run_matches_snapshot_def demo_lease_def demo_ids same_validation_intent_def lease_carry_states_def)

lemma demo_state_simps [simp]:
  "ld_snapshot (demo_state n s pv run) = s" "ld_sequence (demo_state n s pv run) = n"
  "ld_preview (demo_state n s pv run) = pv" "ld_run (demo_state n s pv run) = run"
  by (simp_all add: demo_state_def)

lemma session_run_list:
  assumes "xs \<noteq> []" "list_all (\<lambda>x. event_state env sid (snd x)) xs" "ld_sequence (snd (hd xs)) = 0"
    and "event_follows None (fst (hd xs)) (ld_snapshot (snd (hd xs))) (ld_preview (snd (hd xs))) (ld_run (snd (hd xs)))"
    and "successively (\<lambda>x y. ld_sequence (snd y) = Suc (ld_sequence (snd x)) \<and>
      event_follows (Some (snd x)) (fst y) (ld_snapshot (snd y)) (ld_preview (snd y)) (ld_run (snd y))) xs"
  shows "session_run env sid (map fst xs) (snd (last xs))"
  using assms
proof (induction xs rule: rev_induct)
  case (snoc x xs)
  show ?case
  proof (cases "xs = []")
    case True
    with snoc.prems show ?thesis by (auto intro: session_run.created)
  next
    case False
    with snoc show ?thesis by (auto simp: successively_append_iff intro!: session_run.event)
  qed
qed simp

lemma demo_session_run:
  "session_run demo_env demo_digest (K_created # milestones) (demo_state 10 demo_applied (Some demo_digest) None)"
proof -
  have "session_run demo_env demo_digest (map fst demo_states) (snd (last demo_states))"
    by (rule session_run_list)
      (use demo_event_states demo_follows in \<open>simp_all add: demo_states_def case_prod_unfold\<close>)
  then show ?thesis by (simp add: demo_states_def milestones_def)
qed

end
