(* ===== verification/Repair_Store_Facts.thy ===== *)
theory Repair_Store_Facts
  imports Repair_Demo
begin

text \<open>
  Properties of the session store: creating a session and appending to it, what a loaded log says about
  the session's history, and that a log cannot be changed unnoticed. The witnesses run small sessions of
  \<open>Repair_Demo\<close> through the model of the store.
\<close>

section \<open>Creating a session and appending to it\<close>

lemma cache_defined:
  assumes "json_plain (JObj (event_items n p kind t s pv run))" "json_digits_ok (JObj (event_items n p kind t s pv run))"
    and "utf8_ok sha"
  shows "\<exists>b. rm_canonical_bytes (JObj (cache_items \<lparr>ld_snapshot = s, ld_sequence = n, ld_sha256 = sha,
    ld_timestamp = t', ld_preview = pv, ld_run = run\<rparr>)) = Inr b"
proof -
  let ?kvs = "cache_items \<lparr>ld_snapshot = s, ld_sequence = n, ld_sha256 = sha, ld_timestamp = t',
    ld_preview = pv, ld_run = run\<rparr>"
  have "json_dicts (JObj ?kvs)"
    by (simp add: cache_items_def json_dicts_snapshot json_dicts_lease json_dicts_option)
  moreover have "json_plain (JObj ?kvs)" "json_digits_ok (JObj ?kvs)"
    using assms by (simp_all add: cache_items_def event_items_def utf8_ok_lit)
  ultimately show ?thesis using rm_canonical_bytes_defined by blast
qed

lemma create_session_parts:
  assumes "create_session_store env sid request s = Inr st"
  shows "\<exists>payload raw b. sn_session s = sid \<and> sn_state s = CREATED \<and> snapshot_ok (rp_unicode env) s \<and>
    rm_canonical_bytes (JObj (event_items 0 (replicate 64 48) K_created (sn_updated s) s None None)) = Inr raw \<and>
    length raw \<le> max_record_bytes \<and> is_event_name (event_name 0) \<and>
    rm_canonical_bytes (JObj (cache_items \<lparr>ld_snapshot = s, ld_sequence = 0,
      ld_sha256 = rp_sha256 env (digest_domain ''event'' @ 0 # raw), ld_timestamp = sn_updated s, ld_preview = None,
      ld_run = None\<rparr>)) = Inr b \<and>
    st = \<lparr>ss_session = sid, ss_read_only = False, ss_events = [(event_name 0, raw)], ss_preview_file = None,
      ss_cache = Some b, ss_private = Some [(lit ''request.json'', payload)]\<rparr>"
  using assms
  by (auto simp: create_session_store_def os_failed_def res_iffs event_mapping_Inr write_event_Inr write_cache_Inr
      rm_domain_digest_Inr split: sum.splits store_error.splits)

lemma create_session_load:
  assumes "create_session_store env sid request s = Inr st" "snapshot_valid (rp_unicode env) s"
  shows "\<exists>ld. load env st = Inr (st, ld) \<and> ld_snapshot ld = s \<and> ld_sequence ld = 0 \<and> ld_preview ld = None \<and>
    ld_run ld = None \<and> ss_session st = sid \<and> \<not> ss_read_only st \<and> ss_preview_file st = None"
proof -
  from create_session_parts [OF assms(1)] obtain payload raw b where sid: "sn_session s = sid" "sn_state s = CREATED"
    and raw: "rm_canonical_bytes (JObj (event_items 0 (replicate 64 48) K_created (sn_updated s) s None None)) = Inr raw"
      "length raw \<le> max_record_bytes" "is_event_name (event_name 0)"
    and b: "rm_canonical_bytes (JObj (cache_items \<lparr>ld_snapshot = s, ld_sequence = 0,
      ld_sha256 = rp_sha256 env (digest_domain ''event'' @ 0 # raw), ld_timestamp = sn_updated s, ld_preview = None,
      ld_run = None\<rparr>)) = Inr b"
    and st: "st = \<lparr>ss_session = sid, ss_read_only = False, ss_events = [(event_name 0, raw)], ss_preview_file = None,
      ss_cache = Some b, ss_private = Some [(lit ''request.json'', payload)]\<rparr>" by blast
  have "sn_candidate s = None \<and> sn_validation s = None \<and> sn_approval s = None \<and> sn_application s = None \<and> sn_decision s = None"
    using shape_requires(4) [OF assms(2) sid(2)] by simp
  then have dig: "snapshot_record_digests_are_valid env s = Inr True"
    by (simp add: snapshot_record_digests_are_valid_def record_digest_is_valid_def both_True)
  have "event_follows None K_created s None None" using sid(2) by (simp add: event_follows_def)
  then have event: "load_event env sid None 0 raw = Inr \<lparr>ld_snapshot = s, ld_sequence = 0,
      ld_sha256 = rp_sha256 env (digest_domain ''event'' @ 0 # raw), ld_timestamp = sn_updated s,
      ld_preview = None, ld_run = None\<rparr>"
    using load_event_written [of 0 None K_created s None None raw env sid] raw assms(2) dig sid(1)
    by (simp add: previous_sha256_def opt_all_def)
  have temp: "\<not> is_event_temp (event_name 0)" using raw(3) by (simp add: is_event_name_def is_event_temp_def)
  then have "event_files (ss_events st) = [(event_name 0, raw)]" by (simp add: event_files_def st)
  then have log: "read_log env st = Inr \<lparr>ld_snapshot = s, ld_sequence = 0,
      ld_sha256 = rp_sha256 env (digest_domain ''event'' @ 0 # raw), ld_timestamp = sn_updated s,
      ld_preview = None, ld_run = None\<rparr>"
    using event by (simp add: read_log_Inr load_event_chain_Inr st)
  have "clean_events st = st" using temp by (simp add: st clean_events_def)
  moreover have "snapshot_ok (rp_unicode env) s" using assms(2) by (simp add: snapshot_valid_def)
  then have "write_cache env st \<lparr>ld_snapshot = s, ld_sequence = 0,
      ld_sha256 = rp_sha256 env (digest_domain ''event'' @ 0 # raw), ld_timestamp = sn_updated s,
      ld_preview = None, ld_run = None\<rparr> = Inr st" using b by (simp add: write_cache_Inr st)
  ultimately have "load env st = Inr (st, \<lparr>ld_snapshot = s, ld_sequence = 0,
      ld_sha256 = rp_sha256 env (digest_domain ''event'' @ 0 # raw), ld_timestamp = sn_updated s,
      ld_preview = None, ld_run = None\<rparr>)" using log by (simp add: load_def Let_def)
  then show ?thesis by (simp add: st)
qed

text \<open>Loading twice is loading once.\<close>

lemma clean_events_twice [simp]: "clean_events (clean_events st) = clean_events st"
  by (simp add: clean_events_def)

lemma load_again: "load env st = Inr (st1, ld) \<Longrightarrow> load env st1 = Inr (st1, ld)"
proof -
  assume load: "load env st = Inr (st1, ld)"
  note parts = load_Inr [OF load]
  have log: "read_log env st1 = Inr ld"
    using parts unfolding read_log_Inr load_event_chain_Inr by (metis event_files_clean)
  have clean: "clean_events st1 = st1" using parts by (simp add: clean_events_def)
  from load have "ss_read_only st \<or> cache_is_fresh env st ld \<and> st1 = clean_events st \<or>
      (\<exists>b. snapshot_ok (rp_unicode env) (ld_snapshot ld) \<and> rm_canonical_bytes (JObj (cache_items ld)) = Inr b \<and>
        st1 = (clean_events st)\<lparr>ss_cache := Some b\<rparr>)"
    by (auto simp: load_def res_iffs Let_def write_cache_Inr split: if_splits)
  then show ?thesis
  proof (elim disjE exE conjE)
    assume "cache_is_fresh env st ld" "st1 = clean_events st"
    then have "cache_is_fresh env st1 ld"
      by (simp add: cache_is_fresh_def read_cache_def clean_events_def)
    then show ?thesis using log clean by (simp add: load_def)
  next
    fix b assume b: "rm_canonical_bytes (JObj (cache_items ld)) = Inr b" "snapshot_ok (rp_unicode env) (ld_snapshot ld)"
      "st1 = (clean_events st)\<lparr>ss_cache := Some b\<rparr>"
    then have "write_cache env st1 ld = Inr st1" by (simp add: write_cache_Inr)
    then show ?thesis using log clean by (simp add: load_def Let_def)
  qed (use log clean parts in \<open>simp add: load_def\<close>)
qed

lemma append_event_reload:
  assumes "append_event env st kind s run clear = Inr (st', ld)"
    and "snapshot_valid (rp_unicode env) s" "opt_all lease_ok run" "digest_function (rp_sha256 env)"
  shows "load env st' = Inr (st', ld)"
proof -
  from append_event_parts [OF assms(1)] obtain st1 cur raw b where load: "load env st = Inr (st1, cur)"
    and name: "is_event_name (event_name (Suc (ld_sequence cur)))"
    and b: "rm_canonical_bytes (JObj (cache_items ld)) = Inr b"
    and st': "st' = st1\<lparr>ss_events := ss_events st1 @ [(event_name (Suc (ld_sequence cur)), raw)], ss_cache := Some b\<rparr>"
    and s: "ld_snapshot ld = s" by (metis loaded_state.select_convs(1))
  have "\<not> is_event_temp (event_name (Suc (ld_sequence cur)))"
    using name by (simp add: is_event_name_def is_event_temp_def)
  then have clean: "clean_events st' = st'" using load_Inr [OF load] by (simp add: st' clean_events_def)
  have "write_cache env st' ld = Inr st'"
    using b assms(2) s by (simp add: write_cache_Inr snapshot_valid_def st')
  with append_event_load [OF assms] clean show ?thesis by (simp add: load_def Let_def)
qed

lemma event_name_free:
  assumes "read_log env st = Inr cur" "is_event_name (event_name (Suc (ld_sequence cur)))"
  shows "event_name (Suc (ld_sequence cur)) \<notin> fst ` set (ss_events st)"
proof
  let ?n = "Suc (ld_sequence cur)" and ?files = "event_files (ss_events st)"
  assume "event_name ?n \<in> fst ` set (ss_events st)"
  then have "event_name ?n \<in> fst ` set ?files"
    using assms(2) by (auto simp: event_files_def is_event_name_def is_event_temp_def)
  moreover from assms(1) have chain: "load_chain env (ss_session st) None 0 ?files = Inr (Some cur)"
    by (simp add: read_log_Inr load_event_chain_Inr)
  then have "length ?files = ?n" using load_chain_sequence [OF chain] by (cases ?files) auto
  ultimately have "event_name ?n \<in> event_name ` {0..<?n}"
    using arg_cong [OF load_chain_names [OF chain], of set] by (metis add_0 atLeastLessThan_upt image_set)
  moreover have "length (event_name ?n) = 21" using assms(2) by (simp add: is_event_name_def)
  ultimately show False using event_name_less [of _ ?n] by fastforce
qed

lemma append_event_succeeds:
  assumes load: "load env st = Inr (st1, cur)"
    and w: "\<not> ss_read_only st" "sn_session s = ss_session st" "\<not> (run \<noteq> None \<and> clear)"
    and valid: "snapshot_valid (rp_unicode env) s" "snapshot_record_digests_are_valid env s = Inr True"
      "opt_all lease_ok run" "digest_function (rp_sha256 env)"
    and run: "next_validation_run kind s run clear cur = Inr run'" and pv: "next_preview env st kind cur = Inr pv"
    and follows: "event_follows (Some cur) kind s pv run'"
    and digits: "json_digits_ok (JObj (event_items (Suc (ld_sequence cur)) (ld_sha256 cur) kind (sn_updated s) s pv run'))"
    and size: "4 * json_bound (JObj (event_items (Suc (ld_sequence cur)) (ld_sha256 cur) kind (sn_updated s) s pv run'))
      \<le> int max_record_bytes"
    and name: "is_event_name (event_name (Suc (ld_sequence cur)))"
    and prev: "utf8_ok (ld_sha256 cur)"
  shows "\<exists>st' ld. append_event env st kind s run clear = Inr (st', ld) \<and> ld_snapshot ld = s \<and>
    ld_sequence ld = Suc (ld_sequence cur) \<and> ld_preview ld = pv \<and> ld_run ld = run' \<and>
    ss_session st' = ss_session st \<and> ss_read_only st' = ss_read_only st"
proof -
  let ?items = "event_items (Suc (ld_sequence cur)) (ld_sha256 cur) kind (sn_updated s) s pv run'"
  note same = load_Inr [OF load]
  have "\<exists>ks. session_run env (ss_session st) ks cur" using load_run same by blast
  then have st: "event_state env (ss_session st) cur" using session_run_state by blast
  then have "opt_all lease_ok run'" "opt_all is_sha256 pv"
    using next_validation_run_ok [OF run valid(3)] next_preview_ok [OF valid(4) pv] by (simp_all add: event_state_def)
  then have plain: "json_plain (JObj ?items)" using json_plain_event valid(1) prev by blast
  then obtain raw where raw: "rm_canonical_bytes (JObj ?items) = Inr raw" "length raw \<le> max_record_bytes"
    using rm_canonical_bytes_defined [OF json_dicts_event _ digits] size by (metis of_nat_le_iff order_trans)
  let ?sha = "rp_sha256 env (digest_domain ''event'' @ 0 # raw)"
  have "is_sha256 ?sha" using valid(4) by (simp add: digest_function_def)
  then obtain b where b: "rm_canonical_bytes (JObj (cache_items \<lparr>ld_snapshot = s, ld_sequence = Suc (ld_sequence cur),
      ld_sha256 = ?sha, ld_timestamp = sn_updated s, ld_preview = pv, ld_run = run'\<rparr>)) = Inr b"
    using cache_defined [OF plain digits] by (metis utf8_ok_sha256)
  have free: "event_name (Suc (ld_sequence cur)) \<notin> fst ` set (ss_events st1)"
    using event_name_free [OF conjunct1 [OF same] name] same by auto
  have "next_preview env st1 kind cur = Inr pv" using pv same next_preview_same by metis
  moreover have "snapshot_ok (rp_unicode env) s" using valid(1) by (simp add: snapshot_valid_def)
  ultimately show ?thesis
    using load same w valid(2) run follows raw name free b
    by (simp add: append_event_def event_follows_def event_mapping_def store_result_def
      rm_domain_digest_def write_event_immutable_def write_cache_def cache_mapping_def Let_def)
qed

section \<open>A stored session\<close>

lemma load_digest: "read_log env st = Inr ld \<Longrightarrow> \<exists>b. ld_sha256 ld = rp_sha256 env b"
proof -
  assume "read_log env st = Inr ld"
  then have chain: "load_chain env (ss_session st) None 0 (event_files (ss_events st)) = Inr (Some ld)"
    by (simp add: read_log_Inr load_event_chain_Inr)
  then have "event_files (ss_events st) \<noteq> []" by auto
  then obtain fs f where "event_files (ss_events st) = fs @ [f]" by (metis rev_exhaust)
  with chain obtain prev where "load_event env (ss_session st) prev (length fs) (snd f) = Inr ld"
    by (auto simp: load_chain_append res_iffs)
  then show ?thesis using load_event_bytes by blast
qed

lemma demo_digest_function: "digest_function (rp_sha256 demo_env)"
  using demo_records(7) by (simp add: digest_function_def demo_env_def)

lemma json_digits_plain: "json_digits_ok (j_option f None)"
  by (simp add: j_option_def)

lemma nat_text_small: "nat_text (Suc 0) = [49]" "nat_text 0 = [48]"
  by (simp_all add: nat_text.simps)

lemma demo_digest_length: "length demo_digest = 64"
  by (simp add: demo_digest_def)

lemma demo_state_length: "length (repair_state_value st) \<le> 10"
  by (cases st) simp_all

lemma demo_snapshot_json:
  "json_digits_ok (snapshot_to_dict (demo_snapshot st))" "json_bound (snapshot_to_dict (demo_snapshot st)) \<le> 5000"
proof -
  show "json_bound (snapshot_to_dict (demo_snapshot st)) \<le> 5000"
    unfolding snapshot_to_dict_def snapshot_items_def json_bound_cases json_items_bound.simps
      json_list_bound.simps fst_conv snd_conv j_option_def lit_length
    apply (simp only: demo_snapshot_def repair_snapshot.simps option.case list.map json_bound_cases
        json_list_bound.simps lit_length demo_digest_length)
    apply (simp only: list.size)
    using demo_state_length [of st] apply (simp add: int_text_def nat_text_small)
    done
qed (simp add: snapshot_to_dict_def snapshot_items_def demo_snapshot_def j_option_def nat_text_small)

definition demo_decision :: repair_decision where
  "demo_decision = \<lparr>de_schema_version = 1, de_sha256 = demo_digest, de_state = CANCELLED, de_subject = lit ''s'',
     de_reason = [], de_candidate = None, de_at = 1\<rparr>"

definition demo_cancelled :: "bool \<Rightarrow> repair_snapshot" where
  "demo_cancelled pending =
     (demo_snapshot CANCELLED)\<lparr>sn_decision := Some demo_decision, sn_cleanup_pending := pending\<rparr>"

lemma demo_decision_ok: "decision_ok ascii_db demo_decision"
  by code_simp

lemma demo_decision_json:
  "json_digits_ok (decision_to_dict demo_decision)" "json_bound (decision_to_dict demo_decision) \<le> 2000"
proof -
  show "json_bound (decision_to_dict demo_decision) \<le> 2000"
    unfolding decision_to_dict_def decision_items_def json_bound_cases json_items_bound.simps
      json_list_bound.simps fst_conv snd_conv j_option_def lit_length
    apply (simp only: demo_decision_def repair_decision.simps option.case list.map json_bound_cases
        json_list_bound.simps lit_length demo_digest_length)
    apply (simp only: list.size repair_state_value.simps)
    apply (simp add: int_text_def nat_text_small)
    done
qed (simp add: decision_to_dict_def decision_items_def demo_decision_def j_option_def nat_text_small)

lemma demo_cancelled_json:
  "json_digits_ok (snapshot_to_dict (demo_cancelled b))" "json_bound (snapshot_to_dict (demo_cancelled b)) \<le> 8000"
proof -
  show "json_bound (snapshot_to_dict (demo_cancelled b)) \<le> 8000"
    unfolding snapshot_to_dict_def snapshot_items_def json_bound_cases json_items_bound.simps
      json_list_bound.simps fst_conv snd_conv j_option_def lit_length
    apply (simp only: demo_cancelled_def demo_snapshot_def repair_snapshot.simps option.case list.map json_bound_cases
        json_list_bound.simps lit_length demo_digest_length)
    apply (simp only: list.size)
    using demo_state_length [of CANCELLED] demo_decision_json(2) apply (simp add: int_text_def nat_text_small)
    done
qed (simp add: snapshot_to_dict_def snapshot_items_def demo_cancelled_def demo_snapshot_def j_option_def nat_text_small
    demo_decision_json(1))

text \<open>What the texts of the small sessions below have in common.\<close>

definition demo_small :: "repair_snapshot \<Rightarrow> bool" where
  "demo_small s \<longleftrightarrow> json_digits_ok (snapshot_to_dict s) \<and> json_bound (snapshot_to_dict s) \<le> 8000 \<and>
     snapshot_valid ascii_db s \<and> snapshot_record_digests_are_valid demo_env s = Inr True \<and>
     sn_session s = demo_digest \<and> sn_updated s = 1"

lemma demo_event_json:
  assumes "n \<le> 9" "length p = 64" "demo_small s"
  shows "json_digits_ok (JObj (event_items n p kind 1 s None None))"
    and "4 * json_bound (JObj (event_items n p kind 1 s None None)) \<le> int max_record_bytes"
proof -
  have n: "nat_text n = [48 + n]" using assms(1) by (simp add: nat_text.simps)
  then show "json_digits_ok (JObj (event_items n p kind 1 s None None))"
    using assms(3) by (auto simp: event_items_def demo_small_def j_option_def nat_text_small)
  have "length (event_kind_value kind) \<le> 30" by (cases kind) simp_all
  moreover have "length (int_text (int n)) \<le> 1" using n by (simp add: int_text_def)
  ultimately show "4 * json_bound (JObj (event_items n p kind 1 s None None)) \<le> int max_record_bytes"
    using assms(3) demo_state_length [of "sn_state s"]
    unfolding event_items_def json_bound_cases json_items_bound.simps fst_conv snd_conv j_option_def
      lit_length option.case assms(2) max_record_bytes_def demo_small_def
    apply (simp only: list.size)
    apply (simp add: int_text_def nat_text_small)
    done
qed

lemma demo_names: "n \<le> 9 \<Longrightarrow> is_event_name (event_name n)"
proof -
  assume "n \<le> 9"
  then have "nat_text n = [48 + n]" "is_digit (48 + n)" by (simp_all add: nat_text.simps is_digit_def)
  then show ?thesis
    by (simp add: is_event_name_def event_name_def sequence_text_def lit_def is_digit_def numeral_eq_Suc)
qed

lemma demo_smalls:
  "st \<in> {CREATED, GENERATING} \<Longrightarrow> demo_small (demo_snapshot st)" "demo_small (demo_cancelled b)"
proof -
  show "st \<in> {CREATED, GENERATING} \<Longrightarrow> demo_small (demo_snapshot st)"
    using demo_snapshot_json [of st] demo_snapshot_valid(1) [of st]
    by (simp add: demo_small_def demo_snapshot_digests demo_same)
  have "rm_domain_digest demo_env ''decision'' (decision_digest_mapping demo_decision) = Inr demo_digest"
    unfolding decision_digest_mapping_def
    using json_plain_decision [OF demo_decision_ok] demo_decision_json(1) json_dicts_records(6) [of demo_decision]
    unfolding decision_to_dict_def by (intro demo_digest_ok drop_keys_keeps)
  then have "snapshot_record_digests_are_valid demo_env (demo_cancelled b) = Inr True"
    by (simp add: snapshot_record_digests_are_valid_def both_True record_digest_is_valid_def demo_cancelled_def
      demo_snapshot_def) (simp add: demo_decision_def)
  moreover have "snapshot_valid ascii_db (demo_cancelled b)"
    using demo_decision_ok demo_records(7,8)
    by (auto simp: snapshot_valid_def snapshot_ok_def snapshot_shape_def opt_all_def demo_cancelled_def demo_snapshot_def
      timestamp_order_def bounded_int_def is_terminal_def terminal_states_def) (simp_all add: demo_decision_def)
  ultimately show "demo_small (demo_cancelled b)"
    using demo_cancelled_json [of b] by (simp add: demo_small_def) (simp add: demo_cancelled_def demo_same)
qed

lemma demo_created: "\<exists>st. create_session_store demo_env demo_digest (JObj []) (demo_snapshot CREATED) = Inr st"
proof -
  let ?items = "event_items 0 (replicate 64 48) K_created 1 (demo_snapshot CREATED) None None"
  have valid: "snapshot_valid ascii_db (demo_snapshot CREATED)" by (simp add: demo_snapshot_valid)
  have "utf8_ok (replicate 64 48)" by (rule utf8_ok_ascii) (simp add: list_all_iff)
  then have plain: "json_plain (JObj ?items)" using json_plain_event [OF valid] by (simp add: opt_all_def)
  note json = demo_event_json [of 0 "replicate 64 48" "demo_snapshot CREATED" K_created]
  obtain raw where raw: "rm_canonical_bytes (JObj ?items) = Inr raw" "int (length raw) \<le> 4 * json_bound (JObj ?items)"
    using rm_canonical_bytes_defined [OF json_dicts_event plain json(1)] demo_smalls(1) by auto
  then have "length raw \<le> max_record_bytes" using json(2) demo_smalls(1) by simp
  moreover have "\<exists>b. rm_canonical_bytes (JObj (cache_items \<lparr>ld_snapshot = demo_snapshot CREATED, ld_sequence = 0,
      ld_sha256 = demo_digest, ld_timestamp = 1, ld_preview = None, ld_run = None\<rparr>)) = Inr b"
    using cache_defined [OF plain json(1)] demo_smalls(1) demo_records(7) by auto
  moreover have "snapshot_ok ascii_db (demo_snapshot CREATED)" using valid by (simp add: snapshot_valid_def)
  moreover have "\<exists>b. rm_canonical_bytes (JObj []) = Inr b"
    by (rule exI [of _ "[123, 125]"]) code_simp
  ultimately show ?thesis
    using raw(1) demo_records(7) demo_names [of 0]
    by (auto simp: create_session_store_def event_mapping_def store_result_def write_event_immutable_def
      demo_same demo_env_def rm_domain_digest_def write_cache_def cache_mapping_def os_failed_def)
      (simp_all add: demo_snapshot_def)
qed

text \<open>A log the small sessions can be in: no lease, no preview, at most nine events.\<close>

definition demo_log :: "session_store \<Rightarrow> loaded_state \<Rightarrow> bool" where
  "demo_log st ld \<longleftrightarrow> load demo_env st = Inr (st, ld) \<and> ld_sequence ld < 9 \<and> ld_preview ld = None \<and> ld_run ld = None \<and>
     ss_session st = demo_digest \<and> \<not> ss_read_only st"

lemma demo_log_read: "demo_log st ld \<Longrightarrow> read_log demo_env st = Inr ld"
  using load_Inr by (simp add: demo_log_def)

lemma demo_append:
  assumes "demo_log st cur" "demo_small s" "event_follows (Some cur) kind s None None"
    and "kind \<notin> {K_candidate, K_validation_intent, K_validation_run}"
  shows "\<exists>st' ld. append_event demo_env st kind s None False = Inr (st', ld) \<and> ld_snapshot ld = s \<and>
    (ld_sequence ld < 9 \<longrightarrow> demo_log st' ld) \<and> ld_sequence ld = Suc (ld_sequence cur)"
proof -
  note log = assms(1) [unfolded demo_log_def] and small = assms(2) [unfolded demo_small_def]
  have sha: "ld_sha256 cur = demo_digest" using load_digest [OF demo_log_read [OF assms(1)]] by (auto simp: demo_env_def)
  have dg: "digest_function (rp_sha256 demo_env)" by (rule demo_digest_function)
  have env: "rp_unicode demo_env = ascii_db" by (simp add: demo_env_def)
  have utf8: "utf8_ok demo_digest" using demo_records(7) by simp
  note json = demo_event_json [of "Suc (ld_sequence cur)" demo_digest s kind]
  have "\<exists>st' ld. append_event demo_env st kind s None False = Inr (st', ld) \<and> ld_snapshot ld = s \<and>
    ld_sequence ld = Suc (ld_sequence cur) \<and> ld_preview ld = None \<and> ld_run ld = None \<and>
    ss_session st' = ss_session st \<and> ss_read_only st' = ss_read_only st"
    by (rule append_event_succeeds)
      (use log small assms(2-4) sha dg env utf8 json demo_names [of "Suc (ld_sequence cur)"] in
        \<open>simp_all add: opt_all_def next_validation_run_def next_preview_def demo_digest_length\<close>)
  then obtain st' ld where step: "append_event demo_env st kind s None False = Inr (st', ld)" "ld_snapshot ld = s"
    "ld_sequence ld = Suc (ld_sequence cur)" "ld_preview ld = None" "ld_run ld = None"
    "ss_session st' = ss_session st" "ss_read_only st' = ss_read_only st" by blast
  have "load demo_env st' = Inr (st', ld)"
    by (rule append_event_reload [OF step(1)]) (use small env dg in \<open>simp_all add: opt_all_def\<close>)
  with step log show ?thesis by (auto simp: demo_log_def)
qed

lemma demo_start:
  "\<exists>st ld. create_session_store demo_env demo_digest (JObj []) (demo_snapshot CREATED) = Inr st \<and> demo_log st ld \<and>
     ld_snapshot ld = demo_snapshot CREATED \<and> ld_sequence ld = 0"
proof -
  from demo_created obtain st where st: "create_session_store demo_env demo_digest (JObj []) (demo_snapshot CREATED) = Inr st" ..
  have "snapshot_valid (rp_unicode demo_env) (demo_snapshot CREATED)"
    using demo_snapshot_valid(1) [of CREATED] by (simp add: demo_env_def)
  from create_session_load [OF st this] st show ?thesis by (auto simp: demo_log_def)
qed

lemma demo_generating:
  "\<exists>st p st' q. demo_log st p \<and> ld_snapshot p = demo_snapshot CREATED \<and> ld_sequence p = 0 \<and>
     append_event demo_env st K_generating (demo_snapshot GENERATING) None False = Inr (st', q) \<and> demo_log st' q \<and> ld_sequence q = 1"
proof -
  obtain st p where p: "demo_log st p" "ld_snapshot p = demo_snapshot CREATED" "ld_sequence p = 0"
    using demo_start by blast
  have "event_follows (Some p) K_generating (demo_snapshot GENERATING) None None"
    using demo_follows(2) p by (simp add: event_follows_def demo_log_def demo_state_def)
  from demo_append [OF p(1) demo_smalls(1) this] p show ?thesis by fastforce
qed

lemma demo_closing:
  "\<exists>st p st' q. demo_log st p \<and> ld_snapshot p = demo_cancelled True \<and>
     append_event demo_env st K_cleanup_complete (demo_cancelled False) None False = Inr (st', q)"
proof -
  obtain st p where p: "demo_log st p" "ld_snapshot p = demo_snapshot CREATED" "ld_sequence p = 0"
    using demo_start by blast
  have "event_follows (Some p) K_cancelled (demo_cancelled True) None None"
    using p by (simp add: event_follows_def demo_log_def)
      (code_simp)
  from demo_append [OF p(1) demo_smalls(2) this] p obtain st1 q
    where q: "demo_log st1 q" "ld_snapshot q = demo_cancelled True" by auto
  have "event_follows (Some q) K_cleanup_complete (demo_cancelled False) None None"
    using q by (simp add: event_follows_def demo_log_def)
      (code_simp)
  from demo_append [OF q(1) demo_smalls(2) this] q show ?thesis by fastforce
qed

lemma demo_lease_run:
  "session_run demo_env demo_digest (K_created # take 5 milestones)
     (demo_state 5 (demo_generated VALIDATING) (Some demo_digest) (Some (demo_lease (Some demo_digest))))"
proof -
  have "session_run demo_env demo_digest (map fst (take 6 demo_states)) (snd (last (take 6 demo_states)))"
    by (rule session_run_list)
      (use demo_event_states demo_follows in \<open>simp_all add: demo_states_def case_prod_unfold\<close>)
  then show ?thesis by (simp add: demo_states_def milestones_def)
qed

section \<open>Properties\<close>

text \<open>
  C12. Durability: after a successful append, loading the directory again gives exactly the state the
  append returned, with the appended snapshot, one event further.
\<close>

theorem append_then_load:
  assumes "append_event env st kind s run clear = Inr (st', ld)"
    and "snapshot_valid (rp_unicode env) s" "opt_all lease_ok run" "digest_function (rp_sha256 env)"
  shows "load env st' = Inr (st', ld) \<and> ld_snapshot ld = s \<and>
    (\<exists>st1 cur. load env st = Inr (st1, cur) \<and> ld_sequence ld = Suc (ld_sequence cur))"
proof -
  from append_event_parts [OF assms(1)] obtain st1 cur where
    "load env st = Inr (st1, cur)" "ld_snapshot ld = s" "ld_sequence ld = Suc (ld_sequence cur)"
    by (metis loaded_state.select_convs(1,2))
  with append_event_reload [OF assms] show ?thesis by blast
qed

theorem append_then_load_witness:
  "\<exists>st st' ld. append_event demo_env st K_generating (demo_snapshot GENERATING) None False = Inr (st', ld) \<and>
     load demo_env st' = Inr (st', ld) \<and> ld_snapshot ld = demo_snapshot GENERATING"
proof -
  obtain st st' ld where step: "append_event demo_env st K_generating (demo_snapshot GENERATING) None False = Inr (st', ld)"
    using demo_generating by blast
  have "snapshot_valid (rp_unicode demo_env) (demo_snapshot GENERATING)"
    using demo_snapshot_valid(1) [of GENERATING] by (simp add: demo_env_def)
  from append_then_load [OF step this _ demo_digest_function] step show ?thesis by (auto simp: opt_all_def)
qed

text \<open>
  C1. Publication is authorised: in every run, an approved, applying or applied session has a
  candidate, a validation of that candidate whose commands all ended cleanly, and an approval with
  the fixed confirmation that names both by their digests; each of these digests is the hash of the
  record it names; and an applied session published the candidate's commit under the ref named after
  the candidate, with the approval's digest.
\<close>

theorem publication_is_authorised:
  assumes "session_run env sid ks ld" "sn_state (ld_snapshot ld) \<in> {APPROVED, APPLYING, APPLIED}"
  shows "\<exists>c v a. sn_candidate (ld_snapshot ld) = Some c \<and> sn_validation (ld_snapshot ld) = Some v \<and>
    sn_approval (ld_snapshot ld) = Some a \<and>
    va_success v \<and> va_results v \<noteq> [] \<and> list_all clean_result (va_results v) \<and>
    va_candidate v = ca_id c \<and> ap_candidate a = ca_id c \<and> ap_validation a = va_sha256 v \<and>
    ap_confirmation a = approval_confirmation \<and>
    rm_domain_digest env ''candidate'' (candidate_digest_mapping c) = Inr (ca_id c) \<and>
    rm_domain_digest env ''validation'' (validation_digest_mapping v) = Inr (va_sha256 v) \<and>
    rm_domain_digest env ''approval'' (approval_digest_mapping a) = Inr (ap_sha256 a) \<and>
    (sn_state (ld_snapshot ld) = APPLIED \<longrightarrow>
       (\<exists>l. sn_application (ld_snapshot ld) = Some l \<and> al_approval l = ap_sha256 a \<and>
          al_commit l = ca_commit c \<and> al_ref l = ref_prefix @ ca_id c))"
proof -
  have st: "event_state env sid ld" using assms(1) by (rule session_run_state)
  then have valid: "snapshot_valid (rp_unicode env) (ld_snapshot ld)"
    and dig: "snapshot_record_digests_are_valid env (ld_snapshot ld) = Inr True" by (simp_all add: event_state_def)
  obtain a where a: "sn_approval (ld_snapshot ld) = Some a"
    using shape_requires(3) [OF valid assms(2)] by blast
  from shape_approved [OF valid a] obtain c v where
    cv: "sn_candidate (ld_snapshot ld) = Some c" "sn_validation (ld_snapshot ld) = Some v"
    and eq: "va_success v" "list_all clean_result (va_results v)" "va_results v \<noteq> []" "va_candidate v = ca_id c"
      "ap_candidate a = ca_id c" "ap_validation a = va_sha256 v" "ap_confirmation a = approval_confirmation" by blast
  have "sn_state (ld_snapshot ld) = APPLIED \<longrightarrow> (\<exists>l. sn_application (ld_snapshot ld) = Some l \<and>
      al_approval l = ap_sha256 a \<and> al_commit l = ca_commit c \<and> al_ref l = ref_prefix @ ca_id c)"
    using shape_applied [OF valid] a cv by auto
  with a cv eq snapshot_digests [OF dig] show ?thesis by blast
qed

theorem publication_is_authorised_witness:
  "\<exists>c a l. sn_candidate demo_applied = Some c \<and> sn_approval demo_applied = Some a \<and>
     sn_application demo_applied = Some l \<and> al_approval l = ap_sha256 a \<and> al_ref l = ref_prefix @ ca_id c"
proof -
  have applied: "sn_state demo_applied = APPLIED" by (simp add: demo_snapshots)
  have "sn_state (ld_snapshot (demo_state 10 demo_applied (Some demo_digest) None)) \<in> {APPROVED, APPLYING, APPLIED}"
    by (simp add: applied)
  from publication_is_authorised [OF demo_session_run this] applied show ?thesis
    unfolding demo_state_simps by blast
qed

text \<open>
  C2. No step is skipped: an applied session has, in this order, generated, stored a candidate,
  started validating, registered a validation container, recorded the result, been validated,
  approved, marked as applying and applied; and whoever holds an approval has passed all steps up to
  it.
\<close>

theorem publication_steps_in_order:
  assumes "session_run env sid ks ld"
  shows "(sn_state (ld_snapshot ld) = APPLIED \<longrightarrow>
      in_order (map (=) [K_generating, K_candidate, K_validating, K_validation_intent, K_validation_run,
        K_validation_result, K_validated, K_approved, K_applying, K_applied]) ks) \<and>
    (sn_approval (ld_snapshot ld) \<noteq> None \<longrightarrow>
      in_order (map (=) [K_generating, K_candidate, K_validating, K_validation_intent, K_validation_run,
        K_validation_result, K_validated, K_approved]) ks) \<and>
    (sn_validation (ld_snapshot ld) \<noteq> None \<longrightarrow>
      in_order (map (=) [K_generating, K_candidate, K_validating, K_validation_intent, K_validation_run,
        K_validation_result]) ks)"
  using history_parts(6,8,10) [OF session_history [OF assms]]
  by (simp add: passed_def milestones_def take_Cons')

theorem publication_steps_in_order_witness:
  "in_order (map (=) [K_approved, K_applying, K_applied]) (K_created # milestones)"
proof -
  have "sn_state demo_applied = APPLIED" by (simp add: demo_snapshots)
  with publication_steps_in_order [OF demo_session_run] show ?thesis
    unfolding demo_state_simps by (auto dest!: in_order_mono)
qed

text \<open>
  C13. Tamper evidence: two event directories, for any two sessions, that load with the same head
  digest hold the same events, name for name and byte for byte, or two of their event records are
  different texts with one hash.
\<close>

theorem log_tamper_evident:
  assumes "load_event_chain env sid dir = Inr ld" "load_event_chain env sid' dir' = Inr ld'"
    and "ld_sha256 ld = ld_sha256 ld'"
  shows "event_files dir = event_files dir' \<or>
    collide (rp_sha256 env) (event_texts (event_files dir)) (event_texts (event_files dir'))"
  using load_chain_same_digest assms unfolding load_event_chain_Inr by blast

theorem log_tamper_evident_witness:
  "\<exists>dir dir'. event_files dir \<noteq> event_files dir' \<and>
     collide (rp_sha256 demo_env) (event_texts (event_files dir)) (event_texts (event_files dir'))"
proof -
  obtain st p st' q where logs: "demo_log st p" "ld_sequence p = 0" "demo_log st' q" "ld_sequence q = 1"
    "append_event demo_env st K_generating (demo_snapshot GENERATING) None False = Inr (st', q)"
    using demo_generating by blast
  have chains: "load_event_chain demo_env demo_digest (ss_events st) = Inr p"
    "load_event_chain demo_env demo_digest (ss_events st') = Inr q"
    using logs(1,3) demo_log_read unfolding demo_log_def read_log_Inr by metis+
  have "ld_sha256 p = ld_sha256 q"
    using logs(1,3) [THEN demo_log_read, THEN load_digest] by (auto simp: demo_env_def)
  note shared = log_tamper_evident [OF chains this]
  have "ld_sequence q = Suc (ld_sequence p)"
    using logs(2,4) by simp
  then have "event_files (ss_events st) \<noteq> event_files (ss_events st')"
    using chains by (auto simp: load_event_chain_Inr)
  with shared show ?thesis by blast
qed

text \<open>
  C14. Nothing is taken back: after any sequence of successful appends the log loads, the identity of
  the session is unchanged, its time has not gone back, every record that was there (candidate,
  validation, approval, application, decision, failure, preview digest) is there unchanged, and a
  terminal state is still the same state.
\<close>

theorem records_survive:
  assumes "append_all env st rs = Inr st'" "list_all (request_valid env) rs" "read_log env st = Inr p"
  shows "\<exists>q. read_log env st' = Inr q \<and> extends p q"
proof -
  have step: "extends p q \<Longrightarrow> state_follows q r \<Longrightarrow> extends p r" for q r
    using extends_trans state_follows_extends by blast
  show ?thesis
    by (rule log.appends_keep [where I = "extends p", OF _ _ assms(2,3) extends_refl])
      (use step assms(1) in \<open>auto simp: append_all_def\<close>)
qed

theorem records_survive_witness:
  "\<exists>st st' p q. append_all demo_env st [(K_generating, demo_snapshot GENERATING, None, False)] = Inr st' \<and>
     read_log demo_env st = Inr p \<and> read_log demo_env st' = Inr q \<and> extends p q"
proof -
  obtain st p st' q where logs: "demo_log st p"
    "append_event demo_env st K_generating (demo_snapshot GENERATING) None False = Inr (st', q)"
    using demo_generating by blast
  have all: "append_all demo_env st [(K_generating, demo_snapshot GENERATING, None, False)] = Inr st'"
    using logs(2) by (simp add: append_all_def append_request_def)
  have "list_all (request_valid demo_env) [(K_generating, demo_snapshot GENERATING, None, False)]"
    using demo_snapshot_valid(1) [of GENERATING] demo_digest_function
    by (simp add: request_valid_def opt_all_def demo_env_def)
  from records_survive [OF all this demo_log_read [OF logs(1)]] demo_log_read [OF logs(1)] all show ?thesis by blast
qed

text \<open>
  C20. A terminal session stays closed: whatever is appended to it successfully is the late record of a
  validation container or a cleanup event, and leaves its state as it is.
\<close>

theorem terminal_session_closed:
  assumes "append_event env st kind s run clear = Inr (st', ld)" "load env st = Inr (st1, cur)"
    and "is_terminal (sn_state (ld_snapshot cur))"
  shows "kind \<in> {K_validation_run, K_cleanup_complete, K_cleanup_pending} \<and>
    sn_state (ld_snapshot ld) = sn_state (ld_snapshot cur) \<and>
    sn_application (ld_snapshot ld) = sn_application (ld_snapshot cur)"
proof -
  from append_event_Inr [OF assms(1)] load_Inr [OF assms(2)] have
    follows: "event_follows (Some cur) kind s (ld_preview ld) (ld_run ld)" and s: "ld_snapshot ld = s"
    by (metis Inr_inject, metis loaded_state.select_convs(1))
  note parts = follows_parts [OF follows]
  show ?thesis
    using pair_states(9) [OF parts(1) assms(3)] update_fields(4) [OF parts(4)] s by auto
qed

theorem terminal_session_closed_witness:
  "\<exists>st st' ld. append_event demo_env st K_cleanup_complete (demo_cancelled False) None False = Inr (st', ld) \<and>
     sn_state (ld_snapshot ld) = CANCELLED"
proof -
  obtain st p st' q where logs: "load demo_env st = Inr (st, p)" "ld_snapshot p = demo_cancelled True"
    and step: "append_event demo_env st K_cleanup_complete (demo_cancelled False) None False = Inr (st', q)"
    using demo_closing unfolding demo_log_def by blast
  have "sn_state (ld_snapshot p) = CANCELLED" using logs(2) by (simp add: demo_cancelled_def demo_snapshot_def)
  moreover from this have "is_terminal (sn_state (ld_snapshot p))" by (simp add: is_terminal_def terminal_states_def)
  ultimately show ?thesis using terminal_session_closed [OF step logs(1)] step by auto
qed

lemma run_lease_state:
  assumes "validation_run_update_is_valid kind ps s p r" "event_state_pair_is_valid kind a (sn_state s)" "r \<noteq> None"
  shows "sn_state s \<in> set lease_carry_states"
  using assms
  by (cases kind) (auto simp: validation_run_update_is_valid_def lease_carry_states_def
    event_state_pair_is_valid_def split: if_splits)

lemma session_lease:
  assumes "session_run env sid ks ld" "ld_run ld = Some l"
  shows "sn_state (ld_snapshot ld) \<in> set lease_carry_states \<and> validation_run_matches_snapshot l (ld_snapshot ld)"
  using assms
proof (cases rule: session_run.cases)
  case (created kind)
  then show ?thesis using assms(2) by (simp add: event_follows_def)
next
  case (event ks p kind)
  note parts = follows_parts [OF event(5)]
  have "validation_run_matches_snapshot l (ld_snapshot ld)"
    using parts(2) assms(2) by (simp add: validation_run_update_is_valid_def opt_all_def split: if_splits)
  then show ?thesis using run_lease_state [OF parts(2,1)] assms(2) by simp
qed

text \<open>
  C21. A container lease is held only while it can matter: in every run, a registered lease belongs to
  the session and to its candidate, the session is validating or has just been cancelled, expired or
  failed, and a lease with a container id was registered as an intent before.
\<close>

theorem lease_belongs_to_session:
  assumes "session_run env sid ks ld" "ld_run ld = Some l"
  shows "sn_state (ld_snapshot ld) \<in> {VALIDATING, CANCELLED, EXPIRED, FAILED} \<and> ls_session l = sid \<and>
    (\<exists>c. sn_candidate (ld_snapshot ld) = Some c \<and> ls_candidate l = ca_id c) \<and> lease_ok l \<and>
    (ls_container l \<noteq> None \<longrightarrow> in_order [(=) K_validation_intent, (=) K_validation_run] ks)"
proof -
  have st: "event_state env sid ld" using assms(1) by (rule session_run_state)
  have "passed 5 ks" if "ls_container l \<noteq> None"
    using history_parts(5) [OF session_history [OF assms(1)] assms(2) that] .
  then have "in_order [(=) K_validation_intent, (=) K_validation_run] ks" if "ls_container l \<noteq> None"
    using that by (auto simp: passed_def milestones_def take_Cons' dest!: in_order_mono)
  with session_lease [OF assms] st assms(2) show ?thesis
    by (auto simp: lease_carry_states_def validation_run_matches_snapshot_def event_state_def opt_all_def
      split: option.splits)
qed

theorem lease_belongs_to_session_witness:
  "ls_candidate (demo_lease (Some demo_digest)) = ca_id demo_candidate \<and>
   in_order [(=) K_validation_intent, (=) K_validation_run] (K_created # take 5 milestones)"
proof -
  have "ld_run (demo_state 5 (demo_generated VALIDATING) (Some demo_digest) (Some (demo_lease (Some demo_digest)))) =
      Some (demo_lease (Some demo_digest))" by (simp add: demo_state_def)
  from lease_belongs_to_session [OF demo_lease_run this] show ?thesis
    by (auto simp: demo_state_def demo_generated_def demo_lease_def)
qed

text \<open>Witnesses for the snapshot codec.\<close>

theorem snapshot_round_trip_witness:
  "snapshot_from_dict ascii_db (json_norm (snapshot_to_dict demo_applied)) = Inr demo_applied"
  using snapshot_round_trip [OF demo_snapshot_valid(5)] by simp

text \<open>Options of records, for the theories above.\<close>

lemma opt_all_None [simp]: "opt_all P None"
  by (simp add: opt_all_def)

lemma opt_all_Some [simp]: "opt_all P (Some x) = P x"
  by (simp add: opt_all_def)

end
