(* ===== verification/Repair_Demo_Session.thy ===== *)
theory Repair_Demo_Session
  imports Repair_Store_Facts
begin

text \<open>
  The session of \<open>Repair_Demo\<close> written to a store, event by event, up to the publication of its
  candidate: a concrete directory for every state a session passes.
\<close>

section \<open>A session stored from its creation to its publication\<close>

abbreviation demo_event :: "event_kind \<Rightarrow> loaded_state \<Rightarrow> json" where
  "demo_event kind ld \<equiv> JObj (event_items (ld_sequence ld) demo_digest kind 1 (ld_snapshot ld) (ld_preview ld) (ld_run ld))"

lemma demo_bounds:
  "json_bound (candidate_to_dict demo_candidate) \<le> 20000" "json_bound (validation_to_dict demo_validation) \<le> 20000"
  "json_bound (approval_to_dict demo_approval) \<le> 20000" "json_bound (application_to_dict demo_application) \<le> 20000"
  "json_bound (lease_to_dict (demo_lease None)) \<le> 20000" "json_bound (lease_to_dict (demo_lease (Some demo_digest))) \<le> 20000"
  by code_simp+

lemma nat_text_10: "nat_text 10 = [49, 48]"
  by (simp add: nat_text.simps [of 10] nat_text_small)

lemma nat_text_10_length: "n \<le> 10 \<Longrightarrow> length (nat_text n) \<le> 2"
  by (cases "n = 10") (simp_all add: nat_text_10 nat_text.simps [of n])

lemma demo_names_10: "n \<le> 10 \<Longrightarrow> is_event_name (event_name n)"
proof (cases "n = 10")
  case True
  have "event_name 10 = replicate 14 48 @ [49, 48] @ lit ''.json''"
    unfolding event_name_def sequence_text_def nat_text_10 by simp
  then show ?thesis by (simp add: True is_event_name_def is_digit_def lit_length list_all_iff)
qed (simp add: demo_names)

lemma demo_lease_digits:
  "json_digits_ok (lease_to_dict (demo_lease None))" "json_digits_ok (lease_to_dict (demo_lease (Some demo_digest)))"
  by (simp_all add: lease_to_dict_def lease_items_def demo_lease_def j_option_def)

lemma demo_events_digits: "list_all (\<lambda>(kind, ld). json_digits_ok (demo_event kind ld)) demo_states"
proof -
  have small: "length (nat_text n) \<le> 4300" if "n \<le> 10" for n
    using nat_text_10_length [OF that] by simp
  note records = demo_digits demo_lease_digits demo_snapshot_json(1)
  show ?thesis
    using records small
    by (simp add: demo_states_def event_items_def j_option_def snapshot_to_dict_def snapshot_items_def demo_snapshots
      nat_text_small nat_text_10)
qed

definition demo_snapshot_like :: "repair_snapshot \<Rightarrow> bool" where
  "demo_snapshot_like s \<longleftrightarrow> sn_schema_version s = 1 \<and> length (sn_session s) = 64 \<and> length (sn_request s) = 64 \<and>
    sn_created s = 1 \<and> sn_updated s = 1 \<and> sn_target_count s = 1 \<and> sn_paths s = [lit ''a''] \<and>
    sn_candidate s \<in> {None, Some demo_candidate} \<and> sn_validation s \<in> {None, Some demo_validation} \<and>
    sn_approval s \<in> {None, Some demo_approval} \<and> sn_application s \<in> {None, Some demo_application} \<and>
    sn_decision s = None \<and> sn_failure s = None"

lemma demo_snapshot_bound: "demo_snapshot_like s \<Longrightarrow> json_bound (snapshot_to_dict s) \<le> 100000"
  unfolding snapshot_to_dict_def snapshot_items_def json_bound_cases json_items_bound.simps
      json_list_bound.simps fst_conv snd_conv lit_length demo_snapshot_like_def
  using demo_state_length [of "sn_state s"] demo_bounds
  by (auto simp: j_option_def json_bound_cases int_text_def nat_text_small lit_length)

lemma demo_states_like: "list_all (\<lambda>(_, ld). demo_snapshot_like (ld_snapshot ld)) demo_states"
  by (simp add: demo_states_def demo_snapshot_like_def demo_snapshots demo_digest_length)

lemma demo_event_bound:
  assumes "n \<le> 10" "demo_snapshot_like s" "pv \<in> {None, Some demo_digest}"
    "run \<in> {None, Some (demo_lease None), Some (demo_lease (Some demo_digest))}"
  shows "json_bound (JObj (event_items n demo_digest kind 1 s pv run)) \<le> 200000"
proof -
  have "length (event_kind_value kind) \<le> 30" by (cases kind) simp_all
  moreover have "length (int_text (int n)) \<le> 2" using nat_text_10_length [OF assms(1)] by (simp add: int_text_def)
  ultimately show ?thesis
    using assms(3,4) demo_state_length [of "sn_state s"] demo_snapshot_bound [OF assms(2)] demo_bounds
    unfolding event_items_def json_bound_cases json_items_bound.simps fst_conv snd_conv lit_length
    by (auto simp: j_option_def json_bound_cases int_text_def nat_text_small demo_digest_length)
qed

text \<open>The log of the first \<open>n + 1\<close> events of the session.\<close>

definition demo_at :: "nat \<Rightarrow> session_store \<Rightarrow> bool" where
  "demo_at n st \<longleftrightarrow> (\<exists>ld. load demo_env st = Inr (st, ld) \<and> ld_snapshot ld = ld_snapshot (snd (demo_states ! n)) \<and>
     ld_sequence ld = n \<and> ld_preview ld = ld_preview (snd (demo_states ! n)) \<and> ld_run ld = ld_run (snd (demo_states ! n)) \<and>
     ss_session st = demo_digest \<and> \<not> ss_read_only st \<and> ss_preview_file st = Some [123, 125])"

lemma load_preview_file:
  "load env st = Inr (st, ld) \<Longrightarrow> load env (st\<lparr>ss_preview_file := x\<rparr>) = Inr (st\<lparr>ss_preview_file := x\<rparr>, ld)"
proof -
  assume load: "load env st = Inr (st, ld)"
  let ?st = "st\<lparr>ss_preview_file := x\<rparr>"
  have log: "read_log env ?st = Inr ld" using load_Inr [OF load] by (simp add: read_log_def)
  have clean: "clean_events st = st" using load_Inr [OF load] by (simp add: clean_events_def)
  then have events: "ss_events (clean_events st) = ss_events st" by simp
  then have clean': "clean_events ?st = ?st" by (cases st) (simp add: clean_events_def)
  have "ss_read_only st \<or> cache_is_fresh env st ld \<or>
      (\<exists>b. snapshot_ok (rp_unicode env) (ld_snapshot ld) \<and> rm_canonical_bytes (JObj (cache_items ld)) = Inr b \<and> ss_cache st = Some b)"
  proof (rule ccontr)
    assume no: "\<not> ?thesis"
    with load load_Inr [OF load] have "write_cache env st ld = Inr st"
      by (auto simp: load_def res_iffs Let_def clean split: if_splits)
    then obtain b where b: "snapshot_ok (rp_unicode env) (ld_snapshot ld)" "rm_canonical_bytes (JObj (cache_items ld)) = Inr b"
      "st = st\<lparr>ss_cache := Some b\<rparr>" unfolding write_cache_Inr by blast
    have "ss_cache st = ss_cache (st\<lparr>ss_cache := Some b\<rparr>)" using b(3) by (rule arg_cong)
    with b no show False by simp
  qed
  then show ?thesis
  proof (elim disjE exE conjE)
    fix b assume "snapshot_ok (rp_unicode env) (ld_snapshot ld)" "rm_canonical_bytes (JObj (cache_items ld)) = Inr b"
      "ss_cache st = Some b"
    then have "write_cache env ?st ld = Inr ?st" by (cases st) (simp add: write_cache_Inr)
    then show ?thesis using log clean' by (simp add: load_def Let_def)
  qed (use log clean' in \<open>simp_all add: load_def Let_def cache_is_fresh_def read_cache_def\<close>)
qed

lemma demo_at_0: "\<exists>st. demo_at 0 st"
proof -
  obtain st ld where log: "demo_log st ld" "ld_snapshot ld = demo_snapshot CREATED" "ld_sequence ld = 0"
    using demo_start by blast
  then have "load demo_env (st\<lparr>ss_preview_file := Some [123, 125]\<rparr>) = Inr (st\<lparr>ss_preview_file := Some [123, 125]\<rparr>, ld)"
    by (intro load_preview_file) (simp add: demo_log_def)
  with log show ?thesis
    by (intro exI [of _ "st\<lparr>ss_preview_file := Some [123, 125]\<rparr>"]) (auto simp: demo_at_def demo_log_def demo_states_def)
qed

lemma below_ten: "(n::nat) < 10 \<Longrightarrow> n = 0 \<or> n = 1 \<or> n = 2 \<or> n = 3 \<or> n = 4 \<or> n = 5 \<or> n = 6 \<or> n = 7 \<or> n = 8 \<or> n = 9"
  by arith

lemma demo_follows_nth:
  "n < 10 \<Longrightarrow> event_follows (Some (snd (demo_states ! n))) (fst (demo_states ! Suc n))
     (ld_snapshot (snd (demo_states ! Suc n))) (ld_preview (snd (demo_states ! Suc n))) (ld_run (snd (demo_states ! Suc n)))"
  by (drule below_ten) (elim disjE; simp add: demo_states_def demo_follows [unfolded One_nat_def])

lemma event_follows_same:
  "ld_snapshot p = ld_snapshot q \<Longrightarrow> ld_preview p = ld_preview q \<Longrightarrow> ld_run p = ld_run q \<Longrightarrow>
     event_follows (Some p) = event_follows (Some q)"
  by (intro ext) (simp add: event_follows_def)

lemma demo_preview:
  "read_canonical_mapping demo_env [123, 125] = Inr (JObj [])" "rm_domain_digest demo_env ''preview'' (JObj []) = Inr demo_digest"
proof -
  have raw: "rm_canonical_bytes (JObj []) = Inr [123, 125]" by code_simp
  then show "rm_domain_digest demo_env ''preview'' (JObj []) = Inr demo_digest"
    by (simp add: rm_domain_digest_def demo_env_def)
  show "read_canonical_mapping demo_env [123, 125] = Inr (JObj [])"
    using read_canonical_mapping_bytes [OF raw] by (simp add: max_record_bytes_def json_norm.simps)
qed

lemma demo_step:
  assumes "demo_at n st" "n < 10" "demo_states ! n = (k0, p)" "demo_states ! Suc n = (kind, q)"
    and run: "next_validation_run kind (ld_snapshot q) run clear p = Inr (ld_run q)" "\<not> (run \<noteq> None \<and> clear)"
    and pv: "kind = K_candidate \<and> ld_preview p = None \<and> ld_preview q = Some demo_digest \<or> kind \<noteq> K_candidate \<and> ld_preview q = ld_preview p"
    and lease: "opt_all lease_ok run"
  shows "\<exists>st' ld. append_event demo_env st kind (ld_snapshot q) run clear = Inr (st', ld) \<and> demo_at (Suc n) st'"
proof -
  from assms(1,3) obtain cur where load: "load demo_env st = Inr (st, cur)"
    and same: "ld_snapshot cur = ld_snapshot p" "ld_preview cur = ld_preview p" "ld_run cur = ld_run p" "ld_sequence cur = n"
    and st: "ss_session st = demo_digest" "\<not> ss_read_only st" "ss_preview_file st = Some [123, 125]"
    by (auto simp: demo_at_def)
  have mem: "(kind, q) \<in> set demo_states" using assms(2,4) nth_mem [of "Suc n" demo_states] by (simp add: demo_states_def)
  have env: "rp_unicode demo_env = ascii_db" by (simp add: demo_env_def)
  from mem have q: "event_state demo_env demo_digest q" "demo_snapshot_like (ld_snapshot q)"
    "json_digits_ok (demo_event kind q)"
    using demo_event_states demo_states_like demo_events_digits by (auto simp: list_all_iff)
  have seq: "ld_sequence q = Suc n" using assms(4) below_ten [OF assms(2)] by (elim disjE) (auto simp: demo_states_def)
  have sha: "ld_sha256 cur = demo_digest" using load_digest [OF conjunct1 [OF load_Inr [OF load]]] by (auto simp: demo_env_def)
  have field: "ld_preview q \<in> {None, Some demo_digest}" "ld_run q \<in> {None, Some (demo_lease None), Some (demo_lease (Some demo_digest))}"
    using mem by (auto simp: demo_states_def)
  have follows: "event_follows (Some cur) kind (ld_snapshot q) (ld_preview q) (ld_run q)"
    using demo_follows_nth [OF assms(2)] event_follows_same [OF same(1-3)] assms(3,4) by simp
  have preview: "next_preview demo_env st kind cur = Inr (ld_preview q)"
    using pv same st(3) demo_preview by (auto simp: next_preview_def store_result_def)
  have nrun: "next_validation_run kind (ld_snapshot q) run clear cur = Inr (ld_run q)"
    using run(1) unfolding next_validation_run_def same .
  have u: "sn_updated (ld_snapshot q) = 1" using q(2) by (simp add: demo_snapshot_like_def)
  have size: "4 * json_bound (JObj (event_items (Suc n) demo_digest kind 1 (ld_snapshot q) (ld_preview q) (ld_run q))) \<le> int max_record_bytes"
    using demo_event_bound [OF _ q(2) field, of "Suc n" kind] assms(2) by (simp add: max_record_bytes_def)
  have "\<exists>st' ld. append_event demo_env st kind (ld_snapshot q) run clear = Inr (st', ld) \<and> ld_snapshot ld = ld_snapshot q \<and>
    ld_sequence ld = Suc (ld_sequence cur) \<and> ld_preview ld = ld_preview q \<and> ld_run ld = ld_run q \<and>
    ss_session st' = ss_session st \<and> ss_read_only st' = ss_read_only st"
    by (rule append_event_succeeds [OF load _ _ _ _ _ lease demo_digest_function nrun preview follows])
      (use q seq st run size u sha same demo_names_10 [of "Suc n"] assms(2) demo_records(7) in
        \<open>simp_all add: event_state_def\<close>)
  then obtain st' ld where step: "append_event demo_env st kind (ld_snapshot q) run clear = Inr (st', ld)" "ld_snapshot ld = ld_snapshot q"
    "ld_sequence ld = Suc n" "ld_preview ld = ld_preview q" "ld_run ld = ld_run q"
    "ss_session st' = ss_session st" "ss_read_only st' = ss_read_only st" using same by auto
  have "load demo_env st' = Inr (st', ld)"
    by (rule append_event_reload [OF step(1) _ lease demo_digest_function]) (use q in \<open>simp add: event_state_def\<close>)
  moreover have "ss_preview_file st' = ss_preview_file st"
    using append_event_parts [OF step(1)] load_Inr by auto
  ultimately have "demo_at (Suc n) st'" using step st assms(4) by (simp add: demo_at_def)
  with step show ?thesis by blast
qed

lemma demo_session: "n \<le> 10 \<Longrightarrow> \<exists>st. demo_at n st"
proof (induction n)
  case (Suc n)
  then obtain st where st: "demo_at n st" by auto
  obtain k0 p where p: "demo_states ! n = (k0, p)" by (cases "demo_states ! n")
  obtain kind q where q: "demo_states ! Suc n = (kind, q)" by (cases "demo_states ! Suc n")
  let ?run = "if kind \<in> {K_validation_intent, K_validation_run} then ld_run q else None"
  from Suc.prems have "n < 10" by simp
  moreover have "next_validation_run kind (ld_snapshot q) ?run (kind = K_validated) p = Inr (ld_run q) \<and>
     \<not> (?run \<noteq> None \<and> (kind = K_validated)) \<and>
     (kind = K_candidate \<and> ld_preview p = None \<and> ld_preview q = Some demo_digest \<or> kind \<noteq> K_candidate \<and> ld_preview q = ld_preview p) \<and>
     opt_all lease_ok ?run"
    using below_ten [OF \<open>n < 10\<close>] p q demo_records(5,6)
    by (elim disjE) (auto simp: demo_states_def next_validation_run_def demo_generated_def demo_snapshot_def lease_carry_states_def opt_all_def)
  ultimately show ?case using demo_step [OF st _ p q] by blast
qed (use demo_at_0 in simp)

end
