(* ===== verification/Repair_Protocol.thy ===== *)
theory Repair_Protocol
  imports Repair_Demo_Session
begin

text \<open>
  The abstract protocol of a session, as a person sees it, and that the events of the log refine it;
  sessions can always be closed.
\<close>

section \<open>The protocol a session follows\<close>

text \<open>What a person who watches a session needs to know of it.\<close>

datatype session_phase =
    Drafting
  | Awaiting repair_candidate repair_validation
  | Approved repair_candidate repair_validation repair_approval
  | Publishing repair_candidate repair_validation repair_approval
  | Published repair_candidate repair_approval repair_application
  | Closed

inductive protocol_step :: "session_phase \<Rightarrow> session_phase \<Rightarrow> bool" where
  validate: "va_success v \<Longrightarrow> va_candidate v = ca_id c \<Longrightarrow> protocol_step Drafting (Awaiting c v)"
| approve: "ap_candidate a = ca_id c \<Longrightarrow> ap_validation a = va_sha256 v \<Longrightarrow>
    protocol_step (Awaiting c v) (Approved c v a)"
| begin_publication: "protocol_step (Approved c v a) (Publishing c v a)"
| fail_publication: "protocol_step (Publishing c v a) (Approved c v a)"
| publish: "al_approval l = ap_sha256 a \<Longrightarrow> al_commit l = ca_commit c \<Longrightarrow> al_ref l = ref_prefix @ ca_id c \<Longrightarrow>
    protocol_step (Publishing c v a) (Published c a l)"
| close: "ph \<in> {Drafting, Awaiting c v, Approved c v a} \<Longrightarrow> protocol_step ph Closed"

inductive_cases from_closed: "protocol_step Closed ph"
inductive_cases from_published: "protocol_step (Published c a l) ph"
inductive_cases to_published: "protocol_step ph (Published c a l)"
inductive_simps protocol_step_simps:
  "protocol_step Drafting ph" "protocol_step (Publishing c v a) ph" "protocol_step ph Closed"

definition phase_of :: "repair_snapshot \<Rightarrow> session_phase" where
  "phase_of s =
     (let c = the (sn_candidate s); v = the (sn_validation s); a = the (sn_approval s) in
      case sn_state s of
        VALIDATED \<Rightarrow> Awaiting c v
      | APPROVED \<Rightarrow> Approved c v a
      | APPLYING \<Rightarrow> Publishing c v a
      | APPLIED \<Rightarrow> Published c a (the (sn_application s))
      | state \<Rightarrow> if is_terminal state then Closed else Drafting)"

lemma valid_links:
  assumes "snapshot_valid ud s"
  shows "sn_state s = VALIDATED \<Longrightarrow> va_success (the (sn_validation s)) \<and> va_candidate (the (sn_validation s)) = ca_id (the (sn_candidate s))"
    "sn_state s = APPROVED \<Longrightarrow> ap_candidate (the (sn_approval s)) = ca_id (the (sn_candidate s)) \<and>
       ap_validation (the (sn_approval s)) = va_sha256 (the (sn_validation s))"
    "sn_state s = APPLIED \<Longrightarrow> al_approval (the (sn_application s)) = ap_sha256 (the (sn_approval s)) \<and>
       al_commit (the (sn_application s)) = ca_commit (the (sn_candidate s)) \<and>
       al_ref (the (sn_application s)) = ref_prefix @ ca_id (the (sn_candidate s))"
  using assms unfolding snapshot_valid_def snapshot_ok_def snapshot_shape_def opt_all_def
  by (auto split: option.splits)

lemma update_keeps:
  assumes "snapshot_update_is_valid kind p c"
  shows "kind \<noteq> K_candidate \<Longrightarrow> sn_candidate c = sn_candidate p" "kind \<noteq> K_validation_result \<Longrightarrow> sn_validation c = sn_validation p"
    "kind \<noteq> K_approved \<Longrightarrow> sn_approval c = sn_approval p" "kind \<noteq> K_applied \<Longrightarrow> sn_application c = sn_application p"
  using update_fields [OF assms] by auto

lemma follows_refines:
  assumes "event_follows (Some p) kind s pv run" "snapshot_valid ud s"
  shows "protocol_step\<^sup>=\<^sup>= (phase_of (ld_snapshot p)) (phase_of s)"
proof -
  note parts = follows_parts [OF assms(1)]
  note new = valid_links [OF assms(2)]
  note keep = update_keeps [OF parts(4)]
  show ?thesis
    using parts(1) new keep
    by (cases kind)
      (simp_all add: event_state_pair_is_valid_def terminal_states_def phase_of_def Let_def is_terminal_def,
       (elim disjE conjE; simp add: protocol_step.simps)+)
qed

lemma run_refines: "session_run env sid ks ld \<Longrightarrow> protocol_step\<^sup>*\<^sup>* Drafting (phase_of (ld_snapshot ld))"
proof (induction rule: session_run.induct)
  case (created ld kind)
  then have "sn_state (ld_snapshot ld) = CREATED" by (simp add: event_follows_def)
  then show ?case by (simp add: phase_of_def Let_def is_terminal_def terminal_states_def)
next
  case (event ks p ld kind)
  then have "protocol_step\<^sup>=\<^sup>= (phase_of (ld_snapshot p)) (phase_of (ld_snapshot ld))"
    using follows_refines event_state_def by blast
  then show ?case using event.IH by auto
qed

lemma run_preview: "session_run env sid ks ld \<Longrightarrow> sn_candidate (ld_snapshot ld) = None \<longleftrightarrow> ld_preview ld = None"
proof (erule session_run.cases)
  fix ld' kind assume "event_follows None kind (ld_snapshot ld') (ld_preview ld') (ld_run ld')" "ld = ld'" "event_state env sid ld'"
  then show ?thesis using shape_requires(4) [of "rp_unicode env" "ld_snapshot ld'"]
    by (simp add: event_follows_def event_state_def)
next
  fix ks' p ld' kind assume f: "event_follows (Some p) kind (ld_snapshot ld') (ld_preview ld') (ld_run ld')" "ld = ld'"
  show ?thesis using follows_parts(3) [OF f(1)] f(2) by (auto simp: candidate_preview_update_is_valid_def split: if_splits)
qed

lemma closing_pairs:
  "\<not> is_terminal a \<Longrightarrow> a \<noteq> APPLYING \<Longrightarrow>
     event_state_pair_is_valid K_cancelled a CANCELLED \<and> event_state_pair_is_valid K_expired a EXPIRED"
  by (cases a) (simp_all add: event_state_pair_is_valid_def can_transition_or_same_def can_transition_def is_terminal_def terminal_states_def)

lemma shape_undecided:
  "snapshot_valid ud s \<Longrightarrow> \<not> is_terminal (sn_state s) \<Longrightarrow>
     sn_decision s = None \<and> sn_failure s = None \<and> sn_application s = None \<and> \<not> sn_cleanup_pending s"
  by (cases "sn_state s")
    (auto simp: snapshot_valid_def snapshot_ok_def snapshot_shape_def opt_all_def decision_ok_def is_terminal_def terminal_states_def
      split: option.splits)

text \<open>Whatever the session has, a decision can close it, except while the ref is being published.\<close>

lemma closing_enabled:
  assumes run: "session_run env sid ks ld" and open': "\<not> is_terminal (sn_state (ld_snapshot ld))" "sn_state (ld_snapshot ld) \<noteq> APPLYING"
    and d: "decision_ok (rp_unicode env) d" "de_candidate d = map_option ca_id (sn_candidate (ld_snapshot ld))"
      "rm_domain_digest env ''decision'' (decision_digest_mapping d) = Inr (de_sha256 d)"
    and kind: "de_state d = CANCELLED \<and> kind = K_cancelled \<or> de_state d = EXPIRED \<and> kind = K_expired"
    and time: "sn_updated (ld_snapshot ld) \<le> t" "timestamp_order (sn_created (ld_snapshot ld)) t"
    and s: "s = (ld_snapshot ld)\<lparr>sn_state := de_state d, sn_updated := t, sn_decision := Some d, sn_cleanup_pending := True\<rparr>"
  shows "event_follows (Some ld) kind s (ld_preview ld) (ld_run ld) \<and> snapshot_valid (rp_unicode env) s \<and>
    snapshot_record_digests_are_valid env s = Inr True"
proof -
  have st: "event_state env sid ld" using run by (rule session_run_state)
  then have valid: "snapshot_valid (rp_unicode env) (ld_snapshot ld)"
    and dig: "snapshot_record_digests_are_valid env (ld_snapshot ld) = Inr True" by (simp_all add: event_state_def)
  have lease: "ld_run ld = Some l \<Longrightarrow> validation_run_matches_snapshot l (ld_snapshot ld)" for l
    using session_lease [OF run] by blast
  have shape: "snapshot_shape (ld_snapshot ld)" using valid by (simp add: snapshot_valid_def snapshot_ok_def)
  have decided: "de_state d \<notin> {CREATED, VALIDATING, VALIDATED, APPROVED, APPLYING, APPLIED, REJECTED, FAILED}"
    "is_terminal (de_state d)"
    using kind by (auto simp: is_terminal_def terminal_states_def)
  have "opt_all (\<lambda>i. case sn_candidate (ld_snapshot ld) of None \<Rightarrow> False | Some c \<Rightarrow> i = ca_id c) (de_candidate d)"
    using d(2) by (simp add: opt_all_def split: option.splits)
  with shape decided have "snapshot_shape s"
    using shape_undecided [OF valid open'(1)] unfolding snapshot_shape_def s
    by simp
  then have v: "snapshot_valid (rp_unicode env) s"
    using valid d(1) time(2) by (simp add: s snapshot_valid_def snapshot_ok_def)
  have "snapshot_record_digests_are_valid env s = Inr True"
    using dig d(3) unfolding snapshot_record_digests_are_valid_def both_True
    by (simp add: s record_digest_is_valid_def)
  moreover have "event_follows (Some ld) kind s (ld_preview ld) (ld_run ld)"
    using kind time lease run_preview [OF run] shape_undecided [OF valid open'(1)] closing_pairs [OF open']
    by (auto simp: event_follows_def s
      validation_run_update_is_valid_def candidate_preview_update_is_valid_def snapshot_update_is_valid_def
      changed_fields_def same_identity_def opt_all_def validation_run_matches_snapshot_def lease_carry_states_def
      split: option.splits)
  ultimately show ?thesis using v by blast
qed

text \<open>
  C15. Refinement: whatever a session logs is a run of the abstract protocol. A person sees a draft
  become a validated candidate, an approval of exactly that candidate and validation, a publication
  under way, and then either the approved commit under the candidate's ref or the approval again; only
  a draft, a validated or an approved session is closed.
\<close>

theorem log_refines_protocol:
  assumes "load env st = Inr (st1, ld)"
  shows "protocol_step\<^sup>*\<^sup>* Drafting (phase_of (ld_snapshot ld))"
  using run_refines load_run load_Inr [OF assms] by blast

theorem log_refines_protocol_witness:
  "\<exists>c a l. protocol_step\<^sup>*\<^sup>* Drafting (Published c a l)"
proof -
  obtain st where "demo_at 10 st" using demo_session by blast
  then obtain ld where ld: "load demo_env st = Inr (st, ld)" "ld_snapshot ld = demo_applied"
    by (auto simp: demo_at_def demo_states_def)
  have "phase_of demo_applied = Published (the (sn_candidate demo_applied)) (the (sn_approval demo_applied)) (the (sn_application demo_applied))"
    by (simp add: phase_of_def demo_snapshots)
  with log_refines_protocol [OF ld(1)] ld(2) show ?thesis by metis
qed

text \<open>
  C16. No session is stuck: in every run, a session that is neither closed nor publishing accepts the
  event that cancels or expires it, with any decision record that is well-formed, names its candidate
  and has the right digest, and at any later time; the snapshot it is closed with is well-formed.
\<close>

theorem closing_always_possible:
  assumes "session_run env sid ks ld" "\<not> is_terminal (sn_state (ld_snapshot ld))" "sn_state (ld_snapshot ld) \<noteq> APPLYING"
    and "decision_ok (rp_unicode env) d" "de_candidate d = map_option ca_id (sn_candidate (ld_snapshot ld))"
      "rm_domain_digest env ''decision'' (decision_digest_mapping d) = Inr (de_sha256 d)"
    and "de_state d = CANCELLED \<and> kind = K_cancelled \<or> de_state d = EXPIRED \<and> kind = K_expired"
    and "sn_updated (ld_snapshot ld) \<le> t" "timestamp_order (sn_created (ld_snapshot ld)) t"
  shows "\<exists>s. sn_state s = de_state d \<and> sn_decision s = Some d \<and> sn_updated s = t \<and>
    event_follows (Some ld) kind s (ld_preview ld) (ld_run ld) \<and> snapshot_valid (rp_unicode env) s \<and>
    snapshot_record_digests_are_valid env s = Inr True"
  using closing_enabled [OF assms refl] by (intro exI conjI) auto

theorem closing_always_possible_witness:
  "\<exists>s. sn_state s = CANCELLED \<and>
     event_follows (Some (demo_state 0 (demo_snapshot CREATED) None None)) K_cancelled s None None"
proof -
  have run: "session_run demo_env demo_digest [K_created] (demo_state 0 (demo_snapshot CREATED) None None)"
    by (rule session_run.created) (use demo_event_states demo_follows(1) in \<open>simp_all add: demo_states_def\<close>)
  have digest: "rm_domain_digest demo_env ''decision'' (decision_digest_mapping demo_decision) = Inr (de_sha256 demo_decision)"
    using demo_smalls(2) [of True] snapshot_digests(5) [of demo_env "demo_cancelled True" demo_decision]
    by (simp add: demo_small_def demo_cancelled_def)
  have env: "rp_unicode demo_env = ascii_db" by (simp add: demo_env_def)
  have "\<not> is_terminal CREATED" "timestamp_order 1 1" by code_simp+
  moreover have "sn_state (demo_snapshot CREATED) = CREATED" "sn_candidate (demo_snapshot CREATED) = None"
    "sn_updated (demo_snapshot CREATED) = 1" "sn_created (demo_snapshot CREATED) = 1"
    "de_state demo_decision = CANCELLED" "de_candidate demo_decision = None"
    by (simp_all add: demo_snapshot_def demo_decision_def)
  ultimately have "\<exists>s. sn_state s = de_state demo_decision \<and> sn_decision s = Some demo_decision \<and> sn_updated s = 1 \<and>
    event_follows (Some (demo_state 0 (demo_snapshot CREATED) None None)) K_cancelled s None None \<and>
    snapshot_valid (rp_unicode demo_env) s \<and> snapshot_record_digests_are_valid demo_env s = Inr True"
    using closing_always_possible [OF run _ _ _ _ digest, of K_cancelled 1] demo_decision_ok by (simp add: env)
  then show ?thesis using \<open>de_state demo_decision = CANCELLED\<close> by metis
qed

end
