(* ===== verification/Repair_Workflow.thy ===== *)
theory Repair_Workflow
  imports Repair_Store
begin

text \<open>
  The operations on a repair session, \<open>src/src/repoguard/_repair_workflow.py\<close>, over the session store.
  An operation runs under the session's lock and may fail after it has written: it returns the store
  together with an error or a value. What the code reads from outside is an argument: every reading of
  the clock, the outcome of opening the stored candidate, of reading the published ref, of removing a
  container, and whether the private directory can be removed.
\<close>

section \<open>Operations\<close>

datatype wf_error = Raised store_error | LateSandboxResult | SandboxRunRejected

type_synonym 'a wf = "session_store \<Rightarrow> session_store \<times> (wf_error + 'a)"

definition wf_return :: "'a \<Rightarrow> 'a wf" where
  "wf_return x st = (st, Inr x)"

definition wf_fail :: "wf_error \<Rightarrow> 'a wf" where
  "wf_fail e st = (st, Inl e)"

definition wf_bind :: "'a wf \<Rightarrow> ('a \<Rightarrow> 'b wf) \<Rightarrow> 'b wf" where
  "wf_bind m f st = (case m st of (st', Inl e) \<Rightarrow> (st', Inl e) | (st', Inr x) \<Rightarrow> f x st')"

definition wf_result :: "store_error + 'a \<Rightarrow> 'a wf" where
  "wf_result r st = (st, case r of Inl e \<Rightarrow> Inl (Raised e) | Inr x \<Rightarrow> Inr x)"

text \<open>An operation of the store; one that fails writes nothing.\<close>

definition wf_lift :: "(session_store \<Rightarrow> store_error + session_store \<times> 'a) \<Rightarrow> 'a wf" where
  "wf_lift f st = (case f st of Inl e \<Rightarrow> (st, Inl (Raised e)) | Inr (st', x) \<Rightarrow> (st', Inr x))"

definition wf_load :: "repair_env \<Rightarrow> loaded_state wf" where
  "wf_load env = wf_lift (load env)"

definition wf_append ::
  "repair_env \<Rightarrow> event_kind \<Rightarrow> repair_snapshot \<Rightarrow> validation_lease option \<Rightarrow> bool \<Rightarrow> repair_snapshot wf" where
  "wf_append env kind s run clear =
     wf_bind (wf_lift (\<lambda>st. append_event env st kind s run clear)) (\<lambda>ld. wf_return (ld_snapshot ld))"

text \<open>A snapshot built by \<open>dataclasses.replace\<close> passes the checks of its constructor.\<close>

definition wf_replace :: "repair_env \<Rightarrow> repair_snapshot \<Rightarrow> repair_snapshot wf" where
  "wf_replace env s = (if snapshot_ok (rp_unicode env) s then wf_return s else wf_fail (Raised StoreValueError))"

definition next_timestamp :: "repair_snapshot \<Rightarrow> int \<Rightarrow> int" where
  "next_timestamp s now = max (sn_updated s) now"

section \<open>Errors\<close>

definition raise_error :: "repair_error_code \<Rightarrow> repair_stage \<Rightarrow> repair_state \<Rightarrow> 'a wf" where
  "raise_error code stage state = wf_fail (Raised (StoreError code stage (Some state)))"

definition raise_for_state :: "repair_snapshot \<Rightarrow> repair_error_code \<Rightarrow> repair_stage \<Rightarrow> 'a wf" where
  "raise_for_state s code stage =
     raise_error
       (if sn_state s = CANCELLED then repair_error_code.CANCELLED
        else if sn_state s = EXPIRED then repair_error_code.EXPIRED else code)
       stage (sn_state s)"

definition require_nonterminal :: "repair_snapshot \<Rightarrow> repair_stage \<Rightarrow> unit wf" where
  "require_nonterminal s stage =
     (if is_terminal (sn_state s) then raise_for_state s INVALID_STATE stage else wf_return ())"

section \<open>Building records\<close>

text \<open>The digest of a record is the digest of the mapping of its other fields.\<close>

definition build_approval :: "repair_env \<Rightarrow> repair_snapshot \<Rightarrow> pystr \<Rightarrow> pystr \<Rightarrow> int \<Rightarrow> repair_approval wf" where
  "build_approval env s subject confirmation at =
     (case (sn_candidate s, sn_validation s) of
        (Some c, Some v) \<Rightarrow>
          (case and_then (rm_domain_digest env ''approval'' (JObj
              [(lit ''schema_version'', JInt 1),
               (lit ''candidate_id'', JStr (ca_id c)),
               (lit ''validation_sha256'', JStr (va_sha256 v)),
               (lit ''subject'', JStr subject),
               (lit ''confirmation'', JStr confirmation),
               (lit ''approved_at_us'', JInt at)])) (\<lambda>d.
             checked (approval_ok (rp_unicode env))
               \<lparr>ap_schema_version = 1, ap_sha256 = d, ap_candidate = ca_id c, ap_validation = va_sha256 v,
                 ap_subject = subject, ap_confirmation = confirmation, ap_at = at\<rparr>) of
             Inl e \<Rightarrow> raise_for_state s INVALID_DECISION APPROVAL
           | Inr a \<Rightarrow> wf_return a)
      | _ \<Rightarrow> raise_error SESSION_CORRUPT PERSISTENCE (sn_state s))"

definition build_application :: "repair_env \<Rightarrow> repair_snapshot \<Rightarrow> pystr \<Rightarrow> pystr \<Rightarrow> int \<Rightarrow> repair_application wf" where
  "build_application env s ref commit at =
     (case sn_approval s of
        Some a \<Rightarrow>
          (case and_then (rm_domain_digest env ''application'' (JObj
              [(lit ''schema_version'', JInt 1),
               (lit ''approval_sha256'', JStr (ap_sha256 a)),
               (lit ''ref'', JStr ref),
               (lit ''commit_oid'', JStr commit),
               (lit ''applied_at_us'', JInt at)])) (\<lambda>d.
             checked application_ok
               \<lparr>al_schema_version = 1, al_sha256 = d, al_approval = ap_sha256 a, al_ref = ref,
                 al_commit = commit, al_at = at\<rparr>) of
             Inl e \<Rightarrow> raise_error INVALID_WORKFLOW APPLICATION (sn_state s)
           | Inr l \<Rightarrow> wf_return l)
      | None \<Rightarrow> raise_error SESSION_CORRUPT PERSISTENCE (sn_state s))"

definition build_decision ::
  "repair_env \<Rightarrow> repair_snapshot \<Rightarrow> repair_state \<Rightarrow> pystr \<Rightarrow> pystr \<Rightarrow> int \<Rightarrow> repair_decision wf" where
  "build_decision env s state subject reason at =
     (let candidate = map_option ca_id (sn_candidate s) in
      case and_then (rm_domain_digest env ''decision'' (JObj
          [(lit ''schema_version'', JInt 1),
           (lit ''state'', JStr (lit (repair_state_value state))),
           (lit ''subject'', JStr subject),
           (lit ''reason'', JStr reason),
           (lit ''candidate_id'', j_option JStr candidate),
           (lit ''decided_at_us'', JInt at)])) (\<lambda>d.
         checked (decision_ok (rp_unicode env))
           \<lparr>de_schema_version = 1, de_sha256 = d, de_state = state, de_subject = subject, de_reason = reason,
             de_candidate = candidate, de_at = at\<rparr>) of
         Inl e \<Rightarrow> raise_for_state s INVALID_DECISION APPROVAL
       | Inr d \<Rightarrow> wf_return d)"

definition build_failure :: "repair_error_code \<Rightarrow> repair_stage \<Rightarrow> int \<Rightarrow> repair_failure wf" where
  "build_failure code stage at =
     wf_result (store_result (checked failure_ok
       \<lparr>fl_schema_version = 1, fl_code = code, fl_stage = stage, fl_retryable = code \<in> set retryable_codes,
         fl_at = at\<rparr>))"

section \<open>Terminal states\<close>

text \<open>Remove the private files and record whether that succeeded; the event may also clear the lease.\<close>

definition record_cleanup :: "repair_env \<Rightarrow> bool \<Rightarrow> int \<Rightarrow> repair_snapshot \<Rightarrow> bool \<Rightarrow> (repair_snapshot \<times> bool) wf" where
  "record_cleanup env safe now s clear =
     wf_bind (wf_lift (cleanup_private safe)) (\<lambda>ok.
     wf_bind (wf_replace env (s\<lparr>sn_updated := next_timestamp s now, sn_cleanup_pending := \<not> ok\<rparr>)) (\<lambda>cleaned.
     wf_bind (wf_append env (if ok then K_cleanup_complete else K_cleanup_pending) cleaned None clear) (\<lambda>stored.
       wf_return (stored, ok))))"

definition persist_terminal ::
  "repair_env \<Rightarrow> bool \<Rightarrow> int \<Rightarrow> event_kind \<Rightarrow> repair_snapshot \<Rightarrow> bool \<Rightarrow> repair_snapshot wf" where
  "persist_terminal env safe now kind s clear =
     wf_bind (wf_append env kind s None clear) (\<lambda>stored.
     wf_bind (record_cleanup env safe now stored False) (\<lambda>(cleaned, _). wf_return cleaned))"

text \<open>After a terminal event has been recorded with a lease, the container is removed without the lock; the
  lease is cleared if the session is still as it was.\<close>

definition cleanup_terminal_validation_run ::
  "repair_env \<Rightarrow> bool \<Rightarrow> bool \<Rightarrow> int \<Rightarrow> repair_snapshot \<Rightarrow> validation_lease \<Rightarrow> repair_snapshot wf" where
  "cleanup_terminal_validation_run env removed safe now s lease =
     (if \<not> (ls_container lease \<noteq> None \<and> removed) then wf_return s
      else wf_bind (wf_load env) (\<lambda>loaded.
        if ld_snapshot loaded \<noteq> s \<or> ld_run loaded \<noteq> Some lease then wf_return (ld_snapshot loaded)
        else wf_bind (record_cleanup env safe now s True) (\<lambda>(cleaned, _). wf_return cleaned)))"

section \<open>Decisions of a person\<close>

definition approve :: "repair_env \<Rightarrow> int \<Rightarrow> pystr \<Rightarrow> pystr \<Rightarrow> pystr \<Rightarrow> pystr \<Rightarrow> repair_snapshot wf" where
  "approve env now subject candidate_id validation_sha256 confirmation =
     wf_bind (wf_load env) (\<lambda>loaded.
     let s = ld_snapshot loaded in
     if sn_state s \<noteq> VALIDATED then raise_for_state s INVALID_STATE APPROVAL
     else case (sn_candidate s, sn_validation s) of
       (Some c, Some v) \<Rightarrow>
         if \<not> va_success v then raise_error SESSION_CORRUPT PERSISTENCE (sn_state s)
         else if candidate_id \<noteq> ca_id c \<or> validation_sha256 \<noteq> va_sha256 v \<or> confirmation \<noteq> approval_confirmation
         then raise_for_state s APPROVAL_MISMATCH APPROVAL
         else wf_bind (build_approval env s subject confirmation (next_timestamp s now)) (\<lambda>a.
           wf_bind (wf_replace env (s\<lparr>sn_state := APPROVED, sn_updated := next_timestamp s now,
             sn_approval := Some a\<rparr>)) (\<lambda>approved.
           wf_append env K_approved approved None False))
     | _ \<Rightarrow> raise_error SESSION_CORRUPT PERSISTENCE (sn_state s))"

definition reject :: "repair_env \<Rightarrow> bool \<Rightarrow> int \<Rightarrow> int \<Rightarrow> pystr \<Rightarrow> pystr \<Rightarrow> pystr \<Rightarrow> repair_snapshot wf" where
  "reject env safe now now' subject reason candidate_id =
     wf_bind (wf_load env) (\<lambda>loaded.
     let s = ld_snapshot loaded in
     if sn_state s \<notin> {VALIDATED, APPROVED} then raise_for_state s INVALID_STATE APPROVAL
     else if map_option ca_id (sn_candidate s) \<noteq> Some candidate_id then raise_for_state s INVALID_DECISION APPROVAL
     else wf_bind (build_decision env s REJECTED subject reason (next_timestamp s now)) (\<lambda>d.
       wf_bind (wf_replace env (s\<lparr>sn_state := REJECTED, sn_updated := next_timestamp s now,
         sn_decision := Some d, sn_cleanup_pending := True\<rparr>)) (\<lambda>rejected.
       persist_terminal env safe now' K_rejected rejected False)))"

section \<open>Publication\<close>

datatype ref_outcome = REF_ABSENT | REF_EXPECTED | REF_FOREIGN

text \<open>What reading the repair ref of the candidate says: no ref, the candidate's commit, or another one.\<close>

definition application_ref_outcome :: "repair_candidate \<Rightarrow> pystr option \<Rightarrow> ref_outcome" where
  "application_ref_outcome c current =
     (case current of None \<Rightarrow> REF_ABSENT
      | Some oid \<Rightarrow> if oid = ca_commit c then REF_EXPECTED else REF_FOREIGN)"

definition persist_application_ref_outcome ::
  "repair_env \<Rightarrow> bool \<Rightarrow> int \<Rightarrow> int \<Rightarrow> repair_snapshot \<Rightarrow> ref_outcome \<Rightarrow> repair_snapshot wf" where
  "persist_application_ref_outcome env safe now now' s outcome =
     (case (sn_candidate s, sn_approval s) of
        (Some c, Some a) \<Rightarrow>
          if outcome = REF_EXPECTED
          then wf_bind (build_application env s (ref_prefix @ ca_id c) (ca_commit c) (next_timestamp s now)) (\<lambda>l.
            wf_bind (wf_replace env (s\<lparr>sn_state := APPLIED, sn_updated := next_timestamp s now,
              sn_application := Some l, sn_cleanup_pending := True\<rparr>)) (\<lambda>applied.
            persist_terminal env safe now' K_applied applied False))
          else wf_bind (wf_replace env (s\<lparr>sn_state := APPROVED, sn_updated := next_timestamp s now\<rparr>)) (\<lambda>restored.
            wf_append env (if outcome = REF_FOREIGN then K_application_conflict else K_recovered) restored None False)
      | _ \<Rightarrow> raise_error SESSION_CORRUPT PERSISTENCE (sn_state s))"

text \<open>Applying an approved candidate. Before the event is written, the stored candidate is opened and its
  paths are checked (\<open>opened\<close>); afterwards the ref is published, and read back whatever publishing
  reported (\<open>read_ref\<close>, \<open>None\<close> when reading fails), with the paths checked again (\<open>revalidated\<close>).\<close>

definition apply_candidate ::
  "repair_env \<Rightarrow> bool \<Rightarrow> int \<Rightarrow> int \<Rightarrow> int \<Rightarrow> store_error + unit \<Rightarrow> store_error + unit \<Rightarrow>
   pystr option option \<Rightarrow> pystr \<Rightarrow> repair_snapshot wf" where
  "apply_candidate env safe now now' now'' opened revalidated read_ref approval_sha256 =
     wf_bind (wf_load env) (\<lambda>loaded.
     let s = ld_snapshot loaded in
     if sn_state s \<noteq> APPROVED then raise_for_state s INVALID_STATE APPLICATION
     else case (sn_approval s, sn_candidate s) of
       (Some a, Some c) \<Rightarrow>
         if approval_sha256 \<noteq> ap_sha256 a then raise_for_state s APPROVAL_MISMATCH APPLICATION
         else wf_bind (wf_result opened) (\<lambda>_.
           wf_bind (wf_replace env (s\<lparr>sn_state := APPLYING, sn_updated := next_timestamp s now\<rparr>)) (\<lambda>target.
           wf_bind (wf_append env K_applying target None False) (\<lambda>applying.
           wf_bind (wf_result revalidated) (\<lambda>_.
           case read_ref of
             None \<Rightarrow> raise_error PUBLICATION_FAILED APPLICATION APPLYING
           | Some current \<Rightarrow>
               let outcome = application_ref_outcome c current in
               wf_bind (persist_application_ref_outcome env safe now' now'' applying outcome) (\<lambda>result.
               if sn_state result = APPLIED then wf_return result
               else raise_error (if outcome = REF_ABSENT then PUBLICATION_FAILED else REF_CONFLICT)
                 APPLICATION APPROVED)))))
     | _ \<Rightarrow> raise_error SESSION_CORRUPT PERSISTENCE (sn_state s))"

text \<open>A session left in \<open>APPLYING\<close> is settled by what the ref says, if that can be read.\<close>

definition reconcile_applying ::
  "repair_env \<Rightarrow> bool \<Rightarrow> int \<Rightarrow> int \<Rightarrow> pystr option option \<Rightarrow> repair_snapshot \<Rightarrow> (repair_snapshot \<times> ref_outcome) wf" where
  "reconcile_applying env safe now now' read_ref s =
     (case (read_ref, sn_candidate s) of
        (Some current, Some c) \<Rightarrow>
          let outcome = application_ref_outcome c current in
          wf_bind (persist_application_ref_outcome env safe now now' s outcome) (\<lambda>result.
            wf_return (result, outcome))
      | _ \<Rightarrow> raise_error PUBLICATION_FAILED APPLICATION APPLYING)"

text \<open>Cancelling and expiring: an \<open>APPLYING\<close> session is settled first; a session that turns out to be
  applied stays so, and one with a conflicting ref is left to a person. A registered lease is kept by the
  terminal event and cleared once its container is gone.\<close>

definition close_session ::
  "repair_env \<Rightarrow> bool \<Rightarrow> int \<Rightarrow> int \<Rightarrow> int \<Rightarrow> int \<Rightarrow> pystr option option \<Rightarrow> bool \<Rightarrow>
   repair_state \<Rightarrow> event_kind \<Rightarrow> pystr \<Rightarrow> pystr \<Rightarrow> repair_snapshot wf" where
  "close_session env safe now1 now2 now3 now4 read_ref removed state kind subject reason =
     wf_bind (wf_load env) (\<lambda>loaded.
     wf_bind (require_nonterminal (ld_snapshot loaded) SESSION) (\<lambda>_.
     wf_bind (if sn_state (ld_snapshot loaded) = APPLYING
       then reconcile_applying env safe now1 now2 read_ref (ld_snapshot loaded)
       else wf_return (ld_snapshot loaded, REF_ABSENT)) (\<lambda>(s, outcome).
     if sn_state (ld_snapshot loaded) = APPLYING \<and> outcome = REF_EXPECTED then wf_return s
     else if sn_state (ld_snapshot loaded) = APPLYING \<and> outcome = REF_FOREIGN
     then raise_error REF_CONFLICT APPLICATION (sn_state s)
     else wf_bind (build_decision env s state subject reason (next_timestamp s now3)) (\<lambda>d.
       wf_bind (wf_replace env (s\<lparr>sn_state := state, sn_updated := next_timestamp s now3,
         sn_decision := Some d, sn_cleanup_pending := True\<rparr>)) (\<lambda>closed.
       case ld_run loaded of
         None \<Rightarrow> persist_terminal env safe now4 kind closed False
       | Some lease \<Rightarrow>
           wf_bind (wf_append env kind closed None False) (\<lambda>stored.
             cleanup_terminal_validation_run env removed safe now4 stored lease))))))"

definition cancel ::
  "repair_env \<Rightarrow> bool \<Rightarrow> int \<Rightarrow> int \<Rightarrow> int \<Rightarrow> int \<Rightarrow> pystr option option \<Rightarrow> bool \<Rightarrow>
   pystr \<Rightarrow> pystr \<Rightarrow> repair_snapshot wf" where
  "cancel env safe now1 now2 now3 now4 read_ref removed subject reason =
     close_session env safe now1 now2 now3 now4 read_ref removed CANCELLED K_cancelled subject reason"

definition expire ::
  "repair_env \<Rightarrow> bool \<Rightarrow> int \<Rightarrow> int \<Rightarrow> int \<Rightarrow> int \<Rightarrow> pystr option option \<Rightarrow> bool \<Rightarrow> repair_snapshot wf" where
  "expire env safe now1 now2 now3 now4 read_ref removed =
     close_session env safe now1 now2 now3 now4 read_ref removed EXPIRED K_expired (lit ''RepoGuard expiration'') []"

section \<open>Generation and validation\<close>

definition begin_generation :: "repair_env \<Rightarrow> int \<Rightarrow> store_error + unit \<Rightarrow> repair_snapshot wf" where
  \<comment> \<open>\<open>capable\<close>: the stored request can be read and fits the provider and the index the caller passes.\<close>
  "begin_generation env now capable =
     wf_bind (wf_load env) (\<lambda>loaded.
     let s = ld_snapshot loaded in
     if sn_state s \<noteq> CREATED then raise_for_state s INVALID_STATE SESSION
     else wf_bind (wf_result capable) (\<lambda>_.
       wf_bind (wf_replace env (s\<lparr>sn_state := GENERATING, sn_updated := next_timestamp s now\<rparr>)) (\<lambda>generating.
       wf_append env K_generating generating None False)))"

text \<open>A failed proposal closes the session, unless it was closed in the meantime.\<close>

definition persist_proposal_failure ::
  "repair_env \<Rightarrow> bool \<Rightarrow> bool \<Rightarrow> int \<Rightarrow> int \<Rightarrow> repair_error_code \<Rightarrow> repair_stage \<Rightarrow> repair_snapshot wf" where
  "persist_proposal_failure env removed safe now now' code stage =
     wf_bind (wf_load env) (\<lambda>loaded.
     let s = ld_snapshot loaded in
     if is_terminal (sn_state s) then wf_return s
     else if sn_state s \<notin> {GENERATING, VALIDATING} then raise_for_state s INVALID_STATE stage
     else wf_bind (build_failure code stage (next_timestamp s now)) (\<lambda>f.
       wf_bind (wf_replace env (s\<lparr>sn_state := FAILED, sn_updated := next_timestamp s now,
         sn_failure := Some f, sn_cleanup_pending := True\<rparr>)) (\<lambda>failed.
       case ld_run loaded of
         None \<Rightarrow> persist_terminal env safe now' K_failed failed False
       | Some lease \<Rightarrow>
           wf_bind (wf_append env K_failed failed None False) (\<lambda>stored.
             cleanup_terminal_validation_run env removed safe now' stored lease))))"

definition write_payloads :: "(pystr \<times> bytes option) list \<Rightarrow> unit wf" where
  "write_payloads payloads =
     foldr (\<lambda>(name, value) rest. case value of None \<Rightarrow> rest
       | Some raw \<Rightarrow> wf_bind (wf_lift (\<lambda>st. and_then (write_private_bytes st name raw) (\<lambda>st'. Inr (st', ())))) (\<lambda>_. rest))
       payloads (wf_return ())"

definition persist_candidate_checkpoint ::
  "repair_env \<Rightarrow> int \<Rightarrow> repair_snapshot \<Rightarrow> repair_candidate \<Rightarrow> repair_preview \<Rightarrow> (pystr \<times> bytes option) list \<Rightarrow>
   repair_snapshot wf" where
  "persist_candidate_checkpoint env now generating candidate preview payloads =
     wf_bind (wf_load env) (\<lambda>loaded.
     let s = ld_snapshot loaded in
     if sn_state s \<noteq> GENERATING then wf_fail LateSandboxResult
     else if s \<noteq> generating \<or> sn_candidate s \<noteq> None \<or> ca_request candidate \<noteq> sn_request s
     then raise_error SESSION_CORRUPT PERSISTENCE (sn_state s)
     else wf_bind (write_payloads payloads) (\<lambda>_.
       wf_bind (wf_lift (\<lambda>st. and_then (write_preview env st (preview_to_dict preview)) (\<lambda>st'. Inr (st', ())))) (\<lambda>_.
       wf_bind (wf_replace env (s\<lparr>sn_updated := next_timestamp s now, sn_candidate := Some candidate\<rparr>)) (\<lambda>checkpoint.
       wf_append env K_candidate checkpoint None False))))"

definition begin_validation :: "repair_env \<Rightarrow> int \<Rightarrow> repair_snapshot \<Rightarrow> repair_snapshot wf" where
  "begin_validation env now checkpoint =
     wf_bind (wf_load env) (\<lambda>loaded.
     let s = ld_snapshot loaded in
     if sn_state s \<noteq> GENERATING then wf_fail LateSandboxResult
     else if s \<noteq> checkpoint \<or> sn_candidate s = None then raise_error SESSION_CORRUPT PERSISTENCE (sn_state s)
     else wf_bind (wf_replace env (s\<lparr>sn_state := VALIDATING, sn_updated := next_timestamp s now\<rparr>)) (\<lambda>validating.
       wf_append env K_validating validating None False))"

text \<open>What the sandbox knows of a container before and after it has an id, and what it reports.\<close>

record sandbox_intent =
  si_name :: pystr
  si_labels :: "(pystr \<times> pystr) list"
  si_session :: pystr
  si_candidate :: pystr
  si_token :: pystr

record sandbox_run = sandbox_intent +
  si_container :: pystr

record sandbox_report =
  so_success :: bool
  so_failure :: "validation_failure_kind option"
  so_started :: int
  so_finished :: int
  so_results :: "command_result list"
  so_peak_memory :: int
  so_oom_killed :: bool
  so_residual :: int
  so_entries :: int
  so_inodes :: int
  so_tree_clean :: bool

record sandbox_outcome =
  so_session :: pystr
  so_candidate :: pystr
  so_policy :: pystr
  so_manifest :: pystr
  so_image :: pystr
  so_report :: sandbox_report
  so_run :: sandbox_run
  so_cleanup_pending :: bool

definition wf_lease :: "validation_lease \<Rightarrow> validation_lease wf" where
  "wf_lease l = (if lease_ok l then wf_return l else wf_fail (Raised StoreValueError))"

definition validation_intent_lease :: "sandbox_intent \<Rightarrow> validation_lease wf" where
  "validation_intent_lease i =
     wf_lease \<lparr>ls_container = None, ls_name = si_name i, ls_labels = sort (si_labels i),
       ls_session = si_session i, ls_candidate = si_candidate i, ls_token = si_token i\<rparr>"

definition validation_lease_of :: "sandbox_run \<Rightarrow> validation_lease wf" where
  "validation_lease_of r =
     wf_lease \<lparr>ls_container = Some (si_container r), ls_name = si_name r, ls_labels = sort (si_labels r),
       ls_session = si_session r, ls_candidate = si_candidate r, ls_token = si_token r\<rparr>"

definition register_validation_intent ::
  "repair_env \<Rightarrow> int \<Rightarrow> pystr \<Rightarrow> repair_candidate \<Rightarrow> sandbox_intent \<Rightarrow> bool wf" where
  "register_validation_intent env now session candidate intent =
     (if si_session intent \<noteq> session \<or> si_candidate intent \<noteq> ca_id candidate then wf_return False
      else wf_bind (validation_intent_lease intent) (\<lambda>lease.
        wf_bind (wf_load env) (\<lambda>loaded.
        let s = ld_snapshot loaded in
        if sn_state s \<noteq> VALIDATING \<or> sn_candidate s \<noteq> Some candidate \<or> sn_validation s \<noteq> None \<or> ld_run loaded \<noteq> None
        then wf_return False
        else wf_bind (wf_replace env (s\<lparr>sn_updated := next_timestamp s now\<rparr>)) (\<lambda>registered.
          wf_bind (wf_append env K_validation_intent registered (Some lease) False) (\<lambda>_. wf_return True)))))"

definition register_validation_run ::
  "repair_env \<Rightarrow> int \<Rightarrow> pystr \<Rightarrow> repair_candidate \<Rightarrow> sandbox_run \<Rightarrow> bool wf" where
  "register_validation_run env now session candidate run =
     (if si_session run \<noteq> session \<or> si_candidate run \<noteq> ca_id candidate then wf_return False
      else wf_bind (validation_lease_of run) (\<lambda>lease.
        wf_bind (wf_lease (lease\<lparr>ls_container := None\<rparr>)) (\<lambda>expected.
        wf_bind (wf_load env) (\<lambda>loaded.
        let s = ld_snapshot loaded in
        if sn_candidate s \<noteq> Some candidate \<or> sn_validation s \<noteq> None \<or> ld_run loaded \<noteq> Some expected \<or>
           sn_state s \<notin> {VALIDATING, CANCELLED, EXPIRED, FAILED}
        then wf_return False
        else wf_bind (wf_replace env (s\<lparr>sn_updated := next_timestamp s now\<rparr>)) (\<lambda>registered.
          wf_bind (wf_append env K_validation_run registered (Some lease) False) (\<lambda>_.
            wf_return (sn_state s = VALIDATING)))))))"

definition release_validation_intent ::
  "repair_env \<Rightarrow> bool \<Rightarrow> int \<Rightarrow> pystr \<Rightarrow> repair_candidate \<Rightarrow> sandbox_intent \<Rightarrow> bool wf" where
  "release_validation_intent env safe now session candidate intent =
     (if si_session intent \<noteq> session \<or> si_candidate intent \<noteq> ca_id candidate then wf_return False
      else wf_bind (validation_intent_lease intent) (\<lambda>expected.
        wf_bind (wf_load env) (\<lambda>loaded.
        let s = ld_snapshot loaded in
        if ld_run loaded = None then wf_return True
        else if sn_candidate s \<noteq> Some candidate \<or> ld_run loaded \<noteq> Some expected then wf_return False
        else if sn_state s = VALIDATING
        then wf_bind (wf_replace env (s\<lparr>sn_updated := next_timestamp s now\<rparr>)) (\<lambda>abandoned.
          wf_bind (wf_append env K_validation_intent_abandoned abandoned None True) (\<lambda>_. wf_return True))
        else if \<not> is_terminal (sn_state s) then wf_return False
        else wf_bind (record_cleanup env safe now s True) (\<lambda>_. wf_return True))))"

definition release_validation_run ::
  "repair_env \<Rightarrow> bool \<Rightarrow> int \<Rightarrow> pystr \<Rightarrow> repair_candidate \<Rightarrow> sandbox_run \<Rightarrow> bool wf" where
  "release_validation_run env safe now session candidate run =
     (if si_session run \<noteq> session \<or> si_candidate run \<noteq> ca_id candidate then wf_return False
      else wf_bind (validation_lease_of run) (\<lambda>expected.
        wf_bind (wf_load env) (\<lambda>loaded.
        let s = ld_snapshot loaded in
        if ld_run loaded = None then wf_return True
        else if sn_candidate s \<noteq> Some candidate \<or> ld_run loaded \<noteq> Some expected \<or> \<not> is_terminal (sn_state s)
        then wf_return False
        else wf_bind (record_cleanup env safe now s True) (\<lambda>_. wf_return True))))"

definition build_validation :: "repair_env \<Rightarrow> sandbox_outcome \<Rightarrow> repair_validation wf" where
  "build_validation env o' =
     (let r = so_report o' in
      wf_bind (wf_result (store_result (rm_domain_digest env ''validation'' (JObj
        [(lit ''schema_version'', JInt 1),
         (lit ''candidate_id'', JStr (so_candidate o')),
         (lit ''policy_sha256'', JStr (so_policy o')),
         (lit ''sandbox_manifest_sha256'', JStr (so_manifest o')),
         (lit ''image_id'', JStr (so_image o')),
         (lit ''started_at_us'', JInt (so_started r)),
         (lit ''finished_at_us'', JInt (so_finished r)),
         (lit ''success'', JBool (so_success r)),
         (lit ''failure_kind'', j_option (\<lambda>k. JStr (lit (validation_failure_kind_value k))) (so_failure r)),
         (lit ''command_results'', JList (map command_result_to_dict (so_results r))),
         (lit ''peak_memory_bytes'', JInt (so_peak_memory r)),
         (lit ''oom_killed'', JBool (so_oom_killed r)),
         (lit ''residual_process_count'', JInt (so_residual r)),
         (lit ''workspace_entry_count'', JInt (so_entries r)),
         (lit ''workspace_inode_count'', JInt (so_inodes r)),
         (lit ''tracked_tree_clean'', JBool (so_tree_clean r))])))) (\<lambda>d.
      wf_result (store_result (checked validation_ok
        \<lparr>va_schema_version = 1, va_sha256 = d, va_candidate = so_candidate o', va_policy = so_policy o',
          va_manifest = so_manifest o', va_image = so_image o', va_started = so_started r,
          va_finished = so_finished r, va_success = so_success r, va_failure = so_failure r,
          va_results = so_results r, va_peak_memory = so_peak_memory r, va_oom_killed = so_oom_killed r,
          va_residual = so_residual r, va_entries = so_entries r, va_inodes = so_inodes r,
          va_tree_clean = so_tree_clean r\<rparr>))))"

definition checkpoint_validation_result ::
  "repair_env \<Rightarrow> int \<Rightarrow> repair_candidate \<Rightarrow> sandbox_outcome \<Rightarrow> unit wf" where
  "checkpoint_validation_result env now candidate o' =
     wf_bind (build_validation env o') (\<lambda>validation.
     wf_bind (validation_lease_of (so_run o')) (\<lambda>expected.
     wf_bind (wf_load env) (\<lambda>loaded.
     let s = ld_snapshot loaded in
     if sn_state s \<noteq> VALIDATING \<or> sn_candidate s \<noteq> Some candidate \<or> sn_validation s \<noteq> None \<or>
        ld_run loaded \<noteq> Some expected
     then wf_fail LateSandboxResult
     else wf_bind (wf_replace env (s\<lparr>sn_updated := next_timestamp s now, sn_validation := Some validation\<rparr>)) (\<lambda>checkpoint.
       wf_bind (wf_append env K_validation_result checkpoint None False) (\<lambda>_. wf_return ())))))"

definition finish_validation ::
  "repair_env \<Rightarrow> bool \<Rightarrow> int \<Rightarrow> int \<Rightarrow> repair_candidate \<Rightarrow> sandbox_outcome \<Rightarrow> repair_snapshot \<Rightarrow> repair_snapshot wf" where
  "finish_validation env safe now now' candidate o' validating =
     wf_bind (build_validation env o') (\<lambda>validation.
     wf_bind (validation_lease_of (so_run o')) (\<lambda>expected.
     wf_bind (wf_load env) (\<lambda>loaded.
     let s = ld_snapshot loaded in
     if sn_state s \<noteq> VALIDATING then wf_return s
     else if sn_candidate validating \<noteq> Some candidate \<or> sn_candidate s \<noteq> Some candidate \<or>
        sn_validation s \<noteq> Some validation \<or> ld_run loaded \<noteq> Some expected
     then raise_error SESSION_CORRUPT PERSISTENCE (sn_state s)
     else if so_cleanup_pending o'
     then wf_bind (build_failure CLEANUP_FAILED CLEANUP (next_timestamp s now)) (\<lambda>f.
       wf_bind (wf_replace env (s\<lparr>sn_state := FAILED, sn_updated := next_timestamp s now,
         sn_failure := Some f, sn_cleanup_pending := True\<rparr>)) (\<lambda>failed.
       wf_bind (wf_append env K_failed failed None False) (\<lambda>result.
         raise_error CLEANUP_FAILED CLEANUP (sn_state result))))
     else if va_success validation
     then wf_bind (wf_replace env (s\<lparr>sn_state := VALIDATED, sn_updated := next_timestamp s now\<rparr>)) (\<lambda>validated.
       wf_append env K_validated validated None True)
     else wf_bind (build_failure VALIDATION_FAILED VALIDATION (next_timestamp s now)) (\<lambda>f.
       wf_bind (wf_replace env (s\<lparr>sn_state := FAILED, sn_updated := next_timestamp s now,
         sn_failure := Some f, sn_cleanup_pending := True\<rparr>)) (\<lambda>failed.
       persist_terminal env safe now' K_failed failed True)))))"

definition converge_rejected_sandbox_run :: "repair_env \<Rightarrow> repair_snapshot wf" where
  "converge_rejected_sandbox_run env =
     wf_bind (wf_load env) (\<lambda>loaded.
     let s = ld_snapshot loaded in
     if sn_state s \<in> {CANCELLED, EXPIRED, FAILED} then wf_return s
     else raise_error SESSION_CORRUPT PERSISTENCE (sn_state s))"

section \<open>Maintenance\<close>

definition retry_terminal_cleanup ::
  "repair_env \<Rightarrow> bool \<Rightarrow> bool \<Rightarrow> int \<Rightarrow> repair_snapshot \<Rightarrow> validation_lease option \<Rightarrow> (repair_snapshot \<times> bool) wf" where
  "retry_terminal_cleanup env removed safe now s lease =
     (if (case lease of None \<Rightarrow> False | Some l \<Rightarrow> \<not> (ls_container l \<noteq> None \<and> removed))
      then (if sn_cleanup_pending s then wf_return (s, False)
        else wf_bind (wf_replace env (s\<lparr>sn_updated := next_timestamp s now, sn_cleanup_pending := True\<rparr>)) (\<lambda>pending.
          wf_bind (wf_append env K_cleanup_pending pending None False) (\<lambda>stored. wf_return (stored, False))))
      else wf_bind (wf_lift (cleanup_private safe)) (\<lambda>ok.
        if ok \<and> \<not> sn_cleanup_pending s \<and> lease = None then wf_return (s, False)
        else wf_bind (wf_replace env (s\<lparr>sn_updated := next_timestamp s now, sn_cleanup_pending := \<not> ok\<rparr>)) (\<lambda>updated.
          wf_bind (wf_append env (if ok then K_cleanup_complete else K_cleanup_pending) updated None (lease \<noteq> None)) (\<lambda>stored.
            wf_return (stored, ok)))))"

text \<open>When a terminal session ended; a terminal snapshot always has the record that says so.\<close>

definition terminal_timestamp :: "repair_snapshot \<Rightarrow> store_error + int" where
  "terminal_timestamp s =
     (case (sn_state s, sn_application s, sn_decision s, sn_failure s) of
        (APPLIED, Some l, _, _) \<Rightarrow> Inr (al_at l)
      | (REJECTED, _, Some d, _) \<Rightarrow> Inr (de_at d)
      | (CANCELLED, _, Some d, _) \<Rightarrow> Inr (de_at d)
      | (EXPIRED, _, Some d, _) \<Rightarrow> Inr (de_at d)
      | (FAILED, _, _, Some f) \<Rightarrow> Inr (fl_at f)
      | _ \<Rightarrow> Inl StoreValueError)"

record maintenance_result =
  mr_recovered :: bool
  mr_cleaned :: bool
  mr_removed :: bool
  mr_cleanup_pending :: bool
  mr_failed :: bool

definition no_maintenance :: maintenance_result where
  "no_maintenance = \<lparr>mr_recovered = False, mr_cleaned = False, mr_removed = False,
     mr_cleanup_pending = False, mr_failed = False\<rparr>"

text \<open>Errors of an operation of the maintenance become a failed result.\<close>

definition or_failed :: "maintenance_result wf \<Rightarrow> maintenance_result wf" where
  "or_failed m st = (case m st of (st', Inl e) \<Rightarrow> (st', Inr (no_maintenance\<lparr>mr_failed := True\<rparr>)) | r \<Rightarrow> r)"

text \<open>One session of \<open>cleanup\<close>, up to the removal of its directory: the second component says that the
  retention time of the terminal session is over, so that the directory is to be removed.\<close>

definition cleanup_session ::
  "repair_env \<Rightarrow> bool \<Rightarrow> bool \<Rightarrow> int \<Rightarrow> int \<Rightarrow> int \<Rightarrow> (maintenance_result \<times> bool) wf" where
  "cleanup_session env removed safe now retention_days now_us st =
     (case wf_bind (wf_load env) (\<lambda>loaded.
         let s = ld_snapshot loaded in
         if \<not> is_terminal (sn_state s) then wf_return (no_maintenance, False)
         else wf_bind (retry_terminal_cleanup env removed safe now s (ld_run loaded)) (\<lambda>(s', cleaned).
           if sn_cleanup_pending s' then wf_return (no_maintenance\<lparr>mr_cleanup_pending := True\<rparr>, False)
           else wf_bind (wf_result (terminal_timestamp s')) (\<lambda>at.
             wf_return (no_maintenance\<lparr>mr_cleaned := cleaned\<rparr>,
               at + retention_days * 24 * 60 * 60 * 1000000 \<le> now_us)))) st of
        (st', Inl e) \<Rightarrow> (st', Inr (no_maintenance\<lparr>mr_failed := True\<rparr>, False))
      | r \<Rightarrow> r)"

text \<open>What may be published: only what an applied session names by the digest of its application.\<close>

definition require_publication_application :: "repair_snapshot \<Rightarrow> pystr \<Rightarrow> unit wf" where
  \<comment> \<open>\<open>hmac.compare_digest\<close> raises a \<open>TypeError\<close> for text that is not ASCII.\<close>
  "require_publication_application s expected =
     (if sn_state s \<noteq> APPLIED then raise_for_state s INVALID_STATE APPLICATION
      else case (sn_application s, sn_candidate s, sn_approval s) of
        (Some l, Some c, Some a) \<Rightarrow>
          if \<exists>x \<in> set expected \<union> set (al_sha256 l). 128 \<le> x then wf_fail (Raised StoreTypeError)
          else if expected \<noteq> al_sha256 l then raise_for_state s IDENTITY_MISMATCH APPLICATION else wf_return ()
      | _ \<Rightarrow> raise_for_state s SESSION_CORRUPT APPLICATION)"

end
