(* ===== verification/Repair_Recovery.thy ===== *)
theory Repair_Recovery
  imports Repair_Workflow
begin

text \<open>
  The recovery of a session: \<open>_recover_session\<close> and \<open>_recover_candidate_validation\<close> of
  \<open>_repair_workflow.py\<close>, with the order in which \<open>_run_sandbox_validation\<close> and
  \<open>_execute_validation_invocation\<close> of \<open>_repair_sandbox.py\<close> call back into the workflow. What docker, git
  and the file system answer is an argument (\<open>sandbox_world\<close>). The lock is not held during a validation:
  between two operations others may cancel, expire or fail the session (\<open>sb_gaps\<close>).
\<close>

section \<open>Operations in between\<close>

datatype interruption =
    Cancels bool int int bool pystr pystr
  | Expires bool int int bool
  | Fails bool bool int int

fun interrupt :: "repair_env \<Rightarrow> interruption \<Rightarrow> session_store \<Rightarrow> session_store" where
  "interrupt env (Cancels safe now now' removed subject reason) st =
     fst (cancel env safe now now now now' None removed subject reason st)"
| "interrupt env (Expires safe now now' removed) st = fst (expire env safe now now now now' None removed st)"
| "interrupt env (Fails removed safe now now') st =
     fst (persist_proposal_failure env removed safe now now' RECOVERY_FAILED RECOVERY st)"

definition interrupts :: "repair_env \<Rightarrow> interruption list \<Rightarrow> unit wf" where
  "interrupts env is st = (fold (interrupt env) is st, Inr ())"

text \<open>\<open>try\<close> with a handler for every error.\<close>

definition wf_catch :: "'a wf \<Rightarrow> (wf_error \<Rightarrow> 'a wf) \<Rightarrow> 'a wf" where
  "wf_catch m h st = (case m st of (st', Inl e) \<Rightarrow> h e st' | (st', Inr x) \<Rightarrow> (st', Inr x))"

section \<open>One validation in a container\<close>

datatype container_creation =
    Created pystr
  | CreateFailed "pystr option"
  | CreateRaised store_error

record sandbox_world =
  sb_opened :: "store_error + unit"     \<comment> \<open>reading the request and the candidate, preparing the sandbox\<close>
  sb_prepared :: "store_error + unit"   \<comment> \<open>the checks on what is mounted and the invocation\<close>
  sb_name :: pystr
  sb_labels :: "(pystr \<times> pystr) list"
  sb_token :: pystr
  sb_created :: container_creation
  sb_report :: "store_error + sandbox_report"   \<comment> \<open>inspecting and starting the container\<close>
  sb_policy :: pystr
  sb_manifest :: pystr
  sb_image :: pystr
  sb_removed :: bool                    \<comment> \<open>whether the container is gone afterwards\<close>
  sb_left :: "store_error + unit"       \<comment> \<open>the last check on the paths of the session\<close>
  sb_safe :: bool
  sb_now :: "nat \<Rightarrow> int"
  sb_gaps :: "nat \<Rightarrow> interruption list"

definition sandbox_intent_of :: "sandbox_world \<Rightarrow> pystr \<Rightarrow> repair_candidate \<Rightarrow> sandbox_intent" where
  "sandbox_intent_of w session candidate =
     \<lparr>si_name = sb_name w, si_labels = sb_labels w, si_session = session, si_candidate = ca_id candidate,
       si_token = sb_token w\<rparr>"

definition sandbox_run_of :: "sandbox_world \<Rightarrow> pystr \<Rightarrow> repair_candidate \<Rightarrow> pystr \<Rightarrow> sandbox_run" where
  "sandbox_run_of w session candidate container =
     \<lparr>si_name = sb_name w, si_labels = sb_labels w, si_session = session, si_candidate = ca_id candidate,
       si_token = sb_token w, si_container = container\<rparr>"

text \<open>A container that was not registered is given up: its run, or else the intent, is released once it
  is gone.\<close>

definition release_unregistered ::
  "repair_env \<Rightarrow> sandbox_world \<Rightarrow> pystr \<Rightarrow> repair_candidate \<Rightarrow> sandbox_run option \<Rightarrow> unit wf" where
  "release_unregistered env w session candidate identity =
     (if \<not> sb_removed w then wf_return ()
      else wf_bind (interrupts env (sb_gaps w 4)) (\<lambda>_.
        wf_bind (case identity of None \<Rightarrow> wf_return False
          | Some run \<Rightarrow> release_validation_run env (sb_safe w) (sb_now w 4) session candidate run) (\<lambda>released.
        if released then wf_return ()
        else wf_bind (interrupts env (sb_gaps w 5)) (\<lambda>_.
          wf_bind (release_validation_intent env (sb_safe w) (sb_now w 5) session candidate
            (sandbox_intent_of w session candidate)) (\<lambda>_. wf_return ())))))"

definition execute_validation ::
  "repair_env \<Rightarrow> sandbox_world \<Rightarrow> pystr \<Rightarrow> repair_candidate \<Rightarrow> sandbox_outcome wf" where
  "execute_validation env w session candidate =
     (case sb_created w of
        CreateRaised e \<Rightarrow>
          wf_bind (release_unregistered env w session candidate None) (\<lambda>_. wf_fail (Raised e))
      | CreateFailed None \<Rightarrow>
          wf_bind (release_unregistered env w session candidate None) (\<lambda>_.
            wf_fail (Raised (StoreError SANDBOX_UNAVAILABLE SANDBOX None)))
      | CreateFailed (Some container) \<Rightarrow>
          let run = sandbox_run_of w session candidate container in
          wf_bind (interrupts env (sb_gaps w 3)) (\<lambda>_.
          wf_bind (register_validation_run env (sb_now w 3) session candidate run) (\<lambda>accepted.
          wf_bind (if accepted then wf_return () else release_unregistered env w session candidate (Some run)) (\<lambda>_.
            wf_fail (Raised (StoreError SANDBOX_UNAVAILABLE SANDBOX None)))))
      | Created container \<Rightarrow>
          let run = sandbox_run_of w session candidate container in
          wf_bind (interrupts env (sb_gaps w 3)) (\<lambda>_.
          wf_bind (wf_catch
            (wf_bind (register_validation_run env (sb_now w 3) session candidate run) (\<lambda>accepted.
              if accepted then wf_return () else wf_fail SandboxRunRejected))
            (\<lambda>e. wf_bind (release_unregistered env w session candidate (Some run)) (\<lambda>_. wf_fail e))) (\<lambda>_.
          wf_bind (wf_result (sb_report w)) (\<lambda>report.
          let outcome = \<lparr>so_session = session, so_candidate = ca_id candidate, so_policy = sb_policy w,
            so_manifest = sb_manifest w, so_image = sb_image w, so_report = report, so_run = run,
            so_cleanup_pending = True\<rparr> in
          wf_bind (interrupts env (sb_gaps w 6)) (\<lambda>_.
          wf_bind (checkpoint_validation_result env (sb_now w 6) candidate outcome) (\<lambda>_.
            wf_return (outcome\<lparr>so_cleanup_pending := \<not> sb_removed w\<rparr>)))))))"

definition run_sandbox_validation ::
  "repair_env \<Rightarrow> sandbox_world \<Rightarrow> pystr \<Rightarrow> repair_candidate \<Rightarrow> sandbox_outcome wf" where
  "run_sandbox_validation env w session candidate =
     wf_bind (wf_result (sb_prepared w)) (\<lambda>_.
     wf_bind (interrupts env (sb_gaps w 2)) (\<lambda>_.
     wf_bind (register_validation_intent env (sb_now w 2) session candidate (sandbox_intent_of w session candidate)) (\<lambda>accepted.
     if accepted then execute_validation env w session candidate else wf_fail SandboxRunRejected)))"

section \<open>Recovery\<close>

text \<open>The code and the stage a failed validation is recorded with.\<close>

definition recovery_failure :: "store_error \<Rightarrow> repair_error_code \<times> repair_stage" where
  "recovery_failure e = (case e of StoreError code stage _ \<Rightarrow> (code, stage) | _ \<Rightarrow> (RECOVERY_FAILED, RECOVERY))"

definition validate_again :: "repair_env \<Rightarrow> sandbox_world \<Rightarrow> pystr \<Rightarrow> repair_snapshot wf" where
  "validate_again env w session =
     wf_bind (interrupts env (sb_gaps w 0)) (\<lambda>_.
     wf_bind (wf_load env) (\<lambda>loaded.
     let s = ld_snapshot loaded in
     if sn_state s \<noteq> GENERATING then wf_return s
     else case sn_candidate s of
       None \<Rightarrow> wf_return s
     | Some candidate \<Rightarrow>
         wf_bind (wf_result (sb_opened w)) (\<lambda>_.
         wf_bind (interrupts env (sb_gaps w 1)) (\<lambda>_.
         wf_bind (begin_validation env (sb_now w 1) s) (\<lambda>validating.
         wf_bind (run_sandbox_validation env w session candidate) (\<lambda>outcome.
         wf_bind (wf_result (sb_left w)) (\<lambda>_.
         wf_bind (interrupts env (sb_gaps w 7)) (\<lambda>_.
           finish_validation env (sb_safe w) (sb_now w 7) (sb_now w 8) candidate outcome validating))))))))"

text \<open>\<open>None\<close> when even the failure could not be recorded.\<close>

definition recover_candidate_validation ::
  "repair_env \<Rightarrow> bool \<Rightarrow> bool \<Rightarrow> int \<Rightarrow> int \<Rightarrow> sandbox_world \<Rightarrow> pystr \<Rightarrow> repair_snapshot option wf" where
  "recover_candidate_validation env removed safe now now' w session =
     wf_catch (wf_bind (validate_again env w session) (\<lambda>s. wf_return (Some s))) (\<lambda>e. case e of
         LateSandboxResult \<Rightarrow> wf_bind (wf_load env) (\<lambda>loaded. wf_return (Some (ld_snapshot loaded)))
       | SandboxRunRejected \<Rightarrow> wf_bind (converge_rejected_sandbox_run env) (\<lambda>s. wf_return (Some s))
       | Raised r \<Rightarrow>
           wf_bind (interrupts env (sb_gaps w 8)) (\<lambda>_.
           wf_catch (wf_bind (persist_proposal_failure env removed safe now now'
               (fst (recovery_failure r)) (snd (recovery_failure r))) (\<lambda>s. wf_return (Some s)))
             (\<lambda>_. wf_return None)))"

text \<open>One session of \<open>recover\<close>. A candidate whose validation had not begun is validated again; a session
  found validating, or generating without a candidate, has failed; one found applying is settled by its ref.\<close>

definition recovered_result :: "repair_snapshot \<Rightarrow> maintenance_result" where
  "recovered_result s = no_maintenance\<lparr>mr_recovered := True,
     mr_cleaned := is_terminal (sn_state s) \<and> \<not> sn_cleanup_pending s,
     mr_cleanup_pending := sn_cleanup_pending s\<rparr>"

definition recover_session ::
  "repair_env \<Rightarrow> bool \<Rightarrow> bool \<Rightarrow> int \<Rightarrow> int \<Rightarrow> pystr option option \<Rightarrow> sandbox_world \<Rightarrow> maintenance_result wf" where
  "recover_session env removed safe now now' read_ref w st =
     (case wf_load env st of
        (st', Inl e) \<Rightarrow> (st', Inr (no_maintenance\<lparr>mr_failed := True\<rparr>))
      | (st', Inr loaded) \<Rightarrow>
          let s = ld_snapshot loaded in
          (if sn_state s = GENERATING \<and> sn_candidate s \<noteq> None
           then wf_bind (recover_candidate_validation env removed safe now now' w (ss_session st)) (\<lambda>final. case final of
               None \<Rightarrow> wf_return (no_maintenance\<lparr>mr_failed := True\<rparr>)
             | Some t \<Rightarrow> wf_return (recovered_result t))
           else if sn_state s \<in> {GENERATING, VALIDATING}
           then or_failed (wf_bind (persist_proposal_failure env removed safe now now' RECOVERY_FAILED RECOVERY) (\<lambda>t.
             wf_return ((recovered_result t)\<lparr>mr_cleaned :=
               (sn_state s = VALIDATING \<or> is_terminal (sn_state t)) \<and> \<not> sn_cleanup_pending t\<rparr>)))
           else if sn_state s = APPLYING
           then or_failed (wf_bind (wf_load env) (\<lambda>again.
             if sn_state (ld_snapshot again) \<noteq> APPLYING
             then wf_return (no_maintenance\<lparr>mr_cleanup_pending := sn_cleanup_pending (ld_snapshot again)\<rparr>)
             else wf_bind (reconcile_applying env safe now now' read_ref (ld_snapshot again)) (\<lambda>(t, _).
               wf_return ((recovered_result t)\<lparr>mr_cleaned := sn_state t = APPLIED \<and> \<not> sn_cleanup_pending t\<rparr>))))
           else wf_return (no_maintenance\<lparr>mr_cleanup_pending := sn_cleanup_pending s\<rparr>)) st')"

end
