(* ===== verification/Repair_Workflow_Facts.thy ===== *)
theory Repair_Workflow_Facts
  imports Repair_Workflow Repair_Store_Facts
begin

text \<open>
  The operations on a session keep its log: a small program logic over the store (\<open>sound\<close>, with one
  rule per construct), one lemma per operation, and the properties of sequences of operations.
\<close>

section \<open>A logic of sound operations\<close>

text \<open>A sound operation turns a log that loads into one that loads and continues it, whatever it
  returns; a value it returns satisfies \<open>Q\<close>.\<close>

definition sound :: "repair_env \<Rightarrow> pystr \<Rightarrow> ('a \<Rightarrow> bool) \<Rightarrow> 'a wf \<Rightarrow> bool" where
  "sound env sid Q m \<longleftrightarrow>
     (\<forall>st p. read_log env st = Inr p \<and> ss_session st = sid \<longrightarrow>
        (\<exists>q. read_log env (fst (m st)) = Inr q \<and> state_follows\<^sup>*\<^sup>* p q) \<and> ss_session (fst (m st)) = sid \<and>
        (\<forall>x. snd (m st) = Inr x \<longrightarrow> Q x))"

named_theorems sound_rules

lemma sound_mono: "sound env sid P m \<Longrightarrow> (\<And>x. P x \<Longrightarrow> Q x) \<Longrightarrow> sound env sid Q m"
  by (fastforce simp: sound_def)

lemma sound_same_store:
  "(\<And>st. read_log env (fst (m st)) = read_log env st \<and> ss_session (fst (m st)) = ss_session st) \<Longrightarrow>
   (\<And>st x. snd (m st) = Inr x \<Longrightarrow> Q x) \<Longrightarrow> sound env sid Q m"
  by (auto simp: sound_def)

lemma sound_return [sound_rules]: "Q x \<Longrightarrow> sound env sid Q (wf_return x)"
  by (rule sound_same_store) (auto simp: wf_return_def)

lemma sound_fail [sound_rules]: "sound env sid Q (wf_fail e)"
  by (rule sound_same_store) (auto simp: wf_fail_def)

lemma sound_raise [sound_rules]: "sound env sid Q (raise_error code stage state)" "sound env sid Q (raise_for_state s code stage)"
  by (simp_all add: raise_error_def raise_for_state_def sound_fail)

lemma sound_result: "(\<And>x. r = Inr x \<Longrightarrow> Q x) \<Longrightarrow> sound env sid Q (wf_result r)"
  by (rule sound_same_store) (auto simp: wf_result_def split: sum.splits)

lemma sound_bind:
  assumes "sound env sid P m" "\<And>x. P x \<Longrightarrow> sound env sid Q (f x)"
  shows "sound env sid Q (wf_bind m f)"
  unfolding sound_def
proof (intro allI impI)
  fix st p assume st: "read_log env st = Inr p \<and> ss_session st = sid"
  obtain st1 r where m: "m st = (st1, r)" by (cases "m st")
  from assms(1) st obtain q where q: "read_log env st1 = Inr q" "state_follows\<^sup>*\<^sup>* p q" "ss_session st1 = sid"
    and r: "\<forall>x. r = Inr x \<longrightarrow> P x"
    unfolding sound_def by (metis fst_conv m snd_conv)
  show "(\<exists>q. read_log env (fst (wf_bind m f st)) = Inr q \<and> state_follows\<^sup>*\<^sup>* p q) \<and>
    ss_session (fst (wf_bind m f st)) = sid \<and> (\<forall>x. snd (wf_bind m f st) = Inr x \<longrightarrow> Q x)"
  proof (cases r)
    case (Inl e)
    then show ?thesis using q m by (auto simp: wf_bind_def)
  next
    case (Inr x)
    then have f: "wf_bind m f st = f x st1" using m by (simp add: wf_bind_def)
    from assms(2) [of x] r Inr q obtain q' where "read_log env (fst (f x st1)) = Inr q'" "state_follows\<^sup>*\<^sup>* q q'"
      "ss_session (fst (f x st1)) = sid" "\<forall>y. snd (f x st1) = Inr y \<longrightarrow> Q y"
      unfolding sound_def by blast
    then show ?thesis using q(2) unfolding f by (meson rtranclp_trans)
  qed
qed

lemma load_read_log: "load env st = Inr (st1, ld) \<Longrightarrow> read_log env st1 = Inr ld"
  using load_Inr [OF load_again] by blast

lemma sound_load: "sound env sid (event_state env sid) (wf_load env)"
  unfolding sound_def
proof (intro allI impI)
  fix st p assume st: "read_log env st = Inr p \<and> ss_session st = sid"
  show "(\<exists>q. read_log env (fst (wf_load env st)) = Inr q \<and> state_follows\<^sup>*\<^sup>* p q) \<and>
    ss_session (fst (wf_load env st)) = sid \<and> (\<forall>x. snd (wf_load env st) = Inr x \<longrightarrow> event_state env sid x)"
  proof (cases "load env st")
    case (Inl e)
    then show ?thesis using st by (auto simp: wf_load_def wf_lift_def)
  next
    case (Inr y)
    then obtain st1 ld where load: "load env st = Inr (st1, ld)" by (cases y) auto
    from load_Inr [OF load] load_read_log [OF load] st have "ld = p" "read_log env st1 = Inr p" "ss_session st1 = sid"
      by simp_all
    moreover have "event_state env sid p" using load_run session_run_state st by metis
    ultimately show ?thesis using load by (auto simp: wf_load_def wf_lift_def)
  qed
qed

lemma sound_append:
  assumes "snapshot_valid (rp_unicode env) s" "opt_all lease_ok run" "digest_function (rp_sha256 env)"
  shows "sound env sid (\<lambda>s'. s' = s \<and> sn_session s = sid \<and> snapshot_record_digests_are_valid env s = Inr True)
    (wf_append env kind s run clear)"
  unfolding sound_def
proof (intro allI impI)
  fix st p assume st: "read_log env st = Inr p \<and> ss_session st = sid"
  let ?m = "wf_append env kind s run clear" and ?r = "append_event env st kind s run clear"
  show "(\<exists>q. read_log env (fst (?m st)) = Inr q \<and> state_follows\<^sup>*\<^sup>* p q) \<and> ss_session (fst (?m st)) = sid \<and>
    (\<forall>x. snd (?m st) = Inr x \<longrightarrow>
      x = s \<and> sn_session s = sid \<and> snapshot_record_digests_are_valid env s = Inr True)"
  proof (cases ?r)
    case (Inl e)
    then show ?thesis using st by (auto simp: wf_append_def wf_lift_def wf_bind_def)
  next
    case (Inr y)
    then obtain st' ld where r: "?r = Inr (st', ld)" by (cases y) auto
    from append_event_Inr [OF r] st have "event_follows (Some p) kind s (ld_preview ld) (ld_run ld)"
      "ld_snapshot ld = s" "ld_sequence ld = Suc (ld_sequence p)" "ss_session st' = sid" "sn_session s = sid"
      "snapshot_record_digests_are_valid env s = Inr True"
      by (metis Inr_inject loaded_state.select_convs(1,2))+
    moreover from this have "state_follows p ld" unfolding state_follows_def by metis
    ultimately show ?thesis
      using r append_event_load [OF r assms] st by (auto simp: wf_append_def wf_lift_def wf_bind_def wf_return_def)
  qed
qed

text \<open>Operations on other files than the events.\<close>

lemma sound_lift:
  assumes "\<And>st st' x. f st = Inr (st', x) \<Longrightarrow> ss_events st' = ss_events st \<and> ss_session st' = ss_session st"
  shows "sound env sid (\<lambda>_. True) (wf_lift f)"
  by (rule sound_same_store) (auto simp: wf_lift_def read_log_def dest: assms split: sum.splits)

lemma write_payload_Inr: "write_payload st files name raw = Inr st' \<Longrightarrow> ss_events st' = ss_events st \<and> ss_session st' = ss_session st"
  by (auto simp: write_payload_def split: if_splits)

lemma sound_files [sound_rules]:
  "sound env sid (\<lambda>_. True) (wf_lift (cleanup_private safe))"
  "sound env sid (\<lambda>_. True) (wf_lift (\<lambda>st. and_then (write_private_bytes st name raw) (\<lambda>st'. Inr (st', ()))))"
  "sound env sid (\<lambda>_. True) (wf_lift (\<lambda>st. and_then (write_preview env' st v) (\<lambda>st'. Inr (st', ()))))"
  by (rule sound_lift; auto simp: cleanup_private_def write_private_bytes_def write_preview_def res_iffs
      dest!: write_payload_Inr split: if_splits option.splits)+

lemma sound_replace:
  "sound env sid (\<lambda>t. t = s \<and> snapshot_ok (rp_unicode env) s) (wf_replace env s)"
  by (simp add: wf_replace_def sound_fail sound_return)

section \<open>The operations are sound\<close>

abbreviation valid :: "repair_env \<Rightarrow> repair_snapshot \<Rightarrow> bool" where
  "valid env \<equiv> snapshot_valid (rp_unicode env)"

lemma event_state_valid: "event_state env sid ld \<Longrightarrow> valid env (ld_snapshot ld)"
  and event_state_lease: "event_state env sid ld \<Longrightarrow> opt_all lease_ok (ld_run ld)"
  by (simp_all add: event_state_def)

lemma sound_append_valid:
  assumes "digest_function (rp_sha256 env)" "valid env s" "opt_all lease_ok run"
  shows "sound env sid (\<lambda>t. t = s) (wf_append env kind s run clear)"
  using sound_mono [OF sound_append [OF assms(2,3,1)]] by simp

text \<open>A changed copy of a valid snapshot is valid when it is accepted and its new records are.\<close>

lemma valid_change:
  assumes "snapshot_ok (rp_unicode env) t" "valid env s"
    and "sn_candidate t = sn_candidate s \<or> opt_all (candidate_ok (rp_unicode env)) (sn_candidate t)"
    and "sn_validation t = sn_validation s \<or> opt_all validation_ok (sn_validation t)"
    and "sn_approval t = sn_approval s \<or> opt_all (approval_ok (rp_unicode env)) (sn_approval t)"
    and "sn_application t = sn_application s \<or> opt_all application_ok (sn_application t)"
    and "sn_decision t = sn_decision s \<or> opt_all (decision_ok (rp_unicode env)) (sn_decision t)"
    and "sn_failure t = sn_failure s \<or> opt_all failure_ok (sn_failure t)"
  shows "valid env t"
  using assms by (auto simp: snapshot_valid_def)

lemma sound_build:
  "sound env sid (approval_ok (rp_unicode env)) (build_approval env s subject confirmation at)"
  "sound env sid (\<lambda>l. application_ok l) (build_application env s ref commit at)"
  "sound env sid (decision_ok (rp_unicode env)) (build_decision env s state subject reason at)"
  "sound env sid failure_ok (build_failure code stage at)"
  "sound env sid validation_ok (build_validation env o')"
  "sound env sid lease_ok (validation_intent_lease i)" "sound env sid lease_ok (validation_lease_of r)"
  "sound env sid lease_ok (wf_lease l)"
  unfolding build_approval_def build_application_def build_decision_def build_failure_def build_validation_def
    validation_intent_lease_def validation_lease_of_def wf_lease_def Let_def checked_def
  by (auto simp: res_iffs split: option.split sum.split
      intro!: sound_raise sound_return sound_fail sound_result sound_bind [where P = "\<lambda>_. True"])

lemma sound_update:
  assumes "digest_function (rp_sha256 env)" "opt_all lease_ok run" "snapshot_ok (rp_unicode env) t \<Longrightarrow> valid env t"
    and "valid env t \<Longrightarrow> sound env sid Q (f t)"
  shows "sound env sid Q (wf_bind (wf_replace env t) (\<lambda>u. wf_bind (wf_append env kind u run clear) f))"
proof (rule sound_bind [OF sound_replace])
  fix u assume u: "u = t \<and> snapshot_ok (rp_unicode env) t"
  show "sound env sid Q (wf_bind (wf_append env kind u run clear) f)"
    by (rule sound_bind [OF sound_append_valid [OF assms(1)]]) (use u assms in auto)
qed

lemma wf_bind_return [simp]: "wf_bind m wf_return = m"
  by (rule ext) (simp add: wf_bind_def wf_return_def split: prod.split sum.split)

lemma sound_update':
  assumes "digest_function (rp_sha256 env)" "opt_all lease_ok run" "snapshot_ok (rp_unicode env) t \<Longrightarrow> valid env t"
  shows "sound env sid (valid env) (wf_bind (wf_replace env t) (\<lambda>u. wf_append env kind u run clear))"
  using sound_update [OF assms, where f = wf_return] by (simp add: sound_return)

lemma sound_record_cleanup:
  assumes "digest_function (rp_sha256 env)" "valid env s"
  shows "sound env sid (\<lambda>x. valid env (fst x)) (record_cleanup env safe now s clear)"
  unfolding record_cleanup_def
  by (intro sound_bind [OF sound_files(1)] sound_update [OF assms(1)] sound_return)
    (auto intro: valid_change [OF _ assms(2)])

lemma sound_persist_terminal:
  assumes "digest_function (rp_sha256 env)" "valid env s"
  shows "sound env sid (valid env) (persist_terminal env safe now kind s clear)"
  unfolding persist_terminal_def
  by (intro sound_bind [OF sound_append_valid [OF assms(1,2) opt_all_None]]
      sound_bind [OF sound_record_cleanup [OF assms(1)]])
    (auto simp: assms(2) intro: sound_return)

lemma sound_cleanup_run:
  assumes "digest_function (rp_sha256 env)" "valid env s"
  shows "sound env sid (valid env) (cleanup_terminal_validation_run env removed safe now s lease)"
  unfolding cleanup_terminal_validation_run_def
  by (auto intro!: sound_return sound_bind [OF sound_load] sound_bind [OF sound_record_cleanup [OF assms(1)]]
      simp: assms(2) dest: event_state_valid)

lemma sound_close:
  assumes "digest_function (rp_sha256 env)" "opt_all lease_ok run" "valid env s"
  shows "sound env sid (valid env) (case run of
      None \<Rightarrow> persist_terminal env safe now kind s False
    | Some lease \<Rightarrow> wf_bind (wf_append env kind s None False) (\<lambda>stored.
        cleanup_terminal_validation_run env removed safe now stored lease))"
  by (auto split: option.split intro!: sound_persist_terminal sound_bind [OF sound_append_valid]
      sound_cleanup_run assms)

lemma sound_append_keeps:
  "digest_function (rp_sha256 env) \<Longrightarrow> valid env s \<Longrightarrow> opt_all lease_ok run \<Longrightarrow>
     sound env sid (valid env) (wf_append env kind s run clear)"
  using sound_mono [OF sound_append_valid] by metis

lemma sound_loaded:
  assumes "\<And>ld. valid env (ld_snapshot ld) \<Longrightarrow> opt_all lease_ok (ld_run ld) \<Longrightarrow> sound env sid Q (f ld)"
  shows "sound env sid Q (wf_bind (wf_load env) f)"
  by (rule sound_bind [OF sound_load]) (blast intro: assms event_state_valid event_state_lease)

lemma sound_approve:
  "digest_function (rp_sha256 env) \<Longrightarrow> sound env sid (valid env) (approve env now subject c v confirmation)"
  unfolding approve_def Let_def
  by (rule sound_loaded)
    (auto split: option.split intro!: sound_raise sound_bind [OF sound_build(1)] sound_update' simp: snapshot_valid_def)

lemma sound_reject:
  "digest_function (rp_sha256 env) \<Longrightarrow> sound env sid (valid env) (reject env safe now now' subject reason c)"
  unfolding reject_def Let_def
  by (rule sound_loaded)
    (auto split: option.split intro!: sound_raise sound_bind [OF sound_build(3)] sound_bind [OF sound_replace]
      sound_persist_terminal simp: snapshot_valid_def)

lemma sound_ref_outcome:
  assumes "digest_function (rp_sha256 env)" "valid env s"
  shows "sound env sid (valid env) (persist_application_ref_outcome env safe now now' s outcome)"
proof (cases "outcome = REF_EXPECTED")
  case True
  then show ?thesis unfolding persist_application_ref_outcome_def using assms
    by (auto split: option.split intro!: sound_raise sound_bind [OF sound_build(2)] sound_bind [OF sound_replace]
      sound_persist_terminal simp: snapshot_valid_def)
next
  case False
  then show ?thesis unfolding persist_application_ref_outcome_def using assms
    by (auto split: option.split intro!: sound_raise sound_update' simp: snapshot_valid_def)
qed

lemma sound_apply:
  "digest_function (rp_sha256 env) \<Longrightarrow>
     sound env sid (valid env) (apply_candidate env safe now now' now'' opened revalidated read_ref a)"
  unfolding apply_candidate_def Let_def
  by (rule sound_loaded)
    (auto split: option.split intro!: sound_raise sound_return sound_bind [OF sound_result [where Q = "\<lambda>_. True"]]
      sound_update sound_bind [OF sound_ref_outcome] simp: snapshot_valid_def)

lemma sound_reconcile:
  "digest_function (rp_sha256 env) \<Longrightarrow> valid env s \<Longrightarrow>
     sound env sid (\<lambda>x. valid env (fst x)) (reconcile_applying env safe now now' read_ref s)"
  unfolding reconcile_applying_def Let_def
  by (auto split: option.split intro!: sound_raise sound_return sound_bind [OF sound_ref_outcome])

lemma sound_close_decided:
  assumes "digest_function (rp_sha256 env)" "valid env s" "opt_all lease_ok run"
  shows "sound env sid (valid env) (wf_bind (build_decision env s state subject reason at) (\<lambda>d.
    wf_bind (wf_replace env (s\<lparr>sn_state := state, sn_updated := at, sn_decision := Some d, sn_cleanup_pending := True\<rparr>)) (\<lambda>closed.
    case run of None \<Rightarrow> persist_terminal env safe now kind closed False
    | Some lease \<Rightarrow> wf_bind (wf_append env kind closed None False) (\<lambda>stored.
        cleanup_terminal_validation_run env removed safe now stored lease))))"
  by (intro sound_bind [OF sound_build(3)] sound_bind [OF sound_replace] sound_close assms)
    (auto intro: valid_change [OF _ assms(2)])

lemma sound_close_session:
  "digest_function (rp_sha256 env) \<Longrightarrow> sound env sid (valid env)
     (close_session env safe now1 now2 now3 now4 read_ref removed state kind subject reason)"
  unfolding close_session_def require_nonterminal_def Let_def
  by (rule sound_loaded, rule sound_bind [where P = "\<lambda>_. True"], fastforce intro: sound_raise sound_return,
      rule sound_bind [where P = "\<lambda>x. valid env (fst x)"], fastforce intro: sound_reconcile sound_return)
    (auto intro!: sound_raise sound_return sound_close_decided)

lemma sound_begin_generation:
  "digest_function (rp_sha256 env) \<Longrightarrow> sound env sid (valid env) (begin_generation env now capable)"
  unfolding begin_generation_def Let_def
  by (rule sound_loaded)
    (auto intro!: sound_raise sound_bind [OF sound_result [where Q = "\<lambda>_. True"]] sound_update' simp: snapshot_valid_def)

lemma sound_proposal_failure:
  "digest_function (rp_sha256 env) \<Longrightarrow> sound env sid (valid env) (persist_proposal_failure env removed safe now now' code stage)"
  unfolding persist_proposal_failure_def Let_def
  by (rule sound_loaded)
    (auto intro!: sound_raise sound_return sound_bind [OF sound_build(4)] sound_bind [OF sound_replace] sound_close simp: snapshot_valid_def)

lemma sound_write_payloads: "sound env sid (\<lambda>_. True) (write_payloads payloads)"
  unfolding write_payloads_def
  by (induction payloads) (auto split: option.split intro: sound_return sound_bind [OF sound_files(2)])

lemma sound_candidate_checkpoint:
  "digest_function (rp_sha256 env) \<Longrightarrow> candidate_ok (rp_unicode env) candidate \<Longrightarrow>
     sound env sid (valid env) (persist_candidate_checkpoint env now generating candidate preview payloads)"
  unfolding persist_candidate_checkpoint_def Let_def
  by (rule sound_loaded)
    (auto intro!: sound_raise sound_fail sound_bind [OF sound_write_payloads] sound_bind [OF sound_files(3)] sound_update' simp: snapshot_valid_def)

lemma sound_begin_validation:
  "digest_function (rp_sha256 env) \<Longrightarrow> sound env sid (valid env) (begin_validation env now checkpoint)"
  unfolding begin_validation_def Let_def
  by (rule sound_loaded) (auto intro!: sound_raise sound_fail sound_update' simp: snapshot_valid_def)

lemma sound_register:
  "digest_function (rp_sha256 env) \<Longrightarrow> sound env sid (\<lambda>_. True) (register_validation_intent env now session candidate intent)"
  "digest_function (rp_sha256 env) \<Longrightarrow> sound env sid (\<lambda>_. True) (register_validation_run env now session candidate run)"
  unfolding register_validation_intent_def register_validation_run_def Let_def
  by (auto intro!: sound_return sound_bind [OF sound_build(6)] sound_bind [OF sound_build(7)] sound_bind [OF sound_build(8)]
      sound_loaded sound_update simp: snapshot_valid_def)

lemma sound_release:
  "digest_function (rp_sha256 env) \<Longrightarrow> sound env sid (\<lambda>_. True) (release_validation_intent env safe now session candidate intent)"
  "digest_function (rp_sha256 env) \<Longrightarrow> sound env sid (\<lambda>_. True) (release_validation_run env safe now session candidate run)"
  unfolding release_validation_intent_def release_validation_run_def Let_def
  by (auto intro!: sound_return sound_bind [OF sound_build(6)] sound_bind [OF sound_build(7)] sound_bind [OF sound_record_cleanup]
      sound_loaded sound_update simp: snapshot_valid_def)

lemma sound_checkpoint:
  "digest_function (rp_sha256 env) \<Longrightarrow> sound env sid (\<lambda>_. True) (checkpoint_validation_result env now candidate o')"
  unfolding checkpoint_validation_result_def Let_def
  by (auto intro!: sound_return sound_fail sound_bind [OF sound_build(5)] sound_bind [OF sound_build(7)]
      sound_loaded sound_update simp: snapshot_valid_def)

lemma sound_finish:
  "digest_function (rp_sha256 env) \<Longrightarrow> sound env sid (valid env) (finish_validation env safe now now' candidate o' validating)"
  unfolding finish_validation_def Let_def
  by (auto intro!: sound_return sound_raise sound_bind [OF sound_build(4)] sound_bind [OF sound_build(5)]
      sound_bind [OF sound_build(7)] sound_loaded sound_bind [OF sound_replace] sound_append_keeps
      sound_bind [OF sound_append_valid] sound_persist_terminal simp: snapshot_valid_def)

lemma sound_retry_cleanup:
  "digest_function (rp_sha256 env) \<Longrightarrow> valid env s \<Longrightarrow>
     sound env sid (\<lambda>x. valid env (fst x)) (retry_terminal_cleanup env removed safe now s lease)"
  unfolding retry_terminal_cleanup_def
  by (auto split: option.split intro!: sound_return sound_update sound_bind [OF sound_files(1)] simp: snapshot_valid_def)

lemma sound_or_failed: "sound env sid P m \<Longrightarrow> sound env sid (\<lambda>_. True) (or_failed m)"
  unfolding sound_def or_failed_def
  by (simp split: prod.splits sum.splits) (metis fst_conv)

end
