(* ===== verification/Repair_Workflow_Results.thy ===== *)
theory Repair_Workflow_Results
  imports Repair_Workflow_Facts
begin

text \<open>
  What the operations that return, or fail in a known way, leave in the log.
\<close>

section \<open>Results of operations\<close>

named_theorems wf_results

lemma wf_bind_Inr [wf_results]:
  "wf_bind m f st = (st', Inr y) \<longleftrightarrow> (\<exists>st1 x. m st = (st1, Inr x) \<and> f x st1 = (st', Inr y))"
  by (auto simp: wf_bind_def split: prod.splits sum.splits)

lemma wf_return_eq [wf_results]: "wf_return x st = (st', r) \<longleftrightarrow> st' = st \<and> r = Inr x"
  by (auto simp: wf_return_def)

lemma wf_fail_eq [wf_results]: "wf_fail e st = (st', r) \<longleftrightarrow> st' = st \<and> r = Inl e"
  by (auto simp: wf_fail_def)

lemma wf_raise_Inr [wf_results]: "raise_error code stage state st \<noteq> (st', Inr x)" "raise_for_state s code stage st \<noteq> (st', Inr x)"
  by (simp_all add: raise_error_def raise_for_state_def wf_results)

lemma wf_result_Inr [wf_results]: "wf_result r st = (st', Inr x) \<longleftrightarrow> st' = st \<and> r = Inr x"
  by (auto simp: wf_result_def split: sum.splits)

lemma wf_lift_Inr [wf_results]: "wf_lift f st = (st', Inr x) \<longleftrightarrow> f st = Inr (st', x)"
  by (auto simp: wf_lift_def split: sum.splits)

lemma wf_load_Inr [wf_results]: "wf_load env st = (st', Inr ld) \<longleftrightarrow> load env st = Inr (st', ld)"
  by (simp add: wf_load_def wf_lift_Inr)

lemma wf_append_Inr [wf_results]:
  "wf_append env kind s run clear st = (st', Inr t) \<longleftrightarrow> (\<exists>ld. append_event env st kind s run clear = Inr (st', ld) \<and> t = s)"
proof -
  have "append_event env st kind s run clear = Inr (st', ld) \<Longrightarrow> ld_snapshot ld = s" for ld
    using append_event_parts by (metis loaded_state.select_convs(1))
  then show ?thesis by (auto simp: wf_append_def wf_results)
qed

lemma wf_replace_Inr [wf_results]:
  "wf_replace env s st = (st', Inr t) \<longleftrightarrow> st' = st \<and> t = s \<and> snapshot_ok (rp_unicode env) s"
  by (auto simp: wf_replace_def wf_results)

lemma append_reads:
  "append_event env st kind s run clear = Inr (st', ld) \<Longrightarrow> digest_function (rp_sha256 env) \<Longrightarrow> valid env s \<Longrightarrow>
   opt_all lease_ok run \<Longrightarrow> read_log env st' = Inr ld \<and> ld_snapshot ld = s"
  using append_event_load append_event_parts by (metis loaded_state.select_convs(1))

text \<open>The store after an operation that returned a snapshot, and what its log says.\<close>

definition holds :: "repair_env \<Rightarrow> session_store \<Rightarrow> repair_snapshot \<Rightarrow> bool" where
  "holds env st s \<longleftrightarrow> (\<exists>ld. read_log env st = Inr ld \<and> ld_snapshot ld = s)"

lemma holds_files: "ss_events st' = ss_events st \<Longrightarrow> ss_session st' = ss_session st \<Longrightarrow> holds env st' s = holds env st s"
  by (simp add: holds_def read_log_def)

lemma cleanup_private_Inr:
  "cleanup_private safe st = Inr (st', ok) \<Longrightarrow>
     ss_events st' = ss_events st \<and> ss_session st' = ss_session st \<and> (ok \<longrightarrow> ss_private st' = None)"
  by (auto simp: cleanup_private_def res_iffs split: if_splits)

lemma append_private: "append_event env st kind s run clear = Inr (st', ld) \<Longrightarrow> ss_private st' = ss_private st"
proof -
  assume "append_event env st kind s run clear = Inr (st', ld)"
  from append_event_parts [OF this] obtain st1 cur raw b where "load env st = Inr (st1, cur)"
    "st' = st1\<lparr>ss_events := ss_events st1 @ [(event_name (Suc (ld_sequence cur)), raw)], ss_cache := Some b\<rparr>" by blast
  with load_Inr show ?thesis by simp
qed

lemma record_cleanup_Inr:
  assumes "record_cleanup env safe now s clear st = (st', Inr (t, ok))" "digest_function (rp_sha256 env)" "valid env s"
  shows "t = s\<lparr>sn_updated := next_timestamp s now, sn_cleanup_pending := \<not> ok\<rparr> \<and> holds env st' t \<and>
    (ok \<longrightarrow> ss_private st' = None)"
proof -
  from assms(1) obtain st1 ld where
    parts: "cleanup_private safe st = Inr (st1, ok)" "t = s\<lparr>sn_updated := next_timestamp s now, sn_cleanup_pending := \<not> ok\<rparr>"
      "snapshot_ok (rp_unicode env) t"
    and append: "append_event env st1 (if ok then K_cleanup_complete else K_cleanup_pending) t None clear = Inr (st', ld)"
    unfolding record_cleanup_def by (auto simp: wf_results)
  have "valid env t" using valid_change [OF parts(3) assms(3)] parts(2) by simp
  from append_reads [OF append assms(2) this] append_private [OF append] cleanup_private_Inr [OF parts(1)] parts(2)
  show ?thesis by (auto simp: holds_def)
qed

lemma persist_terminal_Inr:
  assumes "persist_terminal env safe now kind s clear st = (st', Inr t)" "digest_function (rp_sha256 env)" "valid env s"
  shows "\<exists>ok. t = s\<lparr>sn_updated := next_timestamp s now, sn_cleanup_pending := \<not> ok\<rparr> \<and> holds env st' t \<and>
    (ok \<longrightarrow> ss_private st' = None)"
  using assms(1) record_cleanup_Inr [OF _ assms(2,3)]
  by (auto simp: persist_terminal_def wf_results) blast

section \<open>Approval\<close>

lemma build_approval_Inr:
  assumes "build_approval env s subject confirmation at st = (st', Inr a)"
  shows "st' = st \<and> approval_ok (rp_unicode env) a \<and> ap_subject a = subject \<and> ap_confirmation a = confirmation \<and> ap_at a = at \<and>
    map_option ca_id (sn_candidate s) = Some (ap_candidate a) \<and>
    map_option va_sha256 (sn_validation s) = Some (ap_validation a) \<and>
    rm_domain_digest env ''approval'' (approval_digest_mapping a) = Inr (ap_sha256 a)"
  using assms
  by (auto simp: build_approval_def wf_results res_iffs checked_def approval_digest_mapping_def drop_keys_def
      approval_items_def split: option.splits sum.splits if_splits)

text \<open>A session whose state requires a validated candidate has one.\<close>

lemma validated_records:
  assumes "valid env s" "sn_state s \<in> {VALIDATED, APPROVED, APPLYING, APPLIED, REJECTED}"
  obtains c v where "sn_candidate s = Some c" "sn_validation s = Some v" "va_success v"
  using shape_requires(1,2) [OF assms(1)] assms(2) by (auto simp: published_states_def split: option.splits)

lemma loaded_state_valid:
  "load env st = Inr (st1, ld) \<Longrightarrow> event_state env (ss_session st) ld \<and> valid env (ld_snapshot ld) \<and> opt_all lease_ok (ld_run ld)"
  using load_Inr load_run session_run_state event_state_valid event_state_lease by metis

lemma approve_names:
  assumes "approve env now subject c v confirmation st = (st', Inr t)" "digest_function (rp_sha256 env)"
  shows "\<exists>p cand val a. read_log env st = Inr p \<and> sn_state (ld_snapshot p) = VALIDATED \<and>
    sn_candidate (ld_snapshot p) = Some cand \<and> sn_validation (ld_snapshot p) = Some val \<and> va_success val \<and>
    c = ca_id cand \<and> v = va_sha256 val \<and> confirmation = approval_confirmation \<and>
    t = (ld_snapshot p)\<lparr>sn_state := APPROVED, sn_updated := next_timestamp (ld_snapshot p) now, sn_approval := Some a\<rparr> \<and>
    ap_candidate a = c \<and> ap_validation a = v \<and> ap_subject a = subject \<and> ap_confirmation a = confirmation \<and>
    rm_domain_digest env ''approval'' (approval_digest_mapping a) = Inr (ap_sha256 a) \<and> holds env st' t"
proof -
  from assms(1) obtain st1 st2 p cand val a ld where load: "load env st = Inr (st1, p)"
    and s: "sn_state (ld_snapshot p) = VALIDATED" "sn_candidate (ld_snapshot p) = Some cand"
      "sn_validation (ld_snapshot p) = Some val" "va_success val"
    and eq: "c = ca_id cand" "v = va_sha256 val" "confirmation = approval_confirmation"
    and a: "build_approval env (ld_snapshot p) subject confirmation (next_timestamp (ld_snapshot p) now) st1 = (st2, Inr a)"
    and t: "t = (ld_snapshot p)\<lparr>sn_state := APPROVED, sn_updated := next_timestamp (ld_snapshot p) now, sn_approval := Some a\<rparr>"
      "snapshot_ok (rp_unicode env) t"
    and append: "append_event env st2 K_approved t None False = Inr (st', ld)"
    unfolding approve_def Let_def wf_results
    by (auto simp: wf_results split: if_splits option.splits)
  note a' = build_approval_Inr [OF a]
  have "valid env t"
    using valid_change [OF t(2), of "ld_snapshot p"] loaded_state_valid [OF load] t(1) a' by simp
  from append_reads [OF append assms(2) this] have "holds env st' t" by (simp add: holds_def)
  moreover have "read_log env st = Inr p" using load_Inr [OF load] by simp
  ultimately show ?thesis using s eq a'
    by (intro exI [of _ p] exI [of _ cand] exI [of _ val] exI [of _ a] conjI) (simp_all add: t(1))
qed


section \<open>Publication\<close>

lemma build_application_Inr:
  assumes "build_application env s ref commit at st = (st', Inr l)"
  shows "st' = st \<and> application_ok l \<and> al_ref l = ref \<and> al_commit l = commit \<and> al_at l = at \<and>
    map_option ap_sha256 (sn_approval s) = Some (al_approval l)"
  using assms
  by (auto simp: build_application_def wf_results res_iffs checked_def split: option.splits sum.splits if_splits)

lemma ref_outcome_Inr:
  assumes "persist_application_ref_outcome env safe now now' s outcome st = (st', Inr t)"
    and "digest_function (rp_sha256 env)" "valid env s"
  shows "holds env st' t \<and> sn_candidate t = sn_candidate s \<and> sn_approval t = sn_approval s \<and>
    sn_state t = (if outcome = REF_EXPECTED then APPLIED else APPROVED)"
proof (cases "outcome = REF_EXPECTED")
  case True
  with assms(1) obtain c l st1 u where c: "sn_candidate s = Some c"
    and l: "build_application env s (ref_prefix @ ca_id c) (ca_commit c) (next_timestamp s now) st = (st1, Inr l)"
    and u: "u = s\<lparr>sn_state := APPLIED, sn_updated := next_timestamp s now, sn_application := Some l, sn_cleanup_pending := True\<rparr>"
      "snapshot_ok (rp_unicode env) u"
    and t: "persist_terminal env safe now' K_applied u False st1 = (st', Inr t)"
    by (auto simp: persist_application_ref_outcome_def wf_results split: option.splits)
  have "valid env u" using valid_change [OF u(2) assms(3)] build_application_Inr [OF l] u(1) by simp
  from persist_terminal_Inr [OF t assms(2) this] u(1) True show ?thesis by auto
next
  case False
  with assms(1) obtain kind u ld where
    u: "u = s\<lparr>sn_state := APPROVED, sn_updated := next_timestamp s now\<rparr>" "snapshot_ok (rp_unicode env) u"
    and t: "append_event env st kind u None False = Inr (st', ld)" "t = u"
    by (auto simp: persist_application_ref_outcome_def wf_results split: option.splits)
  have "valid env u" using valid_change [OF u(2) assms(3)] u(1) by simp
  from append_reads [OF t(1) assms(2) this] u(1) t(2) False show ?thesis by (auto simp: holds_def)
qed

text \<open>The codes of the errors an operation can raise.\<close>

definition codes :: "repair_error_code set \<Rightarrow> 'a wf \<Rightarrow> bool" where
  "codes C m \<longleftrightarrow> (\<forall>st st' code stage s. m st = (st', Inl (Raised (StoreError code stage s))) \<longrightarrow> code \<in> C)"

lemma wf_bind_Inl [wf_results]:
  "wf_bind m f st = (st', Inl e) \<longleftrightarrow> m st = (st', Inl e) \<or> (\<exists>st1 x. m st = (st1, Inr x) \<and> f x st1 = (st', Inl e))"
  by (auto simp: wf_bind_def split: prod.splits sum.splits)

lemma wf_result_Inl [wf_results]: "wf_result r st = (st', Inl e) \<longleftrightarrow> st' = st \<and> (\<exists>x. r = Inl x \<and> e = Raised x)"
  by (auto simp: wf_result_def split: sum.splits)

lemma wf_lift_Inl [wf_results]: "wf_lift f st = (st', Inl e) \<longleftrightarrow> st' = st \<and> (\<exists>x. f st = Inl x \<and> e = Raised x)"
  by (auto simp: wf_lift_def split: sum.splits)

lemma codes_bind: "codes C m \<Longrightarrow> (\<And>x. codes C (f x)) \<Longrightarrow> codes C (wf_bind m f)"
  unfolding codes_def wf_bind_Inl by blast

lemma codes_leaf:
  "codes C (wf_return x)" "codes C (wf_replace env s)" "codes C (wf_result (store_result r))"
  "code \<in> C \<Longrightarrow> codes C (raise_error code stage st)" "codes C (wf_lift (cleanup_private safe))"
  by (auto simp: codes_def wf_results wf_replace_def raise_error_def store_result_def cleanup_private_def res_iffs
      require_def split: sum.splits if_splits)

lemma read_log_error: "read_log env st = Inl (StoreError code stage s) \<Longrightarrow> code = SESSION_CORRUPT"
  by (auto simp: read_log_def split: sum.splits)

lemma and_then_failed: "and_then m f = Inl e \<longleftrightarrow> m = Inl e \<or> (\<exists>x. m = Inr x \<and> f x = Inl e)"
  by (cases m) auto

lemma store_result_error: "store_result r \<noteq> Inl (StoreError code stage s)"
  by (simp add: store_result_def split: sum.split)

lemma load_error: "load env st = Inl (StoreError code stage s) \<Longrightarrow> code = SESSION_CORRUPT"
  by (auto simp: load_def Let_def and_then_failed write_cache_def store_result_error dest: read_log_error split: if_splits)

lemma append_error: "append_event env st kind s run clear = Inl (StoreError code stage x) \<Longrightarrow> code \<in> {SESSION_CORRUPT, INVALID_STATE}"
  by (auto simp: append_event_def Let_def and_then_failed require_def store_result_error write_cache_def
      next_validation_run_def next_preview_def write_event_immutable_def dest: load_error
      split: if_splits option.splits prod.splits)

lemma codes_append: "{SESSION_CORRUPT, INVALID_STATE} \<subseteq> C \<Longrightarrow> codes C (wf_append env kind s run clear)"
  unfolding wf_append_def
  by (rule codes_bind) (auto simp: codes_def wf_results dest: append_error)

lemma codes_ref_outcome:
  "codes {SESSION_CORRUPT, INVALID_STATE, INVALID_WORKFLOW} (persist_application_ref_outcome env safe now now' s outcome)"
  unfolding persist_application_ref_outcome_def build_application_def persist_terminal_def record_cleanup_def
  by (auto split: option.split sum.split intro!: codes_bind codes_append codes_leaf)

lemma codesD: "codes C m \<Longrightarrow> m st = (st', Inl (Raised (StoreError code stage s))) \<Longrightarrow> code \<in> C"
  unfolding codes_def by blast

lemma codes_mono: "codes C m \<Longrightarrow> C \<subseteq> D \<Longrightarrow> codes D m"
  unfolding codes_def by blast

lemma codes_load: "SESSION_CORRUPT \<in> C \<Longrightarrow> codes C (wf_load env)"
  by (auto simp: codes_def wf_load_def wf_results dest: load_error)

text \<open>A result that is no error of these codes.\<close>

definition told :: "repair_error_code set \<Rightarrow> wf_error + 'a \<Rightarrow> bool" where
  "told C r \<longleftrightarrow> (\<exists>t. r = Inr t) \<or> (\<exists>code stage x. code \<notin> C \<and> r = Inl (Raised (StoreError code stage x)))"

lemma wf_bind_told:
  "wf_bind m f st = (st', r) \<Longrightarrow> codes C m \<Longrightarrow> told C r \<Longrightarrow> \<exists>st1 x. m st = (st1, Inr x) \<and> f x st1 = (st', r)"
  using codesD [of C m] by (cases r) (auto simp: wf_results told_def)

lemma told_raise:
  "raise_error code stage s st = (st', r) \<Longrightarrow> code \<in> C \<Longrightarrow> \<not> told C r"
  "raise_for_state s' code stage st = (st', r) \<Longrightarrow> code \<in> C \<Longrightarrow> {repair_error_code.CANCELLED, repair_error_code.EXPIRED} \<subseteq> C \<Longrightarrow> \<not> told C r"
  by (auto simp: raise_for_state_def raise_error_def wf_fail_def told_def split: if_splits)

definition internal_codes :: "repair_error_code set" where
  "internal_codes = {SESSION_CORRUPT, INVALID_STATE, INVALID_WORKFLOW, APPROVAL_MISMATCH,
     repair_error_code.CANCELLED, repair_error_code.EXPIRED}"

lemma apply_step:
  assumes "apply_candidate env safe now now' now'' (Inr ()) (Inr ()) read_ref a st = (st', r)"
    and "digest_function (rp_sha256 env)" "told internal_codes r"
  shows "\<exists>p c ap st2 u. read_log env st = Inr p \<and> sn_state (ld_snapshot p) = APPROVED \<and>
    sn_candidate (ld_snapshot p) = Some c \<and> sn_approval (ld_snapshot p) = Some ap \<and> a = ap_sha256 ap \<and>
    u = (ld_snapshot p)\<lparr>sn_state := APPLYING, sn_updated := next_timestamp (ld_snapshot p) now\<rparr> \<and>
    valid env u \<and> holds env st2 u \<and>
    (case read_ref of None \<Rightarrow> raise_error PUBLICATION_FAILED APPLICATION APPLYING
     | Some current \<Rightarrow>
         let outcome = application_ref_outcome c current in
         wf_bind (persist_application_ref_outcome env safe now' now'' u outcome) (\<lambda>result.
         if sn_state result = APPLIED then wf_return result
         else raise_error (if outcome = REF_ABSENT then PUBLICATION_FAILED else REF_CONFLICT) APPLICATION APPROVED)) st2 = (st', r)"
proof -
  have C: "SESSION_CORRUPT \<in> internal_codes" "INVALID_STATE \<in> internal_codes" "APPROVAL_MISMATCH \<in> internal_codes"
    "{repair_error_code.CANCELLED, repair_error_code.EXPIRED} \<subseteq> internal_codes" by (simp_all add: internal_codes_def)
  note bind = wf_bind_told [OF _ _ assms(3)]
  from bind [OF assms(1) [unfolded apply_candidate_def] codes_load [OF C(1)]] obtain st1 p where
    load: "load env st = Inr (st1, p)"
    and body: "(let s = ld_snapshot p in
     if sn_state s \<noteq> APPROVED then raise_for_state s INVALID_STATE APPLICATION
     else case (sn_approval s, sn_candidate s) of
       (Some x, Some c) \<Rightarrow>
         if a \<noteq> ap_sha256 x then raise_for_state s APPROVAL_MISMATCH APPLICATION
         else wf_bind (wf_result (Inr ())) (\<lambda>_.
           wf_bind (wf_replace env (s\<lparr>sn_state := APPLYING, sn_updated := next_timestamp s now\<rparr>)) (\<lambda>target.
           wf_bind (wf_append env K_applying target None False) (\<lambda>applying.
           wf_bind (wf_result (Inr ())) (\<lambda>_.
           case read_ref of
             None \<Rightarrow> raise_error PUBLICATION_FAILED APPLICATION APPLYING
           | Some current \<Rightarrow>
               let outcome = application_ref_outcome c current in
               wf_bind (persist_application_ref_outcome env safe now' now'' applying outcome) (\<lambda>result.
               if sn_state result = APPLIED then wf_return result
               else raise_error (if outcome = REF_ABSENT then PUBLICATION_FAILED else REF_CONFLICT)
                 APPLICATION APPROVED)))))
     | _ \<Rightarrow> raise_error SESSION_CORRUPT PERSISTENCE (sn_state s)) st1 = (st', r)"
    unfolding wf_load_Inr by blast
  have ok: "valid env (ld_snapshot p)" using loaded_state_valid [OF load] by simp
  have state: "sn_state (ld_snapshot p) = APPROVED"
  proof (rule ccontr)
    assume "sn_state (ld_snapshot p) \<noteq> APPROVED"
    with body have "raise_for_state (ld_snapshot p) INVALID_STATE APPLICATION st1 = (st', r)" by (simp add: Let_def)
    from told_raise(2) [OF this C(2,4)] assms(3) show False by contradiction
  qed
  obtain c v where c: "sn_candidate (ld_snapshot p) = Some c" using validated_records [OF ok] state by auto
  obtain ap where ap: "sn_approval (ld_snapshot p) = Some ap" using shape_requires(3) [OF ok] state by auto
  let ?u = "(ld_snapshot p)\<lparr>sn_state := APPLYING, sn_updated := next_timestamp (ld_snapshot p) now\<rparr>"
  have eq: "a = ap_sha256 ap"
  proof (rule ccontr)
    assume "a \<noteq> ap_sha256 ap"
    with body state c ap have "raise_for_state (ld_snapshot p) APPROVAL_MISMATCH APPLICATION st1 = (st', r)"
      by (simp add: Let_def)
    from told_raise(2) [OF this C(3,4)] assms(3) show False by contradiction
  qed
  from body state c ap eq have rest: "wf_bind (wf_result (Inr ())) (\<lambda>_.
           wf_bind (wf_replace env ?u) (\<lambda>target.
           wf_bind (wf_append env K_applying target None False) (\<lambda>applying.
           wf_bind (wf_result (Inr ())) (\<lambda>_.
           case read_ref of
             None \<Rightarrow> raise_error PUBLICATION_FAILED APPLICATION APPLYING
           | Some current \<Rightarrow>
               let outcome = application_ref_outcome c current in
               wf_bind (persist_application_ref_outcome env safe now' now'' applying outcome) (\<lambda>result.
               if sn_state result = APPLIED then wf_return result
               else raise_error (if outcome = REF_ABSENT then PUBLICATION_FAILED else REF_CONFLICT)
                 APPLICATION APPROVED))))) st1 = (st', r)" by (simp add: Let_def)
  have unit: "codes internal_codes (wf_result (Inr ()))" by (simp add: codes_def wf_result_def)
  have app: "codes internal_codes (wf_append env K_applying ?u None False)"
    by (rule codes_append) (use C in simp)
  from bind [OF rest unit] bind [OF _ codes_leaf(2)] bind [OF _ app] bind [OF _ unit]
  obtain st2 ld where u: "snapshot_ok (rp_unicode env) ?u"
    and append: "append_event env st1 K_applying ?u None False = Inr (st2, ld)"
    and last: "(case read_ref of None \<Rightarrow> raise_error PUBLICATION_FAILED APPLICATION APPLYING
     | Some current \<Rightarrow>
         let outcome = application_ref_outcome c current in
         wf_bind (persist_application_ref_outcome env safe now' now'' ?u outcome) (\<lambda>result.
         if sn_state result = APPLIED then wf_return result
         else raise_error (if outcome = REF_ABSENT then PUBLICATION_FAILED else REF_CONFLICT) APPLICATION APPROVED)) st2 = (st', r)"
    unfolding wf_replace_Inr wf_append_Inr wf_result_Inr by blast
  have "valid env ?u" using valid_change [OF u ok] by simp
  from append_reads [OF append assms(2) this] have "holds env st2 ?u" by (simp add: holds_def)
  moreover have "read_log env st = Inr p" using load_Inr [OF load] by simp
  ultimately show ?thesis using state c ap eq last \<open>valid env ?u\<close> by blast
qed


lemma apply_reports:
  assumes "apply_candidate env safe now now' now'' (Inr ()) (Inr ()) read_ref a st = (st', r)"
    and "digest_function (rp_sha256 env)" "told internal_codes r"
  shows "\<exists>p c q. read_log env st = Inr p \<and> sn_state (ld_snapshot p) = APPROVED \<and>
    sn_candidate (ld_snapshot p) = Some c \<and> read_log env st' = Inr q \<and> sn_candidate (ld_snapshot q) = Some c \<and>
    (case read_ref of
       None \<Rightarrow> sn_state (ld_snapshot q) = APPLYING \<and>
         r = Inl (Raised (StoreError PUBLICATION_FAILED APPLICATION (Some APPLYING)))
     | Some None \<Rightarrow> sn_state (ld_snapshot q) = APPROVED \<and>
         r = Inl (Raised (StoreError PUBLICATION_FAILED APPLICATION (Some APPROVED)))
     | Some (Some oid) \<Rightarrow>
         if oid = ca_commit c then sn_state (ld_snapshot q) = APPLIED \<and> r = Inr (ld_snapshot q)
         else sn_state (ld_snapshot q) = APPROVED \<and>
           r = Inl (Raised (StoreError REF_CONFLICT APPLICATION (Some APPROVED))))"
proof -
  from apply_step [OF assms] obtain p c ap st2 u where p: "read_log env st = Inr p" "sn_state (ld_snapshot p) = APPROVED"
      "sn_candidate (ld_snapshot p) = Some c"
    and u: "u = (ld_snapshot p)\<lparr>sn_state := APPLYING, sn_updated := next_timestamp (ld_snapshot p) now\<rparr>"
      "valid env u" "holds env st2 u"
    and last: "(case read_ref of None \<Rightarrow> raise_error PUBLICATION_FAILED APPLICATION APPLYING
     | Some current \<Rightarrow>
         let outcome = application_ref_outcome c current in
         wf_bind (persist_application_ref_outcome env safe now' now'' u outcome) (\<lambda>result.
         if sn_state result = APPLIED then wf_return result
         else raise_error (if outcome = REF_ABSENT then PUBLICATION_FAILED else REF_CONFLICT) APPLICATION APPROVED)) st2 = (st', r)"
    by (elim exE conjE) (rule that)
  have cand: "sn_candidate u = Some c" using u(1) p(3) by simp
  have codes: "codes internal_codes (persist_application_ref_outcome env safe now' now'' u outcome)" for outcome
    by (rule codes_mono [OF codes_ref_outcome]) (simp add: internal_codes_def)
  show ?thesis
  proof (cases read_ref)
    case None
    then have "st' = st2" "r = Inl (Raised (StoreError PUBLICATION_FAILED APPLICATION (Some APPLYING)))"
      using last by (simp_all add: raise_error_def wf_fail_def)
    with None p u cand show ?thesis by (auto simp: holds_def)
  next
    case (Some current)
    let ?outcome = "application_ref_outcome c current"
    from last have "wf_bind (persist_application_ref_outcome env safe now' now'' u ?outcome) (\<lambda>result.
         if sn_state result = APPLIED then wf_return result
         else raise_error (if ?outcome = REF_ABSENT then PUBLICATION_FAILED else REF_CONFLICT) APPLICATION APPROVED) st2 = (st', r)"
      by (simp add: Some Let_def)
    from wf_bind_told [OF this codes assms(3)] obtain st3 t where
      t: "persist_application_ref_outcome env safe now' now'' u ?outcome st2 = (st3, Inr t)"
      and r: "(if sn_state t = APPLIED then wf_return t
         else raise_error (if ?outcome = REF_ABSENT then PUBLICATION_FAILED else REF_CONFLICT) APPLICATION APPROVED) st3 = (st', r)"
      by blast
    note res = ref_outcome_Inr [OF t assms(2) u(2)]
    from res obtain q where q: "read_log env st3 = Inr q" "ld_snapshot q = t" unfolding holds_def by blast
    have st: "st' = st3" using r by (auto simp: wf_return_def raise_error_def wf_fail_def split: if_splits)
    have t_cand: "sn_candidate t = Some c" using res cand by simp
    have t_state: "sn_state t = (if current = Some (ca_commit c) then APPLIED else APPROVED)"
      using res by (simp add: application_ref_outcome_def split: option.splits)
    have "case current of None \<Rightarrow> sn_state t = APPROVED \<and>
         r = Inl (Raised (StoreError PUBLICATION_FAILED APPLICATION (Some APPROVED)))
     | Some oid \<Rightarrow>
         if oid = ca_commit c then sn_state t = APPLIED \<and> r = Inr t
         else sn_state t = APPROVED \<and> r = Inl (Raised (StoreError REF_CONFLICT APPLICATION (Some APPROVED)))"
    proof (cases current)
      case None
      then show ?thesis using r t_state by (simp add: raise_error_def wf_fail_def application_ref_outcome_def)
    next
      case (Some oid)
      then show ?thesis using r t_state
        by (cases "oid = ca_commit c") (simp_all add: wf_return_def raise_error_def wf_fail_def application_ref_outcome_def)
    qed
    with q st have "case read_ref of
       None \<Rightarrow> sn_state (ld_snapshot q) = APPLYING \<and>
         r = Inl (Raised (StoreError PUBLICATION_FAILED APPLICATION (Some APPLYING)))
     | Some None \<Rightarrow> sn_state (ld_snapshot q) = APPROVED \<and>
         r = Inl (Raised (StoreError PUBLICATION_FAILED APPLICATION (Some APPROVED)))
     | Some (Some oid) \<Rightarrow>
         if oid = ca_commit c then sn_state (ld_snapshot q) = APPLIED \<and> r = Inr (ld_snapshot q)
         else sn_state (ld_snapshot q) = APPROVED \<and>
           r = Inl (Raised (StoreError REF_CONFLICT APPLICATION (Some APPROVED)))"
      by (simp only: Some option.case) 
    moreover have "read_log env st' = Inr q" "sn_candidate (ld_snapshot q) = Some c" using q st t_cand by simp_all
    ultimately show ?thesis using p by - (rule exI [of _ p], rule exI [of _ c], rule exI [of _ q], intro conjI)
  qed
qed

section \<open>Closing a session\<close>

lemma build_decision_Inr:
  assumes "build_decision env s state subject reason at st = (st', Inr d)"
  shows "st' = st \<and> decision_ok (rp_unicode env) d \<and> de_state d = state \<and> de_subject d = subject \<and> de_reason d = reason \<and>
    de_at d = at \<and> de_candidate d = map_option ca_id (sn_candidate s)"
  using assms
  by (auto simp: build_decision_def Let_def wf_results res_iffs checked_def raise_for_state_def raise_error_def
      split: option.splits sum.splits if_splits)

text \<open>The second phase returns what the session is when it gets there.\<close>

lemma cleanup_run_Inr:
  assumes "cleanup_terminal_validation_run env removed safe now s lease st = (st', Inr t)"
    and "digest_function (rp_sha256 env)" "valid env s" "holds env st s"
  shows "holds env st' t \<and> (\<exists>time pending. t = s\<lparr>sn_updated := time, sn_cleanup_pending := pending\<rparr>)"
proof -
  have self: "s = s\<lparr>sn_updated := sn_updated s, sn_cleanup_pending := sn_cleanup_pending s\<rparr>" by simp
  show ?thesis
  proof (cases "ls_container lease \<noteq> None \<and> removed")
    case False
    then have "st' = st \<and> t = s" using assms(1) by (auto simp: cleanup_terminal_validation_run_def wf_results)
    with assms(4) self show ?thesis by metis
  next
    case True
    with assms(1) obtain st1 ld where load: "load env st = Inr (st1, ld)"
      and rest: "(if ld_snapshot ld \<noteq> s \<or> ld_run ld \<noteq> Some lease then wf_return (ld_snapshot ld)
        else wf_bind (record_cleanup env safe now s True) (\<lambda>(cleaned, _). wf_return cleaned)) st1 = (st', Inr t)"
      by (auto simp: cleanup_terminal_validation_run_def wf_results)
    have same: "ld_snapshot ld = s" using assms(4) load_Inr [OF load] by (auto simp: holds_def)
    have log: "read_log env st1 = Inr ld" using load_read_log [OF load] .
    show ?thesis
    proof (cases "ld_run ld = Some lease")
      case False
      then have "st' = st1" "t = s" using rest same by (simp_all add: wf_results)
      with log same self show ?thesis unfolding holds_def by metis
    next
      case True
      then obtain ok where "record_cleanup env safe now s True st1 = (st', Inr (t, ok))"
        using rest same by (auto simp: wf_results)
      from record_cleanup_Inr [OF this assms(2,3)] show ?thesis by blast
    qed
  qed
qed

lemma close_Inr:
  assumes "(case run of None \<Rightarrow> persist_terminal env safe now kind s False
    | Some lease \<Rightarrow> wf_bind (wf_append env kind s None False) (\<lambda>stored.
        cleanup_terminal_validation_run env removed safe now stored lease)) st = (st', Inr t)"
    and "digest_function (rp_sha256 env)" "valid env s"
  shows "holds env st' t \<and> (\<exists>time pending. t = s\<lparr>sn_updated := time, sn_cleanup_pending := pending\<rparr>)"
proof (cases run)
  case None
  then have "persist_terminal env safe now kind s False st = (st', Inr t)" using assms(1) by simp
  from persist_terminal_Inr [OF this assms(2,3)] show ?thesis by blast
next
  case (Some lease)
  with assms(1) obtain st1 ld where append: "append_event env st kind s None False = Inr (st1, ld)"
    and rest: "cleanup_terminal_validation_run env removed safe now s lease st1 = (st', Inr t)"
    by (auto simp: wf_results)
  have "holds env st1 s" using append_reads [OF append assms(2,3)] by (simp add: holds_def)
  from cleanup_run_Inr [OF rest assms(2,3) this] show ?thesis .
qed

lemma close_session_Inr:
  assumes "close_session env safe now1 now2 now3 now4 read_ref removed state kind subject reason st = (st', Inr t)"
    and "digest_function (rp_sha256 env)"
  shows "\<exists>p. read_log env st = Inr p \<and> \<not> is_terminal (sn_state (ld_snapshot p)) \<and> holds env st' t \<and>
    (sn_state t = state \<and> (\<exists>d. sn_decision t = Some d \<and> de_state d = state \<and> de_subject d = subject \<and> de_reason d = reason) \<or>
     sn_state t = APPLIED \<and> sn_state (ld_snapshot p) = APPLYING \<and>
       (\<exists>c. sn_candidate t = Some c \<and> read_ref = Some (Some (ca_commit c))))"
proof -
  from assms(1) obtain st1 st2 p s outcome where load: "load env st = Inr (st1, p)"
    and open': "require_nonterminal (ld_snapshot p) SESSION st1 = (st1, Inr ())"
    and mid: "(if sn_state (ld_snapshot p) = APPLYING then reconcile_applying env safe now1 now2 read_ref (ld_snapshot p)
       else wf_return (ld_snapshot p, REF_ABSENT)) st1 = (st2, Inr (s, outcome))"
    and rest: "(if sn_state (ld_snapshot p) = APPLYING \<and> outcome = REF_EXPECTED then wf_return s
      else if sn_state (ld_snapshot p) = APPLYING \<and> outcome = REF_FOREIGN then raise_error REF_CONFLICT APPLICATION (sn_state s)
      else wf_bind (build_decision env s state subject reason (next_timestamp s now3)) (\<lambda>d.
       wf_bind (wf_replace env (s\<lparr>sn_state := state, sn_updated := next_timestamp s now3,
         sn_decision := Some d, sn_cleanup_pending := True\<rparr>)) (\<lambda>closed.
       case ld_run p of
         None \<Rightarrow> persist_terminal env safe now4 kind closed False
       | Some lease \<Rightarrow>
           wf_bind (wf_append env kind closed None False) (\<lambda>stored.
             cleanup_terminal_validation_run env removed safe now4 stored lease)))) st2 = (st', Inr t)"
    unfolding close_session_def wf_bind_Inr wf_load_Inr
    by (elim exE conjE) (auto simp: require_nonterminal_def wf_results split: if_splits)
  have p: "read_log env st = Inr p" "\<not> is_terminal (sn_state (ld_snapshot p))"
    using load_Inr [OF load] open' by (auto simp: require_nonterminal_def wf_results split: if_splits)
  have ok: "valid env (ld_snapshot p)" using loaded_state_valid [OF load] by simp
  have s: "valid env s \<and> holds env st2 s \<and>
    (sn_state (ld_snapshot p) = APPLYING \<longrightarrow> outcome = REF_EXPECTED \<longrightarrow> sn_state s = APPLIED \<and>
       (\<exists>c. sn_candidate s = Some c \<and> read_ref = Some (Some (ca_commit c))))"
  proof (cases "sn_state (ld_snapshot p) = APPLYING")
    case False
    then have "s = ld_snapshot p" "st2 = st1" using mid by (simp_all add: wf_results)
    then show ?thesis using ok load_read_log [OF load] False by (simp add: holds_def)
  next
    case True
    with mid obtain current c where ref: "read_ref = Some current" and c: "sn_candidate (ld_snapshot p) = Some c"
      and out: "outcome = application_ref_outcome c current"
      and m: "persist_application_ref_outcome env safe now1 now2 (ld_snapshot p) outcome st1 = (st2, Inr s)"
      by (auto simp: reconcile_applying_def Let_def wf_results split: option.splits)
    note res = ref_outcome_Inr [OF m assms(2) ok]
    then obtain q where "read_log env st2 = Inr q" "ld_snapshot q = s" by (auto simp: holds_def)
    then have "valid env s" using load_run session_run_state event_state_valid by metis
    with res ref c out show ?thesis
      by (auto simp: application_ref_outcome_def split: option.splits if_splits)
  qed
  show ?thesis
  proof (cases "sn_state (ld_snapshot p) = APPLYING \<and> outcome = REF_EXPECTED")
    case True
    then have "t = s" "st' = st2" using rest by (simp_all add: wf_results)
    with s True p show ?thesis by blast
  next
    case False
    with rest obtain st3 d where d: "build_decision env s state subject reason (next_timestamp s now3) st2 = (st3, Inr d)"
      and u: "snapshot_ok (rp_unicode env) (s\<lparr>sn_state := state, sn_updated := next_timestamp s now3,
         sn_decision := Some d, sn_cleanup_pending := True\<rparr>)"
      and close: "(case ld_run p of None \<Rightarrow> persist_terminal env safe now4 kind (s\<lparr>sn_state := state, sn_updated := next_timestamp s now3,
         sn_decision := Some d, sn_cleanup_pending := True\<rparr>) False
       | Some lease \<Rightarrow> wf_bind (wf_append env kind (s\<lparr>sn_state := state, sn_updated := next_timestamp s now3,
         sn_decision := Some d, sn_cleanup_pending := True\<rparr>) None False) (\<lambda>stored.
             cleanup_terminal_validation_run env removed safe now4 stored lease)) st3 = (st', Inr t)"
      by (auto simp: wf_results split: if_splits)
    note d' = build_decision_Inr [OF d]
    let ?u = "s\<lparr>sn_state := state, sn_updated := next_timestamp s now3, sn_decision := Some d, sn_cleanup_pending := True\<rparr>"
    have "valid env ?u" using valid_change [OF u, of s] s d' by simp
    from close_Inr [OF close assms(2) this] p d' show ?thesis by auto
  qed
qed

end
