(* ===== verification/Repair_Recovery_Facts.thy ===== *)
theory Repair_Recovery_Facts
  imports Repair_Recovery Repair_Workflow_Results
begin

text \<open>
  What a candidate that is validated again becomes. Two small logics over the log, with one rule per
  construct: \<open>stays\<close>, for operations that keep a condition on the log whatever they return, and
  \<open>leads\<close>, from one condition to another, with a condition for errors. The operations of others in
  between keep every condition that closed sessions meet, so both logics pass through them.
\<close>

section \<open>Operations that keep a condition on the log\<close>

definition stays :: "repair_env \<Rightarrow> (loaded_state \<Rightarrow> bool) \<Rightarrow> 'a wf \<Rightarrow> bool" where
  "stays env I m \<longleftrightarrow>
     (\<forall>st p. read_log env st = Inr p \<and> I p \<longrightarrow> (\<exists>q. read_log env (fst (m st)) = Inr q \<and> I q))"

lemma stays_same_log: "(\<And>st. read_log env (fst (m st)) = read_log env st) \<Longrightarrow> stays env I m"
  by (simp add: stays_def)

lemma stays_leaf:
  "stays env I (wf_return x)" "stays env I (wf_fail e)" "stays env I (wf_result r)" "stays env I (wf_replace env s)"
  "stays env I (raise_error code stage state)" "stays env I (raise_for_state s code stage)"
  "stays env I (wf_lift (cleanup_private safe))" "stays env I (wf_lease l)"
  by (auto intro!: stays_same_log simp: wf_return_def wf_fail_def wf_result_def wf_replace_def raise_error_def
      raise_for_state_def wf_lift_def wf_lease_def cleanup_private_def res_iffs read_log_def require_def split: sum.splits if_splits)

lemma stays_bind:
  assumes "stays env I m" "\<And>x. stays env I (f x)"
  shows "stays env I (wf_bind m f)"
  unfolding stays_def
proof (intro allI impI)
  fix st p assume "read_log env st = Inr p \<and> I p"
  with assms(1) obtain q where q: "read_log env (fst (m st)) = Inr q" "I q" unfolding stays_def by blast
  then show "\<exists>q. read_log env (fst (wf_bind m f st)) = Inr q \<and> I q"
    using assms(2) unfolding stays_def wf_bind_def by (auto split: prod.split sum.split)
qed

definition returns :: "('a \<Rightarrow> bool) \<Rightarrow> 'a wf \<Rightarrow> bool" where
  "returns Q m \<longleftrightarrow> (\<forall>st st' x. m st = (st', Inr x) \<longrightarrow> Q x)"

lemma stays_bind':
  assumes "stays env I m" "returns Q m" "\<And>x. Q x \<Longrightarrow> stays env I (f x)"
  shows "stays env I (wf_bind m f)"
proof -
  let ?g = "\<lambda>x. if Q x then f x else wf_return undefined"
  have "wf_bind m f = wf_bind m ?g"
    using assms(2) by (intro ext) (auto simp: wf_bind_def returns_def split: prod.split sum.split)
  moreover have "stays env I (wf_bind m ?g)" by (rule stays_bind [OF assms(1)]) (simp add: assms(3) stays_leaf)
  ultimately show ?thesis by simp
qed

lemma stays_builds:
  "stays env I (build_decision env s state subject reason at)" "stays env I (build_failure code stage at)"
  "stays env I (build_validation env o')" "stays env I (validation_intent_lease i)" "stays env I (validation_lease_of r)"
  by (auto simp: build_decision_def build_failure_def build_validation_def validation_intent_lease_def validation_lease_of_def
      Let_def split: sum.split intro!: stays_leaf stays_bind)

lemma build_failure_Inr:
  "build_failure code stage at st = (st', Inr f) \<Longrightarrow> st' = st \<and> failure_ok f \<and> fl_code f = code \<and> fl_stage f = stage \<and> fl_at f = at"
  by (auto simp: build_failure_def wf_results store_result_def checked_def res_iffs split: sum.splits if_splits)

lemma returns_intros:
  "Q x \<Longrightarrow> returns Q (wf_return x)" "returns Q (wf_fail e)" "returns Q (raise_error code stage state)"
  "returns Q (raise_for_state s code stage)" "(\<And>x. r = Inr x \<Longrightarrow> Q x) \<Longrightarrow> returns Q (wf_result r)"
  by (auto simp: returns_def wf_results)

lemma returns_bind: "(\<And>x. returns Q (f x)) \<Longrightarrow> returns Q (wf_bind m f)"
  by (fastforce simp: returns_def wf_results)

lemma returns_lease: "returns lease_ok (wf_lease l)"
  by (simp add: wf_lease_def returns_intros)

lemma store_result_checked: "store_result (checked P x) = Inr y \<Longrightarrow> P y"
  by (auto simp: store_result_def checked_def require_def split: sum.splits if_splits)

lemma returns_builds:
  "returns (decision_ok (rp_unicode env)) (build_decision env s state subject reason at)"
  "returns failure_ok (build_failure code stage at)" "returns validation_ok (build_validation env o')"
  "returns lease_ok (validation_intent_lease i)" "returns lease_ok (validation_lease_of r)"
  unfolding build_validation_def validation_intent_lease_def validation_lease_of_def Let_def
  by (auto intro!: returns_bind returns_intros returns_lease dest: store_result_checked)
    (auto simp: returns_def dest: build_decision_Inr build_failure_Inr)

lemma stays_loaded:
  assumes "\<And>ld. I ld \<Longrightarrow> valid env (ld_snapshot ld) \<Longrightarrow> opt_all lease_ok (ld_run ld) \<Longrightarrow> stays env I (f ld)"
  shows "stays env I (wf_bind (wf_load env) f)"
  unfolding stays_def
proof (intro allI impI)
  fix st p assume p: "read_log env st = Inr p \<and> I p"
  show "\<exists>q. read_log env (fst (wf_bind (wf_load env) f st)) = Inr q \<and> I q"
  proof (cases "load env st")
    case (Inl e)
    then show ?thesis using p by (simp add: wf_bind_def wf_load_def wf_lift_def)
  next
    case (Inr y)
    then obtain st1 ld where load: "load env st = Inr (st1, ld)" by (cases y) auto
    have "ld = p" "read_log env st1 = Inr p" using load_Inr [OF load] load_read_log [OF load] p by simp_all
    with assms [of p] loaded_state_valid [OF load] p load show ?thesis
      by (auto simp: stays_def wf_bind_def wf_load_def wf_lift_def)
  qed
qed

lemma stays_append:
  assumes "digest_function (rp_sha256 env)" "valid env s" "opt_all lease_ok run" "\<And>q. ld_snapshot q = s \<Longrightarrow> I q"
  shows "stays env I (wf_append env kind s run clear)"
  unfolding stays_def
proof (intro allI impI)
  fix st p assume p: "read_log env st = Inr p \<and> I p"
  show "\<exists>q. read_log env (fst (wf_append env kind s run clear st)) = Inr q \<and> I q"
  proof (cases "append_event env st kind s run clear")
    case (Inl e)
    then show ?thesis using p by (simp add: wf_append_def wf_bind_def wf_lift_def)
  next
    case (Inr y)
    then obtain st1 ld where r: "append_event env st kind s run clear = Inr (st1, ld)" by (cases y) auto
    with append_reads [OF r assms(1,2,3)] assms(4) show ?thesis
      by (auto simp: wf_append_def wf_bind_def wf_lift_def wf_return_def)
  qed
qed

lemma stays_update:
  assumes "digest_function (rp_sha256 env)" "opt_all lease_ok run" "snapshot_ok (rp_unicode env) t \<Longrightarrow> valid env t"
    and "\<And>q. ld_snapshot q = t \<Longrightarrow> I q" "valid env t \<Longrightarrow> stays env I (f t)"
  shows "stays env I (wf_bind (wf_replace env t) (\<lambda>u. wf_bind (wf_append env kind u run clear) f))"
proof (cases "snapshot_ok (rp_unicode env) t")
  case True
  have "stays env I (wf_bind (wf_append env kind t run clear) f)" unfolding stays_def
  proof (intro allI impI)
    fix st p assume p: "read_log env st = Inr p \<and> I p"
    show "\<exists>q. read_log env (fst (wf_bind (wf_append env kind t run clear) f st)) = Inr q \<and> I q"
    proof (cases "append_event env st kind t run clear")
      case (Inl e)
      then show ?thesis using p by (simp add: wf_append_def wf_bind_def wf_lift_def)
    next
      case (Inr y)
      then obtain st1 ld where r: "append_event env st kind t run clear = Inr (st1, ld)" by (cases y) auto
      have "ld_snapshot ld = t" "read_log env st1 = Inr ld" using append_reads [OF r assms(1) assms(3) [OF True] assms(2)] by auto
      with assms(5) [OF assms(3) [OF True]] assms(4) r show ?thesis
        by (auto simp: stays_def wf_append_def wf_bind_def wf_lift_def wf_return_def)
    qed
  qed
  then show ?thesis using True by (simp add: stays_def wf_bind_def wf_replace_def wf_return_def)
next
  case False
  then show ?thesis by (simp add: stays_def wf_bind_def wf_replace_def wf_fail_def)
qed

lemma stays_update':
  assumes "digest_function (rp_sha256 env)" "opt_all lease_ok run" "snapshot_ok (rp_unicode env) t \<Longrightarrow> valid env t"
    and "\<And>q. ld_snapshot q = t \<Longrightarrow> I q"
  shows "stays env I (wf_bind (wf_replace env t) (\<lambda>u. wf_append env kind u run clear))"
  using stays_update [OF assms, where f = wf_return] by (simp add: stays_leaf)


text \<open>A condition that every snapshot of some states meets, whatever else it says.\<close>

definition covers :: "(loaded_state \<Rightarrow> bool) \<Rightarrow> repair_state set \<Rightarrow> bool" where
  "covers I S \<longleftrightarrow> (\<forall>q. sn_state (ld_snapshot q) \<in> S \<longrightarrow> I q)"

lemma coversI: "covers I S \<Longrightarrow> sn_state t \<in> S \<Longrightarrow> ld_snapshot q = t \<Longrightarrow> I q"
  by (auto simp: covers_def)

lemma coversD: "covers I S \<Longrightarrow> sn_state (ld_snapshot q) \<in> S \<Longrightarrow> I q"
  by (simp add: covers_def)

lemma stays_record_cleanup:
  assumes "digest_function (rp_sha256 env)" "valid env s" "covers I S" "sn_state s \<in> S"
  shows "stays env I (record_cleanup env safe now s clear)"
  unfolding record_cleanup_def
  by (rule stays_bind [OF stays_leaf(7)], rule stays_update [OF assms(1)])
    (auto intro: coversD [OF assms(3)] valid_change [OF _ assms(2)] stays_leaf simp: assms)

lemma stays_persist_terminal:
  assumes "digest_function (rp_sha256 env)" "covers I S" "sn_state t \<in> S" "snapshot_ok (rp_unicode env) t \<Longrightarrow> valid env t"
  shows "stays env I (wf_bind (wf_replace env t) (\<lambda>u. persist_terminal env safe now kind u clear))"
  unfolding persist_terminal_def
  by (rule stays_update [OF assms(1) _ assms(4) coversI [OF assms(2,3)]])
    (auto intro!: stays_bind [OF stays_record_cleanup [OF assms(1) _ assms(2,3)]] stays_leaf)

lemma stays_cleanup_run:
  assumes "digest_function (rp_sha256 env)" "valid env s" "covers I S" "sn_state s \<in> S"
  shows "stays env I (cleanup_terminal_validation_run env removed safe now s lease)"
  unfolding cleanup_terminal_validation_run_def
  by (auto intro!: stays_leaf stays_loaded stays_bind [OF stays_record_cleanup [OF assms]])

lemma stays_close:
  assumes "digest_function (rp_sha256 env)" "covers I S" "sn_state t \<in> S" "snapshot_ok (rp_unicode env) t \<Longrightarrow> valid env t"
  shows "stays env I (wf_bind (wf_replace env t) (\<lambda>closed. case run of
      None \<Rightarrow> persist_terminal env safe now kind closed False
    | Some lease \<Rightarrow> wf_bind (wf_append env kind closed None False) (\<lambda>stored.
        cleanup_terminal_validation_run env removed safe now stored lease)))"
proof (cases run)
  case None
  then show ?thesis using stays_persist_terminal [OF assms] by simp
next
  case (Some lease)
  then show ?thesis
    by (simp, intro stays_update [OF assms(1) _ assms(4) coversI [OF assms(2,3)]])
      (auto intro: stays_cleanup_run [OF assms(1) _ assms(2,3)])
qed

abbreviation closed_states :: "repair_state set" where
  "closed_states \<equiv> {CANCELLED, EXPIRED, FAILED}"

lemma stays_decided:
  assumes "digest_function (rp_sha256 env)" "covers I closed_states" "state \<in> closed_states" "valid env s"
  shows "stays env I (wf_bind (build_decision env s state subject reason at) (\<lambda>d.
    wf_bind (wf_replace env (s\<lparr>sn_state := state, sn_updated := at', sn_decision := Some d, sn_cleanup_pending := True\<rparr>)) (\<lambda>closed.
    case run of None \<Rightarrow> persist_terminal env safe now kind closed False
    | Some lease \<Rightarrow> wf_bind (wf_append env kind closed None False) (\<lambda>stored.
        cleanup_terminal_validation_run env removed safe now stored lease))))"
  (is "stays env I (wf_bind ?d ?f)")
  by (rule stays_bind' [OF stays_builds(1) returns_builds(1)], rule stays_close [OF assms(1,2)])
    (use assms(3) in \<open>auto intro: valid_change [OF _ assms(4)]\<close>)

lemma stays_start: "stays env I (f x) \<Longrightarrow> stays env I (wf_bind (wf_return x) f)"
  by (simp add: stays_def wf_bind_def wf_return_def)

lemma stays_close_session:
  assumes "digest_function (rp_sha256 env)" "covers I closed_states" "state \<in> closed_states"
  shows "stays env I (close_session env safe now1 now2 now3 now4 None removed state kind subject reason)"
  unfolding close_session_def require_nonterminal_def reconcile_applying_def Let_def option.case
  by (rule stays_loaded, rule stays_bind, fastforce intro: stays_leaf)
    (auto split: prod.split intro!: stays_leaf stays_start stays_decided [OF assms] stays_bind' [OF stays_leaf(5), where Q = "\<lambda>_. False"]
      simp: returns_def wf_results)

lemma stays_failure:
  assumes "digest_function (rp_sha256 env)" "covers I closed_states"
  shows "stays env I (persist_proposal_failure env removed safe now now' code stage)"
  unfolding persist_proposal_failure_def Let_def
  by (rule stays_loaded)
    (auto intro!: stays_leaf stays_bind' [OF stays_builds(2) returns_builds(2)] stays_close [OF assms] simp: snapshot_valid_def)

lemma stays_interrupts:
  assumes "digest_function (rp_sha256 env)" "covers I closed_states"
  shows "stays env I (interrupts env os)"
  unfolding stays_def
proof (intro allI impI)
  fix st p assume "read_log env st = Inr p \<and> I p"
  then show "\<exists>q. read_log env (fst (interrupts env os st)) = Inr q \<and> I q"
    unfolding interrupts_def fst_conv
  proof (induction os arbitrary: st p)
    case (Cons i os)
    have "stays env I (\<lambda>st. (interrupt env i st, Inr ()))"
      using stays_close_session [OF assms] stays_failure [OF assms]
      by (cases i) (simp_all add: stays_def cancel_def expire_def)
    with Cons.prems obtain q where "read_log env (interrupt env i st) = Inr q \<and> I q" by (auto simp: stays_def)
    from Cons.IH [OF this] show ?case by simp
  qed auto
qed

section \<open>Callbacks keep the state\<close>

abbreviation in_states :: "repair_state set \<Rightarrow> loaded_state \<Rightarrow> bool" where
  "in_states S q \<equiv> sn_state (ld_snapshot q) \<in> S"

lemma covers_in_states: "T \<subseteq> S \<Longrightarrow> covers (in_states S) T"
  by (auto simp: covers_def)

lemma stays_register:
  assumes "digest_function (rp_sha256 env)"
  shows "stays env (in_states S) (register_validation_intent env now session c i)"
    and "stays env (in_states S) (register_validation_run env now session c r)"
  unfolding register_validation_intent_def register_validation_run_def Let_def
  by (auto intro!: stays_leaf stays_bind' [OF stays_builds(4) returns_builds(4)] stays_bind' [OF stays_builds(5) returns_builds(5)]
      stays_bind [OF stays_leaf(8)] stays_loaded stays_update assms simp: snapshot_valid_def)

lemma stays_release:
  assumes "digest_function (rp_sha256 env)"
  shows "stays env (in_states S) (release_validation_intent env safe now session c i)"
    and "stays env (in_states S) (release_validation_run env safe now session c r)"
  unfolding release_validation_intent_def release_validation_run_def Let_def
  by (auto intro!: stays_leaf stays_bind [OF stays_builds(4)] stays_bind [OF stays_builds(5)] stays_loaded stays_update assms
      stays_bind [OF stays_record_cleanup [OF assms _ covers_in_states [OF order_refl]]] simp: snapshot_valid_def)

lemma stays_unregistered:
  assumes "digest_function (rp_sha256 env)" "closed_states \<subseteq> S"
  shows "stays env (in_states S) (release_unregistered env w session c identity)"
  unfolding release_unregistered_def
  by (auto split: option.split intro!: stays_leaf stays_bind [OF stays_interrupts [OF assms(1) covers_in_states [OF assms(2)]]]
      stays_bind [OF stays_release(2) [OF assms(1)]] stays_bind [OF stays_release(1) [OF assms(1)]] stays_start stays_bind)

section \<open>From one condition to another\<close>

definition leads :: "repair_env \<Rightarrow> (loaded_state \<Rightarrow> bool) \<Rightarrow> 'a wf \<Rightarrow> ('a \<Rightarrow> loaded_state \<Rightarrow> bool) \<Rightarrow>
    (wf_error \<Rightarrow> loaded_state \<Rightarrow> bool) \<Rightarrow> bool" where
  "leads env I m Q E \<longleftrightarrow> (\<forall>st p. read_log env st = Inr p \<and> I p \<longrightarrow>
     (\<exists>q. read_log env (fst (m st)) = Inr q \<and> (case snd (m st) of Inl e \<Rightarrow> E e q | Inr x \<Rightarrow> Q x q)))"

lemma leads_bind:
  assumes "leads env I m R E" "\<And>x. leads env (R x) (f x) Q E"
  shows "leads env I (wf_bind m f) Q E"
  unfolding leads_def
proof (intro allI impI)
  fix st p assume p: "read_log env st = Inr p \<and> I p"
  obtain st1 r where m: "m st = (st1, r)" by (cases "m st")
  with assms(1) p obtain q where q: "read_log env st1 = Inr q" "case r of Inl e \<Rightarrow> E e q | Inr x \<Rightarrow> R x q"
    unfolding leads_def by (metis fst_conv snd_conv)
  show "\<exists>q. read_log env (fst (wf_bind m f st)) = Inr q \<and>
    (case snd (wf_bind m f st) of Inl e \<Rightarrow> E e q | Inr x \<Rightarrow> Q x q)"
    using q assms(2) m by (cases r) (auto simp: wf_bind_def leads_def)
qed

lemma leads_catch:
  assumes "leads env I m Q F" "\<And>e. leads env (F e) (h e) Q E"
  shows "leads env I (wf_catch m h) Q E"
  unfolding leads_def
proof (intro allI impI)
  fix st p assume p: "read_log env st = Inr p \<and> I p"
  obtain st1 r where m: "m st = (st1, r)" by (cases "m st")
  with assms(1) p obtain q where q: "read_log env st1 = Inr q" "case r of Inl e \<Rightarrow> F e q | Inr x \<Rightarrow> Q x q"
    unfolding leads_def by (metis fst_conv snd_conv)
  show "\<exists>q. read_log env (fst (wf_catch m h st)) = Inr q \<and>
    (case snd (wf_catch m h st) of Inl e \<Rightarrow> E e q | Inr x \<Rightarrow> Q x q)"
    using q assms(2) m by (cases r) (auto simp: wf_catch_def leads_def)
qed

lemma leads_pre: "leads env J m Q E \<Longrightarrow> (\<And>p. I p \<Longrightarrow> J p) \<Longrightarrow> leads env I m Q E"
  by (auto simp: leads_def)

lemma leads_leaf:
  "(\<And>p. I p \<Longrightarrow> Q x p) \<Longrightarrow> leads env I (wf_return x) Q E" "(\<And>p. I p \<Longrightarrow> E e p) \<Longrightarrow> leads env I (wf_fail e) Q E"
  "(\<And>e p. I p \<Longrightarrow> E (Raised e) p) \<Longrightarrow> leads env I (raise_error code stage state) Q E"
  by (auto simp: leads_def wf_return_def wf_fail_def raise_error_def)

text \<open>An operation whose errors are all ordinary ones.\<close>

definition plain :: "'a wf \<Rightarrow> bool" where
  "plain m \<longleftrightarrow> (\<forall>st st' e. m st = (st', Inl e) \<longrightarrow> (\<exists>r. e = Raised r))"

lemma plain_leaf:
  "plain (wf_return x)" "plain (wf_fail (Raised r))" "plain (wf_result rs)" "plain (wf_replace env s)"
  "plain (raise_error code stage state)" "plain (raise_for_state s code stage)" "plain (wf_lift f)" "plain (wf_lease l)"
  "plain (wf_load env)" "plain (interrupts env os)"
  by (auto simp: plain_def wf_results wf_replace_def raise_error_def raise_for_state_def wf_lease_def wf_load_def interrupts_def)

lemma plain_bind: "plain m \<Longrightarrow> (\<And>x. plain (f x)) \<Longrightarrow> plain (wf_bind m f)"
  by (fastforce simp: plain_def wf_results)

lemma plain_append: "plain (wf_append env kind s run clear)"
  by (auto simp: wf_append_def intro: plain_bind plain_leaf)

lemma plain_ops:
  "plain (register_validation_intent env now session c i)" "plain (register_validation_run env now session c r)"
  "plain (release_validation_intent env safe now session c i)" "plain (release_validation_run env safe now session c r)"
  "plain (build_failure code stage at)" "plain (build_validation env o')"
  "plain (validation_intent_lease i)" "plain (validation_lease_of r)" "plain (record_cleanup env safe now s clear)"
  unfolding register_validation_intent_def register_validation_run_def release_validation_intent_def
    release_validation_run_def validation_intent_lease_def validation_lease_of_def record_cleanup_def Let_def
    build_failure_def build_validation_def
  by (auto intro!: plain_bind plain_leaf plain_append)

lemma plain_unregistered: "plain (release_unregistered env w session c identity)"
  unfolding release_unregistered_def by (auto split: option.split intro!: plain_bind plain_leaf plain_ops)

lemma leads_stays:
  assumes "stays env I m" "plain m" "\<And>x p. I p \<Longrightarrow> Q x p" "\<And>e p. I p \<Longrightarrow> E (Raised e) p"
  shows "leads env I m Q E"
  unfolding leads_def
proof (intro allI impI)
  fix st p assume p: "read_log env st = Inr p \<and> I p"
  obtain st1 r where m: "m st = (st1, r)" by (cases "m st")
  with assms(1) p obtain q where "read_log env st1 = Inr q" "I q" unfolding stays_def by (metis fst_conv)
  with m assms(2-4) show "\<exists>q. read_log env (fst (m st)) = Inr q \<and> (case snd (m st) of Inl e \<Rightarrow> E e q | Inr x \<Rightarrow> Q x q)"
    by (cases r) (auto simp: plain_def, metis)
qed

lemma leads_step:
  assumes "stays env I m" "plain m" "\<And>e p. I p \<Longrightarrow> E (Raised e) p" "\<And>x. leads env I (f x) Q E"
  shows "leads env I (wf_bind m f) Q E"
  by (rule leads_bind [OF leads_stays [OF assms(1,2), where Q = "\<lambda>_. I"]]) (use assms in auto)

lemma leads_loaded:
  assumes "\<And>ld. I ld \<Longrightarrow> valid env (ld_snapshot ld) \<Longrightarrow> leads env (\<lambda>q. q = ld) (f ld) Q E"
    and "\<And>e p. I p \<Longrightarrow> E (Raised e) p"
  shows "leads env I (wf_bind (wf_load env) f) Q E"
  unfolding leads_def
proof (intro allI impI)
  fix st p assume p: "read_log env st = Inr p \<and> I p"
  let ?m = "wf_bind (wf_load env) f st"
  show "\<exists>q. read_log env (fst ?m) = Inr q \<and> (case snd ?m of Inl e \<Rightarrow> E e q | Inr x \<Rightarrow> Q x q)"
  proof (cases "load env st")
    case (Inl e)
    then show ?thesis using p assms(2) by (simp add: wf_bind_def wf_load_def wf_lift_def)
  next
    case (Inr y)
    then obtain st1 ld where load: "load env st = Inr (st1, ld)" by (cases y) auto
    have "ld = p" "read_log env st1 = Inr p" using load_Inr [OF load] load_read_log [OF load] p by simp_all
    with assms(1) [of p] loaded_state_valid [OF load] p load show ?thesis
      by (auto simp: leads_def wf_bind_def wf_load_def wf_lift_def)
  qed
qed

lemma leads_append:
  assumes "digest_function (rp_sha256 env)" "valid env s" "\<And>q. ld_snapshot q = s \<Longrightarrow> Q s q" "\<And>e p. I p \<Longrightarrow> E (Raised e) p"
  shows "leads env I (wf_append env kind s None clear) Q E"
  unfolding leads_def
proof (intro allI impI)
  fix st p assume p: "read_log env st = Inr p \<and> I p"
  let ?m = "wf_append env kind s None clear st"
  show "\<exists>q. read_log env (fst ?m) = Inr q \<and> (case snd ?m of Inl e \<Rightarrow> E e q | Inr x \<Rightarrow> Q x q)"
  proof (cases "append_event env st kind s None clear")
    case (Inl e)
    then show ?thesis using p assms(4) by (simp add: wf_append_def wf_bind_def wf_lift_def)
  next
    case (Inr y)
    then obtain st1 ld where r: "append_event env st kind s None clear = Inr (st1, ld)" by (cases y) auto
    with append_reads [OF r assms(1,2)] assms(3) show ?thesis
      by (auto simp: wf_append_def wf_bind_def wf_lift_def wf_return_def)
  qed
qed

lemma leads_replace:
  assumes "snapshot_ok (rp_unicode env) t \<Longrightarrow> leads env I (f t) Q E" "\<And>e p. I p \<Longrightarrow> E (Raised e) p"
  shows "leads env I (wf_bind (wf_replace env t) f) Q E"
  using assms by (cases "snapshot_ok (rp_unicode env) t")
    (auto simp: leads_def wf_bind_def wf_replace_def wf_return_def wf_fail_def)

section \<open>A candidate that is validated again\<close>

definition lease_record :: "sandbox_run \<Rightarrow> validation_lease" where
  "lease_record r = \<lparr>ls_container = Some (si_container r), ls_name = si_name r, ls_labels = sort (si_labels r),
     ls_session = si_session r, ls_candidate = si_candidate r, ls_token = si_token r\<rparr>"

text \<open>The session after its container was registered: as it was registered, or closed in between.\<close>

definition run_registered :: "repair_candidate \<Rightarrow> sandbox_run \<Rightarrow> loaded_state \<Rightarrow> bool" where
  "run_registered c r q \<longleftrightarrow> in_states closed_states q \<or>
     in_states {VALIDATING} q \<and> sn_candidate (ld_snapshot q) = Some c \<and> sn_validation (ld_snapshot q) = None \<and>
     ld_run q = Some (lease_record r)"

text \<open>A late result is one of a session that was closed in between; after another error the session is not
  past its validation.\<close>

definition recoverable :: "wf_error \<Rightarrow> loaded_state \<Rightarrow> bool" where
  "recoverable e = in_states (if e = LateSandboxResult then closed_states else {GENERATING, VALIDATING} \<union> closed_states)"

abbreviation validating_states :: "repair_state set" where
  "validating_states \<equiv> {VALIDATING} \<union> closed_states"

lemma lease_of_Inr: "validation_lease_of r st = (st', Inr l) \<Longrightarrow> st' = st \<and> l = lease_record r \<and> lease_ok l"
  by (auto simp: validation_lease_of_def lease_record_def wf_lease_def wf_results split: if_splits)

lemma register_run_leads:
  assumes "digest_function (rp_sha256 env)"
  shows "leads env (in_states validating_states) (register_validation_run env now session c r)
    (\<lambda>ok q. in_states validating_states q \<and> (ok \<longrightarrow> run_registered c r q)) (\<lambda>e q. e \<noteq> LateSandboxResult \<and> in_states validating_states q)"
  unfolding leads_def
proof (intro allI impI)
  fix st p assume p: "read_log env st = Inr p \<and> in_states validating_states p"
  let ?m = "register_validation_run env now session c r"
  obtain st' res where m: "?m st = (st', res)" by (cases "?m st")
  with stays_register(2) [OF assms, of validating_states now session c r] p obtain q where
    q: "read_log env st' = Inr q" "in_states validating_states q" unfolding stays_def by (metis fst_conv)
  show "\<exists>q. read_log env (fst (?m st)) = Inr q \<and> (case snd (?m st) of
      Inl e \<Rightarrow> e \<noteq> LateSandboxResult \<and> in_states validating_states q
    | Inr ok \<Rightarrow> in_states validating_states q \<and> (ok \<longrightarrow> run_registered c r q))"
  proof (cases "res = Inr True")
    case False
    with m q plain_ops(2) [of env now session c r] show ?thesis by (cases res) (fastforce simp: plain_def)+
  next
    case True
    with m obtain st1 l ld s1 where load: "load env st1 = Inr (s1, ld)" and l: "l = lease_record r" "lease_ok l"
      and s: "sn_candidate (ld_snapshot ld) = Some c" "sn_validation (ld_snapshot ld) = None" "sn_state (ld_snapshot ld) = VALIDATING"
      and u: "snapshot_ok (rp_unicode env) ((ld_snapshot ld)\<lparr>sn_updated := next_timestamp (ld_snapshot ld) now\<rparr>)"
      and append: "wf_append env K_validation_run ((ld_snapshot ld)\<lparr>sn_updated := next_timestamp (ld_snapshot ld) now\<rparr>) (Some l) False s1 =
        (st', Inr ((ld_snapshot ld)\<lparr>sn_updated := next_timestamp (ld_snapshot ld) now\<rparr>))"
      by (auto simp: register_validation_run_def Let_def wf_results split: if_splits dest!: lease_of_Inr)
    then obtain ld' where ap: "append_event env s1 K_validation_run ((ld_snapshot ld)\<lparr>sn_updated := next_timestamp (ld_snapshot ld) now\<rparr>) (Some l) False = Inr (st', ld')"
      by (auto simp: wf_results)
    have v: "valid env ((ld_snapshot ld)\<lparr>sn_updated := next_timestamp (ld_snapshot ld) now\<rparr>)"
      using valid_change [OF u, of "ld_snapshot ld"] loaded_state_valid [OF load] by simp
    from append_reads [OF ap assms v] l(2) have log: "read_log env st' = Inr ld'"
      "ld_snapshot ld' = (ld_snapshot ld)\<lparr>sn_updated := next_timestamp (ld_snapshot ld) now\<rparr>" by simp_all
    have "ld_run ld' = Some l" using append_event_Inr [OF ap] by (auto simp: next_validation_run_def res_iffs split: if_splits)
    then have "run_registered c r ld'" using log(2) s l(1) by (simp add: run_registered_def)
    with log s m True show ?thesis by auto
  qed
qed

lemma leads_step':
  assumes "stays env I m" "plain m" "returns P m" "\<And>e p. I p \<Longrightarrow> E (Raised e) p" "\<And>x. P x \<Longrightarrow> leads env I (f x) Q E"
  shows "leads env I (wf_bind m f) Q E"
proof (rule leads_bind)
  show "leads env I m (\<lambda>x q. P x \<and> I q) E"
    unfolding leads_def
  proof (intro allI impI)
    fix st p assume p: "read_log env st = Inr p \<and> I p"
    then obtain q where "read_log env (fst (m st)) = Inr q" "I q" using assms(1) unfolding stays_def by blast
    then show "\<exists>q. read_log env (fst (m st)) = Inr q \<and> (case snd (m st) of Inl e \<Rightarrow> E e q | Inr x \<Rightarrow> P x \<and> I q)"
      using assms(2-4) by (cases "m st"; cases "snd (m st)") (auto simp: plain_def returns_def, metis)
  qed
  show "leads env (\<lambda>q. P x \<and> I q) (f x) Q E" for x
    using assms(5) [of x] by (cases "P x") (auto simp: leads_def)
qed

lemma recoverable_simps [simp]:
  "recoverable (Raised e) q \<longleftrightarrow> in_states ({GENERATING, VALIDATING} \<union> closed_states) q"
  "recoverable SandboxRunRejected q \<longleftrightarrow> in_states ({GENERATING, VALIDATING} \<union> closed_states) q"
  "recoverable LateSandboxResult q \<longleftrightarrow> in_states closed_states q"
  by (simp_all add: recoverable_def)

lemma registered_states: "run_registered c r q \<Longrightarrow> in_states validating_states q"
  by (auto simp: run_registered_def)

lemma recoverableI:
  "in_states validating_states q \<Longrightarrow> recoverable (Raised e) q" "run_registered c r q \<Longrightarrow> recoverable (Raised e) q"
  by (auto dest: registered_states)

lemma covers_registered: "covers (run_registered c r) closed_states"
  by (simp add: covers_def run_registered_def)

lemma checkpoint_leads:
  assumes "digest_function (rp_sha256 env)"
  shows "leads env (run_registered c (so_run o')) (checkpoint_validation_result env now c o')
    (\<lambda>_. in_states validating_states) recoverable"
  unfolding checkpoint_validation_result_def
proof (rule leads_step' [OF stays_builds(3) plain_ops(6) returns_builds(3)])
  fix v assume v: "validation_ok v"
  show "leads env (run_registered c (so_run o')) (wf_bind (validation_lease_of (so_run o')) (\<lambda>expected.
     wf_bind (wf_load env) (\<lambda>loaded.
     let s = ld_snapshot loaded in
     if sn_state s \<noteq> VALIDATING \<or> sn_candidate s \<noteq> Some c \<or> sn_validation s \<noteq> None \<or> ld_run loaded \<noteq> Some expected
     then wf_fail LateSandboxResult
     else wf_bind (wf_replace env (s\<lparr>sn_updated := next_timestamp s now, sn_validation := Some v\<rparr>)) (\<lambda>checkpoint.
       wf_bind (wf_append env K_validation_result checkpoint None False) (\<lambda>_. wf_return ())))))
    (\<lambda>_. in_states validating_states) recoverable"
  proof (rule leads_step' [OF stays_builds(5) plain_ops(8), where P = "\<lambda>l. l = lease_record (so_run o')"])
    show "returns (\<lambda>l. l = lease_record (so_run o')) (validation_lease_of (so_run o'))"
      by (auto simp: returns_def dest: lease_of_Inr)
  next
    fix l assume l: "l = lease_record (so_run o')"
    show "leads env (run_registered c (so_run o')) (wf_bind (wf_load env) (\<lambda>loaded.
     let s = ld_snapshot loaded in
     if sn_state s \<noteq> VALIDATING \<or> sn_candidate s \<noteq> Some c \<or> sn_validation s \<noteq> None \<or> ld_run loaded \<noteq> Some l
     then wf_fail LateSandboxResult
     else wf_bind (wf_replace env (s\<lparr>sn_updated := next_timestamp s now, sn_validation := Some v\<rparr>)) (\<lambda>checkpoint.
       wf_bind (wf_append env K_validation_result checkpoint None False) (\<lambda>_. wf_return ()))))
      (\<lambda>_. in_states validating_states) recoverable"
      unfolding Let_def
      by (rule leads_loaded)
        (auto simp: l run_registered_def v intro!: leads_leaf leads_replace leads_bind [OF leads_append [OF assms, where Q = "\<lambda>_. in_states {VALIDATING}"]]
          intro: valid_change)
  qed (auto dest: registered_states)
qed (auto dest: registered_states)

lemma execute_leads:
  assumes "digest_function (rp_sha256 env)"
  shows "leads env (in_states validating_states) (execute_validation env w session c) (\<lambda>_. in_states validating_states) recoverable"
proof -
  have sub: "closed_states \<subseteq> validating_states" by blast
  note gap = stays_interrupts [OF assms covers_in_states [OF sub]] plain_leaf(10)
  note release = stays_unregistered [OF assms sub] plain_unregistered
  show ?thesis
  proof (cases "sb_created w")
    case (CreateRaised e)
    show ?thesis unfolding execute_validation_def CreateRaised container_creation.case
      by (rule leads_step [OF release]) (auto intro!: leads_leaf)
  next
    case (CreateFailed container)
    show ?thesis
    proof (cases container)
      case None
      show ?thesis unfolding execute_validation_def CreateFailed None container_creation.case option.case
        by (rule leads_step [OF release]) (auto intro!: leads_leaf)
    next
      case (Some name)
      have "stays env (in_states validating_states) (if ok then wf_return () else release_unregistered env w session c (Some r))"
        "plain (if ok then wf_return () else release_unregistered env w session c (Some r))" for ok r
        using release by (simp_all add: stays_leaf plain_leaf)
      note final = leads_step [OF this]
      show ?thesis unfolding execute_validation_def CreateFailed Some container_creation.case option.case Let_def
        by (rule leads_step [OF gap], erule recoverableI, rule leads_step [OF stays_register(2) [OF assms] plain_ops(2)],
            erule recoverableI, rule final, erule recoverableI, rule leads_leaf, erule recoverableI)
    qed
  next
    case (Created container)
    let ?r = "sandbox_run_of w session c container"
    have reg: "leads env (in_states validating_states) (wf_catch
        (wf_bind (register_validation_run env (sb_now w 3) session c ?r) (\<lambda>accepted.
          if accepted then wf_return () else wf_fail SandboxRunRejected))
        (\<lambda>e. wf_bind (release_unregistered env w session c (Some ?r)) (\<lambda>_. wf_fail e))) (\<lambda>_. run_registered c ?r) recoverable"
    proof (rule leads_catch)
      show "leads env (in_states validating_states) (wf_bind (register_validation_run env (sb_now w 3) session c ?r) (\<lambda>accepted.
          if accepted then wf_return () else wf_fail SandboxRunRejected)) (\<lambda>_. run_registered c ?r)
          (\<lambda>e q. e \<noteq> LateSandboxResult \<and> in_states validating_states q)"
        by (rule leads_bind [OF register_run_leads [OF assms]]) (auto intro!: leads_leaf)
      show "leads env (\<lambda>q. e \<noteq> LateSandboxResult \<and> in_states validating_states q)
          (wf_bind (release_unregistered env w session c (Some ?r)) (\<lambda>_. wf_fail e)) (\<lambda>_. run_registered c ?r) recoverable" for e
      proof (cases "e = LateSandboxResult")
        case False
        show ?thesis
          by (rule leads_pre [where J = "in_states validating_states"], rule leads_step [OF release])
            (use False in \<open>auto simp: recoverable_def intro!: leads_leaf\<close>)
      qed (simp add: leads_def)
    qed
    have keep: "stays env (run_registered c ?r) (wf_result (sb_report w))" "plain (wf_result (sb_report w))"
      "stays env (run_registered c ?r) (interrupts env (sb_gaps w 6))" "plain (interrupts env (sb_gaps w 6))"
      by (simp_all add: stays_leaf plain_leaf stays_interrupts [OF assms covers_registered])
    show ?thesis unfolding execute_validation_def Created container_creation.case Let_def
      by (rule leads_step [OF gap], erule recoverableI, rule leads_bind [OF reg], rule leads_step [OF keep(1,2)], erule recoverableI,
          rule leads_step [OF keep(3,4)], erule recoverableI, rule leads_bind [OF leads_pre [OF checkpoint_leads [OF assms]]],
          simp, rule leads_leaf, simp)
  qed
qed

lemma sandbox_leads:
  assumes "digest_function (rp_sha256 env)"
  shows "leads env (in_states validating_states) (run_sandbox_validation env w session c) (\<lambda>_. in_states validating_states) recoverable"
  unfolding run_sandbox_validation_def
  by (rule leads_step [OF stays_leaf(3) plain_leaf(3)], erule recoverableI,
      rule leads_step [OF stays_interrupts [OF assms covers_in_states] plain_leaf(10)], blast, erule recoverableI,
      rule leads_step [OF stays_register(1) [OF assms] plain_ops(1)], erule recoverableI)
    (auto intro: execute_leads [OF assms, simplified] intro!: leads_leaf)

lemma leads_if: "(b \<Longrightarrow> leads env I f Q E) \<Longrightarrow> (\<not> b \<Longrightarrow> leads env I g Q E) \<Longrightarrow> leads env I (if b then f else g) Q E"
  by simp

lemma begin_leads:
  assumes "digest_function (rp_sha256 env)"
  shows "leads env (in_states ({GENERATING} \<union> closed_states)) (begin_validation env now s) (\<lambda>_. in_states validating_states) recoverable"
  unfolding begin_validation_def Let_def
  by (rule leads_loaded)
    (auto intro!: leads_leaf leads_replace leads_append [OF assms] intro: valid_change)

lemma finish_leads:
  assumes "digest_function (rp_sha256 env)"
  shows "leads env (in_states validating_states) (finish_validation env safe now now' c o' s)
    (\<lambda>_. in_states ({VALIDATED} \<union> closed_states)) recoverable"
proof -
  have closing: "leads env (\<lambda>q. q = ld) (wf_bind (wf_replace env t) (\<lambda>u. persist_terminal env safe now' K_failed u True))
      (\<lambda>_. in_states ({VALIDATED} \<union> closed_states)) recoverable"
    if "sn_state t = FAILED" "snapshot_ok (rp_unicode env) t \<Longrightarrow> valid env t" "sn_state (ld_snapshot ld) = VALIDATING" for ld t
    unfolding persist_terminal_def
  proof (rule leads_replace)
    assume "snapshot_ok (rp_unicode env) t"
    then have v: "valid env t" by (rule that)
    have "leads env (in_states closed_states) (wf_bind (record_cleanup env safe now' t False) (\<lambda>(cleaned, _). wf_return cleaned))
        (\<lambda>_. in_states ({VALIDATED} \<union> closed_states)) recoverable"
      by (rule leads_step [OF stays_record_cleanup [OF assms v covers_in_states [OF order_refl]] plain_ops(9)])
        (auto simp: that intro!: leads_leaf split: prod.split)
    then show "leads env (\<lambda>q. q = ld) (wf_bind (wf_append env K_failed t None True) (\<lambda>stored.
        wf_bind (record_cleanup env safe now' stored False) (\<lambda>(cleaned, _). wf_return cleaned)))
        (\<lambda>_. in_states ({VALIDATED} \<union> closed_states)) recoverable"
      by (intro leads_bind [OF leads_append [OF assms v, where Q = "\<lambda>u q. u = t \<and> in_states closed_states q"]])
        (auto simp: that leads_def)
  qed (use that in auto)
  have failing: "leads env (\<lambda>q. q = ld) (wf_bind (build_failure code stage at) (\<lambda>f. wf_bind (wf_replace env ((ld_snapshot ld)\<lparr>sn_state := FAILED,
      sn_updated := at, sn_failure := Some f, sn_cleanup_pending := True\<rparr>)) (g f))) (\<lambda>_. in_states ({VALIDATED} \<union> closed_states)) recoverable"
    if "sn_state (ld_snapshot ld) = VALIDATING"
      "\<And>f t. failure_ok f \<Longrightarrow> t = (ld_snapshot ld)\<lparr>sn_state := FAILED, sn_updated := at, sn_failure := Some f, sn_cleanup_pending := True\<rparr> \<Longrightarrow>
        leads env (\<lambda>q. q = ld) (wf_bind (wf_replace env t) (g f)) (\<lambda>_. in_states ({VALIDATED} \<union> closed_states)) recoverable" for ld code stage at g
    by (rule leads_step' [OF stays_builds(2) plain_ops(5) returns_builds(2)]) (use that in auto)
  have cleanup: "leads env (\<lambda>q. q = ld) (wf_bind (wf_replace env t) (\<lambda>failed. wf_bind (wf_append env K_failed failed None False) (\<lambda>result.
      raise_error CLEANUP_FAILED CLEANUP (sn_state result)))) (\<lambda>_. in_states ({VALIDATED} \<union> closed_states)) recoverable"
    if "sn_state t = FAILED" "snapshot_ok (rp_unicode env) t \<Longrightarrow> valid env t" "sn_state (ld_snapshot ld) = VALIDATING" for ld t
    by (rule leads_replace, rule leads_bind [OF leads_append [OF assms that(2), where Q = "\<lambda>_. in_states closed_states"]])
      (auto simp: that intro!: leads_leaf)
  have success: "leads env (\<lambda>q. q = ld) (wf_bind (wf_replace env t) (\<lambda>validated. wf_append env K_validated validated None True))
      (\<lambda>_. in_states ({VALIDATED} \<union> closed_states)) recoverable"
    if "sn_state t = VALIDATED" "snapshot_ok (rp_unicode env) t \<Longrightarrow> valid env t" "sn_state (ld_snapshot ld) = VALIDATING" for ld t
    by (rule leads_replace, rule leads_append [OF assms that(2)]) (auto simp: that)
  note branches = failing [OF _ cleanup] failing [OF _ closing] success
  show ?thesis
    unfolding finish_validation_def Let_def
  proof (rule leads_step [OF stays_builds(3) plain_ops(6)], erule recoverableI, rule leads_step [OF stays_builds(5) plain_ops(8)],
        erule recoverableI, rule leads_loaded, goal_cases)
    case (1 v l ld)
    show ?case
    proof (intro leads_if, goal_cases)
      case 1
      then show ?case using \<open>in_states validating_states ld\<close> by (intro leads_leaf) auto
    next
      case 2
      then show ?case by (intro leads_leaf) simp
    next
      case 3
      then show ?case using \<open>valid env (ld_snapshot ld)\<close> by (intro branches(1)) (auto intro: valid_change)
    next
      case 4
      then show ?case using \<open>valid env (ld_snapshot ld)\<close> by (intro branches(3)) (auto intro: valid_change)
    next
      case 5
      then show ?case using \<open>valid env (ld_snapshot ld)\<close> by (intro branches(2)) (auto intro: valid_change)
    qed
  qed (erule recoverableI)
qed

lemma again_leads:
  assumes "digest_function (rp_sha256 env)" "sn_state (ld_snapshot p) = GENERATING" "sn_candidate (ld_snapshot p) \<noteq> None"
  shows "leads env (\<lambda>q. q = p) (validate_again env w session) (\<lambda>_. in_states ({VALIDATED} \<union> closed_states)) recoverable"
proof -
  let ?I = "\<lambda>q. in_states closed_states q \<or> q = p" and ?J = "in_states ({GENERATING} \<union> closed_states)"
  let ?Q = "\<lambda>(_ :: repair_snapshot). in_states ({VALIDATED} \<union> closed_states)"
  have cover: "covers ?I closed_states" "covers ?J closed_states" "covers (in_states validating_states) closed_states"
    by (auto simp: covers_def)
  have J: "?J q \<Longrightarrow> recoverable (Raised e) q" for q e by auto
  have validate: "leads env ?J (wf_bind (wf_result (sb_opened w)) (\<lambda>_.
         wf_bind (interrupts env (sb_gaps w 1)) (\<lambda>_.
         wf_bind (begin_validation env (sb_now w 1) s) (\<lambda>validating.
         wf_bind (run_sandbox_validation env w session c) (\<lambda>outcome.
         wf_bind (wf_result (sb_left w)) (\<lambda>_.
         wf_bind (interrupts env (sb_gaps w 7)) (\<lambda>_.
           finish_validation env (sb_safe w) (sb_now w 7) (sb_now w 8) c outcome validating))))))) ?Q recoverable" for s c
    by (rule leads_step [OF stays_leaf(3) plain_leaf(3)], erule J,
        rule leads_step [OF stays_interrupts [OF assms(1) cover(2)] plain_leaf(10)], erule J,
        rule leads_bind [OF begin_leads [OF assms(1)]], rule leads_bind [OF sandbox_leads [OF assms(1)]],
        rule leads_step [OF stays_leaf(3) plain_leaf(3)], erule recoverableI,
        rule leads_step [OF stays_interrupts [OF assms(1) cover(3)] plain_leaf(10)], erule recoverableI,
        rule finish_leads [OF assms(1)])
  have "leads env ?I (validate_again env w session) ?Q recoverable"
    unfolding validate_again_def
  proof (rule leads_step [OF stays_interrupts [OF assms(1) cover(1)] plain_leaf(10)])
    show "leads env ?I (wf_bind (wf_load env) (\<lambda>loaded.
     let s = ld_snapshot loaded in
     if sn_state s \<noteq> GENERATING then wf_return s
     else case sn_candidate s of
       None \<Rightarrow> wf_return s
     | Some candidate \<Rightarrow>
         wf_bind (wf_result (sb_opened w)) (\<lambda>_.
         wf_bind (interrupts env (sb_gaps w 1)) (\<lambda>_.
         wf_bind (begin_validation env (sb_now w 1) s) (\<lambda>validating.
         wf_bind (run_sandbox_validation env w session candidate) (\<lambda>outcome.
         wf_bind (wf_result (sb_left w)) (\<lambda>_.
         wf_bind (interrupts env (sb_gaps w 7)) (\<lambda>_.
           finish_validation env (sb_safe w) (sb_now w 7) (sb_now w 8) candidate outcome validating)))))))) ?Q recoverable"
    proof (rule leads_loaded, goal_cases)
      case (1 ld)
      show ?case
      proof (cases "sn_state (ld_snapshot ld) = GENERATING")
        case False
        with 1 assms(2) show ?thesis by (auto simp: Let_def intro!: leads_leaf)
      next
        case True
        with 1 have "ld = p" by auto
        then obtain c where c: "sn_candidate (ld_snapshot ld) = Some c" using assms(3) by auto
        show ?thesis unfolding Let_def c option.case using True
          by (simp only: True not_True_eq_False if_False simp_thms) (rule leads_pre [OF validate], simp add: True)
      qed
    qed (use assms(2) in auto)
  qed (use assms(2) in auto)
  then show ?thesis by (rule leads_pre) simp
qed

text \<open>After an ordinary error the failure is recorded.\<close>

lemma stays_closed_terminal:
  assumes "digest_function (rp_sha256 env)" "valid env t" "sn_state t \<in> closed_states"
  shows "stays env (in_states closed_states) (wf_bind (record_cleanup env safe now t clear) (\<lambda>(cleaned, _). wf_return cleaned))"
    and "stays env (in_states closed_states) (cleanup_terminal_validation_run env removed safe now t lease)"
  using stays_record_cleanup [OF assms(1,2) covers_in_states [OF order_refl] assms(3)]
    stays_cleanup_run [OF assms(1,2) covers_in_states [OF order_refl] assms(3)]
  by (auto intro!: stays_bind stays_leaf split: prod.split)

lemma plain_cleanup_run: "plain (cleanup_terminal_validation_run env removed safe now t lease)"
  unfolding cleanup_terminal_validation_run_def by (auto intro!: plain_bind plain_leaf plain_ops split: prod.split)

lemma failure_leads:
  assumes "digest_function (rp_sha256 env)"
  shows "leads env (in_states ({GENERATING, VALIDATING} \<union> closed_states))
    (persist_proposal_failure env removed safe now now' code stage) (\<lambda>_. in_states closed_states)
    (\<lambda>_. in_states ({GENERATING, VALIDATING} \<union> closed_states))" (is "leads env ?I ?m ?Q ?E")
proof -
  have close: "leads env (\<lambda>q. q = ld) (wf_bind (wf_replace env t) (\<lambda>failed. case run of
         None \<Rightarrow> persist_terminal env safe now' K_failed failed False
       | Some lease \<Rightarrow> wf_bind (wf_append env K_failed failed None False) (\<lambda>stored.
             cleanup_terminal_validation_run env removed safe now' stored lease))) ?Q ?E"
    if t: "sn_state t = FAILED" "snapshot_ok (rp_unicode env) t \<Longrightarrow> valid env t" "?I ld" for ld t run
  proof (rule leads_replace)
    assume "snapshot_ok (rp_unicode env) t"
    then have v: "valid env t" by (rule t(2))
    have append: "leads env (\<lambda>q. q = ld) (wf_append env K_failed t None False) (\<lambda>u q. u = t \<and> in_states closed_states q) ?E"
      by (rule leads_append [OF assms v]) (use t in auto)
    note after = stays_closed_terminal [OF assms v, unfolded t(1)]
    have "leads env (in_states closed_states) (wf_bind (record_cleanup env safe now' t False) (\<lambda>(cleaned, _). wf_return cleaned)) ?Q ?E"
      by (rule leads_stays [OF after(1)]) (auto intro!: plain_bind plain_leaf plain_ops split: prod.split)
    moreover have "leads env (in_states closed_states) (cleanup_terminal_validation_run env removed safe now' t lease) ?Q ?E" for lease
      by (rule leads_stays [OF after(2) plain_cleanup_run]) auto
    ultimately have
      "leads env (\<lambda>q. u = t \<and> in_states closed_states q) (wf_bind (record_cleanup env safe now' u False) (\<lambda>(cleaned, _). wf_return cleaned)) ?Q ?E"
      "leads env (\<lambda>q. u = t \<and> in_states closed_states q) (cleanup_terminal_validation_run env removed safe now' u lease) ?Q ?E" for u lease
      by (cases "u = t"; simp add: leads_def)+
    then show "leads env (\<lambda>q. q = ld) (case run of
         None \<Rightarrow> persist_terminal env safe now' K_failed t False
       | Some lease \<Rightarrow> wf_bind (wf_append env K_failed t None False) (\<lambda>stored.
             cleanup_terminal_validation_run env removed safe now' stored lease)) ?Q ?E"
      unfolding persist_terminal_def by (cases run; simp only: option.case; intro leads_bind [OF append])
  qed (use t in auto)
  show ?thesis
    unfolding persist_proposal_failure_def Let_def
  proof (rule leads_loaded, intro leads_if, goal_cases)
    case (1 ld)
    then show ?case by (intro leads_leaf) (auto simp: is_terminal_def terminal_states_def)
  next
    case (2 ld)
    then show ?case by (auto simp: is_terminal_def terminal_states_def)
  next
    case (3 ld)
    note ld = 3
    show ?case
    proof (rule leads_step' [OF stays_builds(2) plain_ops(5) returns_builds(2)])
      fix f assume f: "failure_ok f"
      show "leads env (\<lambda>q. q = ld) (wf_bind (wf_replace env ((ld_snapshot ld)\<lparr>sn_state := FAILED,
          sn_updated := next_timestamp (ld_snapshot ld) now, sn_failure := Some f, sn_cleanup_pending := True\<rparr>)) (\<lambda>failed.
          case ld_run ld of
            None \<Rightarrow> persist_terminal env safe now' K_failed failed False
          | Some lease \<Rightarrow> wf_bind (wf_append env K_failed failed None False) (\<lambda>stored.
              cleanup_terminal_validation_run env removed safe now' stored lease))) ?Q ?E"
        by (rule close) (use ld f in \<open>auto intro: valid_change\<close>)
    qed (use ld in auto)
  qed simp
qed

lemma recover_candidate_leads:
  assumes "digest_function (rp_sha256 env)" "sn_state (ld_snapshot p) = GENERATING" "sn_candidate (ld_snapshot p) \<noteq> None"
  shows "leads env (\<lambda>q. q = p) (recover_candidate_validation env removed safe now now' w session)
    (\<lambda>r q. r \<noteq> None \<longrightarrow> in_states ({VALIDATED} \<union> closed_states) q) (\<lambda>_ _. True)" (is "leads env _ _ ?Q ?E")
  unfolding recover_candidate_validation_def
proof (rule leads_catch [where F = recoverable])
  show "leads env (\<lambda>q. q = p) (wf_bind (validate_again env w session) (\<lambda>s. wf_return (Some s))) ?Q recoverable"
    by (rule leads_bind [OF again_leads [OF assms]], rule leads_leaf) simp
  show "leads env (recoverable e) (case e of
         LateSandboxResult \<Rightarrow> wf_bind (wf_load env) (\<lambda>loaded. wf_return (Some (ld_snapshot loaded)))
       | SandboxRunRejected \<Rightarrow> wf_bind (converge_rejected_sandbox_run env) (\<lambda>s. wf_return (Some s))
       | Raised r \<Rightarrow>
           wf_bind (interrupts env (sb_gaps w 8)) (\<lambda>_.
           wf_catch (wf_bind (persist_proposal_failure env removed safe now now'
               (fst (recovery_failure r)) (snd (recovery_failure r))) (\<lambda>s. wf_return (Some s)))
             (\<lambda>_. wf_return None))) ?Q ?E" for e
  proof (cases e)
    case (Raised r)
    let ?I = "in_states ({GENERATING, VALIDATING} \<union> closed_states)"
    have cover: "covers ?I closed_states" by (rule covers_in_states) blast
    have "leads env ?I (wf_bind (interrupts env (sb_gaps w 8)) (\<lambda>_.
           wf_catch (wf_bind (persist_proposal_failure env removed safe now now'
               (fst (recovery_failure r)) (snd (recovery_failure r))) (\<lambda>s. wf_return (Some s)))
             (\<lambda>_. wf_return None))) ?Q ?E"
      by (rule leads_step [OF stays_interrupts [OF assms(1) cover] plain_leaf(10)], simp, rule leads_catch [OF leads_bind [OF failure_leads [OF assms(1)]]])
        (auto intro!: leads_leaf)
    then show ?thesis by (simp add: Raised recoverable_def)
  next
    case LateSandboxResult
    then show ?thesis by (simp add: recoverable_def) (rule leads_loaded, auto intro!: leads_leaf)
  next
    case SandboxRunRejected
    then show ?thesis
      by (auto simp: recoverable_def converge_rejected_sandbox_run_def Let_def intro!: leads_bind [OF leads_loaded [where Q = "\<lambda>_. in_states closed_states"]] leads_if leads_leaf)
  qed
qed

section \<open>The recovery keeps the log\<close>

lemma sound_any: "sound env sid Q m \<Longrightarrow> sound env sid (\<lambda>_. True) m"
  by (erule sound_mono) simp

lemma sound_catch:
  assumes "sound env sid Q m" "\<And>e. sound env sid Q (h e)"
  shows "sound env sid Q (wf_catch m h)"
  unfolding sound_def
proof (intro allI impI)
  fix st p assume st: "read_log env st = Inr p \<and> ss_session st = sid"
  obtain st1 r where m: "m st = (st1, r)" by (cases "m st")
  from assms(1) st obtain q where q: "read_log env st1 = Inr q" "state_follows\<^sup>*\<^sup>* p q" "ss_session st1 = sid"
    and r: "\<forall>x. r = Inr x \<longrightarrow> Q x"
    unfolding sound_def by (metis fst_conv m snd_conv)
  show "(\<exists>q. read_log env (fst (wf_catch m h st)) = Inr q \<and> state_follows\<^sup>*\<^sup>* p q) \<and>
    ss_session (fst (wf_catch m h st)) = sid \<and> (\<forall>x. snd (wf_catch m h st) = Inr x \<longrightarrow> Q x)"
  proof (cases r)
    case (Inl e)
    then have h: "wf_catch m h st = h e st1" using m by (simp add: wf_catch_def)
    from assms(2) [of e] q obtain q' where "read_log env (fst (h e st1)) = Inr q'" "state_follows\<^sup>*\<^sup>* q q'"
      "ss_session (fst (h e st1)) = sid" "\<forall>x. snd (h e st1) = Inr x \<longrightarrow> Q x"
      unfolding sound_def by blast
    then show ?thesis using q(2) unfolding h by (meson rtranclp_trans)
  next
    case (Inr x)
    then show ?thesis using q r m by (auto simp: wf_catch_def)
  qed
qed

lemma sound_interrupts:
  assumes "digest_function (rp_sha256 env)"
  shows "sound env sid (\<lambda>_. True) (interrupts env os)"
  unfolding sound_def
proof (intro allI impI)
  fix st p assume "read_log env st = Inr p \<and> ss_session st = sid"
  then have "\<exists>q. read_log env (fold (interrupt env) os st) = Inr q \<and> state_follows\<^sup>*\<^sup>* p q \<and> ss_session (fold (interrupt env) os st) = sid"
  proof (induction os arbitrary: st p)
    case (Cons i os)
    have "sound env sid (\<lambda>_. True) (\<lambda>st. (interrupt env i st, Inr ()))"
      using sound_close_session [OF assms] sound_proposal_failure [OF assms]
      by (cases i) (simp_all add: sound_def cancel_def expire_def)
    with Cons.prems obtain q where q: "read_log env (interrupt env i st) = Inr q" "state_follows\<^sup>*\<^sup>* p q" "ss_session (interrupt env i st) = sid"
      by (auto simp: sound_def)
    with Cons.IH [of "interrupt env i st" q] show ?case by (simp, meson rtranclp_trans)
  qed auto
  then show "(\<exists>q. read_log env (fst (interrupts env os st)) = Inr q \<and> state_follows\<^sup>*\<^sup>* p q) \<and>
    ss_session (fst (interrupts env os st)) = sid \<and> (\<forall>x. snd (interrupts env os st) = Inr x \<longrightarrow> True)"
    by (auto simp: interrupts_def)
qed

lemma sound_then: "sound env sid P m \<Longrightarrow> (\<And>x. sound env sid Q (f x)) \<Longrightarrow> sound env sid Q (wf_bind m f)"
  by (rule sound_bind)

lemma sound_unregistered:
  "digest_function (rp_sha256 env) \<Longrightarrow> sound env sid (\<lambda>_. True) (release_unregistered env w session c identity)"
  unfolding release_unregistered_def
  by (auto split: option.split intro!: sound_return sound_then [OF sound_interrupts] sound_then [OF sound_release(1)]
      sound_then [OF sound_release(2)] sound_then [OF sound_return, where P = "\<lambda>_. True"])

lemma sound_execute:
  assumes "digest_function (rp_sha256 env)"
  shows "sound env sid (\<lambda>_. True) (execute_validation env w session c)"
  unfolding execute_validation_def Let_def
  by (auto split: container_creation.split option.split
      intro!: sound_return sound_fail sound_catch sound_result sound_unregistered assms sound_then [OF sound_unregistered [OF assms]]
        sound_then [OF sound_interrupts [OF assms]] sound_then [OF sound_register(2) [OF assms]]
        sound_then [OF sound_checkpoint [OF assms]] sound_then [OF sound_result [where Q = "\<lambda>_. True"]]
        sound_then [where P = "\<lambda>_. True"])

lemma sound_sandbox:
  assumes "digest_function (rp_sha256 env)"
  shows "sound env sid (\<lambda>_. True) (run_sandbox_validation env w session c)"
  unfolding run_sandbox_validation_def
  by (auto intro!: sound_fail sound_execute assms sound_then [OF sound_result [where Q = "\<lambda>_. True"]]
        sound_then [OF sound_interrupts [OF assms]] sound_then [OF sound_register(1) [OF assms]])

lemma sound_again:
  assumes "digest_function (rp_sha256 env)"
  shows "sound env sid (\<lambda>_. True) (validate_again env w session)"
  unfolding validate_again_def Let_def
  by (auto split: option.split intro!: sound_return sound_then [OF sound_interrupts [OF assms]] sound_loaded
        sound_then [OF sound_result [where Q = "\<lambda>_. True"]] sound_then [OF sound_begin_validation [OF assms]]
        sound_then [OF sound_sandbox [OF assms]] sound_any [OF sound_finish [OF assms]])

lemma sound_recover_candidate:
  assumes "digest_function (rp_sha256 env)"
  shows "sound env sid (\<lambda>_. True) (recover_candidate_validation env removed safe now now' w session)"
  unfolding recover_candidate_validation_def converge_rejected_sandbox_run_def Let_def
  by (rule sound_catch, rule sound_then [OF sound_again [OF assms]], rule sound_return, simp)
    (auto split: wf_error.split intro!: sound_return sound_raise sound_loaded sound_catch sound_then [OF sound_interrupts [OF assms]]
        sound_then [OF sound_proposal_failure [OF assms]] sound_then [OF sound_loaded, where P = "\<lambda>_. True"])

end
