(* ===== verification/Repair_Workflow_Properties.thy ===== *)
theory Repair_Workflow_Properties
  imports Repair_Recovery_Facts Repair_Demo_Session
begin

text \<open>
  Properties of the operations on a session and of sequences of them.
\<close>

section \<open>Sequences of operations\<close>

text \<open>One operation on a session, with whatever the caller passes and the outside answers.\<close>

inductive session_step :: "repair_env \<Rightarrow> session_store \<Rightarrow> session_store \<Rightarrow> bool" for env where
  begin_generation: "begin_generation env now capable st = (st', r) \<Longrightarrow> session_step env st st'"
| candidate: "candidate_ok (rp_unicode env) c \<Longrightarrow>
    persist_candidate_checkpoint env now s c preview payloads st = (st', r) \<Longrightarrow> session_step env st st'"
| begin_validation: "begin_validation env now s st = (st', r) \<Longrightarrow> session_step env st st'"
| intent: "register_validation_intent env now session c i st = (st', ok) \<Longrightarrow> session_step env st st'"
| run: "register_validation_run env now session c rn st = (st', ok) \<Longrightarrow> session_step env st st'"
| release_intent: "release_validation_intent env safe now session c i st = (st', ok) \<Longrightarrow> session_step env st st'"
| release_run: "release_validation_run env safe now session c rn st = (st', ok) \<Longrightarrow> session_step env st st'"
| result: "checkpoint_validation_result env now c out st = (st', u) \<Longrightarrow> session_step env st st'"
| finish: "finish_validation env safe now now' c out s st = (st', r) \<Longrightarrow> session_step env st st'"
| fail: "persist_proposal_failure env removed safe now now' code stage st = (st', r) \<Longrightarrow> session_step env st st'"
| approve: "approve env now subject cid vid confirmation st = (st', r) \<Longrightarrow> session_step env st st'"
| reject: "reject env safe now now' subject reason cid st = (st', r) \<Longrightarrow> session_step env st st'"
| apply_candidate: "apply_candidate env safe now now' now'' opened revalidated ref a st = (st', r) \<Longrightarrow> session_step env st st'"
| cancel: "cancel env safe now1 now2 now3 now4 ref removed subject reason st = (st', r) \<Longrightarrow> session_step env st st'"
| expire: "expire env safe now1 now2 now3 now4 ref removed st = (st', r) \<Longrightarrow> session_step env st st'"
| cleanup: "cleanup_session env removed safe now days now_us st = (st', m) \<Longrightarrow> session_step env st st'"
| recover: "recover_session env removed safe now now' ref w st = (st', m') \<Longrightarrow> session_step env st st'"

lemma sound_handle:
  assumes "sound env sid P m" "\<And>x. P x \<Longrightarrow> sound env sid Q (f x)" "Q y"
  shows "sound env sid Q (\<lambda>st. case m st of (st', Inl e) \<Rightarrow> (st', Inr y) | (st', Inr x) \<Rightarrow> f x st')"
    (is "sound env sid Q ?h")
  unfolding sound_def
proof (intro allI impI)
  fix st p assume st: "read_log env st = Inr p \<and> ss_session st = sid"
  obtain st1 r where m: "m st = (st1, r)" by (cases "m st")
  show "(\<exists>q. read_log env (fst (?h st)) = Inr q \<and> state_follows\<^sup>*\<^sup>* p q) \<and> ss_session (fst (?h st)) = sid \<and>
    (\<forall>x. snd (?h st) = Inr x \<longrightarrow> Q x)"
  proof (cases r)
    case (Inl e)
    then show ?thesis using assms(1,3) st m unfolding sound_def by (simp split: prod.splits) (metis fst_conv)
  next
    case (Inr x)
    then have eq: "?h st = wf_bind m f st" using m by (simp add: wf_bind_def)
    have "sound env sid Q (wf_bind m f)" by (rule sound_bind [OF assms(1)]) (rule assms(2))
    then show ?thesis using st unfolding sound_def eq by blast
  qed
qed

lemma sound_cleanup_session:
  assumes "digest_function (rp_sha256 env)"
  shows "sound env sid (\<lambda>_. True) (cleanup_session env removed safe now days now_us)"
proof -
  let ?m = "wf_bind (wf_load env) (\<lambda>loaded.
         let s = ld_snapshot loaded in
         if \<not> is_terminal (sn_state s) then wf_return (no_maintenance, False)
         else wf_bind (retry_terminal_cleanup env removed safe now s (ld_run loaded)) (\<lambda>(s', cleaned).
           if sn_cleanup_pending s' then wf_return (no_maintenance\<lparr>mr_cleanup_pending := True\<rparr>, False)
           else wf_bind (wf_result (terminal_timestamp s')) (\<lambda>at.
             wf_return (no_maintenance\<lparr>mr_cleaned := cleaned\<rparr>,
               at + days * 24 * 60 * 60 * 1000000 \<le> now_us))))"
  let ?y = "(no_maintenance\<lparr>mr_failed := True\<rparr>, False)"
  have "cleanup_session env removed safe now days now_us =
      (\<lambda>st. case ?m st of (st', Inl e) \<Rightarrow> (st', Inr ?y) | (st', Inr x) \<Rightarrow> wf_return x st')"
    by (rule ext) (simp add: cleanup_session_def wf_return_def split: prod.split sum.split)
  moreover have "sound env sid (\<lambda>_. True) ?m"
    unfolding Let_def
    by (rule sound_loaded)
      (auto intro!: sound_return sound_bind [OF sound_retry_cleanup [OF assms]] sound_bind [OF sound_result [where Q = "\<lambda>_. True"]]
        split: if_splits)
  ultimately show ?thesis by (simp only:) (rule sound_handle [where P = "\<lambda>_. True"], auto intro: sound_return)
qed

lemma sound_session_cong:
  "sound env sid Q m \<Longrightarrow> (\<And>st. ss_session st = sid \<Longrightarrow> m' st = m st) \<Longrightarrow> sound env sid Q m'"
  by (simp add: sound_def)

lemma sound_recover_session:
  assumes "digest_function (rp_sha256 env)"
  shows "sound env sid (\<lambda>_. True) (recover_session env removed safe now now' read_ref w)"
proof -
  let ?f = "\<lambda>loaded. let s = ld_snapshot loaded in
      if sn_state s = GENERATING \<and> sn_candidate s \<noteq> None
      then wf_bind (recover_candidate_validation env removed safe now now' w sid) (\<lambda>final. case final of
          None \<Rightarrow> wf_return (no_maintenance\<lparr>mr_failed := True\<rparr>)
        | Some t \<Rightarrow> wf_return (recovered_result t))
      else if sn_state s \<in> {GENERATING, VALIDATING}
      then or_failed (wf_bind (persist_proposal_failure env removed safe now now' RECOVERY_FAILED RECOVERY) (\<lambda>t.
        wf_return ((recovered_result t)\<lparr>mr_cleaned :=
          (sn_state s = VALIDATING \<or> is_terminal (sn_state t)) \<and> \<not> sn_cleanup_pending t\<rparr>)))
      else if sn_state s = APPLYING
      then or_failed (wf_bind (wf_load env) (\<lambda>again.
        if sn_state (ld_snapshot again) \<noteq> APPLYING
        then wf_return (no_maintenance\<lparr>mr_cleanup_pending := sn_cleanup_pending (ld_snapshot again)\<rparr>)
        else wf_bind (reconcile_applying env safe now now' read_ref (ld_snapshot again)) (\<lambda>(t, _).
          wf_return ((recovered_result t)\<lparr>mr_cleaned := sn_state t = APPLIED \<and> \<not> sn_cleanup_pending t\<rparr>))))
      else wf_return (no_maintenance\<lparr>mr_cleanup_pending := sn_cleanup_pending s\<rparr>)"
  have "sound env sid (\<lambda>_. True) (?f loaded)" if "event_state env sid loaded" for loaded
    unfolding Let_def
    by (auto split: option.split intro!: sound_return sound_or_failed sound_bind [OF sound_recover_candidate [OF assms(1)]]
      sound_bind [OF sound_proposal_failure [OF assms(1)]] sound_loaded sound_bind [OF sound_reconcile [OF assms(1)]])
  then have "sound env sid (\<lambda>_. True) (\<lambda>st. case wf_load env st of
      (st', Inl e) \<Rightarrow> (st', Inr (no_maintenance\<lparr>mr_failed := True\<rparr>)) | (st', Inr loaded) \<Rightarrow> ?f loaded st')"
    by (intro sound_handle [OF sound_load]) simp_all
  then show ?thesis
    by (rule sound_session_cong) (simp add: recover_session_def Let_def split: prod.split sum.split)
qed

lemma soundD:
  "sound env sid Q m \<Longrightarrow> m st = (st', r) \<Longrightarrow> read_log env st = Inr p \<Longrightarrow> ss_session st = sid \<Longrightarrow>
     \<exists>q. read_log env st' = Inr q \<and> state_follows\<^sup>*\<^sup>* p q \<and> ss_session st' = sid"
  unfolding sound_def by (metis fst_conv)

lemma step_sound:
  assumes "session_step env st st'" "digest_function (rp_sha256 env)" "read_log env st = Inr p" "ss_session st = sid"
  shows "\<exists>q. read_log env st' = Inr q \<and> state_follows\<^sup>*\<^sup>* p q \<and> ss_session st' = sid"
  using assms(1)
  by cases (erule soundD [OF _ _ assms(3,4), rotated], (unfold cancel_def expire_def)?,
    (rule sound_begin_generation sound_candidate_checkpoint sound_begin_validation sound_register sound_release sound_checkpoint
      sound_finish sound_proposal_failure sound_approve sound_reject sound_apply sound_close_session sound_cleanup_session
      sound_recover_session; ((rule assms(2) TrueI)+)?; assumption?))+

lemma steps_sound:
  assumes "(session_step env)\<^sup>*\<^sup>* st st'" "digest_function (rp_sha256 env)" "read_log env st = Inr p" "ss_session st = sid"
  shows "\<exists>q. read_log env st' = Inr q \<and> state_follows\<^sup>*\<^sup>* p q \<and> ss_session st' = sid"
  using assms(1)
proof (induction rule: rtranclp_induct)
  case base
  with assms show ?case by blast
next
  case (step st1 st2)
  then obtain q where q: "read_log env st1 = Inr q" "state_follows\<^sup>*\<^sup>* p q" "ss_session st1 = sid" by blast
  from step_sound [OF step.hyps(2) assms(2) q(1,3)] q(2) show ?case by (meson rtranclp_trans)
qed

lemma follows_extends: "state_follows\<^sup>*\<^sup>* p q \<Longrightarrow> extends p q"
  by (induction rule: rtranclp_induct) (auto intro: extends_refl extends_trans state_follows_extends)

text \<open>
  C5. Operations keep the log: after a session is created, any sequence of operations, with any
  arguments, readings of the clock and answers from outside, whether they return or fail half-way,
  leaves a directory that loads, whose history is a run of the session protocol and in which nothing
  recorded before was changed.
\<close>

theorem workflow_keeps_log:
  assumes "create_session_store env sid request s = Inr st0" "snapshot_valid (rp_unicode env) s"
    and "digest_function (rp_sha256 env)" "(session_step env)\<^sup>*\<^sup>* st0 st" "(session_step env)\<^sup>*\<^sup>* st st'"
  shows "\<exists>p q ks. read_log env st = Inr p \<and> read_log env st' = Inr q \<and> extends p q \<and> session_run env sid ks q"
proof -
  from create_session_load [OF assms(1,2)] obtain ld where ld: "load env st0 = Inr (st0, ld)" "ss_session st0 = sid" by blast
  from steps_sound [OF assms(4,3) conjunct1 [OF load_Inr [OF ld(1)]] ld(2)] obtain p where
    p: "read_log env st = Inr p" "ss_session st = sid" by blast
  from steps_sound [OF assms(5,3) p] obtain q where
    q: "read_log env st' = Inr q" "state_follows\<^sup>*\<^sup>* p q" "ss_session st' = sid" by blast
  with load_run [OF q(1)] p follows_extends show ?thesis by metis
qed

theorem workflow_keeps_log_witness:
  "\<exists>st st' p q. begin_generation demo_env 1 (Inr ()) st = (st', Inr (demo_snapshot GENERATING)) \<and>
     read_log demo_env st = Inr p \<and> read_log demo_env st' = Inr q \<and> extends p q"
proof -
  obtain st p where create: "create_session_store demo_env demo_digest (JObj []) (demo_snapshot CREATED) = Inr st"
    and p: "demo_log st p" "ld_snapshot p = demo_snapshot CREATED" "ld_sequence p = 0" using demo_start by blast
  have valid: "snapshot_valid (rp_unicode demo_env) (demo_snapshot CREATED)" "snapshot_ok (rp_unicode demo_env) (demo_snapshot GENERATING)"
    using demo_snapshot_valid(1) by (simp_all add: demo_env_def snapshot_valid_def)
  have "event_follows (Some p) K_generating (demo_snapshot GENERATING) None None"
    using demo_follows(2) p by (simp add: event_follows_def demo_log_def demo_state_def)
  from demo_append [OF p(1) demo_smalls(1) this] obtain st' q where
    q: "append_event demo_env st K_generating (demo_snapshot GENERATING) None False = Inr (st', q)" by auto
  have "(demo_snapshot CREATED)\<lparr>sn_state := GENERATING, sn_updated := next_timestamp (demo_snapshot CREATED) 1\<rparr> = demo_snapshot GENERATING"
    by (simp add: demo_snapshot_def next_timestamp_def)
  then have run: "begin_generation demo_env 1 (Inr ()) st = (st', Inr (demo_snapshot GENERATING))"
    using p q valid unfolding begin_generation_def Let_def wf_bind_Inr
    by (auto simp: wf_results demo_log_def demo_snapshot_def)
  have "(session_step demo_env)\<^sup>*\<^sup>* st st" "(session_step demo_env)\<^sup>*\<^sup>* st st'"
    using session_step.begin_generation [OF run] by auto
  from workflow_keeps_log [OF create valid(1) demo_digest_function this] run show ?thesis by blast
qed

section \<open>Operations that fail leave the log as it was\<close>

definition quiet :: "'a wf \<Rightarrow> bool" where
  "quiet m \<longleftrightarrow> (\<forall>st. fst (m st) = st)"

definition atomic :: "'a wf \<Rightarrow> bool" where
  "atomic m \<longleftrightarrow> (\<forall>st st' e. m st = (st', Inl e) \<longrightarrow> st' = st)"

lemma quiet_atomic: "quiet m \<Longrightarrow> atomic m"
  by (metis atomic_def fst_conv quiet_def)

lemma quiet_leaf:
  "quiet (wf_return x)" "quiet (wf_fail e)" "quiet (raise_error code stage state)" "quiet (raise_for_state s code stage)"
  "quiet (wf_result r)" "quiet (wf_replace env s)"
  by (simp_all add: quiet_def wf_return_def wf_fail_def raise_error_def raise_for_state_def wf_result_def wf_replace_def)

lemma atomic_bind: "quiet m \<Longrightarrow> (\<And>x. atomic (f x)) \<Longrightarrow> atomic (wf_bind m f)"
  unfolding atomic_def quiet_def wf_bind_Inl by (metis fst_conv)

lemma atomic_lift: "atomic (wf_lift f)"
  by (auto simp: atomic_def wf_results)

lemma atomic_append: "atomic (wf_append env kind s run clear)"
  by (auto simp: atomic_def wf_append_def wf_results)

lemma quiet_build: "quiet (build_approval env s subject confirmation at)"
  by (auto simp: build_approval_def split: option.split sum.split intro: quiet_leaf)

lemma approve_refused:
  assumes "approve env now subject c v confirmation st = (st', Inl e)" "read_log env st = Inr p"
  shows "read_log env st' = Inr p"
proof -
  have rest: "atomic (let s = ld_snapshot loaded in
     if sn_state s \<noteq> VALIDATED then raise_for_state s INVALID_STATE APPROVAL
     else case (sn_candidate s, sn_validation s) of
       (Some cand, Some val) \<Rightarrow>
         if \<not> va_success val then raise_error SESSION_CORRUPT PERSISTENCE (sn_state s)
         else if c \<noteq> ca_id cand \<or> v \<noteq> va_sha256 val \<or> confirmation \<noteq> approval_confirmation
         then raise_for_state s APPROVAL_MISMATCH APPROVAL
         else wf_bind (build_approval env s subject confirmation (next_timestamp s now)) (\<lambda>a.
           wf_bind (wf_replace env (s\<lparr>sn_state := APPROVED, sn_updated := next_timestamp s now,
             sn_approval := Some a\<rparr>)) (\<lambda>approved.
           wf_append env K_approved approved None False))
     | _ \<Rightarrow> raise_error SESSION_CORRUPT PERSISTENCE (sn_state s))" for loaded
    unfolding Let_def
    by (auto split: option.split intro!: atomic_bind quiet_leaf quiet_build atomic_append intro: quiet_atomic)
  from assms(1) [unfolded approve_def wf_bind_Inl] show ?thesis
  proof (elim disjE exE conjE)
    assume "wf_load env st = (st', Inl e)"
    then show ?thesis using assms(2) by (auto simp: wf_load_def wf_results)
  next
    fix st1 ld assume load: "wf_load env st = (st1, Inr ld)"
      and "(let s = ld_snapshot ld in
     if sn_state s \<noteq> VALIDATED then raise_for_state s INVALID_STATE APPROVAL
     else case (sn_candidate s, sn_validation s) of
       (Some cand, Some val) \<Rightarrow>
         if \<not> va_success val then raise_error SESSION_CORRUPT PERSISTENCE (sn_state s)
         else if c \<noteq> ca_id cand \<or> v \<noteq> va_sha256 val \<or> confirmation \<noteq> approval_confirmation
         then raise_for_state s APPROVAL_MISMATCH APPROVAL
         else wf_bind (build_approval env s subject confirmation (next_timestamp s now)) (\<lambda>a.
           wf_bind (wf_replace env (s\<lparr>sn_state := APPROVED, sn_updated := next_timestamp s now,
             sn_approval := Some a\<rparr>)) (\<lambda>approved.
           wf_append env K_approved approved None False))
     | _ \<Rightarrow> raise_error SESSION_CORRUPT PERSISTENCE (sn_state s)) st1 = (st', Inl e)"
    then have "st' = st1" using rest unfolding atomic_def by blast
    then show ?thesis using load load_read_log load_Inr assms(2) by (auto simp: wf_results)
  qed
qed

text \<open>
  C3. An approval is of what was confirmed: approving succeeds only for a validated session whose
  successful validation and candidate are the ones named, with the fixed confirmation, and the log then
  holds that very session, approved, with an approval that names both, the person, and whose digest is
  that of the record; a refused approval leaves the log as it was.
\<close>

theorem approval_of_what_was_confirmed:
  assumes "approve env now subject c v confirmation st = (st', r)" "digest_function (rp_sha256 env)"
    and "read_log env st = Inr p"
  shows "case r of
     Inl e \<Rightarrow> read_log env st' = Inr p
   | Inr t \<Rightarrow> \<exists>cand val a q. sn_state (ld_snapshot p) = VALIDATED \<and>
       sn_candidate (ld_snapshot p) = Some cand \<and> sn_validation (ld_snapshot p) = Some val \<and> va_success val \<and>
       c = ca_id cand \<and> v = va_sha256 val \<and> confirmation = approval_confirmation \<and>
       t = (ld_snapshot p)\<lparr>sn_state := APPROVED, sn_updated := next_timestamp (ld_snapshot p) now, sn_approval := Some a\<rparr> \<and>
       ap_candidate a = c \<and> ap_validation a = v \<and> ap_subject a = subject \<and> ap_confirmation a = confirmation \<and>
       rm_domain_digest env ''approval'' (approval_digest_mapping a) = Inr (ap_sha256 a) \<and>
       read_log env st' = Inr q \<and> ld_snapshot q = t"
proof (cases r)
  case (Inl e)
  with approve_refused assms show ?thesis by auto
next
  case (Inr t)
  with approve_names [of env now subject c v confirmation st st' t] assms show ?thesis
    by (fastforce simp: holds_def)
qed

lemma demo_at_log:
  assumes "demo_at n st"
  shows "\<exists>ld. load demo_env st = Inr (st, ld) \<and> read_log demo_env st = Inr ld \<and>
     ld_snapshot ld = ld_snapshot (snd (demo_states ! n)) \<and> ld_run ld = ld_run (snd (demo_states ! n)) \<and> \<not> ss_read_only st"
proof -
  from assms obtain ld where ld: "load demo_env st = Inr (st, ld)" "ld_snapshot ld = ld_snapshot (snd (demo_states ! n))"
    "ld_run ld = ld_run (snd (demo_states ! n))" "\<not> ss_read_only st" unfolding demo_at_def by blast
  with load_Inr [OF ld(1)] show ?thesis by simp
qed

text \<open>The last three events of the session.\<close>

lemma demo_publication:
  assumes "demo_at n st" "n \<in> {7, 8, 9}"
  shows "\<exists>st' ld. append_event demo_env st (fst (demo_states ! Suc n)) (ld_snapshot (snd (demo_states ! Suc n))) None False = Inr (st', ld) \<and>
    demo_at (Suc n) st'"
proof -
  have "next_validation_run (fst (demo_states ! Suc n)) (ld_snapshot (snd (demo_states ! Suc n))) None False (snd (demo_states ! n)) =
      Inr (ld_run (snd (demo_states ! Suc n)))" "fst (demo_states ! Suc n) \<noteq> K_candidate"
    "ld_preview (snd (demo_states ! Suc n)) = ld_preview (snd (demo_states ! n))"
    using assms(2) by (auto simp: demo_states_def next_validation_run_def)
  with assms show ?thesis
    using demo_step [OF assms(1) _ surjective_pairing surjective_pairing, of None False] by auto
qed

lemma demo_snapshots_ok:
  "snapshot_ok (rp_unicode demo_env) (demo_approved APPROVED)" "snapshot_ok (rp_unicode demo_env) (demo_approved APPLYING)"
  using demo_snapshot_valid(4) by (simp_all add: demo_env_def snapshot_valid_def)

lemma demo_next_timestamp: "sn_updated s = 1 \<Longrightarrow> next_timestamp s 1 = 1"
  by (simp add: next_timestamp_def)

lemma demo_build_approval:
  "build_approval demo_env (demo_validated VALIDATED) (lit ''s'') approval_confirmation 1 st = (st, Inr demo_approval)"
proof -
  have "rm_domain_digest demo_env ''approval'' (approval_digest_mapping demo_approval) = Inr demo_digest"
    by (rule demo_digests)
  then have "rm_domain_digest demo_env ''approval'' (JObj
      [(lit ''schema_version'', JInt 1), (lit ''candidate_id'', JStr demo_digest),
       (lit ''validation_sha256'', JStr demo_digest), (lit ''subject'', JStr (lit ''s'')),
       (lit ''confirmation'', JStr approval_confirmation), (lit ''approved_at_us'', JInt 1)]) = Inr demo_digest"
    by (simp add: approval_digest_mapping_def drop_keys_def approval_items_def demo_approval_def)
  then show ?thesis
    using demo_records(3)
    by (simp add: build_approval_def demo_snapshots demo_ids checked_def wf_return_def)
      (simp add: demo_approval_def demo_env_def wf_return_def)
qed

theorem approval_of_what_was_confirmed_witness:
  "\<exists>st st' q. approve demo_env 1 (lit ''s'') demo_digest demo_digest approval_confirmation st = (st', Inr (demo_approved APPROVED)) \<and>
     read_log demo_env st' = Inr q \<and> ld_snapshot q = demo_approved APPROVED"
proof -
  obtain st where st: "demo_at 7 st" using demo_session [of 7] by auto
  from demo_at_log [OF st] obtain ld where ld: "load demo_env st = Inr (st, ld)" "read_log demo_env st = Inr ld"
    "ld_snapshot ld = demo_validated VALIDATED" by (auto simp: demo_states_def)
  obtain st' q where step: "append_event demo_env st K_approved (demo_approved APPROVED) None False = Inr (st', q)"
    using demo_publication [OF st] by (auto simp: demo_states_def)
  have s: "(demo_validated VALIDATED)\<lparr>sn_state := APPROVED, sn_updated := 1, sn_approval := Some demo_approval\<rparr> = demo_approved APPROVED"
    "sn_state (demo_validated VALIDATED) = VALIDATED" "sn_candidate (demo_validated VALIDATED) = Some demo_candidate"
    "sn_validation (demo_validated VALIDATED) = Some demo_validation" "next_timestamp (demo_validated VALIDATED) 1 = 1"
    by (simp_all add: demo_snapshots next_timestamp_def)
  have run: "approve demo_env 1 (lit ''s'') demo_digest demo_digest approval_confirmation st = (st', Inr (demo_approved APPROVED))"
    using ld step demo_snapshots_ok(1) demo_build_approval demo_fields(4) demo_ids
    unfolding approve_def Let_def wf_bind_Inr
    by (auto simp: wf_results s)
  from approval_of_what_was_confirmed [OF run demo_digest_function ld(2)] run show ?thesis by auto
qed

text \<open>
  C4. What applying reports is what happened: once the stored candidate has been opened and checked,
  an application that returns, or fails with a publication or a conflict error, found the session
  approved, and the log says the session is applied exactly when the ref was read back as the
  candidate's commit; when the ref could not be read the session is left applying, when it does not
  exist or names another commit the session is approved again, and the error says which.
\<close>

theorem application_reports_the_truth:
  assumes "apply_candidate env safe now now' now'' (Inr ()) (Inr ()) read_ref a st = (st', r)"
    and "digest_function (rp_sha256 env)"
    and "(\<exists>t. r = Inr t) \<or> (\<exists>code stage x. code \<in> {PUBLICATION_FAILED, REF_CONFLICT} \<and> r = Inl (Raised (StoreError code stage x)))"
  shows "\<exists>p c q. read_log env st = Inr p \<and> sn_state (ld_snapshot p) = APPROVED \<and>
    sn_candidate (ld_snapshot p) = Some c \<and> read_log env st' = Inr q \<and> sn_candidate (ld_snapshot q) = Some c \<and>
    (case read_ref of
       None \<Rightarrow> sn_state (ld_snapshot q) = APPLYING \<and>
         r = Inl (Raised (StoreError PUBLICATION_FAILED APPLICATION (Some APPLYING)))
     | Some None \<Rightarrow> sn_state (ld_snapshot q) = APPROVED \<and>
         r = Inl (Raised (StoreError PUBLICATION_FAILED APPLICATION (Some APPROVED)))
     | Some (Some oid) \<Rightarrow>
         if oid = ca_commit c then sn_state (ld_snapshot q) = APPLIED \<and> r = Inr (ld_snapshot q)
         else sn_state (ld_snapshot q) = APPROVED \<and>
           r = Inl (Raised (StoreError REF_CONFLICT APPLICATION (Some APPROVED))))"
proof -
  have "told internal_codes r" using assms(3) by (auto simp: told_def internal_codes_def)
  from apply_reports [OF assms(1,2) this] show ?thesis .
qed

theorem application_reports_the_truth_witness:
  "\<exists>st st' q. apply_candidate demo_env True 1 1 1 (Inr ()) (Inr ()) None demo_digest st =
       (st', Inl (Raised (StoreError PUBLICATION_FAILED APPLICATION (Some APPLYING)))) \<and>
     read_log demo_env st' = Inr q \<and> sn_state (ld_snapshot q) = APPLYING"
proof -
  obtain st where st: "demo_at 8 st" using demo_session [of 8] by auto
  from demo_at_log [OF st] obtain ld where ld: "load demo_env st = Inr (st, ld)"
    "ld_snapshot ld = demo_approved APPROVED" by (auto simp: demo_states_def)
  obtain st' q where step: "append_event demo_env st K_applying (demo_approved APPLYING) None False = Inr (st', q)"
    using demo_publication [OF st] by (auto simp: demo_states_def)
  have s: "(demo_approved APPROVED)\<lparr>sn_state := APPLYING, sn_updated := 1\<rparr> = demo_approved APPLYING"
    "sn_state (demo_approved APPROVED) = APPROVED" "sn_candidate (demo_approved APPROVED) = Some demo_candidate"
    "sn_approval (demo_approved APPROVED) = Some demo_approval" "next_timestamp (demo_approved APPROVED) 1 = 1"
    by (simp_all add: demo_snapshots next_timestamp_def)
  have run: "apply_candidate demo_env True 1 1 1 (Inr ()) (Inr ()) None demo_digest st =
       (st', Inl (Raised (StoreError PUBLICATION_FAILED APPLICATION (Some APPLYING))))"
    using ld step demo_snapshots_ok(2) demo_ids
    by (simp add: apply_candidate_def Let_def wf_bind_def wf_load_def wf_lift_def s wf_result_def wf_replace_def wf_return_def
      wf_append_def raise_error_def wf_fail_def)
  from application_reports_the_truth [OF run demo_digest_function] run show ?thesis by auto
qed

text \<open>
  C18. Cancelling or expiring that returns has closed the session or found it published: the log then
  holds the returned snapshot, which is closed with a decision naming who decided and why, or is
  applied, because the session was applying and its ref was read as the candidate's commit.
\<close>

theorem closing_closes:
  assumes "close_session env safe now1 now2 now3 now4 read_ref removed state kind subject reason st = (st', Inr t)"
    and "digest_function (rp_sha256 env)"
  shows "\<exists>p q. read_log env st = Inr p \<and> \<not> is_terminal (sn_state (ld_snapshot p)) \<and> read_log env st' = Inr q \<and> ld_snapshot q = t \<and>
    (sn_state t = state \<and> (\<exists>d. sn_decision t = Some d \<and> de_state d = state \<and> de_subject d = subject \<and> de_reason d = reason) \<or>
     sn_state t = APPLIED \<and> sn_state (ld_snapshot p) = APPLYING \<and>
       (\<exists>c. sn_candidate t = Some c \<and> read_ref = Some (Some (ca_commit c))))"
  using close_session_Inr [OF assms] unfolding holds_def by blast

lemma append_keeps_writable: "append_event env st kind s run clear = Inr (st', ld) \<Longrightarrow> ss_read_only st' = ss_read_only st"
  using append_event_parts load_Inr by fastforce

theorem closing_closes_witness:
  "\<exists>st st' q. cancel demo_env False 1 1 1 1 None False (lit ''s'') [] st = (st', Inr (demo_cancelled True)) \<and>
     read_log demo_env st' = Inr q \<and> sn_state (ld_snapshot q) = CANCELLED"
proof -
  obtain st p where p: "demo_log st p" "ld_snapshot p = demo_snapshot CREATED" "ld_sequence p = 0"
    and priv: "ss_private st \<noteq> None"
  proof -
    obtain st p where st: "create_session_store demo_env demo_digest (JObj []) (demo_snapshot CREATED) = Inr st"
      "demo_log st p" "ld_snapshot p = demo_snapshot CREATED" "ld_sequence p = 0" using demo_start by blast
    with create_session_parts [OF st(1)] that show thesis by auto
  qed
  have load: "load demo_env st = Inr (st, p)" using p by (simp add: demo_log_def)
  have "event_follows (Some p) K_cancelled (demo_cancelled True) None None"
    using p by (simp add: event_follows_def demo_log_def) code_simp
  from demo_append [OF p(1) demo_smalls(2) this] p obtain st1 q
    where q: "demo_log st1 q" "ld_snapshot q = demo_cancelled True"
      "append_event demo_env st K_cancelled (demo_cancelled True) None False = Inr (st1, q)" by auto
  have "event_follows (Some q) K_cleanup_pending (demo_cancelled True) None None"
    using q by (simp add: event_follows_def demo_log_def) code_simp
  from demo_append [OF q(1) demo_smalls(2) this] obtain st2 q2
    where q2: "append_event demo_env st1 K_cleanup_pending (demo_cancelled True) None False = Inr (st2, q2)" by auto
  have clean: "cleanup_private False st1 = Inr (st1, False)"
    using priv append_private [OF q(3)] q(1) by (simp add: cleanup_private_def demo_log_def)
  have ok: "snapshot_ok (rp_unicode demo_env) (demo_cancelled True)"
    using demo_smalls(2) [of True] by (simp add: demo_small_def snapshot_valid_def demo_env_def)
  have s: "(demo_snapshot CREATED)\<lparr>sn_state := CANCELLED, sn_updated := 1, sn_decision := Some demo_decision, sn_cleanup_pending := True\<rparr> = demo_cancelled True"
    "sn_state (demo_snapshot CREATED) = CREATED" "next_timestamp (demo_snapshot CREATED) 1 = 1"
    "(demo_cancelled True)\<lparr>sn_updated := next_timestamp (demo_cancelled True) 1, sn_cleanup_pending := True\<rparr> = demo_cancelled True"
    by (simp_all add: demo_cancelled_def demo_snapshot_def next_timestamp_def)
  have d: "build_decision demo_env (demo_snapshot CREATED) CANCELLED (lit ''s'') [] 1 st = (st, Inr demo_decision)"
  proof -
    have "rm_domain_digest demo_env ''decision'' (decision_digest_mapping demo_decision) = Inr demo_digest"
      using demo_smalls(2) [of True] snapshot_digests(5) [of demo_env "demo_cancelled True" demo_decision]
      by (simp add: demo_small_def demo_cancelled_def) (simp add: demo_decision_def)
    then show ?thesis
      using demo_decision_ok
      by (simp add: build_decision_def decision_digest_mapping_def drop_keys_def decision_items_def demo_snapshot_def checked_def)
        (simp add: demo_decision_def demo_env_def wf_return_def)
  qed
  have run: "close_session demo_env False 1 1 1 1 None False CANCELLED K_cancelled (lit ''s'') [] st = (st2, Inr (demo_cancelled True))"
  proof -
    have app: "wf_append demo_env K_cancelled (demo_cancelled True) None False st = (st1, Inr (demo_cancelled True))"
      "wf_append demo_env K_cleanup_pending (demo_cancelled True) None False st1 = (st2, Inr (demo_cancelled True))"
      using q(3) q2 by (auto simp: wf_append_Inr)
    have "record_cleanup demo_env False 1 (demo_cancelled True) False st1 = (st2, Inr (demo_cancelled True, False))"
      using clean ok app(2) s(4)
      by (simp add: record_cleanup_def wf_bind_def wf_lift_def wf_replace_def wf_return_def)
    then have "persist_terminal demo_env False 1 K_cancelled (demo_cancelled True) False st = (st2, Inr (demo_cancelled True))"
      using app(1) by (simp add: persist_terminal_def wf_bind_def wf_return_def)
    moreover have "ld_run p = None" using p(1) by (simp add: demo_log_def)
    moreover have "\<not> is_terminal CREATED" by code_simp
    ultimately show ?thesis
      using load p(2) ok d s(1,2,3)
      by (simp add: close_session_def require_nonterminal_def wf_bind_def wf_load_def wf_lift_def wf_return_def wf_replace_def)
  qed
  have "sn_state (demo_cancelled True) = CANCELLED" by (simp add: demo_cancelled_def demo_snapshot_def)
  with closing_closes [OF run demo_digest_function] run show ?thesis unfolding cancel_def by metis
qed

section \<open>Maintenance\<close>

lemma terminal_timestamp_defined:
  "valid env s \<Longrightarrow> is_terminal (sn_state s) \<Longrightarrow> \<exists>t. terminal_timestamp s = Inr t"
  unfolding snapshot_valid_def snapshot_ok_def snapshot_shape_def
  by (cases "sn_state s") (auto simp: terminal_timestamp_def is_terminal_def terminal_states_def)

lemma terminal_timestamp_update:
  "terminal_timestamp (s\<lparr>sn_updated := a, sn_cleanup_pending := b\<rparr>) = terminal_timestamp s"
  by (simp add: terminal_timestamp_def)

lemma retry_cleanup_Inr:
  assumes "retry_terminal_cleanup env removed safe now s lease st = (st', Inr (t, cleaned))"
    and "digest_function (rp_sha256 env)" "valid env s" "read_log env st = Inr p" "ld_snapshot p = s" "ld_run p = lease"
  shows "\<exists>q time pending. read_log env st' = Inr q \<and> ld_snapshot q = t \<and> t = s\<lparr>sn_updated := time, sn_cleanup_pending := pending\<rparr> \<and>
    (\<not> pending \<longrightarrow> ld_run q = None \<and> ss_private st' = None \<and> (\<forall>l. lease = Some l \<longrightarrow> ls_container l \<noteq> None \<and> removed))"
proof (cases "case lease of None \<Rightarrow> False | Some l \<Rightarrow> \<not> (ls_container l \<noteq> None \<and> removed)")
  case True
  show ?thesis
  proof (cases "sn_cleanup_pending s")
    case pending: True
    have "st' = st" "t = s" using assms(1) True pending by (auto simp: retry_terminal_cleanup_def wf_results)
    then show ?thesis using assms(4,5) pending
      by (intro exI [of _ p] exI [of _ "sn_updated s"] exI [of _ True]) auto
  next
    case False
    with assms(1) True obtain ld where
      u: "t = s\<lparr>sn_updated := next_timestamp s now, sn_cleanup_pending := True\<rparr>" "snapshot_ok (rp_unicode env) t"
      and append: "append_event env st K_cleanup_pending t None False = Inr (st', ld)"
      by (auto simp: retry_terminal_cleanup_def wf_results)
    have "valid env t" using valid_change [OF u(2) assms(3)] u(1) by simp
    from append_reads [OF append assms(2) this] u(1) show ?thesis by auto
  qed
next
  case False
  then have gone: "\<forall>l. lease = Some l \<longrightarrow> ls_container l \<noteq> None \<and> removed" by (simp split: option.splits)
  from assms(1) False obtain st1 ok where clean: "cleanup_private safe st = Inr (st1, ok)"
    and rest: "(if ok \<and> \<not> sn_cleanup_pending s \<and> lease = None then wf_return (s, False)
        else wf_bind (wf_replace env (s\<lparr>sn_updated := next_timestamp s now, sn_cleanup_pending := \<not> ok\<rparr>)) (\<lambda>updated.
          wf_bind (wf_append env (if ok then K_cleanup_complete else K_cleanup_pending) updated None (lease \<noteq> None)) (\<lambda>stored.
            wf_return (stored, ok)))) st1 = (st', Inr (t, cleaned))"
    by (auto simp: retry_terminal_cleanup_def wf_results)
  note files = cleanup_private_Inr [OF clean]
  show ?thesis
  proof (cases "ok \<and> \<not> sn_cleanup_pending s \<and> lease = None")
    case True
    then have "st' = st1" "t = s" using rest by (auto simp: wf_results)
    moreover have "read_log env st1 = Inr p" using files assms(4) by (simp add: read_log_def)
    ultimately show ?thesis using assms(5,6) True files
      by (intro exI [of _ p] exI [of _ "sn_updated s"] exI [of _ False]) auto
  next
    case False
    with rest obtain ld where
      u: "t = s\<lparr>sn_updated := next_timestamp s now, sn_cleanup_pending := \<not> ok\<rparr>" "snapshot_ok (rp_unicode env) t"
      and append: "append_event env st1 (if ok then K_cleanup_complete else K_cleanup_pending) t None (lease \<noteq> None) = Inr (st', ld)"
      by (auto simp: wf_results)
    have "valid env t" using valid_change [OF u(2) assms(3)] u(1) by simp
    from append_reads [OF append assms(2) this] have q: "read_log env st' = Inr ld" "ld_snapshot ld = t" by simp_all
    have "ld_run ld = None"
    proof -
      from append_event_Inr [OF append] obtain cur where "read_log env st1 = Inr cur"
        "next_validation_run (if ok then K_cleanup_complete else K_cleanup_pending) t None (lease \<noteq> None) cur = Inr (ld_run ld)" by blast
      moreover have "read_log env st1 = Inr p" using files assms(4) by (simp add: read_log_def)
      ultimately show ?thesis using assms(6) by (auto simp: next_validation_run_def split: if_splits)
    qed
    with q u(1) gone files append_private [OF append] show ?thesis
      by (intro exI [of _ ld] exI [of _ "next_timestamp s now"] exI [of _ "\<not> ok"]) auto
  qed
qed

lemma cleanup_session_Inr:
  assumes "cleanup_session env removed safe now days now_us st = (st', Inr (m, remove))"
    and "digest_function (rp_sha256 env)" "read_log env st = Inr p"
  shows "(\<not> is_terminal (sn_state (ld_snapshot p)) \<longrightarrow> \<not> remove \<and> read_log env st' = Inr p) \<and>
    (remove \<longrightarrow> (\<exists>q at. read_log env st' = Inr q \<and> sn_state (ld_snapshot q) = sn_state (ld_snapshot p) \<and>
       terminal_timestamp (ld_snapshot p) = Inr at \<and> at + days * 86400000000 \<le> now_us \<and>
       \<not> sn_cleanup_pending (ld_snapshot q) \<and> ld_run q = None \<and> ss_private st' = None \<and>
       (\<forall>l. ld_run p = Some l \<longrightarrow> ls_container l \<noteq> None \<and> removed)))"
proof (cases "wf_load env st")
  case (Pair st1 r)
  show ?thesis
  proof (cases r)
    case (Inl e)
    then have "st' = st" "\<not> remove" using assms(1) Pair
      by (auto simp: cleanup_session_def wf_bind_def wf_load_def wf_lift_def split: sum.splits prod.splits)
    with assms(3) show ?thesis by simp
  next
    case (Inr ld)
    with Pair have load: "load env st = Inr (st1, ld)" by (simp add: wf_load_Inr)
    then have ld: "ld = p" "read_log env st1 = Inr p" using load_Inr [OF load] assms(3) load_read_log [OF load] by simp_all
    have ok: "valid env (ld_snapshot p)" using loaded_state_valid [OF load] ld by simp
    show ?thesis
    proof (cases "is_terminal (sn_state (ld_snapshot p))")
      case False
      then have "st' = st1" "\<not> remove"
        using assms(1) Pair Inr ld by (auto simp: cleanup_session_def wf_bind_def wf_return_def)
      with ld False show ?thesis by simp
    next
      case True
      have "remove \<Longrightarrow> \<exists>t cleaned at. retry_terminal_cleanup env removed safe now (ld_snapshot p) (ld_run p) st1 = (st', Inr (t, cleaned)) \<and>
          \<not> sn_cleanup_pending t \<and> terminal_timestamp t = Inr at \<and> at + days * 86400000000 \<le> now_us"
        using assms(1) Pair Inr ld True
        by (auto simp: cleanup_session_def wf_bind_def wf_return_def wf_result_def split: prod.splits sum.splits if_splits)
      moreover have "\<exists>q. read_log env st' = Inr q \<and> sn_state (ld_snapshot q) = sn_state (ld_snapshot p) \<and>
          terminal_timestamp (ld_snapshot p) = Inr at \<and>
          \<not> sn_cleanup_pending (ld_snapshot q) \<and> ld_run q = None \<and> ss_private st' = None \<and>
          (\<forall>l. ld_run p = Some l \<longrightarrow> ls_container l \<noteq> None \<and> removed)"
        if r: "retry_terminal_cleanup env removed safe now (ld_snapshot p) (ld_run p) st1 = (st', Inr (t, cleaned))"
          "\<not> sn_cleanup_pending t" "terminal_timestamp t = Inr at" for t cleaned at
      proof -
        from retry_cleanup_Inr [OF r(1) assms(2) ok ld(2) refl refl] obtain q time pending where
          q: "read_log env st' = Inr q" "ld_snapshot q = t" "t = (ld_snapshot p)\<lparr>sn_updated := time, sn_cleanup_pending := pending\<rparr>"
          and gone: "\<not> pending \<longrightarrow> ld_run q = None \<and> ss_private st' = None \<and> (\<forall>l. ld_run p = Some l \<longrightarrow> ls_container l \<noteq> None \<and> removed)"
          by blast
        then have "\<not> pending" "terminal_timestamp (ld_snapshot p) = Inr at" using r(2,3) by (simp_all add: terminal_timestamp_update)
        with q gone r(2) show ?thesis by auto
      qed
      ultimately show ?thesis using True by blast
    qed
  qed
qed

end
