(* ===== verification/Repair_Recovery_Demo.thy ===== *)
theory Repair_Recovery_Demo
  imports Repair_Workflow_Properties
begin

text \<open>
  A recovery that runs to its end: the demo session, left with a stored candidate, is validated again
  in a container, event by event, and ends validated.
\<close>

section \<open>The answers of the sandbox\<close>

text \<open>The demo session from its stored candidate on, when every answer is a good one.\<close>

definition demo_report :: sandbox_report where
  "demo_report = \<lparr>so_success = True, so_failure = None, so_started = 1, so_finished = 1, so_results = [demo_result],
     so_peak_memory = 0, so_oom_killed = False, so_residual = 0, so_entries = 1, so_inodes = 1, so_tree_clean = True\<rparr>"

definition demo_world :: sandbox_world where
  "demo_world = \<lparr>sb_opened = Inr (), sb_prepared = Inr (), sb_name = ls_name (demo_lease None),
     sb_labels = ls_labels (demo_lease None), sb_token = demo_digest, sb_created = Created demo_digest,
     sb_report = Inr demo_report, sb_policy = demo_digest, sb_manifest = demo_digest,
     sb_image = lit ''sha256:'' @ demo_digest, sb_removed = True, sb_left = Inr (), sb_safe = True,
     sb_now = \<lambda>_. 1, sb_gaps = \<lambda>_. []\<rparr>"

definition demo_run :: sandbox_run where
  "demo_run = sandbox_run_of demo_world demo_digest demo_candidate demo_digest"

lemma demo_leases:
  "validation_intent_lease (sandbox_intent_of demo_world demo_digest demo_candidate) st = (st, Inr (demo_lease None))"
  "validation_lease_of demo_run st = (st, Inr (demo_lease (Some demo_digest)))"
  "(demo_lease (Some demo_digest))\<lparr>ls_container := None\<rparr> = demo_lease None"
proof -
  have "sort (ls_labels (demo_lease None)) = ls_labels (demo_lease None)" by code_simp
  then show "validation_intent_lease (sandbox_intent_of demo_world demo_digest demo_candidate) st = (st, Inr (demo_lease None))"
    "validation_lease_of demo_run st = (st, Inr (demo_lease (Some demo_digest)))"
    using demo_records(5,6)
    by (simp_all add: validation_intent_lease_def validation_lease_of_def sandbox_intent_of_def sandbox_run_of_def demo_run_def
      demo_world_def wf_lease_def demo_ids wf_return_def) (simp_all add: demo_lease_def)
qed (simp add: demo_lease_def)

definition demo_outcome :: "bool \<Rightarrow> sandbox_outcome" where
  "demo_outcome pending = \<lparr>so_session = demo_digest, so_candidate = demo_digest, so_policy = demo_digest,
     so_manifest = demo_digest, so_image = lit ''sha256:'' @ demo_digest, so_report = demo_report, so_run = demo_run,
     so_cleanup_pending = pending\<rparr>"

lemma demo_validation_mapping:
  "validation_digest_mapping demo_validation = JObj
     [(lit ''schema_version'', JInt 1), (lit ''candidate_id'', JStr demo_digest), (lit ''policy_sha256'', JStr demo_digest),
      (lit ''sandbox_manifest_sha256'', JStr demo_digest), (lit ''image_id'', JStr (lit ''sha256:'' @ demo_digest)),
      (lit ''started_at_us'', JInt 1), (lit ''finished_at_us'', JInt 1), (lit ''success'', JBool True),
      (lit ''failure_kind'', JNull), (lit ''command_results'', JList [command_result_to_dict demo_result]),
      (lit ''peak_memory_bytes'', JInt 0), (lit ''oom_killed'', JBool False), (lit ''residual_process_count'', JInt 0),
      (lit ''workspace_entry_count'', JInt 1), (lit ''workspace_inode_count'', JInt 1), (lit ''tracked_tree_clean'', JBool True)]"
  unfolding validation_digest_mapping_def drop_keys_def validation_items_def
  by (simp add: demo_validation_def j_option_def)

lemma demo_build_validation: "build_validation demo_env (demo_outcome pending) st = (st, Inr demo_validation)"
proof -
  have fields: "so_report (demo_outcome pending) = demo_report" "so_candidate (demo_outcome pending) = demo_digest"
    "so_policy (demo_outcome pending) = demo_digest" "so_manifest (demo_outcome pending) = demo_digest"
    "so_image (demo_outcome pending) = lit ''sha256:'' @ demo_digest"
    "so_success demo_report = True" "so_failure demo_report = None" "so_started demo_report = 1" "so_finished demo_report = 1"
    "so_results demo_report = [demo_result]" "so_peak_memory demo_report = 0" "so_oom_killed demo_report = False"
    "so_residual demo_report = 0" "so_entries demo_report = 1" "so_inodes demo_report = 1" "so_tree_clean demo_report = True"
    by (simp_all add: demo_outcome_def demo_report_def)
  have d: "rm_domain_digest demo_env ''validation'' (validation_digest_mapping demo_validation) = Inr demo_digest"
    by (rule demo_digests)
  have ok: "validation_ok \<lparr>va_schema_version = 1, va_sha256 = demo_digest, va_candidate = demo_digest,
     va_policy = demo_digest, va_manifest = demo_digest, va_image = lit ''sha256:'' @ demo_digest,
     va_started = 1, va_finished = 1, va_success = True, va_failure = None, va_results = [demo_result],
     va_peak_memory = 0, va_oom_killed = False, va_residual = 0, va_entries = 1, va_inodes = 1,
     va_tree_clean = True\<rparr>"
    using demo_records(2) unfolding demo_validation_def .
  have opt: "j_option (\<lambda>k. JStr (lit (validation_failure_kind_value k))) None = JNull" by (simp add: j_option_def)
  show ?thesis
    unfolding build_validation_def Let_def fields opt list.map demo_validation_mapping [symmetric] d
    using ok by (simp add: wf_bind_def wf_result_def store_result_def checked_def demo_validation_def)
qed

lemma demo_advance:
  assumes "demo_at n st" "n < 10" "demo_states ! Suc n = (kind, q)"
    and "run = (if kind \<in> {K_validation_intent, K_validation_run} then ld_run q else None)"
  shows "\<exists>st'. wf_append demo_env kind (ld_snapshot q) run (kind = K_validated) st = (st', Inr (ld_snapshot q)) \<and> demo_at (Suc n) st'"
proof -
  obtain k0 p where p: "demo_states ! n = (k0, p)" by (cases "demo_states ! n")
  have "next_validation_run kind (ld_snapshot q) run (kind = K_validated) p = Inr (ld_run q) \<and>
     \<not> (run \<noteq> None \<and> (kind = K_validated)) \<and>
     (kind = K_candidate \<and> ld_preview p = None \<and> ld_preview q = Some demo_digest \<or> kind \<noteq> K_candidate \<and> ld_preview q = ld_preview p) \<and>
     opt_all lease_ok run"
    using below_ten [OF assms(2)] p assms(3,4) demo_records(5,6)
    by (elim disjE) (auto simp: demo_states_def next_validation_run_def demo_generated_def demo_snapshot_def lease_carry_states_def opt_all_def)
  then obtain st' ld where "append_event demo_env st kind (ld_snapshot q) run (kind = K_validated) = Inr (st', ld)" "demo_at (Suc n) st'"
    using demo_step [OF assms(1,2) p assms(3), of run "kind = K_validated"] by blast
  then show ?thesis unfolding wf_append_Inr by blast
qed


lemma demo_generated_ok:
  "snapshot_ok (rp_unicode demo_env) (demo_generated VALIDATING)" "snapshot_ok (rp_unicode demo_env) (demo_validated VALIDATING)"
  "snapshot_ok (rp_unicode demo_env) (demo_validated VALIDATED)"
  using demo_snapshot_valid(2,3) by (simp_all add: demo_env_def snapshot_valid_def)

lemma demo_same_snapshots:
  "(demo_generated GENERATING)\<lparr>sn_state := VALIDATING, sn_updated := 1\<rparr> = demo_generated VALIDATING"
  "(demo_generated VALIDATING)\<lparr>sn_updated := 1\<rparr> = demo_generated VALIDATING"
  "(demo_generated VALIDATING)\<lparr>sn_updated := 1, sn_validation := Some demo_validation\<rparr> = demo_validated VALIDATING"
  "(demo_validated VALIDATING)\<lparr>sn_state := VALIDATED, sn_updated := 1\<rparr> = demo_validated VALIDATED"
  "next_timestamp (demo_generated s) 1 = 1" "next_timestamp (demo_validated s) 1 = 1"
  "sn_state (demo_generated s) = s" "sn_state (demo_validated s) = s" "sn_candidate (demo_generated s) = Some demo_candidate"
  "sn_candidate (demo_validated s) = Some demo_candidate" "sn_validation (demo_generated s) = None"
  "sn_validation (demo_validated s) = Some demo_validation"
  by (simp_all add: demo_snapshots next_timestamp_def)

lemma demo_at_loads:
  assumes "demo_at n st"
  shows "\<exists>ld. wf_load demo_env st = (st, Inr ld) \<and> ld_snapshot ld = ld_snapshot (snd (demo_states ! n)) \<and>
    ld_run ld = ld_run (snd (demo_states ! n)) \<and> ss_session st = demo_digest"
  using assms unfolding demo_at_def wf_load_def wf_lift_def by fastforce

lemma demo_validating:
  assumes "demo_at 2 st"
  shows "\<exists>st'. demo_at 3 st' \<and> begin_validation demo_env 1 (demo_generated GENERATING) st = (st', Inr (demo_generated VALIDATING))"
proof -
  from demo_at_loads [OF assms] obtain ld where ld: "wf_load demo_env st = (st, Inr ld)" "ld_snapshot ld = demo_generated GENERATING"
    by (auto simp: demo_states_def)
  obtain st' where "wf_append demo_env K_validating (demo_generated VALIDATING) None False st = (st', Inr (demo_generated VALIDATING))"
    "demo_at 3 st'"
    using demo_advance [OF assms, of K_validating "demo_state 3 (demo_generated VALIDATING) (Some demo_digest) None" None] by (auto simp: demo_states_def)
  with ld demo_generated_ok show ?thesis
    by (intro exI [of _ st']) (simp add: begin_validation_def wf_bind_def demo_same_snapshots wf_replace_def wf_return_def)
qed

lemma demo_intent:
  assumes "demo_at 3 st"
  shows "\<exists>st'. demo_at 4 st' \<and> register_validation_intent demo_env 1 demo_digest demo_candidate
    (sandbox_intent_of demo_world demo_digest demo_candidate) st = (st', Inr True)"
proof -
  from demo_at_loads [OF assms] obtain ld where ld: "wf_load demo_env st = (st, Inr ld)" "ld_snapshot ld = demo_generated VALIDATING"
    "ld_run ld = None" by (auto simp: demo_states_def)
  obtain st' where "wf_append demo_env K_validation_intent (demo_generated VALIDATING) (Some (demo_lease None)) False st =
      (st', Inr (demo_generated VALIDATING))" "demo_at 4 st'"
    using demo_advance [OF assms, of K_validation_intent "demo_state 4 (demo_generated VALIDATING) (Some demo_digest) (Some (demo_lease None))" "Some (demo_lease None)"]
    by (auto simp: demo_states_def)
  moreover have "si_session (sandbox_intent_of demo_world demo_digest demo_candidate) = demo_digest"
    "si_candidate (sandbox_intent_of demo_world demo_digest demo_candidate) = ca_id demo_candidate"
    by (simp_all add: sandbox_intent_of_def)
  ultimately show ?thesis using ld demo_generated_ok
    by (intro exI [of _ st']) (simp add: register_validation_intent_def wf_bind_def demo_leases demo_same_snapshots wf_replace_def wf_return_def)
qed

lemma demo_container:
  assumes "demo_at 4 st"
  shows "\<exists>st'. demo_at 5 st' \<and> register_validation_run demo_env 1 demo_digest demo_candidate demo_run st = (st', Inr True)"
proof -
  from demo_at_loads [OF assms] obtain ld where ld: "wf_load demo_env st = (st, Inr ld)" "ld_snapshot ld = demo_generated VALIDATING"
    "ld_run ld = Some (demo_lease None)" by (auto simp: demo_states_def)
  obtain st' where "wf_append demo_env K_validation_run (demo_generated VALIDATING) (Some (demo_lease (Some demo_digest))) False st =
      (st', Inr (demo_generated VALIDATING))" "demo_at 5 st'"
    using demo_advance [OF assms, of K_validation_run "demo_state 5 (demo_generated VALIDATING) (Some demo_digest) (Some (demo_lease (Some demo_digest)))" "Some (demo_lease (Some demo_digest))"]
    by (auto simp: demo_states_def)
  moreover have "si_session demo_run = demo_digest" "si_candidate demo_run = ca_id demo_candidate"
    by (simp_all add: demo_run_def sandbox_run_of_def)
  ultimately show ?thesis using ld demo_generated_ok demo_records(5)
    by (intro exI [of _ st'])
      (simp add: register_validation_run_def wf_bind_def demo_leases demo_same_snapshots wf_replace_def wf_return_def wf_lease_def)
qed

lemma demo_checkpoint:
  assumes "demo_at 5 st"
  shows "\<exists>st'. demo_at 6 st' \<and> checkpoint_validation_result demo_env 1 demo_candidate (demo_outcome pending) st = (st', Inr ())"
proof -
  from demo_at_loads [OF assms] obtain ld where ld: "wf_load demo_env st = (st, Inr ld)" "ld_snapshot ld = demo_generated VALIDATING"
    "ld_run ld = Some (demo_lease (Some demo_digest))" by (auto simp: demo_states_def)
  obtain st' where "wf_append demo_env K_validation_result (demo_validated VALIDATING) None False st =
      (st', Inr (demo_validated VALIDATING))" "demo_at 6 st'"
    using demo_advance [OF assms, of K_validation_result "demo_state 6 (demo_validated VALIDATING) (Some demo_digest) (Some (demo_lease (Some demo_digest)))" None]
    by (auto simp: demo_states_def)
  moreover have "so_run (demo_outcome pending) = demo_run" by (simp add: demo_outcome_def)
  ultimately show ?thesis using ld demo_generated_ok
    by (intro exI [of _ st'])
      (simp add: checkpoint_validation_result_def Let_def wf_bind_def demo_validated_def [symmetric] demo_build_validation demo_leases demo_same_snapshots wf_replace_def wf_return_def)
qed

lemma demo_finish:
  assumes "demo_at 6 st"
  shows "\<exists>st'. demo_at 7 st' \<and> finish_validation demo_env True 1 1 demo_candidate (demo_outcome False) (demo_generated VALIDATING) st =
    (st', Inr (demo_validated VALIDATED))"
proof -
  from demo_at_loads [OF assms] obtain ld where ld: "wf_load demo_env st = (st, Inr ld)" "ld_snapshot ld = demo_validated VALIDATING"
    "ld_run ld = Some (demo_lease (Some demo_digest))" by (auto simp: demo_states_def)
  obtain st' where "wf_append demo_env K_validated (demo_validated VALIDATED) None True st = (st', Inr (demo_validated VALIDATED))" "demo_at 7 st'"
    using demo_advance [OF assms, of K_validated "demo_state 7 (demo_validated VALIDATED) (Some demo_digest) None" None] by (auto simp: demo_states_def)
  moreover have "so_run (demo_outcome False) = demo_run" "\<not> so_cleanup_pending (demo_outcome False)" "va_success demo_validation"
    by (simp_all add: demo_outcome_def demo_validation_def)
  ultimately show ?thesis using ld demo_generated_ok
    by (intro exI [of _ st'])
      (simp add: finish_validation_def wf_bind_def demo_build_validation demo_leases demo_same_snapshots wf_replace_def wf_return_def)
qed


lemma demo_recovery:
  assumes "demo_at 2 st"
  shows "\<exists>st'. demo_at 7 st' \<and> recover_session demo_env True True 1 1 None demo_world st =
    (st', Inr (recovered_result (demo_validated VALIDATED)))"
proof -
  obtain st3 st4 st5 st6 st7 where st: "demo_at 3 st3" "demo_at 4 st4" "demo_at 5 st5" "demo_at 6 st6" "demo_at 7 st7"
    and steps: "begin_validation demo_env 1 (demo_generated GENERATING) st = (st3, Inr (demo_generated VALIDATING))"
      "register_validation_intent demo_env 1 demo_digest demo_candidate (sandbox_intent_of demo_world demo_digest demo_candidate) st3 = (st4, Inr True)"
      "register_validation_run demo_env 1 demo_digest demo_candidate demo_run st4 = (st5, Inr True)"
      "checkpoint_validation_result demo_env 1 demo_candidate (demo_outcome True) st5 = (st6, Inr ())"
      "finish_validation demo_env True 1 1 demo_candidate (demo_outcome False) (demo_generated VALIDATING) st6 = (st7, Inr (demo_validated VALIDATED))"
    using demo_validating [OF assms] demo_intent demo_container demo_checkpoint [of _ True] demo_finish by meson
  have w: "sb_created demo_world = Created demo_digest" "sb_report demo_world = Inr demo_report" "sb_prepared demo_world = Inr ()"
    "sb_opened demo_world = Inr ()" "sb_left demo_world = Inr ()" "sb_removed demo_world" "sb_safe demo_world"
    "sb_now demo_world n = 1" "sb_gaps demo_world n = []" "sb_policy demo_world = demo_digest" "sb_manifest demo_world = demo_digest"
    "sb_image demo_world = lit ''sha256:'' @ demo_digest" for n
    by (simp_all add: demo_world_def)
  have none: "interrupts demo_env [] s = (s, Inr ())" for s by (simp add: interrupts_def)
  have out: "\<lparr>so_session = demo_digest, so_candidate = ca_id demo_candidate, so_policy = demo_digest, so_manifest = demo_digest,
      so_image = lit ''sha256:'' @ demo_digest, so_report = demo_report, so_run = demo_run, so_cleanup_pending = b\<rparr> = demo_outcome b" for b
    by (simp add: demo_outcome_def demo_ids)
  have pending: "(demo_outcome True)\<lparr>so_cleanup_pending := False\<rparr> = demo_outcome False" by (simp add: demo_outcome_def)
  have "run_sandbox_validation demo_env demo_world demo_digest demo_candidate st3 = (st6, Inr (demo_outcome False))"
    using steps by (simp add: run_sandbox_validation_def execute_validation_def w wf_bind_def wf_result_def none Let_def
      demo_run_def [symmetric] wf_catch_def wf_return_def out pending)
  moreover from demo_at_loads [OF assms] obtain ld where ld: "wf_load demo_env st = (st, Inr ld)"
    "ld_snapshot ld = demo_generated GENERATING" "ss_session st = demo_digest" by (auto simp: demo_states_def)
  ultimately have "validate_again demo_env demo_world demo_digest st = (st7, Inr (demo_validated VALIDATED))"
    using steps by (simp add: validate_again_def wf_bind_def w none Let_def demo_same_snapshots wf_result_def)
  with ld st(5) show ?thesis
    by (intro exI [of _ st7]) (simp add: recover_session_def recover_candidate_validation_def wf_catch_def wf_bind_def wf_return_def demo_same_snapshots)
qed

end
