(* ===== verification/Repair_Maintenance_Facts.thy ===== *)
theory Repair_Maintenance_Facts
  imports Repair_Recovery_Demo
begin








text \<open>
  A terminal session says when it ended: the time \<open>cleanup\<close> counts the retention from is
  defined for every well-formed terminal snapshot, and is the time of the application, of the decision
  or of the failure.
\<close>

theorem terminal_time_is_known:
  assumes "snapshot_valid ud s" "is_terminal (sn_state s)"
  shows "\<exists>t. terminal_timestamp s = Inr t \<and>
    (\<exists>l. sn_state s = APPLIED \<and> sn_application s = Some l \<and> t = al_at l \<or>
     (\<exists>d. sn_state s \<in> {REJECTED, CANCELLED, EXPIRED} \<and> sn_decision s = Some d \<and> de_state d = sn_state s \<and> t = de_at d) \<or>
     (\<exists>f. sn_state s = FAILED \<and> sn_failure s = Some f \<and> t = fl_at f))"
  using assms unfolding snapshot_valid_def snapshot_ok_def snapshot_shape_def
  by (cases "sn_state s") (auto simp: terminal_timestamp_def is_terminal_def terminal_states_def)

theorem terminal_time_is_known_witness:
  "terminal_timestamp demo_applied = Inr 1"
proof -
  have "is_terminal (sn_state demo_applied)" by (simp add: demo_snapshots is_terminal_def terminal_states_def)
  from terminal_time_is_known [OF demo_snapshot_valid(5) this] show ?thesis
    by (auto simp: demo_snapshots) (auto simp: demo_application_def)
qed

text \<open>
  C19. What cleaning up removes: the directory of a session is given up only when the session is
  terminal and ended at least the retention time ago, no cleanup is pending, no container lease is
  left, any container it had is gone and so are its private files; a session that is not terminal is
  left as it is.
\<close>

theorem cleanup_removes_only_finished:
  assumes "cleanup_session env removed safe now days now_us st = (st', Inr (m, remove))"
    and "digest_function (rp_sha256 env)" "read_log env st = Inr p"
  shows "(\<not> is_terminal (sn_state (ld_snapshot p)) \<longrightarrow> \<not> remove \<and> read_log env st' = Inr p) \<and>
    (remove \<longrightarrow> (\<exists>q at. read_log env st' = Inr q \<and> sn_state (ld_snapshot q) = sn_state (ld_snapshot p) \<and>
       terminal_timestamp (ld_snapshot p) = Inr at \<and> at + days * 86400000000 \<le> now_us \<and>
       \<not> sn_cleanup_pending (ld_snapshot q) \<and> ld_run q = None \<and> ss_private st' = None \<and>
       (\<forall>l. ld_run p = Some l \<longrightarrow> ls_container l \<noteq> None \<and> removed)))"
  using cleanup_session_Inr [OF assms] .

theorem cleanup_removes_only_finished_witness:
  "\<exists>st st' q. cleanup_session demo_env True True 1 7 604800000001 st = (st', Inr (no_maintenance, True)) \<and>
     read_log demo_env st' = Inr q \<and> sn_state (ld_snapshot q) = CANCELLED \<and> ss_private st' = None"
proof -
  obtain st p st1 q where p: "demo_log st p" "ld_snapshot p = demo_cancelled True"
    and step: "append_event demo_env st K_cleanup_complete (demo_cancelled False) None False = Inr (st1, q)"
    using demo_closing by blast
  have valid: "snapshot_valid (rp_unicode demo_env) (demo_cancelled False)"
    using demo_smalls(2) [of False] by (simp add: demo_small_def demo_env_def)
  have load: "load demo_env st1 = Inr (st1, q)" "read_log demo_env st1 = Inr q" "ld_snapshot q = demo_cancelled False"
    using append_event_reload [OF step valid _ demo_digest_function] append_reads [OF step demo_digest_function valid] by simp_all
  have run: "ld_run q = None" "\<not> ss_read_only st1"
    using append_event_Inr [OF step] demo_log_read [OF p(1)] p(1) append_keeps_writable [OF step]
    by (auto simp: demo_log_def next_validation_run_def)
  have s: "sn_state (demo_cancelled False) = CANCELLED" "\<not> sn_cleanup_pending (demo_cancelled False)"
    "terminal_timestamp (demo_cancelled False) = Inr 1" "is_terminal CANCELLED"
    by (simp_all add: demo_cancelled_def demo_snapshot_def terminal_timestamp_def demo_decision_def is_terminal_def terminal_states_def)
  obtain st2 where clean: "cleanup_private True st1 = Inr (st2, True)" using run(2) by (cases "ss_private st1 = None") (auto simp: cleanup_private_def)
  have cleanup: "cleanup_session demo_env True True 1 7 604800000001 st1 = (st2, Inr (no_maintenance, True))"
    using load run s clean
    by (simp add: cleanup_session_def wf_bind_def wf_load_def wf_lift_def retry_terminal_cleanup_def wf_return_def wf_result_def
      no_maintenance_def Let_def)
  from cleanup_removes_only_finished [OF cleanup demo_digest_function load(2)] cleanup load(3) s show ?thesis by auto
qed

section \<open>Publishing and private files\<close>

text \<open>
  C23. What may be published: for a well-formed snapshot the check passes exactly for an applied session
  named by the digest of its application; everything else is refused without touching the session, with
  a state error before it is applied, an identity error for another digest, and a \<open>TypeError\<close> for
  a digest that is not ASCII text.
\<close>

theorem publication_names_the_application:
  assumes "snapshot_valid (rp_unicode env) s"
  shows "\<exists>r. require_publication_application s expected st = (st, r) \<and>
    (r = Inr () \<longleftrightarrow> sn_state s = APPLIED \<and> map_option al_sha256 (sn_application s) = Some expected) \<and>
    (sn_state s = APPLIED \<longrightarrow> r \<noteq> Inr () \<longrightarrow>
       r = Inl (Raised (if \<exists>x \<in> set expected. 128 \<le> x then StoreTypeError
         else StoreError IDENTITY_MISMATCH APPLICATION (Some APPLIED)))) \<and>
    (sn_state s \<notin> {APPLIED, CANCELLED, EXPIRED} \<longrightarrow> r = Inl (Raised (StoreError INVALID_STATE APPLICATION (Some (sn_state s)))))"
proof (cases "sn_state s = APPLIED")
  case False
  then show ?thesis
    by (auto simp: require_publication_application_def raise_for_state_def raise_error_def wf_fail_def)
next
  case True
  then obtain l where l: "sn_application s = Some l"
    using assms by (auto simp: snapshot_valid_def snapshot_ok_def snapshot_shape_def)
  with shape_applied [OF assms True] obtain c a where ca: "sn_candidate s = Some c" "sn_approval s = Some a" by auto
  have "application_ok l" using assms l by (simp add: snapshot_valid_def)
  then have "is_sha256 (al_sha256 l)" by (simp add: application_ok_def)
  then have ascii: "\<not> (\<exists>x \<in> set (al_sha256 l). 128 \<le> x)"
    by (auto simp: is_sha256_def is_lower_hex_def list_all_iff)
  show ?thesis
    using True l ca ascii
    by (auto simp: require_publication_application_def raise_for_state_def raise_error_def wf_fail_def wf_return_def)
qed

theorem publication_names_the_application_witness:
  "\<forall>st. require_publication_application demo_applied demo_digest st = (st, Inr ()) \<and>
   require_publication_application demo_applied [233] st = (st, Inl (Raised StoreTypeError))"
proof -
  have v: "snapshot_valid (rp_unicode demo_env) demo_applied" using demo_snapshot_valid(5) by (simp add: demo_env_def)
  have s: "sn_state demo_applied = APPLIED" "map_option al_sha256 (sn_application demo_applied) = Some demo_digest"
    "demo_digest \<noteq> [233]"
    by (simp_all add: demo_snapshots demo_ids demo_digest_def numeral_eq_Suc)
  show ?thesis
  proof
    fix st
    from publication_names_the_application [OF v, of demo_digest st] publication_names_the_application [OF v, of "[233]" st] s
    show "require_publication_application demo_applied demo_digest st = (st, Inr ()) \<and>
      require_publication_application demo_applied [233] st = (st, Inl (Raised StoreTypeError))" by auto
  qed
qed

text \<open>
  C40. Private payloads are kept: what was written under a name, floats included, is read back with its
  items in the order of their keys, and a later write under that name fails; nothing is left to read
  after the private files were removed. The one exception is stated too: writing has no size limit,
  and a payload whose bytes exceed the limit of a record is refused by every later read. Of \<open>float\<close>
  only its documentation is used: it reads what \<open>repr\<close> gives back as that float.
\<close>

theorem private_payload_round_trip:
  assumes "write_private_json st name v = Inr st'" "json_value (reads_float (rp_float env)) v"
  shows "(\<exists>raw. rm_canonical_bytes v = Inr raw \<and> read_private_json env st' name =
      (if length raw \<le> max_record_bytes then Inr (json_norm v) else Inl StoreValueError)) \<and>
    (\<forall>w. \<exists>e. write_private_json st' name w = Inl e) \<and>
    (\<forall>safe st2. cleanup_private safe st' = Inr (st2, True) \<longrightarrow> read_private_json env st2 name = Inl session_corrupt)"
proof -
  from assms(1) obtain files raw where files: "\<not> ss_read_only st" "ss_private st = Some files" "payload_name_ok name"
      "name \<notin> fst ` set files" and raw: "rm_canonical_bytes v = Inr raw"
    and st': "st' = st\<lparr>ss_private := Some (files @ [(name, raw)])\<rparr>"
    by (auto simp: write_private_json_def res_iffs require_private_def write_payload_def store_result_def split: option.splits sum.splits if_splits)
  have "map_of (files @ [(name, raw)]) name = Some raw"
    using files(4) by (simp add: map_add_def map_of_eq_None_iff [symmetric] split: option.splits)
  then have "read_private_json env st' name = (if length raw \<le> max_record_bytes then Inr (json_norm v) else Inl StoreValueError)"
    using read_canonical_mapping_bytes [OF raw assms(2)] files(3)
    by (simp add: read_private_json_def read_private_bytes_def st' require_private_def store_result_def)
  moreover have "\<exists>e. write_private_json st' name w = Inl e" for w
    using files(1,3)
    by (cases "rm_canonical_bytes w") (auto simp: write_private_json_def st' require_private_def write_payload_def store_result_def)
  moreover have "read_private_json env st2 name = Inl session_corrupt" if "cleanup_private safe st' = Inr (st2, True)" for safe st2
    using cleanup_private_Inr [OF that] by (simp add: read_private_json_def read_private_bytes_def require_private_def)
  ultimately show ?thesis using raw by blast
qed

text \<open>A payload that is written and never read: a text of as many characters as a record has bytes.\<close>

definition demo_long :: json where
  "demo_long = JObj [([97], JStr (replicate max_record_bytes 97))]"

lemma demo_long_text: "json_text demo_long = [123, 34, 97, 34, 58, 34] @ replicate max_record_bytes 97 @ [34, 125]"
proof -
  have "concat (map escape_char (replicate n 97)) = replicate n 97" for n
    by (induction n) (simp_all add: escape_char_def)
  then show ?thesis by (simp add: demo_long_def quoted_def escape_char_def)
qed

lemma demo_long_bytes: "\<exists>raw. rm_canonical_bytes demo_long = Inr raw \<and> max_record_bytes < length raw"
proof -
  have ascii: "list_all (\<lambda>c. c < 128) (json_text demo_long)" unfolding demo_long_text by (simp add: list_all_iff)
  have "utf8_encode (json_text demo_long) = Some (json_text demo_long)" using ascii utf8_encode_ascii by (simp add: list_all_iff)
  moreover have "json_plain demo_long" "json_digits_ok demo_long"
    using utf8_ok_ascii [of "replicate max_record_bytes 97"] utf8_ok_ascii [of "[97]"]
    by (simp_all add: demo_long_def json_digits_ok.simps list_all_iff)
  moreover have "max_record_bytes < length (json_text demo_long)" unfolding demo_long_text by simp
  ultimately show ?thesis by (auto simp: rm_canonical_bytes_Inr demo_long_def)
qed

abbreviation demo_float_env :: repair_env where
  "demo_float_env \<equiv> demo_env\<lparr>rp_float := FFinite\<rparr>"

theorem private_payload_round_trip_witness:
  "\<exists>st st1 st2. write_private_json st (lit ''a'') (JObj [([97], JFloat (FFinite [49, 46, 53]))]) = Inr st1 \<and>
     read_private_json demo_float_env st1 (lit ''a'') = Inr (JObj [([97], JFloat (FFinite [49, 46, 53]))]) \<and>
     write_private_json st (lit ''a'') demo_long = Inr st2 \<and> read_private_json demo_float_env st2 (lit ''a'') = Inl StoreValueError"
proof -
  let ?v = "JObj [([97], JFloat (FFinite [49, 46, 53]))]" and ?b = "[123, 34, 97, 34, 58, 49, 46, 53, 125]"
  have raw: "rm_canonical_bytes ?v = Inr ?b" and name: "payload_name_ok (lit ''a'')"
    and v: "json_value (reads_float FFinite) ?v" by code_simp+
  obtain long where long: "rm_canonical_bytes demo_long = Inr long" "max_record_bytes < length long" using demo_long_bytes by blast
  let ?st = "\<lparr>ss_session = [], ss_read_only = False, ss_events = [], ss_preview_file = None, ss_cache = None, ss_private = Some []\<rparr>"
  have w: "write_private_json ?st (lit ''a'') ?v = Inr (?st\<lparr>ss_private := Some [(lit ''a'', ?b)]\<rparr>)"
    "write_private_json ?st (lit ''a'') demo_long = Inr (?st\<lparr>ss_private := Some [(lit ''a'', long)]\<rparr>)"
    using raw long name by (simp_all add: write_private_json_def require_private_def write_payload_def store_result_def)
  have float: "json_value (reads_float (rp_float demo_float_env)) ?v" "json_value (reads_float (rp_float demo_float_env)) demo_long"
    using v by (simp_all add: demo_long_def json_value.simps)
  have "length ?b \<le> max_record_bytes" by (simp add: max_record_bytes_def)
  with private_payload_round_trip [OF w(1) float(1)] private_payload_round_trip [OF w(2) float(2)] raw long w show ?thesis
    by (auto simp: json_norm.simps)
qed

end
