(* ===== verification/Repair_Patch.thy ===== *)
theory Repair_Patch
  imports Repair_Models Json_Scan Complex_Main
begin

text \<open>
  The parser of the patches a provider proposes, \<open>src/src/repoguard/_repair_patch.py\<close>, with the
  generation policy whose ceilings it applies.
\<close>

section \<open>The generation policy\<close>

datatype repair_provider_kind = OPENAI | ANTHROPIC

datatype repair_generation_mode = DETERMINISTIC | PROVIDER | MIXED

text \<open>A finite float is a rational number.\<close>

record generation_policy =
  gp_mode :: repair_generation_mode
  gp_provider :: "repair_provider_kind option"
  gp_model :: "pystr option"
  gp_max_file_bytes :: nat
  gp_max_prompt_bytes :: nat
  gp_max_response_bytes :: nat
  gp_max_output_tokens :: nat
  gp_max_queries :: nat
  gp_max_query_bytes :: nat
  gp_max_context_hits :: nat
  gp_max_patch_bytes :: nat
  gp_max_patch_paths :: nat
  gp_max_changed_lines :: nat
  gp_attempt_timeout :: rat
  gp_total_timeout :: rat

definition generation_policy_ok :: "unicode_db \<Rightarrow> generation_policy \<Rightarrow> bool" where
  "generation_policy_ok ud p \<longleftrightarrow>
     (if gp_mode p = DETERMINISTIC then gp_provider p = None \<and> gp_model p = None
      else gp_provider p \<noteq> None \<and> gp_model p \<noteq> None) \<and>
     opt_all (text_ok ud 1 256) (gp_model p) \<and>
     gp_max_file_bytes p \<in> {1..1048576} \<and> gp_max_prompt_bytes p \<in> {1..1048576} \<and>
     gp_max_response_bytes p \<in> {1..524288} \<and> gp_max_output_tokens p \<in> {1..16384} \<and>
     gp_max_queries p \<in> {1..16} \<and> gp_max_query_bytes p \<in> {1..2048} \<and>
     gp_max_context_hits p \<in> {1..12} \<and> gp_max_patch_bytes p \<in> {1..262144} \<and>
     gp_max_patch_paths p \<in> {1..32} \<and> gp_max_changed_lines p \<in> {1..10000} \<and>
     0 < gp_attempt_timeout p \<and> gp_attempt_timeout p \<le> 30 \<and>
     0 < gp_total_timeout p \<and> gp_total_timeout p \<le> 95 \<and>
     gp_attempt_timeout p \<le> gp_total_timeout p"

section \<open>Patches\<close>

datatype patch_line_kind = PL_CONTEXT | PL_ADDITION | PL_DELETION | PL_NO_NEWLINE

record patch_line =
  pl_kind :: patch_line_kind
  pl_content :: pystr

record patch_hunk =
  ph_old_start :: nat
  ph_old_count :: nat
  ph_new_start :: nat
  ph_new_count :: nat
  ph_lines :: "patch_line list"

record patch_file =
  pf_path :: pystr
  pf_new :: bool
  pf_hunks :: "patch_hunk list"

record parsed_patch =
  pp_source :: pystr
  pp_files :: "patch_file list"
  pp_changed :: nat

datatype patch_error = PatchError repair_error_code repair_stage | PatchValueError

abbreviation patch_invalid :: patch_error where
  "patch_invalid \<equiv> PatchError PATCH_INVALID PATCH"

abbreviation patch_limit :: patch_error where
  "patch_limit \<equiv> PatchError PATCH_LIMIT PATCH"

section \<open>Lines\<close>

text \<open>\<open>str.splitlines(keepends=True)\<close>: lines end at any of Python's line boundaries.\<close>

definition is_line_break :: "nat \<Rightarrow> bool" where
  "is_line_break c \<longleftrightarrow> c \<in> {10, 11, 12, 13, 28, 29, 30, 133, 8232, 8233}"

fun split_lines :: "pystr \<Rightarrow> pystr list" where
  "split_lines [] = []"
| "split_lines (c # cs) =
     (if c = 13 \<and> starts_with [10] cs then [13, 10] # split_lines (tl cs)
      else if is_line_break c then [c] # split_lines cs
      else (case split_lines cs of [] \<Rightarrow> [[c]] | l # ls \<Rightarrow> (c # l) # ls))"

definition strip_lf :: "pystr \<Rightarrow> patch_error + pystr" where
  "strip_lf s = (if ends_with [10] s then Inr (butlast s) else Inl patch_invalid)"

definition no_newline_marker :: pystr where
  "no_newline_marker = 92 # lit '' No newline at end of file''"

definition validated_patch_bytes :: "unicode_db \<Rightarrow> generation_policy \<Rightarrow> pystr \<Rightarrow> patch_error + bytes" where
  "validated_patch_bytes ud policy patch =
     (case utf8_encode patch of
        None \<Rightarrow> Inl patch_invalid
      | Some encoded \<Rightarrow>
          and_then (require (length encoded \<le> gp_max_patch_bytes policy) patch_limit) (\<lambda>_.
          and_then (require (encoded \<noteq> [] \<and> ends_with [10] patch \<and> 13 \<notin> set patch \<and> 0 \<notin> set patch) patch_invalid) (\<lambda>_.
          and_then (require (list_all (\<lambda>c. c = 10 \<or> c = 9 \<or> \<not> ud_control ud c) patch) patch_invalid) (\<lambda>_.
            Inr encoded))))"

definition parse_file_headers :: "unicode_db \<Rightarrow> pystr \<Rightarrow> pystr \<Rightarrow> patch_error + (pystr \<times> bool)" where
  "parse_file_headers ud old new =
     and_then (require (9 \<notin> set old \<and> 9 \<notin> set new) patch_invalid) (\<lambda>_.
     and_then (require (starts_with (lit ''b/'') new \<and>
         (old = lit ''/dev/null'' \<or> starts_with (lit ''a/'') old \<and> drop 2 new = drop 2 old)) patch_invalid) (\<lambda>_.
       case validate_repository_path ud (drop 2 new) of
         Inl _ \<Rightarrow> Inl patch_invalid
       | Inr path \<Rightarrow> Inr (path, old = lit ''/dev/null'')))"

section \<open>Hunk headers\<close>

text \<open>A number of a header: \<open>0|[1-9][0-9]*\<close>. What follows one in the pattern is never a digit, so the
  match takes all digits.\<close>

definition take_number :: "pystr \<Rightarrow> (pystr \<times> pystr) option" where
  "take_number s =
     (let ds = takeWhile is_digit s in
      if ds = [] \<or> hd ds = 48 \<and> ds \<noteq> [48] then None else Some (ds, drop (length ds) s))"

definition take_text :: "pystr \<Rightarrow> pystr \<Rightarrow> pystr option" where
  "take_text p s = (if starts_with p s then Some (drop (length p) s) else None)"

text \<open>A start with an optional count: \<open>n(?:,m)?\<close>.\<close>

definition take_range :: "pystr \<Rightarrow> (pystr \<times> pystr option \<times> pystr) option" where
  "take_range s =
     Option.bind (take_number s) (\<lambda>(a, r).
       if starts_with [44] r then map_option (\<lambda>(b, r'). (a, Some b, r')) (take_number (drop 1 r))
       else Some (a, None, r))"

text \<open>The groups of \<open>^@@ -n(,n)? \+n(,n)? @@$\<close> as a full match.\<close>

definition hunk_header_groups :: "pystr \<Rightarrow> (pystr \<times> pystr option \<times> pystr \<times> pystr option) option" where
  "hunk_header_groups s =
     Option.bind (take_text (lit ''@@ -'') s) (\<lambda>s1.
     Option.bind (take_range s1) (\<lambda>(a, b, s2).
     Option.bind (take_text (lit '' +'') s2) (\<lambda>s3.
     Option.bind (take_range s3) (\<lambda>(c, d, s4).
       if s4 = lit '' @@'' then Some (a, b, c, d) else None))))"

text \<open>\<open>int\<close> of a run of digits; the interpreter refuses more than 4300 of them.\<close>

definition int_of_digits :: "pystr \<Rightarrow> patch_error + nat" where
  "int_of_digits ds = (if 4300 < length ds then Inl PatchValueError else Inr (digits_value ds))"

definition int_of_count :: "pystr option \<Rightarrow> patch_error + nat" where
  "int_of_count g = (case g of None \<Rightarrow> Inr 1 | Some ds \<Rightarrow> int_of_digits ds)"

definition hunk_coordinates ::
  "pystr \<times> pystr option \<times> pystr \<times> pystr option \<Rightarrow> patch_error + (nat \<times> nat \<times> nat \<times> nat)" where
  "hunk_coordinates g =
     (case g of (a, b, c, d) \<Rightarrow>
        and_then (int_of_digits a) (\<lambda>old_start.
        and_then (int_of_count b) (\<lambda>old_count.
        and_then (int_of_digits c) (\<lambda>new_start.
        and_then (int_of_count d) (\<lambda>new_count. Inr (old_start, old_count, new_start, new_count))))))"

definition parse_hunk_header :: "pystr \<Rightarrow> patch_error + (nat \<times> nat \<times> nat \<times> nat)" where
  "parse_hunk_header s =
     (case hunk_header_groups s of
        None \<Rightarrow> Inl patch_invalid
      | Some g \<Rightarrow> (case hunk_coordinates g of Inl _ \<Rightarrow> Inl patch_invalid | Inr x \<Rightarrow> Inr x))"

definition parse_hunk_line :: "pystr \<Rightarrow> patch_error + patch_line" where
  "parse_hunk_line s =
     (if s = no_newline_marker then Inr \<lparr>pl_kind = PL_NO_NEWLINE, pl_content = []\<rparr>
      else (case s of
          [] \<Rightarrow> Inl patch_invalid
        | c # cs \<Rightarrow>
            if c = 32 then Inr \<lparr>pl_kind = PL_CONTEXT, pl_content = cs\<rparr>
            else if c = 43 then Inr \<lparr>pl_kind = PL_ADDITION, pl_content = cs\<rparr>
            else if c = 45 then Inr \<lparr>pl_kind = PL_DELETION, pl_content = cs\<rparr>
            else Inl patch_invalid))"

section \<open>Hunks\<close>

text \<open>What the loop over the lines of a hunk keeps: the lines seen on either side, the changed ones,
  whether a content line came before and whether the last line was the marker.\<close>

record hunk_scan =
  hs_old :: nat
  hs_new :: nat
  hs_changed :: nat
  hs_content :: bool
  hs_marker :: bool

definition start_scan :: hunk_scan where
  "start_scan = \<lparr>hs_old = 0, hs_new = 0, hs_changed = 0, hs_content = False, hs_marker = False\<rparr>"

definition scan_line :: "hunk_scan \<Rightarrow> patch_line \<Rightarrow> patch_error + hunk_scan" where
  "scan_line st l =
     (case pl_kind l of
        PL_NO_NEWLINE \<Rightarrow>
          if \<not> hs_content st \<or> hs_marker st then Inl patch_invalid else Inr (st\<lparr>hs_marker := True\<rparr>)
      | PL_CONTEXT \<Rightarrow> Inr (st\<lparr>hs_old := hs_old st + 1, hs_new := hs_new st + 1, hs_content := True, hs_marker := False\<rparr>)
      | PL_ADDITION \<Rightarrow>
          Inr (st\<lparr>hs_new := hs_new st + 1, hs_changed := hs_changed st + 1, hs_content := True, hs_marker := False\<rparr>)
      | PL_DELETION \<Rightarrow>
          Inr (st\<lparr>hs_old := hs_old st + 1, hs_changed := hs_changed st + 1, hs_content := True, hs_marker := False\<rparr>))"

definition ends_hunk :: "pystr \<Rightarrow> bool" where
  "ends_hunk raw \<longleftrightarrow> starts_with (lit ''@@ '') raw \<or> starts_with (lit ''--- '') raw"

fun hunk_lines :: "hunk_scan \<Rightarrow> pystr list \<Rightarrow> patch_error + (patch_line list \<times> hunk_scan \<times> pystr list)" where
  "hunk_lines st [] = Inr ([], st, [])"
| "hunk_lines st (raw # rest) =
     (if ends_hunk raw then Inr ([], st, raw # rest)
      else and_then (strip_lf raw) (\<lambda>s. and_then (parse_hunk_line s) (\<lambda>l.
        and_then (scan_line st l) (\<lambda>st'. and_then (hunk_lines st' rest) (\<lambda>(ls, st'', rest').
          Inr (l # ls, st'', rest'))))))"

text \<open>One hunk from its header: \<open>ends\<close> is where the previous hunk of the file ended on either side.
  The result has the number of changed lines and the lines after the hunk.\<close>

definition parse_hunk ::
  "bool \<Rightarrow> (nat \<times> nat) option \<Rightarrow> pystr \<Rightarrow> pystr list \<Rightarrow> patch_error + (patch_hunk \<times> nat \<times> pystr list)" where
  "parse_hunk is_new ends raw rest =
     and_then (strip_lf raw) (\<lambda>header.
     and_then (parse_hunk_header header) (\<lambda>(old_start, old_count, new_start, new_count).
     and_then (hunk_lines start_scan rest) (\<lambda>(ls, st, rest').
     and_then (require (ls \<noteq> [] \<and> hs_old st = old_count \<and> hs_new st = new_count \<and> hs_changed st \<noteq> 0)
       patch_invalid) (\<lambda>_.
     and_then (require (\<not> (is_new \<and> (old_start \<noteq> 0 \<or> old_count \<noteq> 0 \<or> hs_old st \<noteq> 0))) patch_invalid) (\<lambda>_.
     and_then (require (\<not> (0 < old_count \<and> old_start = 0 \<or> 0 < new_count \<and> new_start = 0)) patch_invalid) (\<lambda>_.
     and_then (require (case ends of None \<Rightarrow> True | Some (old_end, new_end) \<Rightarrow>
         old_end \<le> old_start \<and> new_end \<le> new_start) patch_invalid) (\<lambda>_.
       Inr (\<lparr>ph_old_start = old_start, ph_old_count = old_count, ph_new_start = new_start,
         ph_new_count = new_count, ph_lines = ls\<rparr>, hs_changed st, rest'))))))))"

lemma hunk_lines_length: "hunk_lines st ls = Inr (xs, st', rest) \<Longrightarrow> length rest \<le> length ls"
  by (induction ls arbitrary: st xs st') (auto simp: res_iffs split: if_splits; fastforce)+

lemma parse_hunk_length: "parse_hunk b e raw ls = Inr (h, n, rest) \<Longrightarrow> length rest \<le> length ls"
  by (auto simp: parse_hunk_def res_iffs dest: hunk_lines_length)

text \<open>The hunks of a file: the changed lines of the patch so far are counted against the ceiling.\<close>

function file_hunks ::
  "generation_policy \<Rightarrow> bool \<Rightarrow> (nat \<times> nat) option \<Rightarrow> nat \<Rightarrow> pystr list \<Rightarrow>
   patch_error + (patch_hunk list \<times> nat \<times> pystr list)" where
  "file_hunks policy is_new ends seen lines =
     (case lines of
        [] \<Rightarrow> Inr ([], seen, [])
      | raw # rest \<Rightarrow>
          if \<not> starts_with (lit ''@@ '') raw then Inr ([], seen, lines)
          else and_then (parse_hunk is_new ends raw rest) (\<lambda>(h, changed, rest').
            and_then (require (seen + changed \<le> gp_max_changed_lines policy) patch_limit) (\<lambda>_.
            and_then (file_hunks policy is_new
                (Some (ph_old_start h + ph_old_count h, ph_new_start h + ph_new_count h)) (seen + changed) rest')
              (\<lambda>(hs, seen', rest''). Inr (h # hs, seen', rest'')))))"
  by pat_completeness auto
termination
  by (relation "measure (\<lambda>(_, _, _, _, ls). length ls)") (auto dest!: parse_hunk_length)

declare file_hunks.simps [simp del]

lemma file_hunks_length: "file_hunks p b e n ls = Inr (hs, m, rest) \<Longrightarrow> length rest \<le> length ls"
proof (induction p b e n ls arbitrary: hs m rest rule: file_hunks.induct)
  case (1 policy is_new ends seen lines)
  show ?case
  proof (cases lines)
    case (Cons raw ls)
    show ?thesis
    proof (cases "starts_with (lit ''@@ '') raw")
      case True
      with 1 Cons obtain h c ls' hs' where "parse_hunk is_new ends raw ls = Inr (h, c, ls')"
        "file_hunks policy is_new (Some (ph_old_start h + ph_old_count h, ph_new_start h + ph_new_count h))
          (seen + c) ls' = Inr (hs', m, rest)" "seen + c \<le> gp_max_changed_lines policy"
        by (subst (asm) (2) file_hunks.simps) (auto simp: res_iffs)
      with 1(1) Cons True parse_hunk_length show ?thesis by fastforce
    qed (use 1 Cons in \<open>simp add: file_hunks.simps\<close>)
  qed (use 1 in \<open>simp add: file_hunks.simps\<close>)
qed

section \<open>Files\<close>

text \<open>The files of a patch: \<open>previous\<close> is the path of the last file, \<open>k\<close> the number of files so far.\<close>

function parse_files ::
  "unicode_db \<Rightarrow> generation_policy \<Rightarrow> pystr list \<Rightarrow> pystr option \<Rightarrow> nat \<Rightarrow> nat \<Rightarrow> pystr list \<Rightarrow>
   patch_error + (patch_file list \<times> nat)" where
  "parse_files ud policy allowed previous k seen lines =
     (case lines of
        [] \<Rightarrow> Inr ([], seen)
      | raw # rest \<Rightarrow>
          and_then (strip_lf raw) (\<lambda>old_header.
          and_then (require (starts_with (lit ''--- '') old_header) patch_invalid) (\<lambda>_.
          case rest of
            [] \<Rightarrow> Inl patch_invalid
          | raw' # rest' \<Rightarrow>
              and_then (strip_lf raw') (\<lambda>new_header.
              and_then (require (starts_with (lit ''+++ '') new_header) patch_invalid) (\<lambda>_.
              and_then (parse_file_headers ud (drop 4 old_header) (drop 4 new_header)) (\<lambda>(path, is_new).
              and_then (require (path \<in> set allowed) patch_invalid) (\<lambda>_.
              and_then (require (case previous of None \<Rightarrow> True | Some p \<Rightarrow> utf8_bytes p < utf8_bytes path) patch_invalid) (\<lambda>_.
              and_then (require (k < gp_max_patch_paths policy) patch_limit) (\<lambda>_.
              and_then (file_hunks policy is_new None seen rest') (\<lambda>(hunks, seen', rest'').
              and_then (require (hunks \<noteq> [] \<and> seen' \<noteq> seen) patch_invalid) (\<lambda>_.
              and_then (require (case rest'' of [] \<Rightarrow> True | next # _ \<Rightarrow> starts_with (lit ''--- '') next) patch_invalid) (\<lambda>_.
              and_then (parse_files ud policy allowed (Some path) (Suc k) seen' rest'') (\<lambda>(fs, seen'').
                Inr (\<lparr>pf_path = path, pf_new = is_new, pf_hunks = hunks\<rparr> # fs, seen''))))))))))))))"
  by pat_completeness auto
termination
  by (relation "measure (\<lambda>(_, _, _, _, _, _, ls). length ls)") (auto dest!: file_hunks_length)

declare parse_files.simps [simp del]

definition parse_wire_patch ::
  "unicode_db \<Rightarrow> generation_policy \<Rightarrow> pystr list \<Rightarrow> pystr \<Rightarrow> patch_error + parsed_patch" where
  "parse_wire_patch ud policy allowed patch =
     (case canonical_repository_paths ud 1 32 allowed of
        Inl _ \<Rightarrow> Inl patch_invalid
      | Inr _ \<Rightarrow>
          and_then (validated_patch_bytes ud policy patch) (\<lambda>encoded.
          let lines = split_lines patch in
          and_then (require (lines \<noteq> [] \<and> sum_list (map byte_length lines) = length encoded) patch_invalid) (\<lambda>_.
          and_then (parse_files ud policy allowed None 0 0 lines) (\<lambda>(files, changed).
          and_then (require (files \<noteq> []) patch_invalid) (\<lambda>_.
            Inr \<lparr>pp_source = patch, pp_files = files, pp_changed = changed\<rparr>)))))"

end
