(* ===== verification/Repair_Secrets.thy ===== *)
theory Repair_Secrets
  imports Review Repair_Patch
begin

text \<open>
  Private-key material in the files of a repair, \<open>src/src/repoguard/_repair_secrets.py\<close>: the ranges to
  protect, the prompt projection without them, the deterministic patch that deletes them, the check of the
  final files and the redaction of the preview. A \<open>RepairError\<close> also carries the state and the session id
  its caller passed in; the model keeps its code and stage.
\<close>

section \<open>Data\<close>

record file_content =
  rc_path :: pystr
  rc_content :: "bytes option"

record selected_range =
  sk_path :: pystr
  sk_start :: nat
  sk_end :: nat

definition selected_range_ok :: "selected_range \<Rightarrow> bool" where
  "selected_range_ok r \<longleftrightarrow> 1 \<le> sk_start r \<and> sk_start r \<le> sk_end r"

record key_match =
  km_path :: pystr
  km_label :: pystr
  km_start :: nat
  km_end :: nat

record protected_range =
  pr_path :: pystr
  pr_start :: nat
  pr_end :: nat

record sanitized_file =
  sf_path :: pystr
  sf_content :: "pystr option"

record key_plan =
  kp_matches :: "key_match list"
  kp_protected :: "protected_range list"
  kp_files :: "sanitized_file list"
  kp_patch :: "parsed_patch option"

abbreviation secret_error :: "repair_error_code \<Rightarrow> repair_stage \<Rightarrow> patch_error" where
  "secret_error \<equiv> PatchError"

definition redaction_sentinel :: pystr where
  "redaction_sentinel = lit ''[REDACTED_PRIVATE_KEY_MATERIAL]''"

section \<open>Scanning\<close>

definition decode_lf_utf8 ::
  "nat \<Rightarrow> patch_error \<Rightarrow> patch_error \<Rightarrow> bytes \<Rightarrow> patch_error + pystr" where
  "decode_lf_utf8 maximum limit_error invalid_error content =
     and_then (require (length content \<le> maximum) limit_error) (\<lambda>_.
       case utf8_decode content of
         None \<Rightarrow> Inl invalid_error
       | Some text \<Rightarrow> if 0 \<in> set content \<or> 13 \<in> set content then Inl invalid_error else Inr text)"

definition match_sort_key :: "key_match \<Rightarrow> bytes \<times> nat \<times> nat \<times> bytes" where
  "match_sort_key m = (utf8_bytes (km_path m), km_start m, km_end m, utf8_bytes (km_label m))"

text \<open>The lines of a text without their line feeds.\<close>

definition scanned_lines :: "pystr \<Rightarrow> pystr list" where
  "scanned_lines text =
     (let lines = split_on 10 text; lines' = (if last lines = [] then butlast lines else lines) in
      if text = [] then [] else lines')"

text \<open>The open BEGIN lines of a label and the matches so far.\<close>

type_synonym pairing = "(pystr \<Rightarrow> nat list) \<times> key_match list"

definition pair_marker :: "pystr \<Rightarrow> nat \<Rightarrow> pairing \<Rightarrow> bool \<times> pystr \<Rightarrow> pairing" where
  "pair_marker path n st m =
     (case (st, m) of ((q, out), (is_begin, label)) \<Rightarrow>
        if is_begin then (q(label := q label @ [n]), out)
        else (case q label of
            [] \<Rightarrow> (q, out)
          | s # rest \<Rightarrow> (q(label := rest),
              out @ [\<lparr>km_path = path, km_label = label, km_start = s, km_end = n\<rparr>])))"

definition pair_line :: "pystr \<Rightarrow> pairing \<Rightarrow> nat \<times> pystr \<Rightarrow> pairing" where
  "pair_line path st line = foldl (pair_marker path (fst line)) st (marker_scan (snd line))"

definition paired_ranges :: "pystr \<Rightarrow> pystr \<Rightarrow> key_match list" where
  "paired_ranges path text =
     sort_key match_sort_key (snd (foldl (pair_line path) (\<lambda>_. [], []) (enumerate 1 (scanned_lines text))))"

definition scan_private_key_ranges :: "unicode_db \<Rightarrow> pystr \<Rightarrow> bytes \<Rightarrow> patch_error + key_match list" where
  "scan_private_key_ranges ud path content =
     (case validate_repository_path ud path of
        Inl _ \<Rightarrow> Inl (secret_error INVALID_PATH INPUT)
      | Inr _ \<Rightarrow>
          and_then (decode_lf_utf8 16777216 (secret_error repair_error_code.RESOURCE_LIMIT INPUT) (secret_error INVALID_PATH INPUT) content)
            (\<lambda>text. Inr (paired_ranges path text)))"

definition range_key :: "protected_range \<Rightarrow> bytes \<times> nat \<times> nat" where
  "range_key r = (utf8_bytes (pr_path r), pr_start r, pr_end r)"

definition unique_protected_ranges :: "key_match list \<Rightarrow> protected_range list" where
  "unique_protected_ranges ms =
     sort_key range_key (remdups (map (\<lambda>m. \<lparr>pr_path = km_path m, pr_start = km_start m, pr_end = km_end m\<rparr>) ms))"

text \<open>Ranges that touch or overlap become one. The dictionary is a list of paths with their ranges.\<close>

fun coalesce_into :: "(nat \<times> nat) list \<Rightarrow> nat \<times> nat \<Rightarrow> (nat \<times> nat) list" where
  "coalesce_into current (s, e) =
     (if current \<noteq> [] \<and> s \<le> snd (last current) + 1
      then butlast current @ [(fst (last current), max (snd (last current)) e)]
      else current @ [(s, e)])"

definition coalesce_ranges :: "protected_range list \<Rightarrow> pystr \<Rightarrow> (nat \<times> nat) list" where
  "coalesce_ranges rs path =
     foldl coalesce_into [] (map (\<lambda>r. (pr_start r, pr_end r)) (filter (\<lambda>r. pr_path r = path) rs))"

definition remove_ranges :: "pystr option \<Rightarrow> (nat \<times> nat) list \<Rightarrow> pystr option" where
  "remove_ranges text ranges =
     (case text of
        None \<Rightarrow> None
      | Some t \<Rightarrow>
          if ranges = [] then Some t
          else Some (concat (map snd (filter (\<lambda>(n, _). \<not> list_ex (\<lambda>(s, e). s \<le> n \<and> n \<le> e) ranges)
            (enumerate 1 (split_lf t))))))"

section \<open>The deletion patch\<close>

definition deletion_header :: "nat \<Rightarrow> nat \<Rightarrow> nat \<Rightarrow> pystr" where
  "deletion_header start n new_start =
     lit ''@@ -'' @ nat_text start @ 44 # nat_text n @ lit '' +'' @ nat_text new_start @ lit '',0 @@'' @ [10]"

definition deletion_line :: "pystr \<Rightarrow> pystr" where
  "deletion_line l = (if ends_with [10] l then 45 # l else 45 # l @ 10 # no_newline_marker @ [10])"

fun deletion_hunks :: "pystr list \<Rightarrow> nat \<Rightarrow> (nat \<times> nat) list \<Rightarrow> pystr" where
  "deletion_hunks lines deleted [] = []"
| "deletion_hunks lines deleted ((s, e) # rs) =
     deletion_header s (e - s + 1) (s - deleted - 1) @
     concat (map deletion_line (take (e - (s - 1)) (drop (s - 1) lines))) @
     deletion_hunks lines (deleted + (e - s + 1)) rs"

definition deletion_file :: "pystr \<Rightarrow> pystr \<Rightarrow> (nat \<times> nat) list \<Rightarrow> pystr" where
  "deletion_file path text ranges =
     lit ''--- a/'' @ path @ 10 # lit ''+++ b/'' @ path @ 10 # deletion_hunks (split_lf text) 0 ranges"

text \<open>\<open>decoded\<close> is in the order of the paths, as the files of a plan are; no match means no patch.\<close>

definition deletion_patch_source :: "(pystr \<times> pystr option) list \<Rightarrow> (pystr \<Rightarrow> (nat \<times> nat) list) \<Rightarrow> pystr option" where
  "deletion_patch_source decoded ranges =
     (let touched = filter (\<lambda>(path, _). ranges path \<noteq> []) decoded in
      if touched = [] then None
      else Some (concat (map (\<lambda>(path, text). case text of None \<Rightarrow> [] | Some t \<Rightarrow> deletion_file path t (ranges path))
        (sort_key (\<lambda>(path, _). utf8_bytes path) touched))))"

section \<open>The plan\<close>

definition validate_allowed_files :: "unicode_db \<Rightarrow> file_content list \<Rightarrow> patch_error + pystr list" where
  "validate_allowed_files ud files =
     and_then (require (1 \<le> length files \<and> length files \<le> 32) (secret_error INVALID_PATH INPUT)) (\<lambda>_.
       case canonical_repository_paths ud 1 32 (map rc_path files) of
         Inl _ \<Rightarrow> Inl (secret_error INVALID_PATH INPUT)
       | Inr paths \<Rightarrow> Inr paths)"

definition validate_selections ::
  "unicode_db \<Rightarrow> pystr list \<Rightarrow> selected_range list \<Rightarrow> patch_error + (pystr \<times> nat \<times> nat) set" where
  "validate_selections ud allowed selected =
     and_then (require (list_all (\<lambda>r. sk_path r \<in> set allowed \<and> validate_repository_path ud (sk_path r) = Inr (sk_path r) \<and>
         1 \<le> sk_start r \<and> sk_start r \<le> sk_end r) selected) (secret_error INVALID_TARGETS INPUT)) (\<lambda>_.
     let coordinates = map (\<lambda>r. (sk_path r, sk_start r, sk_end r)) selected in
     and_then (require (distinct coordinates) (secret_error INVALID_TARGETS INPUT)) (\<lambda>_. Inr (set coordinates)))"

definition decode_allowed :: "generation_policy \<Rightarrow> file_content \<Rightarrow> patch_error + (pystr \<times> pystr option)" where
  "decode_allowed policy f =
     (case rc_content f of
        None \<Rightarrow> Inr (rc_path f, None)
      | Some content \<Rightarrow>
          and_then (decode_lf_utf8 (gp_max_file_bytes policy) (secret_error repair_error_code.RESOURCE_LIMIT INPUT)
              (secret_error INVALID_PATH INPUT) content)
            (\<lambda>text. Inr (rc_path f, Some text)))"

definition file_matches :: "pystr \<times> pystr option \<Rightarrow> key_match list" where
  "file_matches f = (case f of (path, text) \<Rightarrow> (case text of None \<Rightarrow> [] | Some t \<Rightarrow> paired_ranges path t))"

definition prepare_private_key_plan ::
  "unicode_db \<Rightarrow> generation_policy \<Rightarrow> file_content list \<Rightarrow> selected_range list \<Rightarrow> patch_error + key_plan" where
  "prepare_private_key_plan ud policy files selected_ranges =
     and_then (validate_allowed_files ud files) (\<lambda>paths.
     and_then (validate_selections ud paths selected_ranges) (\<lambda>selected.
     and_then (map_res (decode_allowed policy) files) (\<lambda>decoded.
     let matches = sort_key match_sort_key (concat (map file_matches decoded));
         protected = unique_protected_ranges matches;
         coalesced = coalesce_ranges protected in
     and_then (require (selected = set (map (\<lambda>r. (pr_path r, pr_start r, pr_end r)) protected))
       (secret_error INVALID_TARGETS INPUT)) (\<lambda>_.
     let prompt_files = map (\<lambda>(path, text). \<lparr>sf_path = path, sf_content = remove_ranges text (coalesced path)\<rparr>) decoded in
     case deletion_patch_source decoded coalesced of
       None \<Rightarrow> Inr \<lparr>kp_matches = matches, kp_protected = protected, kp_files = prompt_files, kp_patch = None\<rparr>
     | Some source \<Rightarrow>
         and_then (parse_wire_patch ud policy paths source) (\<lambda>patch.
           Inr \<lparr>kp_matches = matches, kp_protected = protected, kp_files = prompt_files, kp_patch = Some patch\<rparr>)))))"

definition validate_final_file :: "file_content \<Rightarrow> patch_error + unit" where
  "validate_final_file f =
     (case rc_content f of
        None \<Rightarrow> Inl (secret_error INVALID_WORKFLOW PATCH)
      | Some content \<Rightarrow>
          and_then (decode_lf_utf8 16777216 (secret_error repair_error_code.RESOURCE_LIMIT PATCH) (secret_error PATCH_INVALID PATCH) content)
            (\<lambda>text. require (paired_ranges (rc_path f) text = []) (secret_error PATCH_INVALID PATCH)))"

definition validate_final_changed_files :: "unicode_db \<Rightarrow> file_content list \<Rightarrow> patch_error + unit" where
  "validate_final_changed_files ud files =
     and_then (require (1 \<le> length files \<and> length files \<le> 32 \<and> list_all (\<lambda>f. rc_content f \<noteq> None) files)
       (secret_error INVALID_WORKFLOW PATCH)) (\<lambda>_.
     case canonical_repository_paths ud 1 32 (map rc_path files) of
       Inl _ \<Rightarrow> Inl (secret_error INVALID_WORKFLOW PATCH)
     | Inr _ \<Rightarrow> and_then (map_res validate_final_file files) (\<lambda>_. Inr ()))"

section \<open>The redacted preview\<close>

definition range_step ::
  "unicode_db \<Rightarrow> (bytes \<times> nat \<times> nat) option \<times> (pystr \<times> nat) set \<Rightarrow> protected_range \<Rightarrow>
   patch_error + ((bytes \<times> nat \<times> nat) option \<times> (pystr \<times> nat) set)" where
  "range_step ud st r =
     (case st of (previous, pending) \<Rightarrow>
        and_then (require (validate_repository_path ud (pr_path r) = Inr (pr_path r) \<and>
            1 \<le> pr_start r \<and> pr_start r \<le> pr_end r \<and>
            (case previous of None \<Rightarrow> True | Some key \<Rightarrow> key < range_key r))
          (secret_error INVALID_WORKFLOW PATCH)) (\<lambda>_.
        let pending' = pending \<union> Pair (pr_path r) ` {pr_start r..pr_end r} in
        and_then (require (card pending' \<le> 10000) (secret_error INVALID_WORKFLOW PATCH)) (\<lambda>_.
          Inr (Some (range_key r), pending'))))"

text \<open>The dictionary from paths to line numbers is a set of pairs.\<close>

definition protected_line_map :: "unicode_db \<Rightarrow> protected_range list \<Rightarrow> patch_error + (pystr \<times> nat) set" where
  "protected_line_map ud rs = and_then (fold_res (range_step ud) (None, {}) rs) (\<lambda>(_, pending). Inr pending)"

definition canonical_diff_lines :: "pystr \<Rightarrow> patch_error + pystr list" where
  "canonical_diff_lines s =
     and_then (require (s \<noteq> [] \<and> ends_with [10] s \<and> 13 \<notin> set s \<and> 0 \<notin> set s \<and> utf8_ok s) patch_invalid) (\<lambda>_.
     and_then (require (list_all (ends_with [10]) (split_lf s)) patch_invalid) (\<lambda>_. Inr (split_lf s)))"

fun unquote :: "pystr \<Rightarrow> patch_error + pystr" where
  "unquote [] = Inr []"
| "unquote (c # cs) =
     (if c \<noteq> 92 then and_then (unquote cs) (\<lambda>r. Inr (c # r))
      else (case cs of
          d # ds \<Rightarrow> if d = 34 then and_then (unquote ds) (\<lambda>r. Inr (34 # r)) else Inl patch_invalid
        | [] \<Rightarrow> Inl patch_invalid))"

definition decode_git_path :: "pystr \<Rightarrow> pystr \<Rightarrow> patch_error + pystr" where
  "decode_git_path s prefix =
     and_then
       (if starts_with [34] s
        then if length s < 2 \<or> \<not> ends_with [34] s then Inl patch_invalid else unquote (butlast (tl s))
        else if 34 \<in> set s then Inl patch_invalid else Inr s)
       (\<lambda>token. if starts_with prefix token then Inr (drop (length prefix) token) else Inl patch_invalid)"

definition quote_git_path :: "pystr \<Rightarrow> pystr" where
  "quote_git_path s = 34 # concat (map (\<lambda>c. if c = 34 then [92, 34] else [c]) s) @ [34]"

definition canonical_file_path :: "unicode_db \<Rightarrow> pystr \<Rightarrow> pystr \<Rightarrow> patch_error + pystr" where
  "canonical_file_path ud old_header new_header =
     and_then (require (starts_with (lit ''--- '') old_header \<and> starts_with (lit ''+++ '') new_header) patch_invalid) (\<lambda>_.
     let old = butlast (drop 4 old_header); new = butlast (drop 4 new_header) in
     and_then (decode_git_path new (lit ''b/'')) (\<lambda>path.
     and_then
       (if old = lit ''/dev/null'' then Inr ()
        else and_then (decode_git_path old (lit ''a/'')) (\<lambda>old_path. require (old_path = path) patch_invalid)) (\<lambda>_.
     case validate_repository_path ud path of Inl _ \<Rightarrow> Inl patch_invalid | Inr validated \<Rightarrow> Inr validated)))"

text \<open>\<open>^index (hex)\.\.(hex)(?: 100(?:644|755))?\n$\<close> with both object ids of one length, 40 or 64.\<close>

definition index_header_ok :: "pystr \<Rightarrow> bool" where
  "index_header_ok line \<longleftrightarrow>
     (case take_text (lit ''index '') line of
        None \<Rightarrow> False
      | Some s \<Rightarrow>
          let old = takeWhile is_lower_hex s in
          case take_text (lit ''..'') (drop (length old) s) of
            None \<Rightarrow> False
          | Some t \<Rightarrow>
              let new = takeWhile is_lower_hex t in
              length old \<in> {40, 64} \<and> length new = length old \<and>
              drop (length new) t \<in> {[10], lit '' 100644'' @ [10], lit '' 100755'' @ [10]})"

text \<open>\<open>^@@ -n(,n)? \+n(,n)? @@\n$\<close>.\<close>

definition canonical_hunk_coordinates :: "pystr \<Rightarrow> patch_error + (nat \<times> nat \<times> nat \<times> nat)" where
  "canonical_hunk_coordinates header =
     (case (if ends_with [10] header then hunk_header_groups (butlast header) else None) of
        None \<Rightarrow> Inl patch_invalid
      | Some g \<Rightarrow>
          and_then (hunk_coordinates g) (\<lambda>(old_start, old_count, new_start, new_count).
          and_then (require (\<not> (0 < old_count \<and> old_start = 0 \<or> 0 < new_count \<and> new_start = 0 \<or>
              old_count = 0 \<and> new_count = 0)) patch_invalid) (\<lambda>_.
            Inr (old_start, old_count, new_start, new_count))))"

definition marker_line :: pystr where
  "marker_line = no_newline_marker @ [10]"

text \<open>One line of a hunk: what is written, the lines of either side it takes and the protected line it hides.\<close>

definition redact_line :: "nat set \<Rightarrow> nat \<Rightarrow> pystr \<Rightarrow> patch_error + (pystr \<times> nat \<times> nat \<times> nat list)" where
  "redact_line hidden n raw =
     (case raw of
        [] \<Rightarrow> Inl patch_invalid
      | c # _ \<Rightarrow>
          if raw = marker_line then Inl patch_invalid
          else if c = 32 then if n \<in> hidden then Inl patch_invalid else Inr (raw, 1, 1, [])
          else if c = 45 then
            if n \<in> hidden then Inr (45 # redaction_sentinel @ [10], 1, 0, [n]) else Inr (raw, 1, 0, [])
          else if c = 43 then Inr (raw, 0, 1, [])
          else Inl patch_invalid)"

text \<open>The marker of a missing line feed may follow a line.\<close>

definition take_marker :: "pystr list \<Rightarrow> pystr list \<times> pystr list" where
  "take_marker rest =
     (case rest of m # r \<Rightarrow> if m = marker_line then ([m], r) else ([], rest) | [] \<Rightarrow> ([], []))"

lemma take_marker_append: "fst (take_marker rest) @ snd (take_marker rest) = rest"
  by (simp add: take_marker_def split: list.split)

lemma take_marker_length: "length (snd (take_marker rest)) \<le> length rest"
  by (metis le_add2 length_append take_marker_append)

text \<open>A hunk with \<open>i\<close> old and \<open>j\<close> new lines left, the next old line being \<open>n\<close>.\<close>

function redact_hunk ::
  "nat set \<Rightarrow> nat \<Rightarrow> nat \<Rightarrow> nat \<Rightarrow> pystr list \<Rightarrow> patch_error + (pystr list \<times> nat list \<times> pystr list)" where
  "redact_hunk hidden n i j lines =
     (if i = 0 \<and> j = 0 then Inr ([], [], lines)
      else (case lines of
          [] \<Rightarrow> Inl patch_invalid
        | raw # rest \<Rightarrow>
            and_then (redact_line hidden n raw) (\<lambda>(rendered, di, dj, seen).
            and_then (require (di \<le> i \<and> dj \<le> j) patch_invalid) (\<lambda>_.
            and_then (redact_hunk hidden (n + di) (i - di) (j - dj) (snd (take_marker rest))) (\<lambda>(out, seen', rest').
              Inr (rendered # fst (take_marker rest) @ out, seen @ seen', rest'))))))"
  by pat_completeness auto
termination
  by (relation "measure (\<lambda>(_, _, _, _, ls). length ls)") (auto simp: less_Suc_eq_le take_marker_length)

declare redact_hunk.simps [simp del]

lemma redact_hunk_length:
  "redact_hunk hidden n i j ls = Inr (out, seen, rest) \<Longrightarrow> length rest \<le> length ls"
proof (induction hidden n i j ls arbitrary: out seen rule: redact_hunk.induct)
  case (1 hidden n i j ls)
  show ?case
  proof (cases "i = 0 \<and> j = 0")
    case False
    with 1(2) obtain raw rest1 where ls: "ls = raw # rest1"
      by (subst (asm) redact_hunk.simps) (auto split: list.splits)
    with 1(2) False obtain ren di dj seen1 out2 seen2 where l: "redact_line hidden n raw = Inr (ren, di, dj, seen1)"
      "di \<le> i \<and> dj \<le> j" "redact_hunk hidden (n + di) (i - di) (j - dj) (snd (take_marker rest1)) = Inr (out2, seen2, rest)"
      by (subst (asm) redact_hunk.simps) (auto simp: res_iffs)
    have "length rest \<le> length (snd (take_marker rest1))"
      using 1(1) [OF False ls l(1) refl refl refl _ l(3)] l(2) by simp
    then show ?thesis using take_marker_length [of rest1] ls by simp
  qed (use 1(2) in \<open>simp add: redact_hunk.simps\<close>)
qed

text \<open>The hunks of a file, at least one.\<close>

function redact_hunks :: "nat set \<Rightarrow> pystr list \<Rightarrow> patch_error + (pystr list \<times> nat list \<times> pystr list)" where
  "redact_hunks hidden lines =
     (case lines of
        [] \<Rightarrow> Inr ([], [], [])
      | header # rest \<Rightarrow>
          if \<not> starts_with (lit ''@@ '') header then Inr ([], [], lines)
          else and_then (canonical_hunk_coordinates header) (\<lambda>(old_start, old_count, new_start, new_count).
            and_then (redact_hunk hidden old_start old_count new_count rest) (\<lambda>(out, seen, rest').
            and_then (redact_hunks hidden rest') (\<lambda>(out', seen', rest'').
              Inr (header # out @ out', seen @ seen', rest'')))))"
  by pat_completeness auto
termination
  by (relation "measure (\<lambda>(_, ls). length ls)") (auto dest!: redact_hunk_length)

declare redact_hunks.simps [simp del]

lemma redact_hunks_length: "redact_hunks hidden ls = Inr (out, seen, rest) \<Longrightarrow> length rest \<le> length ls"
proof (induction hidden ls arbitrary: out seen rule: redact_hunks.induct)
  case (1 hidden ls)
  show ?case
  proof (cases ls)
    case (Cons header rest1)
    show ?thesis
    proof (cases "starts_with (lit ''@@ '') header")
      case True
      with 1(2) Cons obtain a b c d out1 seen1 rest2 out2 seen2 where
        "canonical_hunk_coordinates header = Inr (a, b, c, d)" "redact_hunk hidden a b d rest1 = Inr (out1, seen1, rest2)"
        "redact_hunks hidden rest2 = Inr (out2, seen2, rest)"
        by (subst (asm) redact_hunks.simps) (auto simp: res_iffs)
      with 1(1) Cons True redact_hunk_length show ?thesis by fastforce
    qed (use 1(2) Cons in \<open>simp add: redact_hunks.simps\<close>)
  qed (use 1(2) in \<open>simp add: redact_hunks.simps\<close>)
qed

text \<open>The headers of a file: its path, the lines that are copied and what follows.\<close>

definition diff_start :: "pystr list \<Rightarrow> patch_error + (pystr list \<times> pystr list)" where
  "diff_start lines =
     (case lines of
        [] \<Rightarrow> Inl patch_invalid
      | first # rest \<Rightarrow>
          and_then (require (starts_with (lit ''diff --git '') first) patch_invalid) (\<lambda>_.
          if rest \<noteq> [] \<and> starts_with (lit ''new file mode '') (hd rest)
          then and_then (require (hd rest = lit ''new file mode 100644'' @ [10]) patch_invalid)
            (\<lambda>_. Inr ([first, hd rest], tl rest))
          else Inr ([first], rest)))"

definition diff_headers :: "unicode_db \<Rightarrow> pystr list \<Rightarrow> patch_error + (pystr \<times> pystr list \<times> pystr list)" where
  "diff_headers ud lines =
     and_then (diff_start lines) (\<lambda>(copied, rest).
     and_then (require (rest \<noteq> [] \<and> index_header_ok (hd rest) \<and> 3 \<le> length rest) patch_invalid) (\<lambda>_.
     and_then (canonical_file_path ud (rest ! 1) (rest ! 2)) (\<lambda>path.
     let a = lit ''a/'' @ path; b = lit ''b/'' @ path in
     and_then (require (hd copied \<in> {lit ''diff --git '' @ a @ 32 # b @ [10],
         lit ''diff --git '' @ quote_git_path a @ 32 # quote_git_path b @ [10]}) patch_invalid) (\<lambda>_.
       Inr (path, copied @ take 3 rest, drop 3 rest)))))"

lemma diff_headers_append: "diff_headers ud ls = Inr (path, copied, rest) \<Longrightarrow> copied @ rest = ls \<and> copied \<noteq> []"
  by (cases ls; cases "tl ls") (auto simp: diff_headers_def diff_start_def res_iffs Let_def split: if_splits)

lemma diff_headers_length: "diff_headers ud ls = Inr (path, copied, rest) \<Longrightarrow> length rest < length ls"
  using diff_headers_append [of ud ls path copied rest] by (auto simp: neq_Nil_conv)

text \<open>The protected lines of a path: \<open>protected.get(path, frozenset())\<close>.\<close>

definition shown :: "(pystr \<times> nat) set \<Rightarrow> pystr \<Rightarrow> nat set" where
  "shown hidden path = snd ` Set.filter (\<lambda>(p, _). p = path) hidden"

text \<open>The files of a diff in the order of their paths.\<close>

function redact_files ::
  "unicode_db \<Rightarrow> (pystr \<times> nat) set \<Rightarrow> pystr option \<Rightarrow> pystr list \<Rightarrow>
   patch_error + (pystr list \<times> (pystr \<times> nat) list)" where
  "redact_files ud hidden previous lines =
     (if lines = [] then Inr ([], [])
      else and_then (diff_headers ud lines) (\<lambda>(path, copied, rest).
        and_then (require (case previous of None \<Rightarrow> True | Some p \<Rightarrow> utf8_bytes p < utf8_bytes path) patch_invalid) (\<lambda>_.
        and_then (redact_hunks (shown hidden path) rest) (\<lambda>(out, seen, rest').
        and_then (require (rest \<noteq> [] \<and> starts_with (lit ''@@ '') (hd rest)) patch_invalid) (\<lambda>_.
        and_then (require (rest' = [] \<or> starts_with (lit ''diff --git '') (hd rest')) patch_invalid) (\<lambda>_.
        and_then (redact_files ud hidden (Some path) rest') (\<lambda>(out', seen').
          Inr (copied @ out @ out', map (Pair path) seen @ seen'))))))))"
  by pat_completeness auto
termination
  by (relation "measure (\<lambda>(_, _, _, ls). length ls)")
    (auto dest!: redact_hunks_length diff_headers_length)

declare redact_files.simps [simp del]

definition redact_private_key_diff :: "unicode_db \<Rightarrow> protected_range list \<Rightarrow> pystr \<Rightarrow> patch_error + pystr" where
  "redact_private_key_diff ud rs diff =
     and_then (protected_line_map ud rs) (\<lambda>hidden.
     and_then (canonical_diff_lines diff) (\<lambda>lines.
     and_then (redact_files ud hidden None lines) (\<lambda>(out, seen).
     and_then (require (set seen = hidden) patch_invalid) (\<lambda>_. Inr (concat out)))))"

end
