(* ===== verification/Repair_Key_Pairs.thy ===== *)
theory Repair_Key_Pairs
  imports Repair_Secrets
begin

text \<open>
  The pairing of key markers in \<open>_paired_ranges\<close>: what a match is, when there is one, and that a text without
  the matched ranges has none.
\<close>

section \<open>Pairs\<close>

definition text_marks :: "(nat \<times> pystr) list \<Rightarrow> (nat \<times> bool \<times> pystr) list" where
  "text_marks lines = concat (map (\<lambda>(n, s). map (Pair n) (marker_scan s)) lines)"

definition pair_run :: "pystr \<Rightarrow> (nat \<times> bool \<times> pystr) list \<Rightarrow> pairing" where
  "pair_run path ms = foldl (\<lambda>st (n, m). pair_marker path n st m) (\<lambda>_. [], []) ms"

lemma pair_run_simps:
  "pair_run path [] = (\<lambda>_. [], [])" "pair_run path (ms @ [(n, b, l)]) = pair_marker path n (pair_run path ms) (b, l)"
  by (simp_all add: pair_run_def)

lemma pair_line_marks: "foldl (pair_line path) (\<lambda>_. [], []) lines = pair_run path (text_marks lines)"
proof -
  have one: "foldl (pair_marker path n) st ms = foldl (\<lambda>st (n, m). pair_marker path n st m) st (map (Pair n) ms)" for n st ms
    by (induction ms arbitrary: st) simp_all
  have "foldl (pair_line path) st lines = foldl (\<lambda>st (n, m). pair_marker path n st m) st (text_marks lines)" for st
    by (induction lines arbitrary: st) (simp_all add: text_marks_def pair_line_def one split: prod.split)
  then show ?thesis by (simp add: pair_run_def)
qed

lemma paired_ranges_run:
  "paired_ranges path text = sort_key match_sort_key (snd (pair_run path (text_marks (enumerate 1 (scanned_lines text)))))"
  by (simp add: paired_ranges_def pair_line_marks)

text \<open>The open lines are BEGIN lines, a match is a BEGIN line before an END line of its label.\<close>

lemma pair_run_sound:
  "(\<forall>l. \<forall>s \<in> set (fst (pair_run path ms) l). (s, True, l) \<in> set ms) \<and>
   (\<forall>k \<in> set (snd (pair_run path ms)). km_path k = path \<and>
      in_order [(=) (km_start k, True, km_label k), (=) (km_end k, False, km_label k)] ms)"
proof (induction ms rule: rev_induct)
  case (snoc m ms)
  obtain n b l where m: "m = (n, b, l)" by (cases m) auto
  obtain q out where r: "pair_run path ms = (q, out)" by fastforce
  from snoc r show ?case
    by (auto simp: m pair_run_simps pair_marker_def in_order_snoc2 split: list.splits)
qed (simp add: pair_run_simps)

text \<open>A BEGIN line is open or the start of a match; of two lines in order, one is matched.\<close>

lemma pair_run_complete:
  "(\<forall>s l. (s, True, l) \<in> set ms \<longrightarrow> s \<in> set (fst (pair_run path ms) l) \<or>
      (\<exists>k \<in> set (snd (pair_run path ms)). km_label k = l \<and> km_start k = s)) \<and>
   (\<forall>s e l. in_order [(=) (s, True, l), (=) (e, False, l)] ms \<longrightarrow>
      (\<exists>k \<in> set (snd (pair_run path ms)). km_label k = l \<and> (km_start k = s \<or> km_end k = e)))"
proof (induction ms rule: rev_induct)
  case (snoc m ms)
  obtain n b l where m: "m = (n, b, l)" by (cases m) auto
  obtain q out where r: "pair_run path ms = (q, out)" by fastforce
  show ?case
  proof (cases "\<not> b \<and> q l \<noteq> []")
    case True
    then obtain s rest where Cons: "q l = s # rest" by (cases "q l") auto
    have "pair_run path (ms @ [m]) = (q(l := rest), out @ [\<lparr>km_path = path, km_label = l, km_start = s, km_end = n\<rparr>])"
      using True Cons by (simp add: m r pair_run_simps pair_marker_def)
    note run = this
    have "s' \<in> set ((q(l := rest)) l') \<or> (\<exists>k \<in> set (snd (pair_run path (ms @ [m]))). km_label k = l' \<and> km_start k = s')"
      if "(s', True, l') \<in> set (ms @ [m])" for s' l'
    proof -
      have "s' \<in> set (q l') \<or> (\<exists>k \<in> set out. km_label k = l' \<and> km_start k = s')" using that snoc r m True by auto
      then show ?thesis using Cons by (cases "l' = l") (auto simp: run)
    qed
    moreover have "\<exists>k \<in> set (snd (pair_run path (ms @ [m]))). km_label k = l' \<and> (km_start k = s' \<or> km_end k = e')"
      if "in_order [(=) (s', True, l'), (=) (e', False, l')] (ms @ [m])" for s' e' l'
    proof (cases "in_order [(=) (s', True, l'), (=) (e', False, l')] ms")
      case True
      then have "\<exists>k \<in> set out. km_label k = l' \<and> (km_start k = s' \<or> km_end k = e')" using snoc r by auto
      then show ?thesis by (auto simp: run)
    next
      case False
      with that have "e' = n" "l' = l" by (simp_all add: in_order_snoc2 m)
      then show ?thesis by (simp add: run)
    qed
    ultimately show ?thesis by (simp add: run)
  next
    case False
    then have "pair_run path (ms @ [m]) = (if b then q(l := q l @ [n]) else q, out)"
      by (auto simp: m r pair_run_simps pair_marker_def)
    with snoc r m False show ?thesis by (fastforce simp: in_order_snoc2 split: if_splits)
  qed
qed (simp add: pair_run_simps)

section \<open>Lines\<close>

fun pieces :: "pystr list \<Rightarrow> bool" where
  "pieces [] = True"
| "pieces (l # ls) \<longleftrightarrow> l \<noteq> [] \<and> 10 \<notin> set (butlast l) \<and> (ls \<noteq> [] \<longrightarrow> last l = 10) \<and> pieces ls"

definition chomp :: "pystr \<Rightarrow> pystr" where
  "chomp l = (if ends_with [10] l then butlast l else l)"

lemma pieces_split_lf: "pieces (split_lf t)"
proof (induction t)
  case (Cons c t)
  then show ?case by (auto split: list.splits)
qed simp

lemma split_lf_plain: "10 \<notin> set (butlast l) \<Longrightarrow> l \<noteq> [] \<Longrightarrow> split_lf l = [l]"
  by (induction l) (auto split: if_splits)

lemma split_lf_pieces: "pieces ls \<Longrightarrow> split_lf (concat ls) = ls"
proof (induction ls)
  case (Cons l ls)
  show ?case
  proof (cases "ls = []")
    case False
    with Cons.prems obtain w where "l = w @ [10]" "10 \<notin> set w"
      by (cases l rule: rev_cases) auto
    with Cons show ?thesis by (simp add: split_lf_line)
  qed (use Cons.prems in \<open>simp add: split_lf_plain\<close>)
qed simp

definition kept :: "nat \<Rightarrow> (nat \<Rightarrow> bool) \<Rightarrow> 'a list \<Rightarrow> 'a list" where
  "kept n P ls = map snd (filter (\<lambda>(k, _). P k) (enumerate n ls))"

lemma kept_simps [simp]:
  "kept n P [] = []" "kept n P (l # ls) = (if P n then l # kept (Suc n) P ls else kept (Suc n) P ls)"
  by (simp_all add: kept_def)

lemma kept_map: "kept n P (map f ls) = map f (kept n P ls)"
  by (induction ls arbitrary: n) simp_all

lemma kept_subset: "set (kept n P ls) \<subseteq> set ls"
  by (induction ls arbitrary: n) auto

lemma pieces_kept: "pieces ls \<Longrightarrow> pieces (kept n P ls)"
proof (induction ls arbitrary: n)
  case (Cons l ls)
  have "ls \<noteq> []" if "kept m P ls \<noteq> []" for m using that by auto
  with Cons show ?case by auto
qed simp

lemma kept_append: "kept n P (xs @ ys) = kept n P xs @ kept (n + length xs) P ys"
  by (induction xs arbitrary: n) simp_all

lemma scanned_lines_split: "scanned_lines t = map chomp (split_lf t)"
proof -
  have "map chomp (split_lf t) = (if last (split_on 10 t) = [] then butlast (split_on 10 t) else split_on 10 t)"
  proof (induction t)
    case (Cons c t)
    show ?case
    proof (cases "c = 10")
      case True
      with Cons show ?thesis by (simp add: chomp_def ends_with_last)
    next
      case False
      obtain w ws where ws: "split_on 10 t = w # ws" by (cases "split_on 10 t") simp_all
      show ?thesis
      proof (cases "split_lf t")
        case Nil
        with Cons.IH False ws show ?thesis by (auto simp: chomp_def ends_with_last split: if_splits)
      next
        case (Cons x xs)
        then have "x \<noteq> []" using split_lf_parts [of x t] by simp
        then have "chomp (c # x) = c # chomp x" by (simp add: chomp_def ends_with_last)
        with Cons.IH False ws Cons show ?thesis by (auto split: if_splits)
      qed
    qed
  qed (simp add: chomp_def)
  then show ?thesis by (simp add: scanned_lines_def Let_def)
qed

section \<open>Ranges\<close>

definition covered :: "(nat \<times> nat) list \<Rightarrow> nat \<Rightarrow> bool" where
  "covered rs n \<longleftrightarrow> list_ex (\<lambda>(s, e). s \<le> n \<and> n \<le> e) rs"

lemma covered_simps [simp]:
  "\<not> covered [] n" "covered (r # rs) n \<longleftrightarrow> fst r \<le> n \<and> n \<le> snd r \<or> covered rs n"
  "covered (rs @ rs') n \<longleftrightarrow> covered rs n \<or> covered rs' n"
  by (auto simp: covered_def split: prod.splits)

lemma remove_ranges_kept:
  "remove_ranges (Some t) rs = Some (concat (kept 1 (\<lambda>n. \<not> covered rs n) (split_lf t)))"
proof -
  have "kept n (\<lambda>_. True) ls = ls" for n and ls :: "pystr list" by (induction ls arbitrary: n) simp_all
  moreover have "\<not> covered rs n" if "rs = []" for n using that by simp
  ultimately show ?thesis by (auto simp: remove_ranges_def kept_def covered_def)
qed

definition range_list :: "(nat \<times> nat) list \<Rightarrow> bool" where
  "range_list rs \<longleftrightarrow> list_all (\<lambda>(s, e). 1 \<le> s \<and> s \<le> e) rs"

text \<open>Ranges with a line between one and the next.\<close>

fun separated :: "nat \<Rightarrow> (nat \<times> nat) list \<Rightarrow> bool" where
  "separated n [] = True"
| "separated n ((s, e) # rs) \<longleftrightarrow> n < s \<and> s \<le> e \<and> separated (e + 1) rs"

lemma separated_snoc:
  "separated n (rs @ [(s, e)]) \<longleftrightarrow> separated n rs \<and> s \<le> e \<and> (if rs = [] then n < s else snd (last rs) + 1 < s)"
  by (induction n rs rule: separated.induct) auto

lemma coalesce_into_cases:
  "coalesce_into [] (s, e) = [(s, e)]"
  "coalesce_into (cs @ [(a, b)]) (s, e) = (if s \<le> b + 1 then cs @ [(a, max b e)] else cs @ [(a, b), (s, e)])"
  by simp_all

declare coalesce_into.simps [simp del]

lemma coalesce_into_step:
  assumes "separated 0 current" "1 \<le> s" "s \<le> e" "current \<noteq> [] \<longrightarrow> fst (last current) \<le> s"
  shows "separated 0 (coalesce_into current (s, e)) \<and>
    (covered (coalesce_into current (s, e)) n \<longleftrightarrow> covered current n \<or> s \<le> n \<and> n \<le> e) \<and>
    coalesce_into current (s, e) \<noteq> [] \<and> fst (last (coalesce_into current (s, e))) \<le> s"
proof (cases current rule: rev_cases)
  case Nil
  with assms show ?thesis by (simp add: coalesce_into_cases)
next
  case (snoc cs c)
  obtain a b where c: "c = (a, b)" by (cases c)
  have ab: "separated 0 cs" "a \<le> b" "if cs = [] then 0 < a else snd (last cs) + 1 < a" "a \<le> s"
    using assms(1,4) unfolding snoc c separated_snoc by auto
  show ?thesis
  proof (cases "s \<le> b + 1")
    case True
    with ab show ?thesis by (auto simp: snoc c coalesce_into_cases separated_snoc)
  next
    case False
    have "separated 0 ((cs @ [(a, b)]) @ [(s, e)])"
      using assms(1,3) False by (subst separated_snoc) (simp add: snoc c)
    with ab False show ?thesis by (auto simp: snoc c coalesce_into_cases)
  qed
qed

lemma coalesce_all:
  "range_list xs \<Longrightarrow> sorted (map fst xs) \<Longrightarrow>
     separated 0 (foldl coalesce_into [] xs) \<and> (\<forall>n. covered (foldl coalesce_into [] xs) n \<longleftrightarrow> covered xs n) \<and>
     (xs \<noteq> [] \<longrightarrow> foldl coalesce_into [] xs \<noteq> [] \<and> fst (last (foldl coalesce_into [] xs)) \<le> fst (last xs))"
proof (induction xs rule: rev_induct)
  case (snoc x xs)
  obtain s e where x: "x = (s, e)" by (cases x)
  have IH: "separated 0 (foldl coalesce_into [] xs)" "\<And>n. covered (foldl coalesce_into [] xs) n \<longleftrightarrow> covered xs n"
    "xs \<noteq> [] \<longrightarrow> foldl coalesce_into [] xs \<noteq> [] \<and> fst (last (foldl coalesce_into [] xs)) \<le> fst (last xs)"
    using snoc by (simp_all add: range_list_def sorted_append)
  have "xs \<noteq> [] \<longrightarrow> fst (last xs) \<le> s" using snoc.prems(2) by (auto simp: x sorted_append)
  then have order: "foldl coalesce_into [] xs \<noteq> [] \<longrightarrow> fst (last (foldl coalesce_into [] xs)) \<le> s"
    using IH(3) by (cases "xs = []") auto
  have se: "1 \<le> s" "s \<le> e" using snoc.prems(1) by (simp_all add: range_list_def x)
  note step = coalesce_into_step [OF IH(1) se order]
  show ?case using step IH(2) by (auto simp: x)
qed (simp add: range_list_def)

section \<open>What is left has no pair\<close>

lemma text_marks_simps [simp]:
  "text_marks [] = []" "text_marks ((n, s) # ls) = map (Pair n) (marker_scan s) @ text_marks ls"
  by (simp_all add: text_marks_def)

lemma text_marks_plain: "map snd (text_marks (enumerate n ls)) = concat (map marker_scan ls)"
  by (induction ls arbitrary: n) (simp_all add: comp_def)

lemma text_marks_kept:
  "concat (map marker_scan (kept n P ls)) = map snd (filter (\<lambda>m. P (fst m)) (text_marks (enumerate n ls)))"
  by (induction ls arbitrary: n) (simp_all add: comp_def filter_map)

lemma text_marks_numbers: "m \<in> set (text_marks (enumerate n ls)) \<Longrightarrow> n \<le> fst m \<and> fst m < n + length ls"
  by (induction ls arbitrary: n) fastforce+

lemma text_marks_sorted: "sorted (map fst (text_marks (enumerate n ls)))"
proof (induction ls arbitrary: n)
  case (Cons l ls)
  have "\<forall>m \<in> set (text_marks (enumerate (Suc n) ls)). n \<le> fst m" using text_marks_numbers by fastforce
  with Cons show ?case by (auto simp: sorted_append comp_def)
qed simp

definition label_mark :: "bool \<Rightarrow> pystr \<Rightarrow> nat \<times> bool \<times> pystr \<Rightarrow> bool" where
  "label_mark b l m \<longleftrightarrow> snd m = (b, l)"

lemma paired_ranges_range:
  assumes "k \<in> set (paired_ranges path t)"
  shows "km_path k = path \<and> 1 \<le> km_start k \<and> km_start k \<le> km_end k \<and> km_end k \<le> length (split_lf t)"
proof -
  let ?ms = "text_marks (enumerate 1 (scanned_lines t))"
  have k: "km_path k = path" "in_order [(=) (km_start k, True, km_label k), (=) (km_end k, False, km_label k)] ?ms"
    using pair_run_sound [of path ?ms] assms by (auto simp: paired_ranges_run)
  then obtain as bs where m: "?ms = as @ (km_start k, True, km_label k) # bs" "(km_end k, False, km_label k) \<in> set bs"
    by (auto simp: in_order2_iff)
  have "sorted (map fst ?ms)" by (rule text_marks_sorted)
  then have "km_start k \<le> km_end k" using m unfolding m(1) by (auto simp: sorted_append)
  moreover have "1 \<le> km_start k" "km_end k < 1 + length (scanned_lines t)"
    using text_marks_numbers [of "(km_start k, True, km_label k)" 1 "scanned_lines t"]
      text_marks_numbers [of "(km_end k, False, km_label k)" 1 "scanned_lines t"] m by auto
  ultimately show ?thesis using k(1) by (simp add: scanned_lines_split)
qed

lemma paired_ranges_Nil:
  "paired_ranges path t = [] \<longleftrightarrow> (\<forall>l. \<not> in_order [label_mark True l, label_mark False l] (text_marks (enumerate 1 (scanned_lines t))))"
  (is "_ \<longleftrightarrow> ?r")
proof -
  let ?ms = "text_marks (enumerate 1 (scanned_lines t))"
  have "snd (pair_run path ?ms) = []" if ?r
  proof (rule ccontr)
    assume "snd (pair_run path ?ms) \<noteq> []"
    then obtain k where "k \<in> set (snd (pair_run path ?ms))" by (cases "snd (pair_run path ?ms)") auto
    then have "in_order [(=) (km_start k, True, km_label k), (=) (km_end k, False, km_label k)] ?ms"
      using pair_run_sound by blast
    then have "in_order [label_mark True (km_label k), label_mark False (km_label k)] ?ms"
      by (rule in_order2_mono) (auto simp: label_mark_def)
    with that show False by blast
  qed
  moreover have "snd (pair_run path ?ms) \<noteq> []" if "\<not> ?r"
  proof -
    obtain l x y where "label_mark True l x" "label_mark False l y" "in_order [(=) x, (=) y] ?ms"
      using \<open>\<not> ?r\<close> in_order_elements by blast
    then have "in_order [(=) (fst x, True, l), (=) (fst y, False, l)] ?ms" by (cases x; cases y) (simp add: label_mark_def)
    then have "\<exists>k \<in> set (snd (pair_run path ?ms)). km_label k = l" using pair_run_complete [of ?ms path] by blast
    then show ?thesis by (metis empty_iff empty_set)
  qed
  ultimately show ?thesis by (auto simp: paired_ranges_run)
qed

lemma removed_ranges_Nil:
  assumes "\<And>k n. k \<in> set (paired_ranges path t) \<Longrightarrow> km_start k \<le> n \<Longrightarrow> n \<le> km_end k \<Longrightarrow> covered rs n"
  shows "paired_ranges path' (concat (kept 1 (\<lambda>n. \<not> covered rs n) (split_lf t))) = []"
proof (rule ccontr)
  let ?ls = "split_lf t" and ?P = "\<lambda>n. \<not> covered rs n"
  let ?ms = "text_marks (enumerate 1 (scanned_lines t))"
  assume "paired_ranges path' (concat (kept 1 ?P ?ls)) \<noteq> []"
  then obtain l where l: "in_order [label_mark True l, label_mark False l]
      (text_marks (enumerate 1 (scanned_lines (concat (kept 1 ?P ?ls)))))"
    using paired_ranges_Nil by blast
  have lines: "scanned_lines (concat (kept 1 ?P ?ls)) = kept 1 ?P (scanned_lines t)"
    using split_lf_pieces [OF pieces_kept [OF pieces_split_lf]] by (simp add: scanned_lines_split kept_map)
  have "in_order [(=) (True, l), (=) (False, l)] (map snd (text_marks (enumerate 1 (kept 1 ?P (scanned_lines t)))))"
    using l unfolding lines in_order_map label_mark_def by (simp add: eq_commute)
  then have "in_order [(=) (True, l), (=) (False, l)] (map snd (filter (\<lambda>m. ?P (fst m)) ?ms))"
    unfolding text_marks_plain text_marks_kept .
  then have "in_order [\<lambda>m. ?P (fst m) \<and> (True, l) = snd m, \<lambda>m. ?P (fst m) \<and> (False, l) = snd m] ?ms"
    unfolding in_order_map in_order_filter .
  then obtain x y where xy: "?P (fst x)" "(True, l) = snd x" "?P (fst y)" "(False, l) = snd y" "in_order [(=) x, (=) y] ?ms"
    using in_order_elements by blast
  then have "in_order [(=) (fst x, True, l), (=) (fst y, False, l)] ?ms" by (cases x; cases y) simp
  then obtain k where "k \<in> set (snd (pair_run path ?ms))" "km_start k = fst x \<or> km_end k = fst y"
    using pair_run_complete [of ?ms path] by blast
  then have k: "k \<in> set (paired_ranges path t)" "km_start k = fst x \<or> km_end k = fst y" by (simp_all add: paired_ranges_run)
  have "km_start k \<le> km_end k" using paired_ranges_range [OF k(1)] by blast
  with assms [OF k(1)] k(2) xy(1,3) show False by auto
qed

end
