(* ===== verification/Repair_Patch_Grammar.thy ===== *)
theory Repair_Patch_Grammar
  imports Repair_Patch Canonical_Facts
begin

text \<open>
  The grammar of a wire patch, stated as the text of headers, lines, hunks and files, and the hunk level
  of the parser (\<open>_parse_hunk_header\<close>, \<open>_parse_hunk_line\<close>, the two inner loops of \<open>_parse_wire_patch\<close>)
  shown to accept exactly that text.
\<close>

lemma starts_with_iff: "starts_with p s \<longleftrightarrow> (\<exists>t. s = p @ t)"
  by (metis starts_with_append starts_with_drop)

section \<open>The numbers of a hunk header\<close>

lemma nat_text_value:
  "ds \<noteq> [] \<Longrightarrow> list_all is_digit ds \<Longrightarrow> (hd ds = 48 \<longrightarrow> ds = [48]) \<Longrightarrow> nat_text (digits_value ds) = ds"
proof (induction ds rule: rev_induct)
  case (snoc d ds)
  have d: "48 \<le> d" "d \<le> 57" using snoc.prems by (simp_all add: is_digit_def)
  have split: "digits_value (ds @ [d]) = 10 * digits_value ds + (d - 48)" by (simp add: digits_value_def)
  show ?case
  proof (cases "ds = []")
    case True
    with d show ?thesis by (subst nat_text.simps) (auto simp: digits_value_def)
  next
    case False
    with snoc.prems have hd: "hd ds \<noteq> 48" by auto
    with snoc False have ih: "nat_text (digits_value ds) = ds" by simp
    then have "digits_value ds \<noteq> 0" using hd False by (metis list.sel(1) nat_text_zero)
    moreover have "d = 48 + (d - 48)" "d - 48 < 10" using d by simp_all
    moreover obtain e where "d = 48 + e" "e < 10" using calculation(2,3) by blast
    ultimately show ?thesis unfolding split using ih by (subst nat_text.simps) auto
  qed
qed simp

abbreviation no_digit :: "pystr \<Rightarrow> bool" where
  "no_digit r \<equiv> (case r of [] \<Rightarrow> True | c # _ \<Rightarrow> \<not> is_digit c)"

lemma take_number_iff:
  "take_number s = Some (ds, r) \<longleftrightarrow>
     s = ds @ r \<and> nat_text (digits_value ds) = ds \<and> (case r of [] \<Rightarrow> True | c # _ \<Rightarrow> \<not> is_digit c)" (is "?l \<longleftrightarrow> ?r")
proof
  assume ?l
  then have "ds = takeWhile is_digit s" "r = drop (length ds) s" "ds \<noteq> []" "hd ds = 48 \<longrightarrow> ds = [48]"
    by (auto simp: take_number_def Let_def split: if_splits)
  moreover from this have r: "r = dropWhile is_digit s" by (simp add: dropWhile_eq_drop)
  moreover have "no_digit r" unfolding r by (induction s) auto
  moreover have "nat_text (digits_value ds) = ds"
    using calculation nat_text_value [of ds] set_takeWhileD [of _ is_digit s] by (auto simp: list_all_iff)
  ultimately show ?r by (metis takeWhile_dropWhile_id)
next
  assume r: ?r
  let ?n = "digits_value ds"
  have ds: "ds \<noteq> []" "list_all is_digit ds" "hd ds = 48 \<longrightarrow> ds = [48]"
    using r nat_text_nonempty [of ?n] nat_text_digits [of ?n] nat_text_head [of ?n] nat_text_zero by (metis+)
  have "takeWhile is_digit s = ds"
    using r ds(2) by (cases r) (simp_all add: takeWhile_append2 takeWhile_append list_all_iff takeWhile_eq_all_conv)
  then show ?l using r ds by (auto simp: take_number_def Let_def)
qed

lemma take_text_iff: "take_text p s = Some r \<longleftrightarrow> s = p @ r"
  by (auto simp: take_text_def starts_with_iff)

definition count_text :: "pystr option \<Rightarrow> pystr" where
  "count_text b = (case b of None \<Rightarrow> [] | Some ds \<Rightarrow> 44 # ds)"

definition plain_number :: "pystr \<Rightarrow> bool" where
  "plain_number ds \<longleftrightarrow> nat_text (digits_value ds) = ds"

lemma take_range_iff:
  assumes "r = [] \<or> hd r = 32"
  shows "take_range s = Some (a, b, r) \<longleftrightarrow> s = a @ count_text b @ r \<and> plain_number a \<and> opt_all plain_number b"
proof -
  have r: "no_digit r" "\<not> starts_with [44] r"
    using assms by (cases r; auto simp: is_digit_def starts_with_def)+
  have d: "\<not> is_digit 44" by (simp add: is_digit_def)
  have "take_range s = Some (a, b, r) \<longleftrightarrow> (\<exists>r'. take_number s = Some (a, r') \<and>
      (case b of None \<Rightarrow> r' = r \<and> \<not> starts_with [44] r | Some ds \<Rightarrow> \<exists>r''. r' = 44 # r'' \<and> take_number r'' = Some (ds, r)))"
  proof (cases "take_number s")
    case (Some x)
    then show ?thesis
      by (cases x; cases b) (auto simp: take_range_def starts_with_iff split: if_splits)
  qed (simp add: take_range_def)
  then show ?thesis
    using r d by (cases b) (auto simp: take_number_iff count_text_def plain_number_def opt_all_def)
qed

lemma spaced: "lit '' +'' @ s = 32 # 43 # s" "lit '' @@'' = [32, 64, 64]"
  by (simp_all add: lit_def)

lemma take_range_rest: "take_range s = Some (a, b, r) \<Longrightarrow> no_digit r"
  by (auto simp: take_range_def bind_eq_Some_conv take_number_iff split: if_splits)

lemma hunk_header_groups_iff:
  "hunk_header_groups s = Some (a, b, c, d) \<longleftrightarrow>
     s = lit ''@@ -'' @ a @ count_text b @ lit '' +'' @ c @ count_text d @ lit '' @@'' \<and>
     plain_number a \<and> opt_all plain_number b \<and> plain_number c \<and> opt_all plain_number d"
proof -
  have "hunk_header_groups s = Some (a, b, c, d) \<longleftrightarrow>
    (\<exists>s1 s2. s = lit ''@@ -'' @ s1 \<and> take_range s1 = Some (a, b, lit '' +'' @ s2) \<and> take_range s2 = Some (c, d, lit '' @@''))"
    by (auto simp: hunk_header_groups_def bind_eq_Some_conv take_text_iff split: if_splits)
  then show ?thesis
    using take_range_iff [of "lit '' +'' @ s2" for s2] take_range_iff [of "lit '' @@''"] by (auto simp: spaced)
qed

definition range_texts :: "nat \<Rightarrow> nat \<Rightarrow> pystr list" where
  "range_texts start n = (nat_text start @ 44 # nat_text n) # (if n = 1 then [nat_text start] else [])"

definition header_texts :: "patch_hunk \<Rightarrow> pystr list" where
  "header_texts h =
     [lit ''@@ -'' @ old @ lit '' +'' @ new @ lit '' @@''.
        old \<leftarrow> range_texts (ph_old_start h) (ph_old_count h), new \<leftarrow> range_texts (ph_new_start h) (ph_new_count h)]"

definition readable :: "nat \<Rightarrow> bool" where
  "readable n \<longleftrightarrow> length (nat_text n) \<le> 4300"

definition coordinates_readable :: "patch_hunk \<Rightarrow> bool" where
  "coordinates_readable h \<longleftrightarrow> readable (ph_old_start h) \<and> readable (ph_old_count h) \<and>
     readable (ph_new_start h) \<and> readable (ph_new_count h)"

lemma int_of_digits_Inr:
  "plain_number ds \<Longrightarrow> int_of_digits ds = Inr n \<longleftrightarrow> ds = nat_text n \<and> readable n"
  by (auto simp: int_of_digits_def plain_number_def readable_def digits_value_text)

lemma readable_one: "readable 1"
  by (simp add: readable_def nat_text.simps)

lemma plain_nat_text [simp]: "plain_number (nat_text n)"
  by (simp add: plain_number_def digits_value_text)

lemma range_texts_iff:
  "s \<in> set (range_texts n m) \<and> readable n \<and> readable m \<longleftrightarrow>
     (\<exists>a b. s = a @ count_text b \<and> plain_number a \<and> opt_all plain_number b \<and> int_of_digits a = Inr n \<and> int_of_count b = Inr m)"
proof -
  have "(\<exists>b. s = a @ count_text b \<and> opt_all plain_number b \<and> int_of_count b = Inr m) \<longleftrightarrow>
      (s = a \<and> m = 1) \<or> (s = a @ 44 # nat_text m \<and> readable m)" for a
  proof -
    have "(\<exists>b. P b) \<longleftrightarrow> P None \<or> (\<exists>ds. P (Some ds))" for P :: "pystr option \<Rightarrow> bool" by (metis option.exhaust)
    then show ?thesis by (auto simp: count_text_def int_of_count_def int_of_digits_Inr opt_all_def)
  qed
  note counted = this
  have "(\<exists>a b. s = a @ count_text b \<and> plain_number a \<and> opt_all plain_number b \<and> int_of_digits a = Inr n \<and> int_of_count b = Inr m) \<longleftrightarrow>
    (\<exists>a. plain_number a \<and> int_of_digits a = Inr n \<and> (\<exists>b. s = a @ count_text b \<and> opt_all plain_number b \<and> int_of_count b = Inr m))"
    by blast
  also have "\<dots> \<longleftrightarrow> readable n \<and> (s = nat_text n \<and> m = 1 \<or> s = nat_text n @ 44 # nat_text m \<and> readable m)"
    unfolding counted using int_of_digits_Inr plain_nat_text by metis
  also have "\<dots> \<longleftrightarrow> s \<in> set (range_texts n m) \<and> readable n \<and> readable m"
    using readable_one by (auto simp: range_texts_def)
  finally show ?thesis by simp
qed

text \<open>What the header of a hunk may look like: a count of one may be left out.\<close>

definition header_says :: "pystr \<Rightarrow> patch_hunk \<Rightarrow> bool" where
  "header_says header h \<longleftrightarrow> header \<in> set (header_texts h) \<and> coordinates_readable h"

lemma parse_hunk_header_iff:
  "parse_hunk_header header = Inr (ph_old_start h, ph_old_count h, ph_new_start h, ph_new_count h) \<longleftrightarrow>
     header_says header h"
proof -
  have "parse_hunk_header header = Inr (ph_old_start h, ph_old_count h, ph_new_start h, ph_new_count h) \<longleftrightarrow>
    (\<exists>a b c d. hunk_header_groups header = Some (a, b, c, d) \<and>
     hunk_coordinates (a, b, c, d) = Inr (ph_old_start h, ph_old_count h, ph_new_start h, ph_new_count h))"
    unfolding parse_hunk_header_def by (auto split: option.splits sum.splits)
  also have "\<dots> \<longleftrightarrow> (\<exists>old new. header = lit ''@@ -'' @ old @ lit '' +'' @ new @ lit '' @@'' \<and>
     (\<exists>a b. old = a @ count_text b \<and> plain_number a \<and> opt_all plain_number b \<and>
        int_of_digits a = Inr (ph_old_start h) \<and> int_of_count b = Inr (ph_old_count h)) \<and>
     (\<exists>c d. new = c @ count_text d \<and> plain_number c \<and> opt_all plain_number d \<and>
        int_of_digits c = Inr (ph_new_start h) \<and> int_of_count d = Inr (ph_new_count h)))"
    by (auto simp: hunk_header_groups_iff hunk_coordinates_def res_iffs; (metis append.assoc)?)
  also have "\<dots> \<longleftrightarrow> header_says header h"
    unfolding range_texts_iff [symmetric] header_says_def header_texts_def coordinates_readable_def by auto
  finally show ?thesis .
qed

section \<open>The text of a patch\<close>

definition line_text :: "patch_line \<Rightarrow> pystr" where
  "line_text l =
     (case pl_kind l of
        PL_NO_NEWLINE \<Rightarrow> no_newline_marker
      | PL_CONTEXT \<Rightarrow> 32 # pl_content l
      | PL_ADDITION \<Rightarrow> 43 # pl_content l
      | PL_DELETION \<Rightarrow> 45 # pl_content l) @ [10]"

text \<open>A deleted line that starts with two dashes and a space looks like the header of a file.\<close>

definition line_ok :: "patch_line \<Rightarrow> bool" where
  "line_ok l \<longleftrightarrow> (pl_kind l = PL_NO_NEWLINE \<longrightarrow> pl_content l = []) \<and>
     \<not> (pl_kind l = PL_DELETION \<and> starts_with (lit ''-- '') (pl_content l))"

fun markers_follow :: "bool \<Rightarrow> patch_line list \<Rightarrow> bool" where
  "markers_follow b [] = True"
| "markers_follow b (l # ls) =
     (if pl_kind l = PL_NO_NEWLINE then b \<and> markers_follow False ls else markers_follow True ls)"

definition old_lines :: "patch_line list \<Rightarrow> nat" where
  "old_lines ls = length (filter (\<lambda>l. pl_kind l \<in> {PL_CONTEXT, PL_DELETION}) ls)"

definition new_lines :: "patch_line list \<Rightarrow> nat" where
  "new_lines ls = length (filter (\<lambda>l. pl_kind l \<in> {PL_CONTEXT, PL_ADDITION}) ls)"

definition changed_lines :: "patch_line list \<Rightarrow> nat" where
  "changed_lines ls = length (filter (\<lambda>l. pl_kind l \<in> {PL_ADDITION, PL_DELETION}) ls)"

lemma strip_lf_Inr: "strip_lf s = Inr t \<longleftrightarrow> s = t @ [10]"
  by (cases s rule: rev_cases) (auto simp: strip_lf_def ends_with_def)

lemma line_text_ends: "\<exists>s. line_text l = s @ [10]"
  by (simp add: line_text_def)

lemma parse_line_Inr:
  "and_then (strip_lf raw) parse_hunk_line = Inr l \<longleftrightarrow> raw = line_text l \<and> (pl_kind l = PL_NO_NEWLINE \<longrightarrow> pl_content l = [])"
proof -
  have "parse_hunk_line s = Inr l \<longleftrightarrow> s @ [10] = line_text l \<and> (pl_kind l = PL_NO_NEWLINE \<longrightarrow> pl_content l = [])" for s
    by (cases l; cases "pl_kind l")
      (auto simp: parse_hunk_line_def line_text_def no_newline_marker_def split: list.splits if_splits)
  then show ?thesis using line_text_ends [of l] by (auto simp: res_iffs strip_lf_Inr)
qed

lemma dashes_snoc: "starts_with [45, 45, 32] (s @ [10]) = starts_with [45, 45, 32] (s :: nat list)"
  by (cases s; cases "tl s"; cases "tl (tl s)") (auto simp: starts_with_def)

lemma ends_hunk_line: "ends_hunk (line_text l) \<longleftrightarrow> pl_kind l = PL_DELETION \<and> starts_with (lit ''-- '') (pl_content l)"
proof -
  have "starts_with (45 # p) (45 # s) = starts_with p s" for p s :: pystr by (simp add: starts_with_def)
  then show ?thesis
    using dashes_snoc [of "pl_content l"]
    by (cases "pl_kind l") (auto simp: ends_hunk_def line_text_def no_newline_marker_def lit_def, auto simp: starts_with_def)
qed

lemma scan_line_Inr:
  "scan_line st l = Inr st' \<longleftrightarrow>
     (pl_kind l = PL_NO_NEWLINE \<longrightarrow> hs_content st \<and> \<not> hs_marker st) \<and>
     st' = \<lparr>hs_old = hs_old st + old_lines [l], hs_new = hs_new st + new_lines [l],
       hs_changed = hs_changed st + changed_lines [l],
       hs_content = (hs_content st \<or> pl_kind l \<noteq> PL_NO_NEWLINE), hs_marker = (pl_kind l = PL_NO_NEWLINE)\<rparr>"
  by (cases "pl_kind l") (auto simp: scan_line_def old_lines_def new_lines_def changed_lines_def)

lemma counts_Nil [simp]: "old_lines [] = 0" "new_lines [] = 0" "changed_lines [] = 0"
  by (simp_all add: old_lines_def new_lines_def changed_lines_def)

lemma counts_Cons:
  "old_lines (l # ls) = old_lines [l] + old_lines ls" "new_lines (l # ls) = new_lines [l] + new_lines ls"
  "changed_lines (l # ls) = changed_lines [l] + changed_lines ls"
  by (simp_all add: old_lines_def new_lines_def changed_lines_def)

definition stops :: "pystr list \<Rightarrow> bool" where
  "stops rest \<longleftrightarrow> (case rest of [] \<Rightarrow> True | raw # _ \<Rightarrow> ends_hunk raw)"

lemma hunk_lines_iff:
  "hunk_lines st raws = Inr (ls, st', rest) \<longleftrightarrow>
     raws = map line_text ls @ rest \<and> list_all line_ok ls \<and> stops rest \<and> markers_follow (hs_content st \<and> \<not> hs_marker st) ls \<and>
     hs_old st' = hs_old st + old_lines ls \<and> hs_new st' = hs_new st + new_lines ls \<and>
     hs_changed st' = hs_changed st + changed_lines ls \<and>
     hs_content st' = (hs_content st \<or> (\<exists>l \<in> set ls. pl_kind l \<noteq> PL_NO_NEWLINE)) \<and>
     hs_marker st' = (if ls = [] then hs_marker st else pl_kind (last ls) = PL_NO_NEWLINE)"
proof (induction ls arbitrary: st raws)
  case Nil
  show ?case
    by (cases raws) (auto simp: stops_def res_iffs old_lines_def new_lines_def changed_lines_def split: if_splits)
next
  case (Cons l ls)
  show ?case
  proof (cases raws)
    case Nil
    then show ?thesis by simp
  next
    case (Cons raw raws')
    have "hunk_lines st raws = Inr (l # ls, st', rest) \<longleftrightarrow> \<not> ends_hunk raw \<and>
      and_then (strip_lf raw) parse_hunk_line = Inr l \<and> (\<exists>st1. scan_line st l = Inr st1 \<and> hunk_lines st1 raws' = Inr (ls, st', rest))"
      unfolding Cons by (auto simp: res_iffs)
    also have "\<dots> \<longleftrightarrow> raw = line_text l \<and> line_ok l \<and> (\<exists>st1. scan_line st l = Inr st1 \<and> hunk_lines st1 raws' = Inr (ls, st', rest))"
      unfolding parse_line_Inr by (auto simp: ends_hunk_line line_ok_def)
    finally show ?thesis
      unfolding Cons.IH scan_line_Inr
      by (auto simp: Cons counts_Cons [of l ls])
  qed
qed

section \<open>Hunks and files\<close>

definition hunk_ok :: "bool \<Rightarrow> patch_hunk \<Rightarrow> bool" where
  "hunk_ok is_new h \<longleftrightarrow>
     list_all line_ok (ph_lines h) \<and> markers_follow False (ph_lines h) \<and>
     old_lines (ph_lines h) = ph_old_count h \<and> new_lines (ph_lines h) = ph_new_count h \<and>
     changed_lines (ph_lines h) \<noteq> 0 \<and>
     (is_new \<longrightarrow> ph_old_start h = 0 \<and> ph_old_count h = 0) \<and>
     (ph_old_count h = 0 \<or> ph_old_start h \<noteq> 0) \<and> (ph_new_count h = 0 \<or> ph_new_start h \<noteq> 0)"

definition follows :: "(nat \<times> nat) option \<Rightarrow> patch_hunk \<Rightarrow> bool" where
  "follows ends h \<longleftrightarrow> (case ends of None \<Rightarrow> True
     | Some (old_end, new_end) \<Rightarrow> old_end \<le> ph_old_start h \<and> new_end \<le> ph_new_start h)"

definition hunk_ends :: "patch_hunk \<Rightarrow> nat \<times> nat" where
  "hunk_ends h = (ph_old_start h + ph_old_count h, ph_new_start h + ph_new_count h)"

definition hunk_text :: "pystr \<Rightarrow> patch_hunk \<Rightarrow> pystr list" where
  "hunk_text header h = (header @ [10]) # map line_text (ph_lines h)"

lemma changed_nonempty: "changed_lines ls \<noteq> 0 \<Longrightarrow> ls \<noteq> []"
  by (auto simp: changed_lines_def)

lemma hunk_lines_start:
  "(\<exists>st. hunk_lines start_scan raws = Inr (ls, st, rest) \<and> P (hs_old st) (hs_new st) (hs_changed st)) \<longleftrightarrow>
     raws = map line_text ls @ rest \<and> list_all line_ok ls \<and> stops rest \<and> markers_follow False ls \<and>
     P (old_lines ls) (new_lines ls) (changed_lines ls)" (is "?l \<longleftrightarrow> ?r")
proof
  assume ?r
  then show ?l unfolding hunk_lines_iff
    by (intro exI [of _ "\<lparr>hs_old = old_lines ls, hs_new = new_lines ls, hs_changed = changed_lines ls,
      hs_content = (\<exists>l \<in> set ls. pl_kind l \<noteq> PL_NO_NEWLINE), hs_marker = (ls \<noteq> [] \<and> pl_kind (last ls) = PL_NO_NEWLINE)\<rparr>"])
      (simp add: start_scan_def)
qed (auto simp: hunk_lines_iff start_scan_def)

lemma parse_hunk_iff:
  "parse_hunk is_new ends raw rest = Inr (h, c, rest') \<longleftrightarrow>
     (\<exists>header. raw # rest = hunk_text header h @ rest' \<and> header_says header h) \<and> stops rest' \<and>
     hunk_ok is_new h \<and> follows ends h \<and> c = changed_lines (ph_lines h)"
proof -
  let ?P = "\<lambda>old new changed. ph_lines h \<noteq> [] \<and> old = ph_old_count h \<and> new = ph_new_count h \<and> changed \<noteq> 0 \<and> c = changed \<and>
    (is_new \<longrightarrow> ph_old_start h = 0 \<and> ph_old_count h = 0 \<and> old = 0) \<and>
    (ph_old_count h = 0 \<or> ph_old_start h \<noteq> 0) \<and> (ph_new_count h = 0 \<or> ph_new_start h \<noteq> 0) \<and> follows ends h"
  have "parse_hunk is_new ends raw rest = Inr (h, c, rest') \<longleftrightarrow>
    (\<exists>header. raw = header @ [10] \<and> header_says header h \<and>
      (\<exists>st. hunk_lines start_scan rest = Inr (ph_lines h, st, rest') \<and> ?P (hs_old st) (hs_new st) (hs_changed st)))"
    unfolding parse_hunk_def res_iffs strip_lf_Inr parse_hunk_header_iff [symmetric]
    by (cases h) (auto simp: res_iffs follows_def split: option.splits)
  also have "\<dots> \<longleftrightarrow> (\<exists>header. raw = header @ [10] \<and> header_says header h \<and>
      rest = map line_text (ph_lines h) @ rest' \<and> list_all line_ok (ph_lines h) \<and> stops rest' \<and> markers_follow False (ph_lines h) \<and>
      ?P (old_lines (ph_lines h)) (new_lines (ph_lines h)) (changed_lines (ph_lines h)))"
    unfolding hunk_lines_start [of rest "ph_lines h" rest' ?P] ..
  also have "\<dots> \<longleftrightarrow> (\<exists>header. raw # rest = hunk_text header h @ rest' \<and> header_says header h) \<and> stops rest' \<and>
     hunk_ok is_new h \<and> follows ends h \<and> c = changed_lines (ph_lines h)"
    unfolding hunk_text_def hunk_ok_def by auto
  finally show ?thesis .
qed

definition changed_in :: "patch_hunk list \<Rightarrow> nat" where
  "changed_in hs = sum_list (map (\<lambda>h. changed_lines (ph_lines h)) hs)"

text \<open>Hunks in order, none overlapping the one before.\<close>

fun hunks_follow :: "(nat \<times> nat) option \<Rightarrow> patch_hunk list \<Rightarrow> bool" where
  "hunks_follow ends [] = True"
| "hunks_follow ends (h # hs) \<longleftrightarrow> follows ends h \<and> hunks_follow (Some (hunk_ends h)) hs"

definition hunk_texts :: "pystr list \<Rightarrow> patch_hunk list \<Rightarrow> pystr list" where
  "hunk_texts headers hs = concat (map2 hunk_text headers hs)"

definition no_hunk :: "pystr list \<Rightarrow> bool" where
  "no_hunk rest \<longleftrightarrow> (case rest of [] \<Rightarrow> True | raw # _ \<Rightarrow> \<not> starts_with (lit ''@@ '') raw)"

lemma header_starts: "header_says header h \<Longrightarrow> starts_with (lit ''@@ '') (header @ [10])"
  by (auto simp: header_says_def header_texts_def starts_with_def lit_def)

lemma file_hunks_iff:
  "file_hunks policy is_new ends n raws = Inr (hs, m, rest) \<longleftrightarrow>
     (\<exists>headers. list_all2 header_says headers hs \<and> raws = hunk_texts headers hs @ rest) \<and>
     list_all (hunk_ok is_new) hs \<and> hunks_follow ends hs \<and> m = n + changed_in hs \<and>
     (hs \<noteq> [] \<longrightarrow> m \<le> gp_max_changed_lines policy \<and> stops rest) \<and> no_hunk rest"
proof (induction hs arbitrary: ends n raws)
  case Nil
  show ?case
    by (subst file_hunks.simps)
      (auto simp: hunk_texts_def changed_in_def no_hunk_def res_iffs split: list.splits)
next
  case (Cons h hs)
  have "file_hunks policy is_new ends n raws = Inr (h # hs, m, rest) \<longleftrightarrow>
    (\<exists>raw raws' c rest'. raws = raw # raws' \<and> starts_with (lit ''@@ '') raw \<and> parse_hunk is_new ends raw raws' = Inr (h, c, rest') \<and>
      n + c \<le> gp_max_changed_lines policy \<and>
      file_hunks policy is_new (Some (hunk_ends h)) (n + c) rest' = Inr (hs, m, rest))"
    by (subst file_hunks.simps) (auto simp: res_iffs hunk_ends_def split: list.splits)
  also have "\<dots> \<longleftrightarrow> (\<exists>header headers rest'. header_says header h \<and> list_all2 header_says headers hs \<and> rest' = hunk_texts headers hs @ rest \<and>
     raws = hunk_text header h @ rest' \<and> stops rest' \<and> hunk_ok is_new h \<and> follows ends h \<and>
      n + changed_lines (ph_lines h) \<le> gp_max_changed_lines policy \<and>
     list_all (hunk_ok is_new) hs \<and> hunks_follow (Some (hunk_ends h)) hs \<and> m = n + changed_lines (ph_lines h) + changed_in hs \<and>
     (hs \<noteq> [] \<longrightarrow> m \<le> gp_max_changed_lines policy \<and> stops rest) \<and> no_hunk rest)"
    unfolding Cons.IH parse_hunk_iff by (auto simp: hunk_text_def header_starts)
  also have "\<dots> \<longleftrightarrow> (\<exists>headers. list_all2 header_says headers (h # hs) \<and> raws = hunk_texts headers (h # hs) @ rest) \<and>
     list_all (hunk_ok is_new) (h # hs) \<and> hunks_follow ends (h # hs) \<and> m = n + changed_in (h # hs) \<and>
     m \<le> gp_max_changed_lines policy \<and> stops rest \<and> no_hunk rest" (is "?l \<longleftrightarrow> ?r")
  proof -
    have stops: "stops (hunk_texts headers hs @ rest) \<longleftrightarrow> (hs = [] \<longrightarrow> stops rest)" if "list_all2 header_says headers hs" for headers
      using that header_starts
      by (cases headers; cases hs) (auto simp: stops_def hunk_texts_def hunk_text_def ends_hunk_def)
    have Cons: "hunk_texts (header # headers) (h # hs) @ rest = hunk_text header h @ hunk_texts headers hs @ rest" for header headers
      by (simp add: hunk_texts_def)
    have sum: "changed_in (h # hs) = changed_lines (ph_lines h) + changed_in hs" by (simp add: changed_in_def)
    show ?thesis
    proof
      assume ?l
      then obtain header headers where l: "header_says header h" "list_all2 header_says headers hs"
        "raws = hunk_text header h @ hunk_texts headers hs @ rest" "stops (hunk_texts headers hs @ rest)" by blast
      then have "list_all2 header_says (header # headers) (h # hs) \<and> raws = hunk_texts (header # headers) (h # hs) @ rest"
        by (simp only: Cons list_all2_Cons)
      moreover have "stops rest" using \<open>?l\<close> l(2,4) stops by blast
      moreover have "m \<le> gp_max_changed_lines policy" using \<open>?l\<close> by (cases "hs = []") (auto simp: changed_in_def)
      ultimately show ?r using \<open>?l\<close> sum by auto
    next
      assume ?r
      then obtain header headers where r: "header_says header h" "list_all2 header_says headers hs"
        "raws = hunk_texts (header # headers) (h # hs) @ rest" by (auto simp: list_all2_Cons2)
      moreover have "stops (hunk_texts headers hs @ rest)" using \<open>?r\<close> stops [OF r(2)] by blast
      ultimately show ?l using \<open>?r\<close> sum unfolding Cons
        by (intro exI [of _ header] exI [of _ headers] exI [of _ "hunk_texts headers hs @ rest"]) auto
    qed
  qed
  finally show ?case by simp
qed

end
