(* ===== verification/Repair_Patch_Facts.thy ===== *)
theory Repair_Patch_Facts
  imports Repair_Patch_Grammar
begin

text \<open>
  The file level of the parser and \<open>_parse_wire_patch\<close> as a whole: what it returns is what the text spells.
\<close>

section \<open>Files\<close>

lemma lits:
  "lit ''b/'' = [98, 47]" "lit ''a/'' = [97, 47]" "lit ''/dev/null'' = [47, 100, 101, 118, 47, 110, 117, 108, 108]"
  "lit ''--- '' = [45, 45, 45, 32]" "lit ''+++ '' = [43, 43, 43, 32]" "lit ''+++ b/'' = [43, 43, 43, 32, 98, 47]"
  by (simp_all add: lit_def)

lemma mapped_Inr: "(case r of Inl _ \<Rightarrow> Inl e | Inr x \<Rightarrow> Inr (f x)) = Inr y \<longleftrightarrow> (\<exists>x. r = Inr x \<and> y = f x)"
  by (auto split: sum.splits)

lemma file_headers_iff:
  "parse_file_headers ud old new = Inr (path, b) \<longleftrightarrow>
     old = (if b then lit ''/dev/null'' else lit ''a/'' @ path) \<and> new = lit ''b/'' @ path \<and>
     repository_path_ok ud path \<and> 9 \<notin> set path"
proof -
  have "parse_file_headers ud old new = Inr (path, b) \<longleftrightarrow> 9 \<notin> set old \<and> 9 \<notin> set new \<and>
     new = [98, 47] @ path \<and> (old = lit ''/dev/null'' \<or> old = [97, 47] @ path) \<and> repository_path_ok ud path \<and> b = (old = lit ''/dev/null'')"
    unfolding parse_file_headers_def lits starts_with_iff
    by (auto simp: res_iffs validate_repository_path_Inr mapped_Inr)
  then show ?thesis unfolding lits by auto
qed

definition file_text :: "pystr list \<Rightarrow> patch_file \<Rightarrow> pystr list" where
  "file_text headers f =
     [lit ''--- '' @ (if pf_new f then lit ''/dev/null'' else lit ''a/'' @ pf_path f) @ [10],
      lit ''+++ b/'' @ pf_path f @ [10]] @ hunk_texts headers (pf_hunks f)"

definition file_ok :: "unicode_db \<Rightarrow> pystr list \<Rightarrow> patch_file \<Rightarrow> bool" where
  "file_ok ud allowed f \<longleftrightarrow>
     repository_path_ok ud (pf_path f) \<and> 9 \<notin> set (pf_path f) \<and> pf_path f \<in> set allowed \<and>
     pf_hunks f \<noteq> [] \<and> list_all (hunk_ok (pf_new f)) (pf_hunks f) \<and> hunks_follow None (pf_hunks f)"

fun paths_follow :: "pystr option \<Rightarrow> pystr list \<Rightarrow> bool" where
  "paths_follow p [] = True"
| "paths_follow p (q # qs) \<longleftrightarrow>
     (case p of None \<Rightarrow> True | Some p' \<Rightarrow> utf8_bytes p' < utf8_bytes q) \<and> paths_follow (Some q) qs"

definition file_changes :: "patch_file \<Rightarrow> nat" where
  "file_changes f = changed_in (pf_hunks f)"

definition says :: "pystr list \<Rightarrow> patch_file \<Rightarrow> bool" where
  "says headers f \<longleftrightarrow> list_all2 header_says headers (pf_hunks f)"

lemma changed_in_positive: "list_all (hunk_ok b) hs \<Longrightarrow> hs \<noteq> [] \<Longrightarrow> changed_in hs \<noteq> 0"
  by (cases hs) (auto simp: changed_in_def hunk_ok_def)

lemma stops_no_hunk:
  "stops rest \<and> no_hunk rest \<longleftrightarrow> (case rest of [] \<Rightarrow> True | raw # _ \<Rightarrow> starts_with (lit ''--- '') raw)"
proof -
  have "\<not> (starts_with (lit ''@@ '') s \<and> starts_with (lit ''--- '') s)" for s
    by (cases s) (auto simp: starts_with_def lit_def)
  then show ?thesis by (auto simp: stops_def no_hunk_def ends_hunk_def split: list.splits)
qed

lemma one_file:
  "parse_files ud policy allowed previous k seen raws = Inr (f # fs, m) \<longleftrightarrow>
    (\<exists>headers rest. says headers f \<and> raws = file_text headers f @ rest \<and> file_ok ud allowed f \<and>
      (case previous of None \<Rightarrow> True | Some p \<Rightarrow> utf8_bytes p < utf8_bytes (pf_path f)) \<and>
      k < gp_max_patch_paths policy \<and> seen + file_changes f \<le> gp_max_changed_lines policy \<and>
      (case rest of [] \<Rightarrow> True | raw # _ \<Rightarrow> starts_with (lit ''--- '') raw) \<and>
      parse_files ud policy allowed (Some (pf_path f)) (Suc k) (seen + file_changes f) rest = Inr (fs, m))"
  (is "?l \<longleftrightarrow> ?r")
proof -
  have "?l \<longleftrightarrow> (\<exists>old new rest seen' rest'. raws = (lit ''--- '' @ old @ [10]) # (lit ''+++ '' @ new @ [10]) # rest \<and>
      parse_file_headers ud old new = Inr (pf_path f, pf_new f) \<and> pf_path f \<in> set allowed \<and>
      (case previous of None \<Rightarrow> True | Some p \<Rightarrow> utf8_bytes p < utf8_bytes (pf_path f)) \<and> k < gp_max_patch_paths policy \<and>
      (file_hunks policy (pf_new f) None seen rest = Inr (pf_hunks f, seen', rest') \<and> pf_hunks f \<noteq> [] \<and> seen' \<noteq> seen \<and>
        (case rest' of [] \<Rightarrow> True | next # _ \<Rightarrow> starts_with (lit ''--- '') next)) \<and>
      parse_files ud policy allowed (Some (pf_path f)) (Suc k) seen' rest' = Inr (fs, m))" (is "_ \<longleftrightarrow> ?m")
  proof (cases "\<exists>raw raw' rest. raws = raw # raw' # rest")
    case False
    then have "\<not> ?l" by (subst parse_files.simps) (auto simp: res_iffs split: list.splits)
    with False show ?thesis by blast
  next
    case True
    then obtain raw raw' rest where raws: "raws = raw # raw' # rest" by blast
    show ?thesis
      unfolding raws
      by (subst parse_files.simps) (cases f; auto simp: res_iffs strip_lf_Inr lits starts_with_iff cong: option.case_cong)
  qed
  also have "\<dots> \<longleftrightarrow> ?r"
  proof -
    have grown: "seen + changed_in (pf_hunks f) \<noteq> seen" if "list_all (hunk_ok (pf_new f)) (pf_hunks f)" "pf_hunks f \<noteq> []"
      using changed_in_positive [OF that] by simp
    have hunks: "file_hunks policy (pf_new f) None seen rest = Inr (pf_hunks f, seen', rest') \<and> pf_hunks f \<noteq> [] \<and> seen' \<noteq> seen \<and>
        (case rest' of [] \<Rightarrow> True | next # _ \<Rightarrow> starts_with (lit ''--- '') next) \<longleftrightarrow>
      (\<exists>headers. says headers f \<and> rest = hunk_texts headers (pf_hunks f) @ rest') \<and> pf_hunks f \<noteq> [] \<and>
        list_all (hunk_ok (pf_new f)) (pf_hunks f) \<and> hunks_follow None (pf_hunks f) \<and> seen' = seen + file_changes f \<and>
        seen' \<le> gp_max_changed_lines policy \<and> (case rest' of [] \<Rightarrow> True | next # _ \<Rightarrow> starts_with (lit ''--- '') next)"
      for rest seen' rest'
      unfolding file_hunks_iff says_def file_changes_def stops_no_hunk [symmetric] using grown by auto
    show ?thesis
      unfolding hunks file_headers_iff file_ok_def file_text_def by (auto simp: lits)
  qed
  finally show ?thesis .
qed

section \<open>A whole patch\<close>

definition patch_texts :: "pystr list list \<Rightarrow> patch_file list \<Rightarrow> pystr list" where
  "patch_texts hss fs = concat (map2 file_text hss fs)"

definition total_changes :: "patch_file list \<Rightarrow> nat" where
  "total_changes fs = sum_list (map file_changes fs)"

lemma file_text_starts: "starts_with (lit ''--- '') (hd (file_text headers f @ rest)) \<and> file_text headers f \<noteq> []"
  by (simp add: file_text_def)

lemma parse_files_iff:
  "parse_files ud policy allowed previous k seen raws = Inr (fs, m) \<longleftrightarrow>
     (\<exists>hss. list_all2 says hss fs \<and> raws = patch_texts hss fs) \<and> list_all (file_ok ud allowed) fs \<and>
     paths_follow previous (map pf_path fs) \<and> m = seen + total_changes fs \<and>
     (fs \<noteq> [] \<longrightarrow> k + length fs \<le> gp_max_patch_paths policy \<and> m \<le> gp_max_changed_lines policy)"
proof (induction fs arbitrary: previous k seen raws)
  case Nil
  show ?case
    by (subst parse_files.simps) (auto simp: patch_texts_def total_changes_def res_iffs split: list.splits)
next
  case (Cons f fs)
  have starts: "case patch_texts hss fs of [] \<Rightarrow> True | raw # _ \<Rightarrow> starts_with (lit ''--- '') raw" if "list_all2 says hss fs" for hss
    using that by (cases hss; cases fs) (auto simp: patch_texts_def file_text_def)
  have Cons_text: "patch_texts (hs # hss) (f # fs) = file_text hs f @ patch_texts hss fs" for hs hss by (simp add: patch_texts_def)
  have sum: "total_changes (f # fs) = file_changes f + total_changes fs" by (simp add: total_changes_def)
  have hss: "(\<exists>hss. list_all2 says hss (f # fs) \<and> raws = patch_texts hss (f # fs)) \<longleftrightarrow>
    (\<exists>hs hss. says hs f \<and> list_all2 says hss fs \<and> raws = file_text hs f @ patch_texts hss fs)"
    unfolding list_all2_Cons2 by (metis Cons_text)
  have Nil_sum: "fs = [] \<Longrightarrow> total_changes fs = 0" by (simp add: total_changes_def)
  have "parse_files ud policy allowed previous k seen raws = Inr (f # fs, m) \<longleftrightarrow>
    (\<exists>hs hss. says hs f \<and> list_all2 says hss fs \<and> raws = file_text hs f @ patch_texts hss fs) \<and> file_ok ud allowed f \<and>
    (case previous of None \<Rightarrow> True | Some p \<Rightarrow> utf8_bytes p < utf8_bytes (pf_path f)) \<and>
    k < gp_max_patch_paths policy \<and> seen + file_changes f \<le> gp_max_changed_lines policy \<and>
    list_all (file_ok ud allowed) fs \<and> paths_follow (Some (pf_path f)) (map pf_path fs) \<and>
    m = seen + file_changes f + total_changes fs \<and>
    (fs \<noteq> [] \<longrightarrow> Suc k + length fs \<le> gp_max_patch_paths policy \<and> m \<le> gp_max_changed_lines policy)"
    unfolding one_file Cons.IH using starts by blast
  then show ?case
    unfolding hss sum using Nil_sum by (cases fs) auto
qed

section \<open>Lines\<close>

definition one_line :: "pystr \<Rightarrow> bool" where
  "one_line s \<longleftrightarrow> s \<noteq> [] \<and> last s = 10 \<and> list_all (\<lambda>c. \<not> is_line_break c) (butlast s)"

lemma one_line_iff: "one_line s \<longleftrightarrow> (\<exists>t. s = t @ [10] \<and> list_all (\<lambda>c. \<not> is_line_break c) t)"
  by (cases s rule: rev_cases) (auto simp: one_line_def)

lemma break_13 [simp]: "is_line_break 13" "is_line_break 10"
  by (simp_all add: is_line_break_def)

lemma split_one_line: "list_all (\<lambda>c. \<not> is_line_break c) t \<Longrightarrow> split_lines (t @ 10 # s) = (t @ [10]) # split_lines s"
  by (induction t) auto

lemma split_lines_concat: "list_all one_line ls \<Longrightarrow> split_lines (concat ls) = ls"
  by (induction ls) (auto simp: one_line_iff split_one_line)

lemma concat_split_lines [simp]: "concat (split_lines s) = s"
proof (induction s rule: split_lines.induct)
  case (2 c cs)
  show ?case
  proof (cases "c = 13 \<and> starts_with [10] cs")
    case True
    then have "cs = 10 # tl cs" by (cases cs) (auto simp: starts_with_def)
    with True 2(1) show ?thesis by simp
  next
    case False
    with 2(2,3) show ?thesis by (auto split: list.splits)
  qed
qed simp

lemma line_ends:
  assumes "list_all2 says hss fs" "l \<in> set (patch_texts hss fs)"
  shows "l \<noteq> [] \<and> last l = 10"
proof -
  have hunk: "m \<in> set (hunk_texts hs h) \<Longrightarrow> m \<noteq> [] \<and> last m = 10" for m hs h
  proof -
    have "line_text x \<noteq> [] \<and> last (line_text x) = 10" for x by (simp add: line_text_def)
    moreover assume "m \<in> set (hunk_texts hs h)"
    ultimately show ?thesis by (auto simp: hunk_texts_def hunk_text_def set_zip)
  qed
  then show ?thesis using assms(2) by (auto simp: patch_texts_def file_text_def set_zip)
qed

lemma split_lines_ends:
  "13 \<notin> set s \<Longrightarrow> l \<in> set (split_lines s) \<Longrightarrow> l \<noteq> [] \<and> list_all (\<lambda>c. \<not> is_line_break c) (butlast l)"
proof (induction s arbitrary: l rule: split_lines.induct)
  case (2 c cs)
  then show ?case by (auto split: if_splits list.splits)
qed simp

lemma split_lines_Nil [simp]: "split_lines s = [] \<longleftrightarrow> s = []"
  by (cases s) (auto split: list.splits)

lemma byte_length_append: "utf8_ok s \<Longrightarrow> utf8_ok t \<Longrightarrow> byte_length (s @ t) = byte_length s + byte_length t"
  by (auto simp: byte_length_def utf8_bytes_def utf8_ok_def utf8_encode_append split: option.splits)

lemma byte_length_concat: "utf8_ok (concat ls) \<Longrightarrow> byte_length (concat ls) = sum_list (map byte_length ls)"
  by (induction ls) (simp_all add: utf8_ok_append byte_length_append, simp add: byte_length_def utf8_bytes_def)

section \<open>The parser and its grammar\<close>

text \<open>What is asked of the text as a whole.\<close>

definition patch_text_ok :: "unicode_db \<Rightarrow> generation_policy \<Rightarrow> pystr \<Rightarrow> bool" where
  "patch_text_ok ud policy patch \<longleftrightarrow>
     utf8_ok patch \<and> byte_length patch \<le> gp_max_patch_bytes policy \<and> 13 \<notin> set patch \<and> 0 \<notin> set patch \<and>
     list_all (\<lambda>c. c = 10 \<or> c = 9 \<or> \<not> ud_control ud c) patch"

definition patch_files_ok :: "unicode_db \<Rightarrow> generation_policy \<Rightarrow> pystr list \<Rightarrow> patch_file list \<Rightarrow> bool" where
  "patch_files_ok ud policy allowed fs \<longleftrightarrow>
     fs \<noteq> [] \<and> list_all (file_ok ud allowed) fs \<and> paths_follow None (map pf_path fs) \<and>
     length fs \<le> gp_max_patch_paths policy \<and> total_changes fs \<le> gp_max_changed_lines policy"

lemma validated_patch_bytes_Inr:
  "validated_patch_bytes ud policy patch = Inr b \<longleftrightarrow>
     patch_text_ok ud policy patch \<and> patch \<noteq> [] \<and> last patch = 10 \<and> b = utf8_bytes patch"
proof -
  have "utf8_bytes patch = [] \<longleftrightarrow> patch = []" if "utf8_ok patch"
    using that utf8_bytes_inj [of patch "[]"] by (simp add: utf8_bytes_def utf8_ok_def)
  moreover have "ends_with [10] patch \<longleftrightarrow> patch \<noteq> [] \<and> last patch = 10"
    by (cases patch rule: rev_cases) (auto simp: ends_with_def)
  ultimately show ?thesis
    by (auto simp: validated_patch_bytes_def patch_text_ok_def res_iffs utf8_ok_iff byte_length_def
      utf8_bytes_def split: option.splits)
qed

lemma parse_wire_patch_iff:
  "parse_wire_patch ud policy allowed patch = Inr p \<longleftrightarrow>
     repository_paths_ok ud 1 32 allowed \<and> patch_text_ok ud policy patch \<and>
     patch_files_ok ud policy allowed (pp_files p) \<and>
     (\<exists>hss. list_all2 says hss (pp_files p) \<and> patch = concat (patch_texts hss (pp_files p)) \<and>
        list_all one_line (patch_texts hss (pp_files p))) \<and>
     pp_source p = patch \<and> pp_changed p = total_changes (pp_files p)" (is "?l \<longleftrightarrow> ?r")
proof -
  have "?l \<longleftrightarrow> repository_paths_ok ud 1 32 allowed \<and> patch_text_ok ud policy patch \<and> patch \<noteq> [] \<and> last patch = 10 \<and>
    sum_list (map byte_length (split_lines patch)) = byte_length patch \<and>
    parse_files ud policy allowed None 0 0 (split_lines patch) = Inr (pp_files p, pp_changed p) \<and> pp_files p \<noteq> [] \<and>
    pp_source p = patch"
  proof (cases "canonical_repository_paths ud 1 32 allowed")
    case (Inl e)
    then show ?thesis using canonical_repository_paths_Inr [of ud 1 32 allowed allowed] by (simp add: parse_wire_patch_def)
  next
    case (Inr qs)
    then have "repository_paths_ok ud 1 32 allowed" using canonical_repository_paths_Inr by blast
    with Inr show ?thesis
      by (cases p) (auto simp: parse_wire_patch_def res_iffs Let_def validated_patch_bytes_Inr byte_length_def)
  qed
  also have "\<dots> \<longleftrightarrow> ?r"
  proof -
    have lines: "patch \<noteq> [] \<and> last patch = 10 \<and> sum_list (map byte_length (split_lines patch)) = byte_length patch \<and>
        split_lines patch = ls \<longleftrightarrow> patch = concat ls \<and> list_all one_line ls" if "patch_text_ok ud policy patch" "ls \<noteq> []" "\<forall>l \<in> set ls. last l = 10" for ls
    proof
      assume l: "patch \<noteq> [] \<and> last patch = 10 \<and> sum_list (map byte_length (split_lines patch)) = byte_length patch \<and> split_lines patch = ls"
      then have "patch = concat ls" using concat_split_lines [of patch] by simp
      then show "patch = concat ls \<and> list_all one_line ls"
        using l that split_lines_ends [of patch] by (auto simp: one_line_def list_all_iff patch_text_ok_def)
    next
      assume r: "patch = concat ls \<and> list_all one_line ls"
      then have "split_lines patch = ls" by (simp add: split_lines_concat)
      moreover have "sum_list (map byte_length ls) = byte_length patch"
        using that(1) r byte_length_concat [of ls] by (simp add: patch_text_ok_def)
      moreover have "patch \<noteq> [] \<and> last patch = 10"
        using r that(2) by (cases ls rule: rev_cases) (auto simp: one_line_def)
      ultimately show "patch \<noteq> [] \<and> last patch = 10 \<and> sum_list (map byte_length (split_lines patch)) = byte_length patch \<and> split_lines patch = ls"
        by simp
    qed
    have nonempty: "patch_texts hss fs \<noteq> []" if "list_all2 says hss fs" "fs \<noteq> []" for hss fs
      using that by (cases hss; cases fs) (auto simp: patch_texts_def file_text_def)
    have "patch \<noteq> [] \<and> last patch = 10 \<and> sum_list (map byte_length (split_lines patch)) = byte_length patch \<and>
        (\<exists>hss. list_all2 says hss (pp_files p) \<and> split_lines patch = patch_texts hss (pp_files p)) \<longleftrightarrow>
      (\<exists>hss. list_all2 says hss (pp_files p) \<and> patch = concat (patch_texts hss (pp_files p)) \<and>
        list_all one_line (patch_texts hss (pp_files p)))" if "patch_text_ok ud policy patch" "pp_files p \<noteq> []"
      using lines [OF that(1) nonempty [OF _ that(2)]] line_ends by blast
    then show ?thesis unfolding parse_files_iff patch_files_ok_def by auto
  qed
  finally show ?thesis .
qed

section \<open>Errors\<close>

text \<open>The parser raises \<open>PATCH_INVALID\<close> and \<open>PATCH_LIMIT\<close> only.\<close>

definition patch_errors :: "patch_error + 'a \<Rightarrow> bool" where
  "patch_errors m \<longleftrightarrow> (case m of Inl e \<Rightarrow> e \<in> {patch_invalid, patch_limit} | Inr _ \<Rightarrow> True)"

lemma patch_errors_simps [simp, intro]:
  "patch_errors (Inr x)" "patch_errors (Inl patch_invalid)" "patch_errors (Inl patch_limit)"
  "patch_errors (require b patch_invalid)" "patch_errors (require b patch_limit)"
  by (simp_all add: patch_errors_def require_def)

lemma patch_errors_then [intro]: "patch_errors m \<Longrightarrow> (\<And>x. m = Inr x \<Longrightarrow> patch_errors (k x)) \<Longrightarrow> patch_errors (and_then m k)"
  by (cases m) (simp_all add: patch_errors_def)

lemma patch_errors_line: "patch_errors (strip_lf s)" "patch_errors (parse_hunk_line s)" "patch_errors (scan_line st l)"
  "patch_errors (parse_hunk_header s)" "patch_errors (parse_file_headers ud a b)"
  by (auto simp: strip_lf_def parse_hunk_line_def scan_line_def parse_hunk_header_def parse_file_headers_def
    split: list.split patch_line_kind.split option.split sum.split)

lemma patch_errors_hunk_lines: "patch_errors (hunk_lines st ls)"
  by (induction st ls rule: hunk_lines.induct) (auto intro!: patch_errors_line patch_errors_then)

lemma patch_errors_hunk: "patch_errors (parse_hunk b ends raw ls)"
  unfolding parse_hunk_def by (auto intro!: patch_errors_line patch_errors_hunk_lines patch_errors_then)

lemma patch_errors_hunks: "patch_errors (file_hunks policy b ends n ls)"
proof (induction policy b ends n ls rule: file_hunks.induct)
  case (1 policy b ends n ls)
  then show ?case
    by (subst file_hunks.simps) (auto intro!: patch_errors_hunk patch_errors_then split: list.split)
qed

lemma patch_errors_files: "patch_errors (parse_files ud policy allowed previous k n ls)"
proof (induction ud policy allowed previous k n ls rule: parse_files.induct)
  case (1 ud policy allowed previous k n ls)
  show ?case
    by (subst parse_files.simps)
      (auto intro!: patch_errors_line patch_errors_hunks patch_errors_then 1 split: list.split)
qed

lemma patch_errors_wire: "patch_errors (parse_wire_patch ud policy allowed patch)"
  unfolding parse_wire_patch_def validated_patch_bytes_def Let_def
  by (auto intro!: patch_errors_files patch_errors_then split: sum.split option.split)

section \<open>Property\<close>

text \<open>
  C8. The parser accepts a patch exactly when its text is spelled by the grammar: file headers in ascending
  path order among the allowed paths, each with hunks that follow one another, whose headers state the
  lines they have, within the limits of the policy; a deleted line may not start with two dashes and a
  space. What it returns is what the text spells. Every other text is \<open>PATCH_INVALID\<close> or \<open>PATCH_LIMIT\<close>.
\<close>

theorem wire_patch_grammar:
  "(parse_wire_patch ud policy allowed patch = Inr p \<longleftrightarrow>
     repository_paths_ok ud 1 32 allowed \<and> patch_text_ok ud policy patch \<and>
     patch_files_ok ud policy allowed (pp_files p) \<and>
     (\<exists>hss. list_all2 says hss (pp_files p) \<and> patch = concat (patch_texts hss (pp_files p)) \<and>
        list_all one_line (patch_texts hss (pp_files p))) \<and>
     pp_source p = patch \<and> pp_changed p = total_changes (pp_files p)) \<and>
   patch_errors (parse_wire_patch ud policy allowed patch)"
  by (simp add: parse_wire_patch_iff patch_errors_wire)

end
