(* ===== verification/Repair_Deletion.thy ===== *)
theory Repair_Deletion
  imports Repair_Key_Pairs Repair_Patch_Facts
begin

text \<open>
  The plan of \<open>_prepare_private_key_plan\<close>: the ranges of a file are disjoint and cover the matched lines, and
  the parser reads the patch of \<open>_deletion_patch_source\<close> as one deletion per range.
\<close>

section \<open>The plan\<close>

definition decoded_ok :: "(pystr \<times> pystr option) list \<Rightarrow> bool" where
  "decoded_ok ds \<longleftrightarrow> distinct (map fst ds)"

definition plan_matches :: "(pystr \<times> pystr option) list \<Rightarrow> key_match list" where
  "plan_matches ds = sort_key match_sort_key (concat (map file_matches ds))"

definition plan_ranges :: "(pystr \<times> pystr option) list \<Rightarrow> pystr \<Rightarrow> (nat \<times> nat) list" where
  "plan_ranges ds = coalesce_ranges (unique_protected_ranges (plan_matches ds))"

lemma plan_matches_path:
  assumes "decoded_ok ds" "(path, Some t) \<in> set ds"
  shows "{k \<in> set (plan_matches ds). km_path k = path} = set (paired_ranges path t)"
proof -
  have "file_matches d = paired_ranges path t" if "d \<in> set ds" "k \<in> set (file_matches d)" "km_path k = path" for d k
  proof -
    obtain p u where d: "d = (p, Some u)" "k \<in> set (paired_ranges p u)"
      using \<open>k \<in> set (file_matches d)\<close> by (cases d) (auto simp: file_matches_def split: option.splits)
    then have "p = path" using paired_ranges_range [OF d(2)] \<open>km_path k = path\<close> by blast
    then have "d = (path, Some t)" using assms \<open>d \<in> set ds\<close> d(1) by (auto simp: decoded_ok_def dest: eq_key_imp_eq_value)
    then show ?thesis by (simp add: file_matches_def)
  qed
  moreover have "set (paired_ranges path t) \<subseteq> {k \<in> set (plan_matches ds). km_path k = path}"
    using assms(2) paired_ranges_range by (fastforce simp: plan_matches_def file_matches_def)
  ultimately show ?thesis by (auto simp: plan_matches_def)
qed

lemma sorted_filter_starts:
  assumes "sorted (map range_key rs)"
  shows "sorted (map fst (map (\<lambda>r. (pr_start r, pr_end r)) (filter (\<lambda>r. pr_path r = path) rs)))"
  using assms
proof (induction rs)
  case (Cons r rs)
  then show ?case by (auto simp: range_key_def less_eq_prod_def)
qed simp

definition range_pairs :: "key_match list \<Rightarrow> pystr \<Rightarrow> (nat \<times> nat) set" where
  "range_pairs ms path = (\<lambda>k. (km_start k, km_end k)) ` {k \<in> set ms. km_path k = path}"

lemma unique_range_pairs:
  "set (map (\<lambda>r. (pr_start r, pr_end r)) (filter (\<lambda>r. pr_path r = path) (unique_protected_ranges ms))) = range_pairs ms path"
  by (force simp: unique_protected_ranges_def range_pairs_def)

lemma covered_set: "covered rs n \<longleftrightarrow> (\<exists>(s, e) \<in> set rs. s \<le> n \<and> n \<le> e)"
  by (auto simp: covered_def list_ex_iff)

lemma plan_ranges_facts:
  assumes "\<forall>k \<in> set ms. 1 \<le> km_start k \<and> km_start k \<le> km_end k"
  shows "separated 0 (coalesce_ranges (unique_protected_ranges ms) path)"
    and "covered (coalesce_ranges (unique_protected_ranges ms) path) n \<longleftrightarrow>
      (\<exists>k \<in> set ms. km_path k = path \<and> km_start k \<le> n \<and> n \<le> km_end k)"
    and "coalesce_ranges (unique_protected_ranges ms) path = [] \<longleftrightarrow> (\<forall>k \<in> set ms. km_path k \<noteq> path)"
proof -
  let ?xs = "map (\<lambda>r. (pr_start r, pr_end r)) (filter (\<lambda>r. pr_path r = path) (unique_protected_ranges ms))"
  have set: "set ?xs = range_pairs ms path" by (rule unique_range_pairs)
  have "range_list ?xs" unfolding range_list_def list_all_iff set using assms by (auto simp: range_pairs_def)
  moreover have "sorted (map fst ?xs)" by (rule sorted_filter_starts) (simp add: unique_protected_ranges_def)
  ultimately have c: "separated 0 (foldl coalesce_into [] ?xs)"
    "\<And>n. covered (foldl coalesce_into [] ?xs) n \<longleftrightarrow> covered ?xs n" "?xs \<noteq> [] \<longrightarrow> foldl coalesce_into [] ?xs \<noteq> []"
    using coalesce_all [of ?xs] by blast+
  show "separated 0 (coalesce_ranges (unique_protected_ranges ms) path)" using c(1) by (simp add: coalesce_ranges_def)
  have "covered ?xs n \<longleftrightarrow> (\<exists>k \<in> set ms. km_path k = path \<and> km_start k \<le> n \<and> n \<le> km_end k)"
    unfolding covered_set set by (auto simp: range_pairs_def)
  then show "covered (coalesce_ranges (unique_protected_ranges ms) path) n \<longleftrightarrow>
      (\<exists>k \<in> set ms. km_path k = path \<and> km_start k \<le> n \<and> n \<le> km_end k)"
    using c(2) by (simp add: coalesce_ranges_def)
  have "?xs = [] \<longleftrightarrow> range_pairs ms path = {}" unfolding set [symmetric] by (simp only: set_empty)
  then show "coalesce_ranges (unique_protected_ranges ms) path = [] \<longleftrightarrow> (\<forall>k \<in> set ms. km_path k \<noteq> path)"
    using c(3) by (cases "?xs = []") (auto simp: coalesce_ranges_def range_pairs_def)
qed

lemma plan_matches_ok: "k \<in> set (plan_matches ds) \<Longrightarrow> 1 \<le> km_start k \<and> km_start k \<le> km_end k"
  by (auto simp: plan_matches_def file_matches_def dest: paired_ranges_range split: option.splits)

lemma plan_ranges_file:
  assumes "decoded_ok ds" "(path, Some t) \<in> set ds"
  shows "separated 0 (plan_ranges ds path)"
    and "covered (plan_ranges ds path) n \<longleftrightarrow> (\<exists>k \<in> set (paired_ranges path t). km_start k \<le> n \<and> n \<le> km_end k)"
    and "plan_ranges ds path = [] \<longleftrightarrow> paired_ranges path t = []"
proof -
  have ok: "\<forall>k \<in> set (plan_matches ds). 1 \<le> km_start k \<and> km_start k \<le> km_end k" using plan_matches_ok by blast
  note f = plan_ranges_facts [OF ok, of path, folded plan_ranges_def]
  have set: "k \<in> set (paired_ranges path t) \<longleftrightarrow> k \<in> set (plan_matches ds) \<and> km_path k = path" for k
    using plan_matches_path [OF assms] by blast
  show "separated 0 (plan_ranges ds path)" by (rule f(1))
  show "covered (plan_ranges ds path) n \<longleftrightarrow> (\<exists>k \<in> set (paired_ranges path t). km_start k \<le> n \<and> n \<le> km_end k)"
    unfolding f(2) using set by auto
  show "plan_ranges ds path = [] \<longleftrightarrow> paired_ranges path t = []"
    unfolding f(3) using set by (metis list.set_intros(1) neq_Nil_conv empty_iff empty_set)
qed

lemma validate_allowed_files_Inr:
  "validate_allowed_files ud files = Inr paths \<longleftrightarrow> repository_paths_ok ud 1 32 (map rc_path files) \<and> paths = map rc_path files"
proof -
  have "canonical_repository_paths ud 1 32 ps = Inr qs \<Longrightarrow> 1 \<le> length ps \<and> length ps \<le> 32" for ps qs
    by (auto simp: canonical_repository_paths_Inr repository_paths_ok_def)
  then show ?thesis
    by (fastforce simp: validate_allowed_files_def res_iffs handled_Inr canonical_repository_paths_Inr)
qed

lemma decode_allowed_path: "decode_allowed policy f = Inr d \<Longrightarrow> fst d = rc_path f"
  by (auto simp: decode_allowed_def res_iffs split: option.splits)

lemma decoded_paths: "map_res (decode_allowed policy) files = Inr ds \<Longrightarrow> map fst ds = map rc_path files"
  by (induction files arbitrary: ds) (auto simp: res_iffs dest: decode_allowed_path)

lemma prepare_plan_Inr:
  assumes "prepare_private_key_plan ud policy files selected = Inr plan"
  obtains ds where "map_res (decode_allowed policy) files = Inr ds" "decoded_ok ds"
    "repository_paths_ok ud 1 32 (map fst ds)" "map fst ds = map rc_path files"
    "kp_matches plan = plan_matches ds" "kp_protected plan = unique_protected_ranges (plan_matches ds)"
    "kp_files plan = map (\<lambda>(path, text). \<lparr>sf_path = path, sf_content = remove_ranges text (plan_ranges ds path)\<rparr>) ds"
    "(\<lambda>r. (sk_path r, sk_start r, sk_end r)) ` set selected = (\<lambda>r. (pr_path r, pr_start r, pr_end r)) ` set (kp_protected plan)"
    "case deletion_patch_source ds (plan_ranges ds) of None \<Rightarrow> kp_patch plan = None
      | Some source \<Rightarrow> \<exists>p. kp_patch plan = Some p \<and> parse_wire_patch ud policy (map fst ds) source = Inr p"
proof -
  obtain paths sel ds where r: "validate_allowed_files ud files = Inr paths" "validate_selections ud paths selected = Inr sel"
    "map_res (decode_allowed policy) files = Inr ds"
    "sel = set (map (\<lambda>r. (pr_path r, pr_start r, pr_end r)) (unique_protected_ranges (plan_matches ds)))"
    "(case deletion_patch_source ds (plan_ranges ds) of
       None \<Rightarrow> Inr \<lparr>kp_matches = plan_matches ds, kp_protected = unique_protected_ranges (plan_matches ds),
         kp_files = map (\<lambda>(path, text). \<lparr>sf_path = path, sf_content = remove_ranges text (plan_ranges ds path)\<rparr>) ds,
         kp_patch = None\<rparr>
     | Some source \<Rightarrow> and_then (parse_wire_patch ud policy paths source) (\<lambda>patch.
         Inr \<lparr>kp_matches = plan_matches ds, kp_protected = unique_protected_ranges (plan_matches ds),
           kp_files = map (\<lambda>(path, text). \<lparr>sf_path = path, sf_content = remove_ranges text (plan_ranges ds path)\<rparr>) ds,
           kp_patch = Some patch\<rparr>)) = Inr plan"
    using assms unfolding prepare_private_key_plan_def Let_def plan_ranges_def plan_matches_def res_iffs require_eq_Inr by blast
  have paths: "paths = map fst ds" "repository_paths_ok ud 1 32 (map fst ds)" "map fst ds = map rc_path files"
    using r(1) decoded_paths [OF r(3)] by (simp_all add: validate_allowed_files_Inr)
  have ok: "decoded_ok ds" using paths(2) by (simp add: decoded_ok_def repository_paths_ok_def)
  have "sel = (\<lambda>r. (sk_path r, sk_start r, sk_end r)) ` set selected"
    using r(2) by (auto simp: validate_selections_def res_iffs Let_def)
  then have sel: "(\<lambda>r. (sk_path r, sk_start r, sk_end r)) ` set selected =
      (\<lambda>r. (pr_path r, pr_start r, pr_end r)) ` set (unique_protected_ranges (plan_matches ds))"
    using r(4) by simp
  show ?thesis
  proof (cases "deletion_patch_source ds (plan_ranges ds)")
    case None
    with r(5) have "plan = \<lparr>kp_matches = plan_matches ds, kp_protected = unique_protected_ranges (plan_matches ds),
      kp_files = map (\<lambda>(path, text). \<lparr>sf_path = path, sf_content = remove_ranges text (plan_ranges ds path)\<rparr>) ds,
      kp_patch = None\<rparr>" by simp
    then show ?thesis by (intro that [OF r(3) ok paths(2,3)]) (simp_all add: sel None)
  next
    case (Some source)
    with r(5) obtain p where "plan = \<lparr>kp_matches = plan_matches ds, kp_protected = unique_protected_ranges (plan_matches ds),
      kp_files = map (\<lambda>(path, text). \<lparr>sf_path = path, sf_content = remove_ranges text (plan_ranges ds path)\<rparr>) ds,
      kp_patch = Some p\<rparr>" "parse_wire_patch ud policy paths source = Inr p" by (auto simp: res_iffs)
    then show ?thesis by (intro that [OF r(3) ok paths(2,3)]) (simp_all add: sel Some paths(1))
  qed
qed

lemma plan_prompt_clean:
  assumes "prepare_private_key_plan ud policy files selected = Inr plan"
    "f \<in> set (kp_files plan)" "sf_content f = Some t"
  shows "paired_ranges path t = []"
proof -
  obtain ds where ds: "decoded_ok ds"
    "kp_files plan = map (\<lambda>(path, text). \<lparr>sf_path = path, sf_content = remove_ranges text (plan_ranges ds path)\<rparr>) ds"
    by (rule prepare_plan_Inr [OF assms(1)])
  then obtain p u where d: "(p, u) \<in> set ds" "remove_ranges u (plan_ranges ds p) = Some t"
    using assms(2,3) by auto
  then obtain old where old: "u = Some old" by (cases u) (simp_all add: remove_ranges_def)
  then have "t = concat (kept 1 (\<lambda>n. \<not> covered (plan_ranges ds p) n) (split_lf old))"
    using d(2) by (simp add: remove_ranges_kept)
  moreover have cov: "covered (plan_ranges ds p) n" if "k \<in> set (paired_ranges p old)" "km_start k \<le> n" "n \<le> km_end k" for k n
    using plan_ranges_file(2) [OF ds(1), of p old n] d(1) old that by blast
  have "paired_ranges path (concat (kept 1 (\<lambda>n. \<not> covered (plan_ranges ds p) n) (split_lf old))) = []"
    by (rule removed_ranges_Nil [OF cov])
  ultimately show ?thesis by simp
qed

section \<open>What the parser makes of the deletion patch\<close>

definition del_lines :: "pystr \<Rightarrow> patch_line list" where
  "del_lines l =
     (if ends_with [10] l then [\<lparr>pl_kind = PL_DELETION, pl_content = butlast l\<rparr>]
      else [\<lparr>pl_kind = PL_DELETION, pl_content = l\<rparr>, \<lparr>pl_kind = PL_NO_NEWLINE, pl_content = []\<rparr>])"

definition slice :: "nat \<Rightarrow> nat \<Rightarrow> 'a list \<Rightarrow> 'a list" where
  "slice s e ls = take (e - (s - 1)) (drop (s - 1) ls)"

definition del_hunk :: "pystr list \<Rightarrow> nat \<Rightarrow> nat \<times> nat \<Rightarrow> patch_hunk" where
  "del_hunk ls deleted r =
     (case r of (s, e) \<Rightarrow>
        \<lparr>ph_old_start = s, ph_old_count = e - s + 1, ph_new_start = s - deleted - 1, ph_new_count = 0,
         ph_lines = concat (map del_lines (slice s e ls))\<rparr>)"

fun del_hunks :: "pystr list \<Rightarrow> nat \<Rightarrow> (nat \<times> nat) list \<Rightarrow> patch_hunk list" where
  "del_hunks ls deleted [] = []"
| "del_hunks ls deleted ((s, e) # rs) = del_hunk ls deleted (s, e) # del_hunks ls (deleted + (e - s + 1)) rs"

definition hunk_raw :: "patch_hunk \<Rightarrow> pystr list" where
  "hunk_raw h = deletion_header (ph_old_start h) (ph_old_count h) (ph_new_start h) # map line_text (ph_lines h)"

lemma old_lines_del: "old_lines (concat (map del_lines ls)) = length ls"
  by (induction ls) (simp_all add: old_lines_def del_lines_def)

lemma del_lines_text: "concat (map line_text (del_lines l)) = deletion_line l"
  by (cases l rule: rev_cases) (auto simp: del_lines_def line_text_def deletion_line_def ends_with_last)

lemma del_hunks_text: "concat (concat (map hunk_raw (del_hunks ls deleted rs))) = deletion_hunks ls deleted rs"
proof (induction ls deleted rs rule: del_hunks.induct)
  case (2 ls deleted s e rs)
  have "concat (map line_text (concat (map del_lines xs))) = concat (map deletion_line xs)" for xs
    by (induction xs) (simp_all add: del_lines_text)
  with 2 show ?case by (simp add: hunk_raw_def del_hunk_def slice_def)
qed simp

lemma line_text_inj:
  "line_text l = line_text m \<Longrightarrow> (pl_kind l = PL_NO_NEWLINE \<longrightarrow> pl_content l = []) \<Longrightarrow>
     (pl_kind m = PL_NO_NEWLINE \<longrightarrow> pl_content m = []) \<Longrightarrow> l = m"
  by (cases l; cases m; cases "pl_kind l"; cases "pl_kind m") (auto simp: line_text_def no_newline_marker_def)

lemma lines_unique:
  assumes "map line_text ls @ rest' = map line_text es @ rest" "stops rest" "stops rest'" "list_all line_ok ls"
    "old_lines ls = old_lines es" "list_all (\<lambda>e. pl_kind e = PL_NO_NEWLINE \<longrightarrow> pl_content e = []) es"
    "list_all (\<lambda>e. pl_kind e \<in> {PL_DELETION, PL_NO_NEWLINE}) es"
  shows "ls = es \<and> rest' = rest"
  using assms
proof (induction ls arbitrary: es)
  case Nil
  show ?case
  proof (cases es)
    case (Cons e es')
    with Nil(1,3) have "ends_hunk (line_text e)" by (auto simp: stops_def)
    then have "pl_kind e = PL_DELETION" by (simp add: ends_hunk_line)
    with Nil(5) Cons have False by (simp add: old_lines_def)
    then show ?thesis ..
  qed (use Nil in simp)
next
  case (Cons l ls)
  show ?case
  proof (cases es)
    case Nil
    with Cons.prems(1,2) have "ends_hunk (line_text l)" by (cases rest) (auto simp: stops_def)
    with Cons.prems(4) show ?thesis by (simp add: ends_hunk_line line_ok_def)
  next
    case es: (Cons e es')
    have le: "l = e" using Cons.prems(1,4,6) es by (intro line_text_inj) (auto simp: line_ok_def)
    have "old_lines ls = old_lines es'"
      using Cons.prems(5) unfolding es le counts_Cons(1) [of e ls] counts_Cons(1) [of e es'] by simp
    with Cons le es show ?thesis by simp
  qed
qed

lemma deletion_header_read:
  assumes "parse_hunk_header header = Inr (a, b, c, d)" "header @ [10] = deletion_header s n m"
  shows "a = s \<and> b = n \<and> c = m \<and> d = 0"
proof -
  have "header = lit ''@@ -'' @ nat_text s @ count_text (Some (nat_text n)) @ lit '' +'' @ nat_text m @
      count_text (Some (nat_text 0)) @ lit '' @@''"
    using assms(2) by (simp add: deletion_header_def count_text_def lit_def)
  then have "hunk_header_groups header = Some (nat_text s, Some (nat_text n), nat_text m, Some (nat_text 0))"
    unfolding hunk_header_groups_iff by (simp add: opt_all_def del: nat_text_zero)
  moreover have "digits_value [48] = 0" using digits_value_text [of 0] by simp
  ultimately show ?thesis
    using assms(1) by (auto simp: parse_hunk_header_def hunk_coordinates_def int_of_digits_def int_of_count_def digits_value_text
      res_iffs split: sum.splits if_splits)
qed

lemma parse_del_hunk:
  assumes "parse_hunk is_new ends (deletion_header (ph_old_start d) (ph_old_count d) (ph_new_start d))
      (map line_text (ph_lines d) @ rest) = Inr (h, c, rest')"
    "d = del_hunk ls deleted (s, e)" "stops rest" "length (slice s e ls) = e - s + 1"
  shows "h = d \<and> rest' = rest"
proof -
  obtain header where h: "header @ [10] = deletion_header (ph_old_start d) (ph_old_count d) (ph_new_start d)"
    "map line_text (ph_lines d) @ rest = map line_text (ph_lines h) @ rest'" "header_says header h"
    "stops rest'" "hunk_ok is_new h"
    using assms(1) unfolding parse_hunk_iff hunk_text_def by auto
  have coords: "ph_old_start h = ph_old_start d" "ph_old_count h = ph_old_count d" "ph_new_start h = ph_new_start d" "ph_new_count h = 0"
    using deletion_header_read [OF _ h(1)] h(3) unfolding parse_hunk_header_iff [symmetric] by blast+
  have "list_all (\<lambda>e. pl_kind e = PL_NO_NEWLINE \<longrightarrow> pl_content e = []) (ph_lines d)"
    "list_all (\<lambda>e. pl_kind e \<in> {PL_DELETION, PL_NO_NEWLINE}) (ph_lines d)"
    by (auto simp: assms(2) del_hunk_def list_all_iff del_lines_def)
  moreover have "old_lines (ph_lines h) = old_lines (ph_lines d)"
    using h(5) coords(2) assms(2,4) by (simp add: hunk_ok_def del_hunk_def old_lines_del)
  ultimately have "ph_lines h = ph_lines d \<and> rest' = rest"
    using lines_unique [OF h(2) [symmetric] assms(3) h(4)] h(5) by (simp add: hunk_ok_def)
  moreover have "ph_new_count d = 0" by (simp add: assms(2) del_hunk_def)
  ultimately show ?thesis using coords by (cases h; cases d) auto
qed

definition inside :: "nat \<Rightarrow> (nat \<times> nat) list \<Rightarrow> bool" where
  "inside n rs \<longleftrightarrow> list_all (\<lambda>(s, e). 1 \<le> s \<and> s \<le> e \<and> e \<le> n) rs"

lemma slice_length: "1 \<le> s \<Longrightarrow> s \<le> e \<Longrightarrow> e \<le> length ls \<Longrightarrow> length (slice s e ls) = e - s + 1"
  by (simp add: slice_def)

lemma deletion_header_starts: "starts_with (lit ''@@ '') (deletion_header s n m)"
  by (simp add: deletion_header_def starts_with_def lit_def)

lemma del_hunks_stop: "stops rest \<Longrightarrow> stops (concat (map hunk_raw (del_hunks ls k rs)) @ rest)"
  by (cases rs) (auto simp: hunk_raw_def stops_def ends_hunk_def deletion_header_starts)

lemma file_del_hunks:
  "file_hunks policy b ends n (concat (map hunk_raw (del_hunks ls k rs)) @ rest) = Inr (hs, m, rest') \<Longrightarrow>
     inside (length ls) rs \<Longrightarrow> stops rest \<Longrightarrow> no_hunk rest \<Longrightarrow> hs = del_hunks ls k rs \<and> rest' = rest"
proof (induction ls k rs arbitrary: ends n hs rule: del_hunks.induct)
  case (1 ls k)
  then show ?case by (subst (asm) file_hunks.simps) (auto simp: no_hunk_def split: list.splits)
next
  case (2 ls k s e rs)
  let ?d = "del_hunk ls k (s, e)" and ?rest = "concat (map hunk_raw (del_hunks ls (k + (e - s + 1)) rs)) @ rest"
  have raws: "concat (map hunk_raw (del_hunks ls k ((s, e) # rs))) @ rest =
      deletion_header (ph_old_start ?d) (ph_old_count ?d) (ph_new_start ?d) # map line_text (ph_lines ?d) @ ?rest"
    by (simp add: hunk_raw_def)
  obtain h c rest1 hs' where p: "parse_hunk b ends (deletion_header (ph_old_start ?d) (ph_old_count ?d) (ph_new_start ?d))
      (map line_text (ph_lines ?d) @ ?rest) = Inr (h, c, rest1)"
    "file_hunks policy b (Some (ph_old_start h + ph_old_count h, ph_new_start h + ph_new_count h)) (n + c) rest1 = Inr (hs', m, rest')"
    "hs = h # hs'"
    using 2(2) unfolding raws
    by (subst (asm) file_hunks.simps) (auto simp: res_iffs deletion_header_starts)
  have "h = ?d \<and> rest1 = ?rest"
    using parse_del_hunk [OF p(1) refl del_hunks_stop [OF 2(4)]] 2(3) by (simp add: inside_def slice_length)
  with 2 p(2,3) show ?case by (simp add: inside_def)
qed

definition del_file :: "pystr \<times> pystr \<times> (nat \<times> nat) list \<Rightarrow> patch_file" where
  "del_file x = (case x of (path, t, rs) \<Rightarrow> \<lparr>pf_path = path, pf_new = False, pf_hunks = del_hunks (split_lf t) 0 rs\<rparr>)"

definition file_raw :: "patch_file \<Rightarrow> pystr list" where
  "file_raw f =
     (lit ''--- a/'' @ pf_path f @ [10]) # (lit ''+++ b/'' @ pf_path f @ [10]) # concat (map hunk_raw (pf_hunks f))"

lemma parse_files_step:
  assumes "parse_files ud policy allowed previous k n ((lit ''--- '' @ old @ [10]) # (lit ''+++ '' @ new @ [10]) # raws) = Inr (fs, m)"
  shows "\<exists>path b hunks n' rest' fs'. parse_file_headers ud old new = Inr (path, b) \<and>
    file_hunks policy b None n raws = Inr (hunks, n', rest') \<and>
    parse_files ud policy allowed (Some path) (Suc k) n' rest' = Inr (fs', m) \<and>
    fs = \<lparr>pf_path = path, pf_new = b, pf_hunks = hunks\<rparr> # fs'"
proof -
  have drops: "drop 4 (lit ''--- '' @ u) = u" "drop 4 (lit ''+++ '' @ u) = u" for u by (simp_all add: lit_def)
  have strips: "strip_lf (lit ''--- '' @ u @ [10]) = Inr (lit ''--- '' @ u)" "strip_lf (lit ''+++ '' @ u @ [10]) = Inr (lit ''+++ '' @ u)" for u
    by (simp_all add: strip_lf_Inr)
  show ?thesis using assms by (subst (asm) parse_files.simps) (auto simp: res_iffs strips drops simp del: drop_append)
qed

lemma parse_del_files:
  "parse_files ud policy allowed previous k n (concat (map (\<lambda>x. file_raw (del_file x)) xs)) = Inr (fs, m) \<Longrightarrow>
     list_all (\<lambda>(path, t, rs). inside (length (split_lf t)) rs) xs \<Longrightarrow> fs = map del_file xs"
proof (induction xs arbitrary: previous k n fs)
  case Nil
  then show ?case by (simp add: parse_files.simps)
next
  case (Cons x xs)
  obtain path t rs where x: "x = (path, t, rs)" by (cases x)
  let ?rest = "concat (map (\<lambda>x. file_raw (del_file x)) xs)"
  have rest: "stops ?rest" "no_hunk ?rest"
    by (cases xs; auto simp: stops_def no_hunk_def file_raw_def ends_hunk_def starts_with_def lit_def)+
  have old: "lit ''--- a/'' = [45, 45, 45, 32, 97, 47]" by (simp add: lit_def)
  have raws: "concat (map (\<lambda>x. file_raw (del_file x)) (x # xs)) =
      (lit ''--- '' @ (lit ''a/'' @ path) @ [10]) # (lit ''+++ '' @ (lit ''b/'' @ path) @ [10]) #
      concat (map hunk_raw (del_hunks (split_lf t) 0 rs)) @ ?rest"
    by (simp add: file_raw_def del_file_def x old lits)
  obtain path' b hunks n' rest' fs' where p: "parse_file_headers ud (lit ''a/'' @ path) (lit ''b/'' @ path) = Inr (path', b)"
    "file_hunks policy b None n (concat (map hunk_raw (del_hunks (split_lf t) 0 rs)) @ ?rest) = Inr (hunks, n', rest')"
    "parse_files ud policy allowed (Some path') (Suc k) n' rest' = Inr (fs', m)"
    "fs = \<lparr>pf_path = path', pf_new = b, pf_hunks = hunks\<rparr> # fs'"
    using parse_files_step [OF Cons.prems(1) [unfolded raws]] by blast
  have hd: "path' = path \<and> \<not> b"
    using p(1) unfolding file_headers_iff by (auto simp: lit_def split: if_splits)
  have hs: "hunks = del_hunks (split_lf t) 0 rs \<and> rest' = ?rest"
    using file_del_hunks [OF p(2) _ rest] Cons.prems(2) by (simp add: x)
  have "fs' = map del_file xs" using Cons.IH p(3) hs Cons.prems(2) by simp
  then show ?case using p(4) hd hs by (simp add: x del_file_def)
qed

end
