(* ===== verification/Repair_Redaction_Facts.thy ===== *)
theory Repair_Redaction_Facts
  imports Repair_Secrets Repair_Patch_Grammar
begin

text \<open>
  \<open>_redact_private_key_diff\<close> against a reader of diffs that knows nothing about secrets: it only follows
  file headers, hunk headers and line prefixes and says which old line of which file a line shows.
\<close>

section \<open>Where the lines of a diff come from\<close>

text \<open>
  A reader of a diff knows the path of the file, the number of the next old line and how many old and new
  lines the hunk still has. Each line then has the place of the old line it shows, if any.
\<close>

type_synonym diff_place = "pystr \<times> nat \<times> nat \<times> nat"

definition place_step :: "diff_place \<Rightarrow> pystr \<Rightarrow> (pystr \<times> nat) option \<times> diff_place" where
  "place_step st l =
     (case st of (path, n, i, j) \<Rightarrow>
        if l = marker_line then (None, st)
        else if i = 0 \<and> j = 0 then
          if starts_with (lit ''+++ '') l
          then (None, case decode_git_path (butlast (drop 4 l)) (lit ''b/'') of Inl _ \<Rightarrow> path | Inr p \<Rightarrow> p, n, 0, 0)
          else if starts_with (lit ''@@ '') l
          then (None, case canonical_hunk_coordinates l of Inl _ \<Rightarrow> st | Inr (a, b, c, d) \<Rightarrow> (path, a, b, d))
          else (None, st)
        else if starts_with [32] l then (Some (path, n), path, n + 1, i - 1, j - 1)
        else if starts_with [45] l then (Some (path, n), path, n + 1, i - 1, j)
        else (None, path, n, i, j - 1))"

fun places :: "diff_place \<Rightarrow> pystr list \<Rightarrow> (pystr \<times> nat) option list" where
  "places st [] = []"
| "places st (l # ls) = fst (place_step st l) # places (snd (place_step st l)) ls"

definition place_after :: "diff_place \<Rightarrow> pystr list \<Rightarrow> diff_place" where
  "place_after st ls = foldl (\<lambda>st l. snd (place_step st l)) st ls"

lemma places_append: "places st (xs @ ys) = places st xs @ places (place_after st xs) ys"
  by (induction xs arbitrary: st) (simp_all add: place_after_def)

lemma length_places [simp]: "length (places st ls) = length ls"
  by (induction ls arbitrary: st) simp_all

lemma place_after_simps [simp]:
  "place_after st [] = st" "place_after st (l # ls) = place_after (snd (place_step st l)) ls"
  by (simp_all add: place_after_def)

definition sentinel_line :: pystr where
  "sentinel_line = 45 # redaction_sentinel @ [10]"

definition mask_line :: "(pystr \<times> nat) set \<Rightarrow> (pystr \<times> nat) option \<Rightarrow> pystr \<Rightarrow> pystr" where
  "mask_line hidden place l = (case place of Some k \<Rightarrow> if k \<in> hidden then sentinel_line else l | None \<Rightarrow> l)"

definition hides :: "(pystr \<times> nat) set \<Rightarrow> (pystr \<times> nat) option \<Rightarrow> bool" where
  "hides hidden place \<longleftrightarrow> (case place of Some k \<Rightarrow> k \<in> hidden | None \<Rightarrow> False)"

text \<open>What a piece of the redaction does with the lines it takes.\<close>

definition redacts ::
  "(pystr \<times> nat) set \<Rightarrow> diff_place \<Rightarrow> pystr list \<Rightarrow> pystr list \<Rightarrow> (pystr \<times> nat) set \<Rightarrow> diff_place \<Rightarrow> bool" where
  "redacts hidden st ls out seen st' \<longleftrightarrow>
     st' = place_after st ls \<and> out = map2 (mask_line hidden) (places st ls) ls \<and>
     seen = hidden \<inter> {k. Some k \<in> set (places st ls)} \<and>
     list_all2 (\<lambda>p l. hides hidden p \<longrightarrow> starts_with [45] l) (places st ls) ls"

lemma redacts_Nil [simp]: "redacts hidden st [] [] {} st"
  by (simp add: redacts_def)

lemma redacts_append:
  "redacts hidden st xs out seen st' \<Longrightarrow> redacts hidden st' ys out' seen' st'' \<Longrightarrow>
     redacts hidden st (xs @ ys) (out @ out') (seen \<union> seen') st''"
  by (auto simp: redacts_def places_append place_after_def intro: list_all2_appendI)

lemma redacts_single:
  "fst (place_step st l) = None \<Longrightarrow> redacts hidden st [l] [l] {} (snd (place_step st l))"
  by (simp add: redacts_def mask_line_def hides_def)

lemma shown_iff [simp]: "n \<in> shown hidden path \<longleftrightarrow> (path, n) \<in> hidden"
  by (force simp: shown_def)

lemma marker_not: "starts_with [c] marker_line \<longleftrightarrow> c = 92"
  by (simp add: marker_line_def no_newline_marker_def starts_with_def eq_commute)

lemma redact_line_redacts:
  assumes "redact_line (shown hidden path) n raw = Inr (rendered, di, dj, seen)" "di \<le> i" "dj \<le> j" "i \<noteq> 0 \<or> j \<noteq> 0"
  shows "redacts hidden (path, n, i, j) [raw] [rendered] (Pair path ` set seen) (path, n + di, i - di, j - dj)"
proof -
  obtain c cs where raw: "raw = c # cs" using assms(1) by (cases raw) (auto simp: redact_line_def)
  have "raw \<noteq> marker_line" "c = 32 \<or> c = 43 \<or> c = 45" using assms(1) raw by (auto simp: redact_line_def split: if_splits)
  then show ?thesis
    using assms
    by (auto simp: raw redact_line_def redacts_def place_step_def mask_line_def hides_def sentinel_line_def starts_with_def
      split: if_splits)
qed

lemma take_marker_redacts:
  "redacts hidden st (fst (take_marker rest)) (fst (take_marker rest)) {} st"
proof -
  have "place_step st marker_line = (None, st)" by (simp add: place_step_def split: prod.split)
  then show ?thesis using redacts_single [of st marker_line hidden] by (simp add: take_marker_def split: list.split)
qed

lemma redact_hunk_redacts:
  "redact_hunk (shown hidden path) n i j ls = Inr (out, seen, rest) \<Longrightarrow>
     \<exists>pre n'. ls = pre @ rest \<and> redacts hidden (path, n, i, j) pre out (Pair path ` set seen) (path, n', 0, 0)"
proof (induction "shown hidden path" n i j ls arbitrary: out seen rule: redact_hunk.induct)
  case (1 n i j ls)
  show ?case
  proof (cases "i = 0 \<and> j = 0")
    case True
    with 1(2) show ?thesis by (auto simp: redact_hunk.simps intro!: exI [of _ n])
  next
    case False
    with 1(2) obtain raw rest1 where ls: "ls = raw # rest1"
      by (subst (asm) redact_hunk.simps) (auto split: list.splits)
    let ?m = "fst (take_marker rest1)" and ?r = "snd (take_marker rest1)"
    from 1(2) False ls obtain ren di dj seen1 out2 seen2 where l: "redact_line (shown hidden path) n raw = Inr (ren, di, dj, seen1)"
      "di \<le> i \<and> dj \<le> j" "redact_hunk (shown hidden path) (n + di) (i - di) (j - dj) ?r = Inr (out2, seen2, rest)"
      "out = [ren] @ ?m @ out2" "seen = seen1 @ seen2"
      by (subst (asm) redact_hunk.simps) (auto simp: res_iffs)
    obtain pre n' where p: "?r = pre @ rest" "redacts hidden (path, n + di, i - di, j - dj) pre out2 (Pair path ` set seen2) (path, n', 0, 0)"
      using 1(1) [OF False ls l(1) refl refl refl _ l(3)] l(2) by auto
    have "redacts hidden (path, n, i, j) ([raw] @ ?m @ pre) out (Pair path ` set seen1 \<union> ({} \<union> Pair path ` set seen2)) (path, n', 0, 0)"
      unfolding l(4)
      using redact_line_redacts [OF l(1)] l(2) False p(2) take_marker_redacts
      by (intro redacts_append) auto
    moreover have "ls = ([raw] @ ?m @ pre) @ rest" using p(1) take_marker_append [of rest1] ls by (metis append.assoc append_Cons append_Nil)
    ultimately show ?thesis unfolding l(5) by (intro exI [of _ "[raw] @ ?m @ pre"] exI [of _ n']) (auto simp: image_Un)
  qed
qed

text \<open>Hunk headers and file headers are copied; the reader follows them.\<close>

lemma hunk_header_redacts:
  assumes "starts_with (lit ''@@ '') header" "canonical_hunk_coordinates header = Inr (a, b, c, d)"
  shows "redacts hidden (path, n, 0, 0) [header] [header] {} (path, a, b, d)"
proof -
  have "header \<noteq> marker_line" "\<not> starts_with (lit ''+++ '') header"
    using assms(1) by (auto simp: starts_with_def lit_def marker_line_def no_newline_marker_def) (cases header; simp)
  then have "place_step (path, n, 0, 0) header = (None, path, a, b, d)"
    using assms by (simp add: place_step_def)
  then show ?thesis using redacts_single [of "(path, n, 0, 0)" header hidden] by simp
qed

lemma redact_hunks_redacts:
  "redact_hunks (shown hidden path) ls = Inr (out, seen, rest) \<Longrightarrow>
     \<exists>pre n'. ls = pre @ rest \<and> redacts hidden (path, n, 0, 0) pre out (Pair path ` set seen) (path, n', 0, 0)"
proof (induction "shown hidden path" ls arbitrary: out seen n rule: redact_hunks.induct)
  case (1 ls)
  show ?case
  proof (cases "ls \<noteq> [] \<and> starts_with (lit ''@@ '') (hd ls)")
    case False
    with 1(2) show ?thesis by (subst (asm) redact_hunks.simps) (auto split: list.splits intro!: exI [of _ n])
  next
    case True
    then obtain header rest1 where ls: "ls = header # rest1" "starts_with (lit ''@@ '') header" by (cases ls) auto
    from 1(2) ls obtain a b c d out1 seen1 rest2 out2 seen2 where l: "canonical_hunk_coordinates header = Inr (a, b, c, d)"
      "redact_hunk (shown hidden path) a b d rest1 = Inr (out1, seen1, rest2)"
      "redact_hunks (shown hidden path) rest2 = Inr (out2, seen2, rest)" "out = [header] @ out1 @ out2" "seen = seen1 @ seen2"
      by (subst (asm) redact_hunks.simps) (auto simp: res_iffs)
    obtain pre1 n1 where p1: "rest1 = pre1 @ rest2" "redacts hidden (path, a, b, d) pre1 out1 (Pair path ` set seen1) (path, n1, 0, 0)"
      using redact_hunk_redacts [OF l(2)] by blast
    obtain pre2 n2 where p2: "rest2 = pre2 @ rest" "redacts hidden (path, n1, 0, 0) pre2 out2 (Pair path ` set seen2) (path, n2, 0, 0)"
      using 1(1) [OF ls(1) _ l(1) refl refl refl l(2) refl refl l(3)] ls(2) by blast
    have "redacts hidden (path, n, 0, 0) ([header] @ pre1 @ pre2) out ({} \<union> (Pair path ` set seen1 \<union> Pair path ` set seen2)) (path, n2, 0, 0)"
      unfolding l(4) using hunk_header_redacts [OF ls(2) l(1)] p1(2) p2(2) by (intro redacts_append) auto
    then show ?thesis using ls(1) p1(1) p2(1) unfolding l(5)
      by (intro exI [of _ "[header] @ pre1 @ pre2"] exI [of _ n2]) (simp add: image_Un)
  qed
qed

lemma place_step_plain:
  "\<not> starts_with (lit ''+++ '') l \<Longrightarrow> \<not> starts_with (lit ''@@ '') l \<Longrightarrow>
     place_step (p, n, 0, 0) l = (None, p, n, 0, 0)"
  by (simp add: place_step_def)

lemma plain_redacts:
  "list_all (\<lambda>l. \<not> starts_with (lit ''+++ '') l \<and> \<not> starts_with (lit ''@@ '') l) ls \<Longrightarrow>
     redacts hidden (p, n, 0, 0) ls ls {} (p, n, 0, 0)"
proof (induction ls)
  case (Cons l ls)
  then have "redacts hidden (p, n, 0, 0) ([l] @ ls) ([l] @ ls) ({} \<union> {}) (p, n, 0, 0)"
    using redacts_single [of "(p, n, 0, 0)" l hidden]
    by (intro redacts_append [where st' = "(p, n, 0, 0)"]) (auto simp: place_step_plain)
  then show ?case by simp
qed simp

lemma file_path_places:
  assumes "canonical_file_path ud old new = Inr path"
  shows "redacts hidden (p, n, 0, 0) [old, new] [old, new] {} (path, n, 0, 0)"
proof -
  have heads: "starts_with (lit ''--- '') old" "starts_with (lit ''+++ '') new"
    and path: "decode_git_path (butlast (drop 4 new)) (lit ''b/'') = Inr path"
    using assms by (auto simp: canonical_file_path_def Let_def res_iffs handled_Inr validate_repository_path_Inr)
  have "new \<noteq> marker_line"
    using heads(2) by (auto simp: starts_with_def lit_def marker_line_def no_newline_marker_def)
  with heads(2) path have "place_step (p, n, 0, 0) new = (None, path, n, 0, 0)" by (simp add: place_step_def)
  then have "redacts hidden (p, n, 0, 0) [new] [new] {} (path, n, 0, 0)"
    using redacts_single [of "(p, n, 0, 0)" new hidden] by simp
  moreover have "list_all (\<lambda>l. \<not> starts_with (lit ''+++ '') l \<and> \<not> starts_with (lit ''@@ '') l) [old]"
    using heads(1) by (cases old) (auto simp: starts_with_def lit_def)
  then have "redacts hidden (p, n, 0, 0) [old] [old] {} (p, n, 0, 0)" by (rule plain_redacts)
  ultimately show ?thesis using redacts_append by fastforce
qed

lemma diff_headers_redacts:
  assumes "diff_headers ud ls = Inr (path, copied, rest)"
  shows "redacts hidden (p, n, 0, 0) copied copied {} (path, n, 0, 0)"
proof -
  obtain c r where h: "diff_start ls = Inr (c, r)" "index_header_ok (hd r)" "3 \<le> length r"
    "canonical_file_path ud (r ! 1) (r ! 2) = Inr path" "copied = c @ take 3 r"
    using assms by (auto simp: diff_headers_def res_iffs Let_def split: if_splits)
  then obtain i old new r' where r: "r = i # old # new # r'" by (auto simp: numeral_eq_Suc Suc_le_length_iff)
  have no: "\<not> starts_with (lit ''+++ '') l \<and> \<not> starts_with (lit ''@@ '') l"
    if "starts_with (lit ''diff --git '') l \<or> starts_with (lit ''new file mode '') l \<or> starts_with (lit ''index '') l" for l
    using that by (cases l) (auto simp: starts_with_def lit_def)
  have "starts_with (lit ''index '') i" using h(2) r by (auto simp: index_header_ok_def take_text_def split: if_splits)
  moreover have "list_all (\<lambda>l. starts_with (lit ''diff --git '') l \<or> starts_with (lit ''new file mode '') l) c"
    using h(1) by (cases ls) (auto simp: diff_start_def res_iffs split: if_splits)
  ultimately have "list_all (\<lambda>l. \<not> starts_with (lit ''+++ '') l \<and> \<not> starts_with (lit ''@@ '') l) (c @ [i])"
    using no by (auto simp: list_all_iff)
  then have "redacts hidden (p, n, 0, 0) ((c @ [i]) @ [old, new]) ((c @ [i]) @ [old, new]) ({} \<union> {}) (path, n, 0, 0)"
    using file_path_places [of ud old new path] h(4) r
    by (intro redacts_append [where st' = "(p, n, 0, 0)"] plain_redacts) (auto simp: numeral_eq_Suc)
  then show ?thesis by (simp add: h(5) r)
qed

lemma redact_files_redacts:
  "redact_files ud hidden previous ls = Inr (out, seen) \<Longrightarrow>
     \<exists>st. redacts hidden (p, n, 0, 0) ls out (set seen) st"
proof (induction ud hidden previous ls arbitrary: out seen p n rule: redact_files.induct)
  case (1 ud hidden previous ls)
  show ?case
  proof (cases "ls = []")
    case True
    with 1(2) have "out = []" "seen = []" by (simp_all add: redact_files.simps)
    with True have "redacts hidden (p, n, 0, 0) ls out (set seen) (p, n, 0, 0)" by simp
    then show ?thesis by blast
  next
    case False
    with 1(2) obtain path copied rest out1 seen1 rest1 out2 seen2 where l:
      "diff_headers ud ls = Inr (path, copied, rest)"
      "require (case previous of None \<Rightarrow> True | Some p \<Rightarrow> utf8_bytes p < utf8_bytes path) patch_invalid = Inr ()"
      "redact_hunks (shown hidden path) rest = Inr (out1, seen1, rest1)"
      "require (rest \<noteq> [] \<and> starts_with (lit ''@@ '') (hd rest)) patch_invalid = Inr ()"
      "require (rest1 = [] \<or> starts_with (lit ''diff --git '') (hd rest1)) patch_invalid = Inr ()"
      "redact_files ud hidden (Some path) rest1 = Inr (out2, seen2)"
      "out = copied @ out1 @ out2" "seen = map (Pair path) seen1 @ seen2"
      by (subst (asm) redact_files.simps) (auto simp: res_iffs)
    obtain pre n1 where pre: "rest = pre @ rest1" "redacts hidden (path, n, 0, 0) pre out1 (Pair path ` set seen1) (path, n1, 0, 0)"
      using redact_hunks_redacts [OF l(3)] by blast
    obtain st where st: "redacts hidden (path, n1, 0, 0) rest1 out2 (set seen2) st"
      using 1(1) [OF False l(1) refl refl l(2) l(3) refl refl l(4,5,6)] by blast
    have "redacts hidden (p, n, 0, 0) (copied @ pre @ rest1) out ({} \<union> (Pair path ` set seen1 \<union> set seen2)) st"
      unfolding l(7) using diff_headers_redacts [OF l(1)] pre(2) st by (intro redacts_append) auto
    then show ?thesis using diff_headers_append [OF l(1)] pre(1) l(8) by (intro exI [of _ st]) auto
  qed
qed

definition all_protected :: "protected_range list \<Rightarrow> (pystr \<times> nat) set" where
  "all_protected rs = (\<Union>r \<in> set rs. Pair (pr_path r) ` {pr_start r..pr_end r})"

lemma range_steps: "fold_res (range_step ud) st rs = Inr st' \<Longrightarrow> snd st' = snd st \<union> all_protected rs"
proof (induction rs arbitrary: st)
  case (Cons r rs)
  then obtain st1 where st: "range_step ud st r = Inr st1" "fold_res (range_step ud) st1 rs = Inr st'" by (auto simp: res_iffs)
  have "snd st1 = snd st \<union> Pair (pr_path r) ` {pr_start r..pr_end r}"
    using st(1) by (auto simp: range_step_def res_iffs Let_def split: prod.splits)
  with Cons.IH [OF st(2)] show ?case by (auto simp: all_protected_def)
qed (simp add: all_protected_def)

lemma protected_line_map_Inr: "protected_line_map ud rs = Inr hidden \<Longrightarrow> hidden = all_protected rs"
  using range_steps [of ud "(None, {})" rs] by (auto simp: protected_line_map_def res_iffs)

definition lf_line :: "pystr \<Rightarrow> bool" where
  "lf_line l \<longleftrightarrow> (\<exists>s. l = s @ [10] \<and> 10 \<notin> set s)"

lemma split_lf_concat: "list_all lf_line ls \<Longrightarrow> split_lf (concat ls) = ls"
  by (induction ls) (auto simp: lf_line_def split_lf_line)

lemma canonical_diff_lines_Inr: "canonical_diff_lines s = Inr ls \<Longrightarrow> ls = split_lf s \<and> list_all lf_line ls"
proof -
  assume "canonical_diff_lines s = Inr ls"
  then have ls: "ls = split_lf s" "list_all (ends_with [10]) ls" by (auto simp: canonical_diff_lines_def res_iffs)
  have "lf_line l" if "l \<in> set ls" for l
  proof -
    have "ends_with [10] l" using ls(2) that by (simp add: list_all_iff)
    then have "l = butlast l @ [10]" by (cases l rule: rev_cases) (simp_all add: ends_with_def)
    moreover have "10 \<notin> set (butlast l)" using split_lf_parts that ls(1) by blast
    ultimately show ?thesis unfolding lf_line_def by blast
  qed
  with ls show ?thesis by (simp add: list_all_iff)
qed

lemma sentinel_line_lf: "lf_line sentinel_line"
  by (auto simp: lf_line_def sentinel_line_def redaction_sentinel_def lit_def)

lemma mask_lines_lf: "list_all lf_line ls \<Longrightarrow> length ps = length ls \<Longrightarrow> list_all lf_line (map2 (mask_line hidden) ps ls)"
  by (induction ps ls rule: list_induct2') (auto simp: mask_line_def sentinel_line_lf split: option.split)

lemma redact_private_key_diff_masks:
  assumes "redact_private_key_diff ud rs diff = Inr out"
  shows "split_lf out = map2 (mask_line (all_protected rs)) (places ([], 0, 0, 0) (split_lf diff)) (split_lf diff)"
    and "all_protected rs \<subseteq> {k. Some k \<in> set (places ([], 0, 0, 0) (split_lf diff))}"
    and "list_all2 (\<lambda>p l. hides (all_protected rs) p \<longrightarrow> starts_with [45] l) (places ([], 0, 0, 0) (split_lf diff)) (split_lf diff)"
proof -
  obtain hidden lines outs seen where r: "protected_line_map ud rs = Inr hidden" "canonical_diff_lines diff = Inr lines"
    "redact_files ud hidden None lines = Inr (outs, seen)" "set seen = hidden" "out = concat outs"
    using assms by (auto simp: redact_private_key_diff_def res_iffs)
  note h = protected_line_map_Inr [OF r(1)] and ls = canonical_diff_lines_Inr [OF r(2)]
  obtain st where "redacts hidden ([], 0, 0, 0) lines outs (set seen) st"
    using redact_files_redacts [OF r(3)] by blast
  then have m: "outs = map2 (mask_line hidden) (places ([], 0, 0, 0) lines) lines"
    "set seen = hidden \<inter> {k. Some k \<in> set (places ([], 0, 0, 0) lines)}"
    "list_all2 (\<lambda>p l. hides hidden p \<longrightarrow> starts_with [45] l) (places ([], 0, 0, 0) lines) lines"
    by (simp_all add: redacts_def)
  have "split_lf out = outs" unfolding r(5) m(1) using ls by (intro split_lf_concat mask_lines_lf) auto
  then show "split_lf out = map2 (mask_line (all_protected rs)) (places ([], 0, 0, 0) (split_lf diff)) (split_lf diff)"
    using m(1) ls h by simp
  show "all_protected rs \<subseteq> {k. Some k \<in> set (places ([], 0, 0, 0) (split_lf diff))}"
    using m(2) r(4) ls h by auto
  show "list_all2 (\<lambda>p l. hides (all_protected rs) p \<longrightarrow> starts_with [45] l) (places ([], 0, 0, 0) (split_lf diff)) (split_lf diff)"
    using m(3) ls h by simp
qed

section \<open>Property\<close>

text \<open>
  C7. The redacted preview is the diff with every line that shows a protected line of the old file replaced
  by the sentinel, and nothing else changed. Every such line is a deletion, and every line of every
  protected range is shown by the diff; otherwise the redaction fails.
\<close>

theorem redaction_is_exact:
  assumes "redact_private_key_diff ud rs diff = Inr out"
  shows "split_lf out =
      map2 (mask_line (all_protected rs)) (places ([], 0, 0, 0) (split_lf diff)) (split_lf diff) \<and>
    all_protected rs \<subseteq> {k. Some k \<in> set (places ([], 0, 0, 0) (split_lf diff))} \<and>
    list_all2 (\<lambda>p l. hides (all_protected rs) p \<longrightarrow> starts_with [45] l)
      (places ([], 0, 0, 0) (split_lf diff)) (split_lf diff)"
  using redact_private_key_diff_masks [OF assms] by blast

definition demo_ud :: unicode_db where
  "demo_ud = \<lparr>ud_control = (\<lambda>c. c < 32), ud_casefold = (\<lambda>s. s)\<rparr>"

definition demo_diff :: pystr where
  "demo_diff = lit ''diff --git a/k b/k'' @ 10 # lit ''index '' @ replicate 40 97 @ lit ''..'' @ replicate 40 98 @ 10 #
     lit ''--- a/k'' @ 10 # lit ''+++ b/k'' @ 10 # lit ''@@ -1,2 +1 @@'' @ 10 # lit '' a'' @ 10 # lit ''-x'' @ [10]"

definition demo_ranges :: "protected_range list" where
  "demo_ranges = [\<lparr>pr_path = lit ''k'', pr_start = 2, pr_end = 2\<rparr>]"

lemma demo_map: "protected_line_map demo_ud demo_ranges = Inr {(lit ''k'', 2)}"
proof -
  have "repository_path_ok demo_ud (lit ''k'')" by code_simp
  then show ?thesis
    by (simp add: protected_line_map_def demo_ranges_def range_step_def validate_repository_path_Inr Let_def)
qed

lemma demo_coordinates: "canonical_hunk_coordinates (lit ''@@ -1,2 +1 @@'' @ [10]) = Inr (1, 2, 1, 1)"
proof -
  have "hunk_header_groups (lit ''@@ -1,2 +1 @@'') = Some ([49], Some [50], [49], None)" by code_simp
  moreover have "ends_with [10] (lit ''@@ -1,2 +1 @@'' @ [10])" by (rule ends_with_append)
  ultimately show ?thesis
    by (simp add: canonical_hunk_coordinates_def hunk_coordinates_def int_of_digits_def int_of_count_def digits_value_def)
qed

lemma demo_lines: "canonical_diff_lines demo_diff = Inr (split_lf demo_diff)"
  by code_simp

lemma demo_headers: "diff_headers demo_ud (split_lf demo_diff) = Inr (lit ''k'', take 4 (split_lf demo_diff), drop 4 (split_lf demo_diff))"
  by code_simp

lemma demo_hunk: "redact_hunk {2} 1 2 1 [lit '' a'' @ [10], lit ''-x'' @ [10]] = Inr ([lit '' a'' @ [10], sentinel_line], [2], [])"
  by code_simp

lemma demo_split: "drop 4 (split_lf demo_diff) = [lit ''@@ -1,2 +1 @@'' @ [10], lit '' a'' @ [10], lit ''-x'' @ [10]]"
  by code_simp

lemma demo_redacted: "redact_private_key_diff demo_ud demo_ranges demo_diff =
    Inr (concat (take 6 (split_lf demo_diff)) @ sentinel_line)"
proof -
  let ?ls = "split_lf demo_diff" and ?h = "lit ''@@ -1,2 +1 @@'' @ [10]"
  have start: "starts_with (lit ''@@ '') ?h" by (simp add: starts_with_def lit_def)
  have shown: "shown {(lit ''k'', 2)} (lit ''k'') = {2}" by (auto simp: shown_def)
  have "redact_hunks {2} [] = Inr ([], [], [])" by (simp add: redact_hunks.simps)
  then have hunks: "redact_hunks {2} (drop 4 ?ls) = Inr ([?h, lit '' a'' @ [10], sentinel_line], [2], [])"
    unfolding demo_split by (subst redact_hunks.simps) (simp add: start demo_coordinates demo_hunk [unfolded One_nat_def])
  have "redact_files demo_ud {(lit ''k'', 2)} (Some (lit ''k'')) [] = Inr ([], [])" by (simp add: redact_files.simps)
  moreover have "drop 4 ?ls \<noteq> [] \<and> starts_with (lit ''@@ '') (hd (drop 4 ?ls))" unfolding demo_split using start by simp
  moreover have "?ls \<noteq> []" by (simp add: demo_diff_def)
  ultimately have "redact_files demo_ud {(lit ''k'', 2)} None ?ls =
      Inr (take 4 ?ls @ [?h, lit '' a'' @ [10], sentinel_line], [(lit ''k'', 2)])"
    by (subst redact_files.simps) (simp add: demo_headers hunks shown)
  moreover have "take 6 ?ls = take 4 ?ls @ take 2 (drop 4 ?ls)" by (simp add: take_add [symmetric])
  ultimately show ?thesis
    by (simp add: redact_private_key_diff_def demo_map demo_lines demo_split)
qed

theorem redaction_is_exact_witness:
  "split_lf (concat (take 6 (split_lf demo_diff)) @ sentinel_line) =
     map2 (mask_line {(lit ''k'', 2)}) (places ([], 0, 0, 0) (split_lf demo_diff)) (split_lf demo_diff)"
proof -
  have "all_protected demo_ranges = {(lit ''k'', 2)}" using protected_line_map_Inr [OF demo_map] by simp
  then show ?thesis using redaction_is_exact [OF demo_redacted] by simp
qed

end
