(* ===== verification/Git_Process.thy ===== *)
theory Git_Process
  imports Evidence
begin

text \<open>
  The bounded runner of \<open>src/src/repoguard/_git.py\<close>: two reader threads drain the output pipes of a
  process, the caller polls them, and a shared deadline ends the wait. A run is the sequence of the steps
  of the process, of the readers and of the caller, in the order in which they happen; every check of the
  caller's loop is a step of its own, since the readers do not wait for it.
\<close>

datatype collect_error = CollectError evidence_error_code | CollectValueError

abbreviation malformed :: collect_error where
  "malformed \<equiv> CollectError MALFORMED_GIT_OUTPUT"

abbreviation over_limit :: collect_error where
  "over_limit \<equiv> CollectError evidence_error_code.RESOURCE_LIMIT"

abbreviation command_failed :: collect_error where
  "command_failed \<equiv> CollectError GIT_COMMAND_FAILED"

datatype output_stream = STDOUT | STDERR

text \<open>
  The process writes, closes a stream and exits; a reader gets at most so many bytes, or an error; the
  caller makes its next check, at this time.
\<close>

datatype process_step =
    Emit output_stream bytes | Close output_stream | Exit int
  | Read output_stream nat | ReadError output_stream | Poll rat

section \<open>The readers\<close>

record drain_state =
  dr_output :: bytes
  dr_total :: nat
  dr_overflowed :: bool
  dr_error :: bool

text \<open>A pipe: its bytes that are not read yet, whether its writers have closed it, and its reader.\<close>

record pipe =
  pi_pending :: bytes
  pi_closed :: bool
  pi_drain :: drain_state
  pi_done :: bool

definition read_chunk_bytes :: nat where
  "read_chunk_bytes = 64 * 1024"

text \<open>One iteration of the reader when the stop event is not set; the result says whether to set it.\<close>

definition drain_chunk :: "nat \<Rightarrow> bytes \<Rightarrow> drain_state \<Rightarrow> drain_state" where
  "drain_chunk limit chunk d =
     (let remaining = limit - dr_total d; new_total = dr_total d + length chunk in
      d\<lparr>dr_total := new_total, dr_output := dr_output d @ take (min (length chunk) remaining) chunk,
        dr_overflowed := dr_overflowed d \<or> limit < new_total\<rparr>)"

definition drain_read :: "nat \<Rightarrow> nat \<Rightarrow> pipe \<Rightarrow> pipe \<times> bool" where
  "drain_read limit k p =
     (if pi_pending p = [] then (p\<lparr>pi_done := pi_closed p\<rparr>, False)
      else
        let n = min (max 1 k) (min read_chunk_bytes (limit - dr_total (pi_drain p) + 1));
          d = drain_chunk limit (take n (pi_pending p)) (pi_drain p) in
        (p\<lparr>pi_pending := drop n (pi_pending p), pi_drain := d, pi_done := dr_overflowed d\<rparr>,
         dr_overflowed d))"

text \<open>A reader that finds the stop event set ends; one that has ended takes no more steps.\<close>

definition drain_bounded_stream :: "nat \<Rightarrow> bool \<Rightarrow> nat \<Rightarrow> pipe \<Rightarrow> pipe \<times> bool" where
  "drain_bounded_stream limit stop k p =
     (if pi_done p then (p, stop)
      else if stop then (p\<lparr>pi_done := True\<rparr>, stop)
      else drain_read limit k p)"

definition drain_failure :: "bool \<Rightarrow> pipe \<Rightarrow> pipe \<times> bool" where
  "drain_failure stop p =
     (if pi_done p then (p, stop)
      else if stop then (p\<lparr>pi_done := True\<rparr>, stop)
      else (p\<lparr>pi_drain := (pi_drain p)\<lparr>dr_error := True\<rparr>, pi_done := True\<rparr>, True))"

section \<open>A run\<close>

record process_run =
  pr_pipe :: "output_stream \<Rightarrow> pipe"
  pr_stop :: bool
  pr_code :: "int option"

definition new_pipe :: pipe where
  "new_pipe = \<lparr>pi_pending = [], pi_closed = False,
     pi_drain = \<lparr>dr_output = [], dr_total = 0, dr_overflowed = False, dr_error = False\<rparr>, pi_done = False\<rparr>"

definition new_run :: process_run where
  "new_run = \<lparr>pr_pipe = \<lambda>_. new_pipe, pr_stop = False, pr_code = None\<rparr>"

definition with_pipe :: "output_stream \<Rightarrow> pipe \<times> bool \<Rightarrow> process_run \<Rightarrow> process_run" where
  "with_pipe s r st = st\<lparr>pr_pipe := (pr_pipe st)(s := fst r), pr_stop := snd r\<rparr>"

fun run_step :: "(output_stream \<Rightarrow> nat) \<Rightarrow> process_step \<Rightarrow> process_run \<Rightarrow> process_run" where
  "run_step limit (Emit s b) st =
     (let p = pr_pipe st s in
      if pi_closed p then st else with_pipe s (p\<lparr>pi_pending := pi_pending p @ b\<rparr>, pr_stop st) st)"
| "run_step limit (Close s) st = with_pipe s ((pr_pipe st s)\<lparr>pi_closed := True\<rparr>, pr_stop st) st"
| "run_step limit (Exit c) st = (if pr_code st = None then st\<lparr>pr_code := Some c\<rparr> else st)"
| "run_step limit (Read s k) st = with_pipe s (drain_bounded_stream (limit s) (pr_stop st) k (pr_pipe st s)) st"
| "run_step limit (ReadError s) st = with_pipe s (drain_failure (pr_stop st) (pr_pipe st s)) st"
| "run_step limit (Poll t) st = st"

definition stream_drain :: "process_run \<Rightarrow> output_stream \<Rightarrow> drain_state" where
  "stream_drain st s = pi_drain (pr_pipe st s)"

text \<open>Where the caller is in its loop: the check it makes next.\<close>

datatype wait_check =
    STDOUT_OVERFLOW | STDERR_OVERFLOW | STDOUT_ERROR | STDERR_ERROR | DEADLINE_PASSED
  | PROCESS_EXITED | STDOUT_READER | STDERR_READER

datatype wait_next = Failed evidence_error_code | Finished | Check wait_check

fun next_check :: "evidence_error_code \<Rightarrow> bool \<Rightarrow> process_run \<Rightarrow> wait_check \<Rightarrow> wait_next" where
  "next_check code expired st STDOUT_OVERFLOW =
     (if dr_overflowed (stream_drain st STDOUT) then Failed code else Check STDERR_OVERFLOW)"
| "next_check code expired st STDERR_OVERFLOW =
     (if dr_overflowed (stream_drain st STDERR) then Failed evidence_error_code.RESOURCE_LIMIT else Check STDOUT_ERROR)"
| "next_check code expired st STDOUT_ERROR =
     (if dr_error (stream_drain st STDOUT) then Failed GIT_COMMAND_FAILED else Check STDERR_ERROR)"
| "next_check code expired st STDERR_ERROR =
     (if dr_error (stream_drain st STDERR) then Failed GIT_COMMAND_FAILED else Check DEADLINE_PASSED)"
| "next_check code expired st DEADLINE_PASSED = (if expired then Failed GIT_TIMEOUT else Check PROCESS_EXITED)"
| "next_check code expired st PROCESS_EXITED =
     (if pr_code st \<noteq> None then Check STDOUT_READER else Check STDOUT_OVERFLOW)"
| "next_check code expired st STDOUT_READER =
     (if pi_done (pr_pipe st STDOUT) then Check STDERR_READER else Check STDOUT_OVERFLOW)"
| "next_check code expired st STDERR_READER =
     (if pi_done (pr_pipe st STDERR) then Finished else Check STDOUT_OVERFLOW)"

text \<open>The wait; steps that run out are followed by the timeout.\<close>

fun wait_process ::
  "(output_stream \<Rightarrow> nat) \<Rightarrow> evidence_error_code \<Rightarrow> rat \<Rightarrow> process_step list \<Rightarrow> wait_check \<Rightarrow> process_run \<Rightarrow>
   evidence_error_code option \<times> process_run" where
  "wait_process limit code deadline [] pc st = (Some GIT_TIMEOUT, st)"
| "wait_process limit code deadline (Poll t # steps) pc st =
     (case next_check code (deadline \<le> t) st pc of
        Failed e \<Rightarrow> (Some e, st)
      | Finished \<Rightarrow> (None, st)
      | Check pc' \<Rightarrow> wait_process limit code deadline steps pc' st)"
| "wait_process limit code deadline (s # steps) pc st =
     wait_process limit code deadline steps pc (run_step limit s st)"

text \<open>How a process starts: no executable, no start, or a run whose readers may fail to stop.\<close>

datatype spawn_result = SpawnMissing | SpawnFailed | Spawned "process_step list" bool

definition raised_failure :: "evidence_error_code option \<Rightarrow> collect_error + unit" where
  "raised_failure failure =
     (case failure of
        None \<Rightarrow> Inr ()
      | Some e \<Rightarrow> require (e \<notin> {evidence_error_code.RESOURCE_LIMIT, GIT_TIMEOUT, GIT_COMMAND_FAILED, MALFORMED_GIT_OUTPUT})
          (CollectError e))"

lemma all_output_stream: "(\<forall>s. P s) \<longleftrightarrow> P STDOUT \<and> P STDERR"
  by (metis output_stream.exhaust)

record completed_process =
  cp_code :: int
  cp_stdout :: bytes
  cp_stderr :: bytes

definition completed_of :: "process_run \<Rightarrow> completed_process" where
  "completed_of st =
     \<lparr>cp_code = (case pr_code st of None \<Rightarrow> - 9 | Some c \<Rightarrow> c),
      cp_stdout = dr_output (stream_drain st STDOUT), cp_stderr = dr_output (stream_drain st STDERR)\<rparr>"

definition run_bounded ::
  "(output_stream \<Rightarrow> nat) \<Rightarrow> evidence_error_code \<Rightarrow> rat \<Rightarrow> spawn_result \<Rightarrow> collect_error + completed_process" where
  "run_bounded limit code deadline spawned =
     (case spawned of
        SpawnMissing \<Rightarrow> Inl (CollectError GIT_UNAVAILABLE)
      | SpawnFailed \<Rightarrow> Inl command_failed
      | Spawned steps joined \<Rightarrow>
          let (failure, st) = wait_process limit code deadline steps STDOUT_OVERFLOW new_run in
          and_then (require joined command_failed) (\<lambda>_.
          and_then (raised_failure failure) (\<lambda>_. Inr (completed_of st))))"

section \<open>What the readers keep\<close>

text \<open>What the writers put into a stream before they closed it.\<close>

fun written :: "output_stream \<Rightarrow> process_step list \<Rightarrow> bytes" where
  "written s [] = []"
| "written s (Emit s' b # steps) = (if s' = s then b @ written s steps else written s steps)"
| "written s (Close s' # steps) = (if s' = s then [] else written s steps)"
| "written s (_ # steps) = written s steps"

lemma written_snoc_Emit:
  "written s (steps @ [Emit s' b]) = written s steps @ (if s' = s \<and> Close s \<notin> set steps then b else [])"
  by (induction s steps rule: written.induct) auto

lemma written_snoc: "(\<And>b. x \<noteq> Emit s b) \<Longrightarrow> written s (steps @ [x]) = written s steps"
proof (induction s steps rule: written.induct)
  case (1 s)
  then show ?case by (cases x) auto
qed auto

text \<open>A reader and its pipe after the steps \<open>before\<close>.\<close>

definition pipe_inv :: "nat \<Rightarrow> bool \<Rightarrow> bytes \<Rightarrow> bool \<Rightarrow> bool \<Rightarrow> pipe \<Rightarrow> bool" where
  "pipe_inv limit stop data shut failed p \<longleftrightarrow>
     pi_closed p = shut \<and>
     (if dr_overflowed (pi_drain p)
      then limit < length data \<and> dr_output (pi_drain p) = take limit data \<and> stop \<and> pi_done p
      else data = dr_output (pi_drain p) @ pi_pending p \<and> dr_total (pi_drain p) = length (dr_output (pi_drain p)) \<and>
        dr_total (pi_drain p) \<le> limit) \<and>
     (dr_error (pi_drain p) \<longrightarrow> stop \<and> failed) \<and>
     (pi_done p \<longrightarrow> stop \<or> shut \<and> pi_pending p = [])"

lemma pipe_inv_new: "pipe_inv limit False [] False False new_pipe"
  by (simp add: pipe_inv_def new_pipe_def)

lemma pipe_inv_stop: "pipe_inv limit stop data shut failed p \<Longrightarrow> stop \<le> stop' \<Longrightarrow> pipe_inv limit stop' data shut failed p"
  by (auto simp: pipe_inv_def split: if_splits)

lemma pipe_inv_read:
  assumes "pipe_inv limit stop data shut failed p"
  shows "pipe_inv limit (snd (drain_bounded_stream limit stop k p)) data shut failed (fst (drain_bounded_stream limit stop k p))"
proof (cases "pi_done p \<or> stop \<or> pi_pending p = []")
  case True
  then consider "pi_done p" | "\<not> pi_done p" "stop" | "\<not> pi_done p" "\<not> stop" "pi_pending p = []" by blast
  then show ?thesis
  proof cases
    case 1
    with assms show ?thesis by (simp add: drain_bounded_stream_def)
  next
    case 2
    then have "drain_bounded_stream limit stop k p = (p\<lparr>pi_done := True\<rparr>, True)" by (simp add: drain_bounded_stream_def)
    with assms 2 show ?thesis by (simp add: pipe_inv_def split: if_splits)
  next
    case 3
    then have "drain_bounded_stream limit stop k p = (p\<lparr>pi_done := pi_closed p\<rparr>, False)"
      by (simp add: drain_bounded_stream_def drain_read_def)
    with assms 3 show ?thesis by (simp add: pipe_inv_def split: if_splits)
  qed
next
  case False
  define d where "d = pi_drain p"
  define n where "n = min (max 1 k) (min read_chunk_bytes (limit - dr_total d + 1))"
  define chunk where "chunk = take n (pi_pending p)"
  from False assms have ok: "\<not> dr_overflowed d" "data = dr_output d @ pi_pending p" "dr_total d = length (dr_output d)"
    "dr_total d \<le> limit" "\<not> dr_error d" "pi_closed p = shut"
    by (auto simp: pipe_inv_def d_def split: if_splits)
  have step: "drain_bounded_stream limit stop k p =
      (p\<lparr>pi_pending := drop n (pi_pending p), pi_drain := drain_chunk limit chunk d,
        pi_done := dr_overflowed (drain_chunk limit chunk d)\<rparr>, dr_overflowed (drain_chunk limit chunk d))"
    using False by (simp add: drain_bounded_stream_def drain_read_def Let_def n_def chunk_def d_def)
  have parts: "pi_pending p = chunk @ drop n (pi_pending p)" by (simp add: chunk_def)
  show ?thesis
  proof (cases "limit < dr_total d + length chunk")
    case True
    moreover have data: "data = (dr_output d @ chunk) @ drop n (pi_pending p)" using ok(2) parts by simp
    moreover have "dr_output d @ take (min (length chunk) (limit - dr_total d)) chunk = take limit data"
    proof -
      have "min (length chunk) (limit - dr_total d) = limit - dr_total d" using True by simp
      then show ?thesis using True ok(3,4) unfolding data by simp
    qed
    ultimately show ?thesis using ok(6) True by (simp add: step pipe_inv_def drain_chunk_def Let_def ok(3,5))
  next
    case False
    then have "min (length chunk) (limit - dr_total d) = length chunk" by simp
    with False ok parts show ?thesis by (simp add: step pipe_inv_def drain_chunk_def Let_def)
  qed
qed


lemma pipe_inv_failure:
  "pipe_inv limit stop data shut failed p \<Longrightarrow>
   pipe_inv limit (snd (drain_failure stop p)) data shut True (fst (drain_failure stop p))"
  by (auto simp: pipe_inv_def drain_failure_def split: if_splits)

lemma drain_stop:
  "stop \<le> snd (drain_bounded_stream limit stop k p)"
  "snd (drain_bounded_stream limit stop k p) \<Longrightarrow> stop \<or> dr_overflowed (pi_drain (fst (drain_bounded_stream limit stop k p)))"
  "stop \<le> snd (drain_failure stop p)"
  "snd (drain_failure stop p) \<Longrightarrow> stop \<or> dr_error (pi_drain (fst (drain_failure stop p)))"
  by (auto simp: drain_bounded_stream_def drain_read_def drain_failure_def Let_def split: if_splits)

text \<open>A reader that has failed or overflowed stays so.\<close>

definition broken :: "pipe \<Rightarrow> bool" where
  "broken p \<longleftrightarrow> dr_overflowed (pi_drain p) \<or> dr_error (pi_drain p)"

lemma broken_stays:
  "broken p \<Longrightarrow> broken (fst (drain_bounded_stream limit stop k p))"
  "broken p \<Longrightarrow> broken (fst (drain_failure stop p))"
  by (auto simp: broken_def drain_bounded_stream_def drain_read_def drain_failure_def drain_chunk_def Let_def
    split: if_splits)

definition run_inv :: "(output_stream \<Rightarrow> nat) \<Rightarrow> process_step list \<Rightarrow> process_run \<Rightarrow> bool" where
  "run_inv limit before st \<longleftrightarrow>
     (\<forall>s. pipe_inv (limit s) (pr_stop st) (written s before) (Close s \<in> set before) (ReadError s \<in> set before) (pr_pipe st s)) \<and>
     (pr_stop st \<longrightarrow> (\<exists>s. broken (pr_pipe st s))) \<and>
     (\<forall>c. pr_code st = Some c \<longrightarrow> Exit c \<in> set before)"

lemma run_inv_new: "run_inv limit [] new_run"
  by (simp add: run_inv_def new_run_def pipe_inv_new)

lemma run_inv_with_pipe:
  assumes inv: "run_inv limit before st"
    and pipe: "pipe_inv (limit s) stop (written s (before @ [x])) (Close s \<in> set (before @ [x])) (ReadError s \<in> set (before @ [x])) p"
    and other: "\<And>s'. s' \<noteq> s \<Longrightarrow> written s' (before @ [x]) = written s' before" "\<And>s'. s' \<noteq> s \<Longrightarrow> x \<noteq> Close s' \<and> x \<noteq> ReadError s'"
    and stop: "pr_stop st \<le> stop" "stop \<Longrightarrow> pr_stop st \<or> broken p" "broken (pr_pipe st s) \<Longrightarrow> broken p"
  shows "run_inv limit (before @ [x]) (with_pipe s (p, stop) st)"
proof -
  have "pipe_inv (limit s') stop (written s' (before @ [x])) (Close s' \<in> set (before @ [x])) (ReadError s' \<in> set (before @ [x])) (pr_pipe st s')"
    if "s' \<noteq> s" for s'
    using inv pipe_inv_stop [OF _ stop(1)] other(1) [OF that] other(2) [OF that] by (auto simp: run_inv_def)
  moreover have "\<exists>s'. broken (((pr_pipe st)(s := p)) s')" if set: "stop"
  proof -
    consider "broken p" | s' where "broken (pr_pipe st s')" "s' \<noteq> s"
      using stop(2) [OF set] stop(3) inv by (auto simp: run_inv_def)
    then show ?thesis by cases (auto intro: exI [of _ s])
  qed
  ultimately show ?thesis using inv pipe by (auto simp: run_inv_def with_pipe_def)
qed

lemma run_inv_step:
  assumes inv: "run_inv limit before st"
  shows "run_inv limit (before @ [x]) (run_step limit x st)"
proof (cases x)
  case (Emit s b)
  show ?thesis
  proof (cases "pi_closed (pr_pipe st s)")
    case True
    then have "Close s \<in> set before" using inv by (auto simp: run_inv_def pipe_inv_def)
    then have "written s' (before @ [x]) = written s' before" for s'
      by (cases "s' = s") (auto simp: Emit written_snoc_Emit)
    with True inv show ?thesis by (simp add: Emit run_inv_def)
  next
    case False
    then have "Close s \<notin> set before" using inv by (auto simp: run_inv_def pipe_inv_def)
    moreover have "pipe_inv (limit s) (pr_stop st) (written s before) (Close s \<in> set before) (ReadError s \<in> set before) (pr_pipe st s)"
      using inv by (simp add: run_inv_def)
    ultimately have "pipe_inv (limit s) (pr_stop st) (written s (before @ [x])) (Close s \<in> set (before @ [x])) (ReadError s \<in> set (before @ [x]))
        ((pr_pipe st s)\<lparr>pi_pending := pi_pending (pr_pipe st s) @ b\<rparr>)"
      by (auto simp: Emit written_snoc_Emit pipe_inv_def split: if_splits)
    from run_inv_with_pipe [OF inv this] False show ?thesis
      by (simp add: Emit written_snoc_Emit broken_def Let_def)
  qed
next
  case (Close s)
  have "pipe_inv (limit s) (pr_stop st) (written s before) (Close s \<in> set before) (ReadError s \<in> set before) (pr_pipe st s)"
    using inv by (simp add: run_inv_def)
  then have "pipe_inv (limit s) (pr_stop st) (written s (before @ [x])) (Close s \<in> set (before @ [x])) (ReadError s \<in> set (before @ [x]))
      ((pr_pipe st s)\<lparr>pi_closed := True\<rparr>)"
    by (auto simp: Close written_snoc pipe_inv_def split: if_splits)
  from run_inv_with_pipe [OF inv this] show ?thesis by (simp add: Close written_snoc broken_def)
next
  case (Exit c)
  with inv show ?thesis by (auto simp: run_inv_def written_snoc)
next
  case (Read s k)
  let ?r = "drain_bounded_stream (limit s) (pr_stop st) k (pr_pipe st s)"
  have "pipe_inv (limit s) (pr_stop st) (written s (before @ [x])) (Close s \<in> set (before @ [x])) (ReadError s \<in> set (before @ [x])) (pr_pipe st s)"
    using inv by (simp add: Read written_snoc run_inv_def)
  note pipe = pipe_inv_read [OF this, of k]
  have "run_inv limit (before @ [x]) (with_pipe s (fst ?r, snd ?r) st)"
    by (rule run_inv_with_pipe [OF inv pipe])
      (use drain_stop(1) drain_stop(2) [of "limit s" "pr_stop st" k "pr_pipe st s"] broken_stays(1) in \<open>auto simp: Read written_snoc broken_def\<close>)
  then show ?thesis by (simp add: Read)
next
  case (ReadError s)
  let ?r = "drain_failure (pr_stop st) (pr_pipe st s)"
  have "pipe_inv (limit s) (pr_stop st) (written s (before @ [x])) (Close s \<in> set (before @ [x])) (ReadError s \<in> set before) (pr_pipe st s)"
    using inv by (simp add: ReadError written_snoc run_inv_def)
  then have "pipe_inv (limit s) (snd ?r) (written s (before @ [x])) (Close s \<in> set (before @ [x]))
      (ReadError s \<in> set (before @ [x])) (fst ?r)"
    using pipe_inv_failure by (simp add: ReadError)
  note pipe = this
  have "run_inv limit (before @ [x]) (with_pipe s (fst ?r, snd ?r) st)"
    by (rule run_inv_with_pipe [OF inv pipe])
      (use drain_stop(3) drain_stop(4) [of "pr_stop st" "pr_pipe st s"] broken_stays(2) in \<open>auto simp: ReadError written_snoc broken_def\<close>)
  then show ?thesis by (simp add: ReadError)
next
  case (Poll t)
  with inv show ?thesis by (simp add: run_inv_def written_snoc)
qed

text \<open>A wait ends at a prefix of the steps, with what the caller has seen by then.\<close>

definition seen :: "wait_check \<Rightarrow> process_run \<Rightarrow> bool" where
  "seen pc st \<longleftrightarrow>
     (pc \<in> {STDOUT_READER, STDERR_READER} \<longrightarrow> pr_code st \<noteq> None) \<and>
     (pc = STDERR_READER \<longrightarrow> pi_done (pr_pipe st STDOUT))"

lemma done_stays:
  "pi_done p \<Longrightarrow> pi_done (fst (drain_bounded_stream limit stop k p))"
  "pi_done p \<Longrightarrow> pi_done (fst (drain_failure stop p))"
  by (simp_all add: drain_bounded_stream_def drain_failure_def)

lemma seen_step: "seen pc st \<Longrightarrow> seen pc (run_step limit x st)"
  by (cases x) (auto simp: seen_def with_pipe_def done_stays Let_def)

lemma wait_process_prefix:
  assumes "run_inv limit before st" "seen pc st" "wait_process limit code deadline steps pc st = (failure, st')"
  shows "\<exists>taken rest. steps = taken @ rest \<and> run_inv limit (before @ taken) st' \<and>
    (case failure of
       None \<Rightarrow> pr_code st' \<noteq> None \<and> pi_done (pr_pipe st' STDOUT) \<and> pi_done (pr_pipe st' STDERR)
     | Some e \<Rightarrow> e \<in> {GIT_TIMEOUT, GIT_COMMAND_FAILED} \<or>
         e \<in> {evidence_error_code.RESOURCE_LIMIT, code} \<and> (\<exists>s. dr_overflowed (stream_drain st' s)))"
  using assms
proof (induction steps arbitrary: before pc st)
  case Nil
  then show ?case by auto
next
  case (Cons x steps)
  have go: ?case if "wait_process limit code deadline steps pc' (run_step limit x st) = (failure, st')" "seen pc' (run_step limit x st)" for pc'
    using Cons.IH [OF run_inv_step [OF Cons.prems(1), of x] that(2,1)] by (metis append.assoc append_Cons append_Nil)
  show ?case
  proof (cases x)
    case (Poll t)
    show ?thesis
    proof (cases "next_check code (deadline \<le> t) st pc")
      case (Failed e)
      then have "e \<in> {GIT_TIMEOUT, GIT_COMMAND_FAILED} \<or>
          e \<in> {evidence_error_code.RESOURCE_LIMIT, code} \<and> (\<exists>s. dr_overflowed (stream_drain st s))"
        by (cases pc) (auto split: if_splits)
      moreover have "failure = Some e" "st' = st" using Failed Poll Cons.prems(3) by auto
      ultimately show ?thesis using Cons.prems(1)
        by (intro exI [of "\<lambda>taken. \<exists>rest. _ taken rest" "[]"] exI [of _ "x # steps"]) simp
    next
      case Finished
      then have "pc = STDERR_READER" "pi_done (pr_pipe st STDERR)" by (cases pc; simp split: if_splits)+
      moreover have "failure = None" "st' = st" using Finished Poll Cons.prems(3) by auto
      ultimately show ?thesis using Cons.prems(1,2) 
        by (intro exI [of "\<lambda>taken. \<exists>rest. _ taken rest" "[]"] exI [of _ "x # steps"]) (simp add: seen_def)
    next
      case (Check pc')
      then have "seen pc' st" using Cons.prems(2) by (cases pc) (auto simp: seen_def split: if_splits)
      with Check Poll Cons.prems(3) show ?thesis by (intro go [of pc']) simp_all
    qed
  qed (use Cons.prems go seen_step [of pc st limit x] in auto)
qed

text \<open>What is read is the start of what was written, and all of it where nothing was too long.\<close>

lemma drained_prefix:
  assumes "run_inv limit taken st"
  shows "dr_output (stream_drain st s) = take (length (dr_output (stream_drain st s))) (written s taken) \<and>
    length (dr_output (stream_drain st s)) \<le> limit s"
proof -
  have "pipe_inv (limit s) (pr_stop st) (written s taken) (Close s \<in> set taken) (ReadError s \<in> set taken) (pr_pipe st s)"
    using assms by (simp add: run_inv_def)
  then show ?thesis by (auto simp: pipe_inv_def stream_drain_def min_def split: if_splits)
qed

lemma drained_all:
  assumes inv: "run_inv limit taken st" and ended: "pi_done (pr_pipe st STDOUT)" "pi_done (pr_pipe st STDERR)"
    and fits: "\<And>s. length (written s taken) \<le> limit s" "\<And>s. ReadError s \<notin> set taken"
  shows "dr_output (stream_drain st s) = written s taken \<and> Close s \<in> set taken"
proof -
  have pipe: "pipe_inv (limit s) (pr_stop st) (written s taken) (Close s \<in> set taken) (ReadError s \<in> set taken) (pr_pipe st s)"
    for s using inv by (simp add: run_inv_def)
  have "\<not> broken (pr_pipe st s)" for s
    using pipe [of s] fits(1) [of s] fits(2) [of s] by (auto simp: pipe_inv_def broken_def split: if_splits)
  then have "\<not> pr_stop st" using inv by (auto simp: run_inv_def)
  moreover have "pi_done (pr_pipe st s)" using ended by (cases s) auto
  ultimately show ?thesis using pipe [of s] fits(1) [of s]
    by (auto simp: pipe_inv_def stream_drain_def split: if_splits)
qed

lemma overflow_written:
  assumes "run_inv limit taken st" "dr_overflowed (stream_drain st s)"
  shows "limit s < length (written s taken)"
  using assms by (auto simp: run_inv_def pipe_inv_def stream_drain_def dest: spec [of _ s])

definition stream_output :: "output_stream \<Rightarrow> completed_process \<Rightarrow> bytes" where
  "stream_output s cp = (case s of STDOUT \<Rightarrow> cp_stdout cp | STDERR \<Rightarrow> cp_stderr cp)"

lemma completed_output: "stream_output s (completed_of st) = dr_output (stream_drain st s)"
  by (cases s) (simp_all add: stream_output_def completed_of_def)

text \<open>
  C30. A bounded run, whatever the interleaving of the process, the two readers and the caller's checks. What
  it returns of a stream is the start of what the process wrote there, never more than the limit, and it is
  all of it, with the stream closed, if no stream exceeds its limit and no read fails. It fails for size only
  where a stream held more than its limit, and otherwise only with a timeout or a failed command.
\<close>

theorem bounded_run_output:
  assumes "code \<in> {evidence_error_code.RESOURCE_LIMIT, MALFORMED_GIT_OUTPUT}"
  shows "case run_bounded limit code deadline (Spawned steps joined) of
    Inr cp \<Rightarrow> \<exists>taken rest. steps = taken @ rest \<and> Exit (cp_code cp) \<in> set taken \<and>
      (\<forall>s. stream_output s cp = take (length (stream_output s cp)) (written s taken) \<and>
        length (stream_output s cp) \<le> limit s) \<and>
      ((\<forall>s. length (written s taken) \<le> limit s \<and> ReadError s \<notin> set taken) \<longrightarrow>
        (\<forall>s. stream_output s cp = written s taken \<and> Close s \<in> set taken))
  | Inl e \<Rightarrow> e \<in> {CollectError GIT_TIMEOUT, command_failed} \<or> e \<in> {over_limit, CollectError code} \<and>
      (\<exists>taken rest s. steps = taken @ rest \<and> limit s < length (written s taken))"
proof -
  obtain failure st where w: "wait_process limit code deadline steps STDOUT_OVERFLOW new_run = (failure, st)" by fastforce
  have "seen STDOUT_OVERFLOW new_run" by (simp add: seen_def)
  from wait_process_prefix [OF run_inv_new this w] obtain taken rest where t: "steps = taken @ rest" "run_inv limit taken st"
    and f: "case failure of
       None \<Rightarrow> pr_code st \<noteq> None \<and> pi_done (pr_pipe st STDOUT) \<and> pi_done (pr_pipe st STDERR)
     | Some e \<Rightarrow> e \<in> {GIT_TIMEOUT, GIT_COMMAND_FAILED} \<or>
         e \<in> {evidence_error_code.RESOURCE_LIMIT, code} \<and> (\<exists>s. dr_overflowed (stream_drain st s))"
    by auto
  show ?thesis
  proof (cases failure)
    case None
    with f have fin: "pr_code st \<noteq> None" "pi_done (pr_pipe st STDOUT)" "pi_done (pr_pipe st STDERR)" by simp_all
    from fin(1) have "Exit (cp_code (completed_of st)) \<in> set taken"
      using t(2) by (auto simp: run_inv_def completed_of_def)
    moreover note drained_prefix [OF t(2)] drained_all [OF t(2) fin(2,3)]
    ultimately have "\<exists>taken rest. steps = taken @ rest \<and> Exit (cp_code (completed_of st)) \<in> set taken \<and>
      (\<forall>s. stream_output s (completed_of st) = take (length (stream_output s (completed_of st))) (written s taken) \<and>
        length (stream_output s (completed_of st)) \<le> limit s) \<and>
      ((\<forall>s. length (written s taken) \<le> limit s \<and> ReadError s \<notin> set taken) \<longrightarrow>
        (\<forall>s. stream_output s (completed_of st) = written s taken \<and> Close s \<in> set taken))"
      using t(1) unfolding completed_output by blast
    with None w show ?thesis by (cases joined) (simp_all add: run_bounded_def raised_failure_def)
  next
    case (Some e)
    with f consider "e \<in> {GIT_TIMEOUT, GIT_COMMAND_FAILED}"
      | s where "e \<in> {evidence_error_code.RESOURCE_LIMIT, code}" "dr_overflowed (stream_drain st s)" by auto
    then show ?thesis
    proof cases
      case 1
      with Some w show ?thesis by (cases joined) (auto simp: run_bounded_def raised_failure_def)
    next
      case 2
      have ex: "\<exists>taken rest s. steps = taken @ rest \<and> limit s < length (written s taken)"
        using t(1) overflow_written [OF t(2) 2(2)] by blast
      have "run_bounded limit code deadline (Spawned steps joined) = Inl (if joined then CollectError e else command_failed)"
        using Some w 2(1) assms by (auto simp: run_bounded_def raised_failure_def)
      with ex 2(1) show ?thesis by (cases joined) simp_all
    qed
  qed
qed

text \<open>Two streams read while the process writes and the caller checks.\<close>

definition sample_steps :: "process_step list" where
  "sample_steps = [Emit STDOUT [1, 2], Read STDOUT 1, Poll 0, Emit STDERR [7], Read STDOUT 9, Close STDOUT, Exit 0, Poll 1,
     Close STDERR, Read STDERR 4, Read STDOUT 1, Read STDERR 1, Poll 2, Poll 2, Poll 2, Poll 2, Poll 2, Poll 2]"

lemmas run_defs = run_bounded_def new_run_def new_pipe_def with_pipe_def stream_drain_def drain_bounded_stream_def
  drain_read_def drain_chunk_def read_chunk_bytes_def Let_def raised_failure_def completed_of_def

theorem bounded_run_output_witness:
  "\<exists>taken. Exit 0 \<in> set taken \<and> take 2 (written STDOUT taken) = [1, 2] \<and> take 1 (written STDERR taken) = [7]"
proof -
  let ?cp = "\<lparr>cp_code = 0, cp_stdout = [1, 2], cp_stderr = [7]\<rparr>"
  have r: "run_bounded (\<lambda>_. 5) MALFORMED_GIT_OUTPUT 9 (Spawned sample_steps True) = Inr ?cp"
    by (simp add: run_defs sample_steps_def)
  from bounded_run_output [where code = MALFORMED_GIT_OUTPUT and limit = "\<lambda>_. 5" and deadline = 9
    and steps = sample_steps and joined = True]
  have "\<exists>taken. Exit 0 \<in> set taken \<and> (\<forall>s. stream_output s ?cp = take (length (stream_output s ?cp)) (written s taken))"
    unfolding r by (simp only: sum.case completed_process.simps) blast
  then obtain taken where t: "Exit 0 \<in> set taken"
    and w: "\<And>s. stream_output s ?cp = take (length (stream_output s ?cp)) (written s taken)" by blast
  have "[1, 2] = take 2 (written STDOUT taken)" "[7] = take 1 (written STDERR taken)"
    using w [of STDOUT] w [of STDERR] by (simp_all only: stream_output_def output_stream.case completed_process.simps list.size numeral_2_eq_2 One_nat_def add_0 add_Suc add_Suc_right)
  with t show ?thesis by metis
qed

text \<open>
  A read between the checks: the process writes three bytes to a stream limited to two, the reader stops at
  the limit after the caller has looked for an overflow and before it looks for the end, and the truncated
  output is returned as complete.
\<close>

definition racing_steps :: "process_step list" where
  "racing_steps = [Close STDERR, Read STDERR 1, Poll 0, Emit STDOUT [1, 2, 3], Read STDOUT 9, Exit 0,
     Poll 0, Poll 0, Poll 0, Poll 0, Poll 0, Poll 0, Poll 0]"

lemma overflow_can_pass:
  "run_bounded (\<lambda>_. 2) evidence_error_code.RESOURCE_LIMIT 9 (Spawned racing_steps True) =
   Inr \<lparr>cp_code = 0, cp_stdout = [1, 2], cp_stderr = []\<rparr>"
  by (simp add: run_defs racing_steps_def)

end
