(* ===== verification/Git_Parse.thy ===== *)
theory Git_Parse
  imports Json_Scan Repair_Paths Git_Process
begin

text \<open>
  The parsers of git's output in \<open>src/src/repoguard/_git.py\<close> and the budget they share. The operations thread
  a state: how often the clock was read, how many processes were started, what is used of the budget, and
  the cache of contents.
\<close>

section \<open>The budget\<close>

text \<open>The deadline is a point on the clock, whose readings are a sequence.\<close>

record collection_budget =
  cb_limits :: evidence_limits
  cb_deadline :: rat
  cb_executable :: pystr
  cb_clock :: "nat \<Rightarrow> rat"

type_synonym content_cache = "pystr \<times> pystr \<Rightarrow> (content_kind \<times> bytes option) option"

record collect_state =
  co_readings :: nat
  co_calls :: nat
  co_blob_bytes :: int
  co_diff_bytes :: int
  co_diff_lines :: int
  co_cache :: content_cache

text \<open>A step of the collection: an error, or a result and the new state.\<close>

type_synonym 'a collect = "collect_state \<Rightarrow> collect_error + 'a \<times> collect_state"

definition check_deadline :: "collection_budget option \<Rightarrow> collect_state \<Rightarrow> collect_error + collect_state" where
  "check_deadline budget st =
     (case budget of
        None \<Rightarrow> Inr st
      | Some b \<Rightarrow>
          if cb_deadline b \<le> cb_clock b (co_readings st) then Inl (CollectError GIT_TIMEOUT)
          else Inr (st\<lparr>co_readings := Suc (co_readings st)\<rparr>))"

definition reserve_blob_bytes :: "collection_budget \<Rightarrow> int \<Rightarrow> collect_state \<Rightarrow> collect_error + collect_state" where
  "reserve_blob_bytes b amount st =
     and_then (check_deadline (Some b) st) (\<lambda>st.
     and_then (require (amount \<le> el_max_blob_bytes (cb_limits b)) over_limit) (\<lambda>_.
     and_then (require (amount \<le> el_max_total_blob_bytes (cb_limits b) - co_blob_bytes st) over_limit) (\<lambda>_.
       Inr (st\<lparr>co_blob_bytes := co_blob_bytes st + amount\<rparr>))))"

definition reserve_diff_bytes :: "collection_budget \<Rightarrow> int \<Rightarrow> collect_state \<Rightarrow> collect_error + collect_state" where
  "reserve_diff_bytes b amount st =
     and_then (check_deadline (Some b) st) (\<lambda>st.
     and_then (require (amount \<le> el_max_diff_bytes (cb_limits b) - co_diff_bytes st) over_limit) (\<lambda>_.
       Inr (st\<lparr>co_diff_bytes := co_diff_bytes st + amount\<rparr>)))"

definition reserve_diff_line :: "collection_budget \<Rightarrow> collect_state \<Rightarrow> collect_error + collect_state" where
  "reserve_diff_line b st =
     and_then (check_deadline (Some b) st) (\<lambda>st.
     and_then (require (co_diff_lines st < el_max_diff_lines (cb_limits b)) over_limit) (\<lambda>_.
       Inr (st\<lparr>co_diff_lines := co_diff_lines st + 1\<rparr>)))"

section \<open>Single values\<close>

definition single_output_line :: "bytes \<Rightarrow> collect_error + bytes" where
  "single_output_line output =
     and_then (require (ends_with [10] output) malformed) (\<lambda>_.
     let line = butlast output in
     and_then (require (line \<noteq> [] \<and> 10 \<notin> set line \<and> 0 \<notin> set line) malformed) (\<lambda>_. Inr line))"

definition single_path_output :: "bytes \<Rightarrow> collect_error + bytes" where
  "single_path_output output =
     and_then (require (ends_with [10] output) malformed) (\<lambda>_.
     let path = butlast output in
     and_then (require (path \<noteq> [] \<and> 0 \<notin> set path) malformed) (\<lambda>_. Inr path))"

definition all_zero :: "bytes \<Rightarrow> bool" where
  "all_zero s \<longleftrightarrow> s \<noteq> [] \<and> list_all (\<lambda>c. c = 48) s"

definition parse_oid :: "nat \<Rightarrow> bool \<Rightarrow> bytes \<Rightarrow> collect_error + pystr" where
  "parse_oid oid_length allow_zero oid =
     and_then (require (length oid = oid_length \<and> list_all is_lower_hex oid) malformed) (\<lambda>_.
     and_then (require (allow_zero \<or> \<not> all_zero oid) malformed) (\<lambda>_. Inr oid))"

definition decode_path :: "bytes \<Rightarrow> collect_error + pystr" where
  "decode_path path =
     (case utf8_decode path of None \<Rightarrow> Inl (CollectError UNSUPPORTED_PATH_ENCODING) | Some s \<Rightarrow> Inr s)"

text \<open>\<open>int\<close> of a text of digits refuses more than 4300 of them.\<close>

definition parse_blob_size :: "bytes \<Rightarrow> collect_error + int" where
  "parse_blob_size output =
     and_then (single_output_line output) (\<lambda>line.
     and_then (require (list_all is_digit line) malformed) (\<lambda>_.
     and_then (require (length line \<le> 4300) malformed) (\<lambda>_. Inr (int (digits_value line)))))"

definition parse_merge_bases :: "nat \<Rightarrow> bytes \<Rightarrow> collect_error + pystr list" where
  "parse_merge_bases oid_length output =
     (if output = [] then Inr []
      else and_then (require (ends_with [10] output) malformed) (\<lambda>_.
        map_res (parse_oid oid_length False) (split_on 10 (butlast output))))"

definition validate_ref :: "pystr \<Rightarrow> evidence_error_code \<Rightarrow> collect_error + unit" where
  "validate_ref ref invalid_code =
     and_then (require (utf8_ok ref) (CollectError invalid_code)) (\<lambda>_.
     require (ref \<noteq> [] \<and> 0 \<notin> set ref) (CollectError invalid_code))"

section \<open>Raw changes\<close>

record raw_change =
  rw_change_type :: change_type
  rw_similarity :: "int option"
  rw_old_mode :: pystr
  rw_new_mode :: pystr
  rw_old_oid :: pystr
  rw_new_oid :: pystr
  rw_old_path :: pystr
  rw_new_path :: pystr

text \<open>\<open>bytes.split()\<close>: runs of ASCII white space separate.\<close>

definition is_space :: "nat \<Rightarrow> bool" where
  "is_space c \<longleftrightarrow> c \<in> {9, 10, 11, 12, 13, 32}"

fun split_space :: "bytes \<Rightarrow> bytes list" where
  "split_space [] = []"
| "split_space (c # cs) =
     (if is_space c then split_space cs
      else if cs = [] \<or> is_space (hd cs) then [c] # split_space cs
      else (case split_space cs of [] \<Rightarrow> [[c]] | w # ws \<Rightarrow> (c # w) # ws))"

definition absent_mode :: pystr where
  "absent_mode = lit ''000000''"

definition parse_mode :: "bytes \<Rightarrow> collect_error + pystr" where
  "parse_mode mode =
     and_then (require (length mode = 6 \<and> list_all (\<lambda>c. 48 \<le> c \<and> c \<le> 55) mode) malformed) (\<lambda>_. Inr mode)"

text \<open>The type of a change, the similarity of a rename and the number of paths that follow.\<close>

definition parse_status :: "bytes \<Rightarrow> collect_error + change_type \<times> int option \<times> nat" where
  "parse_status status =
     (if status = lit ''A'' then Inr (ADDED, None, 1)
      else if status = lit ''M'' then Inr (MODIFIED, None, 1)
      else if status = lit ''D'' then Inr (DELETED, None, 1)
      else if status = lit ''T'' then Inr (TYPE_CHANGED, None, 1)
      else if starts_with (lit ''R'') status \<and> tl status \<noteq> [] \<and> list_all is_digit (tl status) then
        and_then (require (length (tl status) \<le> 4300) CollectValueError) (\<lambda>_.
          if digits_value (tl status) \<le> 100 then Inr (RENAMED, Some (int (digits_value (tl status))), 2) else Inl malformed)
      else Inl malformed)"

definition paths_for_change :: "change_type \<Rightarrow> pystr list \<Rightarrow> collect_error + pystr \<times> pystr" where
  "paths_for_change t paths =
     (if t = RENAMED
      then and_then (require (length paths = 2) malformed) (\<lambda>_. Inr (paths ! 0, paths ! 1))
      else and_then (require (length paths = 1) malformed) (\<lambda>_. Inr (paths ! 0, paths ! 0)))"

definition validate_absent_side :: "pystr \<Rightarrow> pystr \<Rightarrow> collect_error + unit" where
  "validate_absent_side mode oid = require ((mode = absent_mode) = all_zero oid) malformed"

definition validate_change_sides :: "change_type \<Rightarrow> pystr \<Rightarrow> pystr \<Rightarrow> collect_error + unit" where
  "validate_change_sides t old_mode new_mode =
     (let old_exists = old_mode \<noteq> absent_mode; new_exists = new_mode \<noteq> absent_mode in
      require
        (if t = ADDED then \<not> old_exists \<and> new_exists
         else if t = DELETED then old_exists \<and> \<not> new_exists
         else old_exists \<and> new_exists) malformed)"

text \<open>The five fields of a header, then the paths its status asks for.\<close>

definition raw_change_of ::
  "nat \<Rightarrow> bytes list \<Rightarrow> bytes list \<Rightarrow> collect_error + raw_change \<times> bytes list" where
  "raw_change_of oid_length parts rest =
     and_then (parse_mode (parts ! 0)) (\<lambda>old_mode.
     and_then (parse_mode (parts ! 1)) (\<lambda>new_mode.
     and_then (parse_oid oid_length True (parts ! 2)) (\<lambda>old_oid.
     and_then (parse_oid oid_length True (parts ! 3)) (\<lambda>new_oid.
     and_then (parse_status (parts ! 4)) (\<lambda>status.
     let path_count = snd (snd status) in
     and_then (require (path_count \<le> length rest) malformed) (\<lambda>_.
     and_then (map_res decode_path (take path_count rest)) (\<lambda>paths.
     and_then (paths_for_change (fst status) paths) (\<lambda>sides.
     and_then (validate_absent_side old_mode old_oid) (\<lambda>_.
     and_then (validate_absent_side new_mode new_oid) (\<lambda>_.
     and_then (validate_change_sides (fst status) old_mode new_mode) (\<lambda>_.
       Inr (\<lparr>rw_change_type = fst status, rw_similarity = fst (snd status), rw_old_mode = old_mode,
         rw_new_mode = new_mode, rw_old_oid = old_oid, rw_new_oid = new_oid,
         rw_old_path = fst sides, rw_new_path = snd sides\<rparr>, drop path_count rest))))))))))))"

definition parse_raw_record :: "nat \<Rightarrow> bytes \<Rightarrow> bytes list \<Rightarrow> collect_error + raw_change \<times> bytes list" where
  "parse_raw_record oid_length header rest =
     and_then (require (starts_with [58] header) malformed) (\<lambda>_.
     let parts = split_space (tl header) in
     and_then (require (length parts = 5) malformed) (\<lambda>_. raw_change_of oid_length parts rest))"

lemma parse_raw_record_length:
  assumes "parse_raw_record n header rest = Inr (c, rest')"
  shows "length rest' \<le> length rest"
  using assms by (auto simp: parse_raw_record_def raw_change_of_def Let_def and_then_eq_Inr)

text \<open>The records of an output, when \<open>k\<close> of them are read.\<close>

function parse_raw_records :: "collection_budget option \<Rightarrow> nat \<Rightarrow> nat \<Rightarrow> bytes list \<Rightarrow> raw_change list collect" where
  "parse_raw_records budget oid_length k [] st = Inr ([], st)"
| "parse_raw_records budget oid_length k (header # rest) st =
     and_then (check_deadline budget st) (\<lambda>st1.
     and_then (require (case budget of None \<Rightarrow> True | Some b \<Rightarrow> int k < el_max_changed_files (cb_limits b)) over_limit) (\<lambda>_.
     and_then (parse_raw_record oid_length header rest) (\<lambda>r.
     and_then (parse_raw_records budget oid_length (Suc k) (snd r) st1) (\<lambda>q. Inr (fst r # fst q, snd q)))))"
  by pat_completeness auto
termination
proof (relation "measure (\<lambda>(_, _, _, fs, _). length fs)")
  fix n header rest r
  assume "parse_raw_record n header rest = Inr r"
  then have "length (snd r) \<le> length rest" using parse_raw_record_length [of n header rest "fst r" "snd r"] by simp
  then show "((budget, n, Suc k, snd r, st1), (budget, n, k, header # rest, st)) \<in>
      measure (\<lambda>(_, _, _, fs, _). length fs)" for budget :: "collection_budget option" and k :: nat and st1 st :: collect_state
    by simp
qed simp

definition parse_raw_changes :: "collection_budget option \<Rightarrow> nat \<Rightarrow> bytes \<Rightarrow> raw_change list collect" where
  "parse_raw_changes budget oid_length output st =
     (if output = [] then Inr ([], st)
      else and_then (require (ends_with [0] output) malformed) (\<lambda>_.
        parse_raw_records budget oid_length 0 (split_on 0 (butlast output)) st))"

section \<open>Hunks\<close>

text \<open>A range \<open>start[,count]\<close> at the front of a line.\<close>

definition match_range :: "bytes \<Rightarrow> (bytes \<times> bytes option \<times> bytes) option" where
  "match_range s =
     (let start = takeWhile is_digit s; rest = dropWhile is_digit s in
      if start = [] then None
      else if starts_with [44] rest \<and> takeWhile is_digit (tl rest) \<noteq> []
      then Some (start, Some (takeWhile is_digit (tl rest)), dropWhile is_digit (tl rest))
      else Some (start, None, rest))"

text \<open>What may follow the second marker: nothing, or a space and text without a line feed, then one line
  feed or none.\<close>

definition hunk_tail_ok :: "bytes \<Rightarrow> bool" where
  "hunk_tail_ok s \<longleftrightarrow> s = [] \<or> s = [10] \<or> hd s = 32 \<and> 10 \<notin> set (butlast s)"

definition match_hunk :: "bytes \<Rightarrow> ((bytes \<times> bytes option) \<times> (bytes \<times> bytes option)) option" where
  "match_hunk s =
     (if \<not> starts_with (lit ''@@ -'') s then None
      else case match_range (drop 4 s) of
        None \<Rightarrow> None
      | Some (old_start, old_count, r) \<Rightarrow>
          if \<not> starts_with (lit '' +'') r then None
          else case match_range (drop 2 r) of
            None \<Rightarrow> None
          | Some (new_start, new_count, q) \<Rightarrow>
              if starts_with (lit '' @@'') q \<and> hunk_tail_ok (drop 3 q)
              then Some ((old_start, old_count), (new_start, new_count)) else None)"

definition header_int :: "bytes \<Rightarrow> collect_error + int" where
  "header_int ds = and_then (require (length ds \<le> 4300) CollectValueError) (\<lambda>_. Inr (int (digits_value ds)))"

definition header_count :: "bytes option \<Rightarrow> collect_error + int" where
  "header_count c = (case c of None \<Rightarrow> Inr 1 | Some ds \<Rightarrow> header_int ds)"

record hunk_state =
  hk_hunks :: "diff_hunk list"
  hk_header :: "(int \<times> int \<times> int \<times> int) option"
  hk_lines :: "diff_line list"
  hk_old :: int
  hk_new :: int

definition no_hunks :: hunk_state where
  "no_hunks = \<lparr>hk_hunks = [], hk_header = None, hk_lines = [], hk_old = 0, hk_new = 0\<rparr>"

definition old_side :: "diff_line \<Rightarrow> bool" where
  "old_side l \<longleftrightarrow> dl_kind l \<noteq> ADDITION"

definition new_side :: "diff_line \<Rightarrow> bool" where
  "new_side l \<longleftrightarrow> dl_kind l \<noteq> DELETION"

text \<open>The hunk that is open is closed once its lines agree with its header.\<close>

definition close_hunk :: "hunk_state \<Rightarrow> collect_error + hunk_state" where
  "close_hunk h =
     (case hk_header h of
        None \<Rightarrow> Inr h
      | Some (old_start, old_count, new_start, new_count) \<Rightarrow>
          and_then (require (int (length (filter old_side (hk_lines h))) = old_count \<and>
            int (length (filter new_side (hk_lines h))) = new_count) malformed) (\<lambda>_.
          Inr (h\<lparr>hk_hunks := hk_hunks h @ [\<lparr>dh_old_start = old_start, dh_old_count = old_count,
              dh_new_start = new_start, dh_new_count = new_count, dh_lines = hk_lines h\<rparr>],
            hk_header := None, hk_lines := []\<rparr>)))"

definition finish_current :: "collection_budget option \<Rightarrow> hunk_state \<times> collect_state \<Rightarrow> collect_error + hunk_state \<times> collect_state" where
  "finish_current budget s =
     and_then (check_deadline budget (snd s)) (\<lambda>st.
     and_then (close_hunk (fst s)) (\<lambda>h. Inr (h, st)))"

definition open_hunk ::
  "(bytes \<times> bytes option) \<times> (bytes \<times> bytes option) \<Rightarrow> hunk_state \<Rightarrow> collect_error + hunk_state" where
  "open_hunk m h =
     and_then (header_int (fst (fst m))) (\<lambda>old_start.
     and_then (header_int (fst (snd m))) (\<lambda>new_start.
     and_then (header_count (snd (fst m))) (\<lambda>old_count.
     and_then (header_count (snd (snd m))) (\<lambda>new_count.
       Inr (h\<lparr>hk_header := Some (old_start, old_count, new_start, new_count), hk_lines := [],
         hk_old := old_start, hk_new := new_start\<rparr>)))))"

definition git_no_newline_marker :: bytes where
  "git_no_newline_marker = 92 # lit '' No newline at end of file'' @ [10]"

text \<open>The kind a marker byte stands for; any other byte ends the hunk.\<close>

definition marker_kind :: "nat \<Rightarrow> diff_line_kind option" where
  "marker_kind c = (if c = 32 then Some CONTEXT else if c = 45 then Some DELETION else if c = 43 then Some ADDITION else None)"

definition add_line :: "diff_line_kind \<Rightarrow> pystr \<Rightarrow> hunk_state \<Rightarrow> hunk_state" where
  "add_line kind content h =
     h\<lparr>hk_lines := hk_lines h @ [\<lparr>dl_kind = kind,
         dl_old = (if kind = ADDITION then None else Some (hk_old h)),
         dl_new = (if kind = DELETION then None else Some (hk_new h)),
         dl_content = content, dl_newline = True\<rparr>],
       hk_old := hk_old h + (if kind = ADDITION then 0 else 1),
       hk_new := hk_new h + (if kind = DELETION then 0 else 1)\<rparr>"

definition strip_newline :: "bytes \<Rightarrow> bytes" where
  "strip_newline s = (if ends_with [10] s then butlast s else s)"

definition hunk_line ::
  "collection_budget option \<Rightarrow> hunk_state \<times> collect_state \<Rightarrow> bytes \<Rightarrow> collect_error + hunk_state \<times> collect_state" where
  "hunk_line budget s line =
     and_then (check_deadline budget (snd s)) (\<lambda>st.
     let h = fst s in
     case match_hunk line of
       Some m \<Rightarrow> and_then (finish_current budget (h, st)) (\<lambda>f. and_then (open_hunk m (fst f)) (\<lambda>h'. Inr (h', snd f)))
     | None \<Rightarrow>
         if hk_header h = None then Inr (h, st)
         else if line = git_no_newline_marker then
           and_then (require (hk_lines h \<noteq> []) malformed) (\<lambda>_.
             Inr (h\<lparr>hk_lines := butlast (hk_lines h) @ [(last (hk_lines h))\<lparr>dl_newline := False\<rparr>]\<rparr>, st))
         else if line = [] then Inl malformed
         else case marker_kind (hd line) of
           None \<Rightarrow> finish_current budget (h, st)
         | Some kind \<Rightarrow>
             and_then (case budget of None \<Rightarrow> Inr st | Some b \<Rightarrow> reserve_diff_line b st) (\<lambda>st.
             case utf8_decode (strip_newline (tl line)) of
               None \<Rightarrow> Inl malformed
             | Some content \<Rightarrow> Inr (add_line kind content h, st)))"

definition parse_hunks :: "collection_budget option \<Rightarrow> bytes \<Rightarrow> diff_hunk list collect" where
  "parse_hunks budget patch st =
     and_then (fold_res (hunk_line budget) (no_hunks, st) (split_lf patch)) (\<lambda>s.
     and_then (finish_current budget s) (\<lambda>f. Inr (hk_hunks (fst f), snd f)))"

end
