(* ===== verification/Git_Collect.thy ===== *)
theory Git_Collect
  imports Git_Parse
begin

unbundle bit_operations_syntax

text \<open>
  The collection of \<open>src/src/repoguard/_git.py\<close>: the commands it runs, the contents it classifies, the patches
  it reads and the bundle it returns. The system is an argument: how a request's path resolves, what the
  environment holds, what starting a process leads to, the n-th of a collection being asked with its number.
\<close>

section \<open>The system\<close>

text \<open>A process without a bound runs to its end.\<close>

datatype run_result = RunMissing | RunFailed | Ran completed_process

type_synonym environ = "pystr \<Rightarrow> pystr option"

text \<open>The command, its environment, its directory and the two contents it can read from pipes.\<close>

record git_call =
  gc_command :: "pystr list"
  gc_environment :: environ
  gc_cwd :: "pystr option"
  gc_pipes :: "(bytes \<times> bytes) option"

datatype path_status = PathMissing | PathError | PathResolved pystr

record file_status =
  fs_link :: bool
  fs_regular :: bool
  fs_links :: nat
  fs_mode :: nat

text \<open>The pipes of a patch: whether they could be opened and their writers started, whether the writers
  stopped and whether one of them failed.\<close>

record pipe_status =
  ps_opened :: bool
  ps_started :: bool
  ps_stopped :: bool
  ps_failed :: bool
  ps_old :: pystr
  ps_new :: pystr

record git_system =
  gs_path :: "pystr \<Rightarrow> path_status"
  gs_lstat :: "pystr \<Rightarrow> file_status option"
  gs_environ :: environ
  gs_spawn :: "nat \<Rightarrow> git_call \<Rightarrow> spawn_result"
  gs_run :: "nat \<Rightarrow> git_call \<Rightarrow> run_result"
  gs_pipes :: "nat \<Rightarrow> pipe_status"
  gs_descriptors :: "pystr option"
  gs_facades :: pystr
  gs_clock :: "nat \<Rightarrow> rat"

section \<open>Commands\<close>

abbreviation devnull :: pystr where
  "devnull \<equiv> lit ''/dev/null''"

definition git_environment :: "git_system \<Rightarrow> pystr option \<Rightarrow> environ" where
  "git_environment sys attribute_source =
     (\<lambda>name. if starts_with (lit ''GIT_'') name \<or> starts_with (lit ''REPOGUARD_'') name then None else gs_environ sys name)
     ++ map_of [(lit ''GIT_ATTR_GLOBAL'', devnull), (lit ''GIT_ATTR_NOSYSTEM'', lit ''1''),
       (lit ''GIT_GRAFT_FILE'', devnull), (lit ''GIT_NO_LAZY_FETCH'', lit ''1''),
       (lit ''GIT_NO_REPLACE_OBJECTS'', lit ''1''), (lit ''GIT_OPTIONAL_LOCKS'', lit ''0''),
       (lit ''GIT_PAGER'', lit ''cat''), (lit ''GIT_TERMINAL_PROMPT'', lit ''0''),
       (lit ''LANG'', lit ''C''), (lit ''LC_ALL'', lit ''C'')]
     ++ (case attribute_source of None \<Rightarrow> Map.empty | Some a \<Rightarrow> [lit ''GIT_ATTR_SOURCE'' \<mapsto> a])"

definition git_executable :: "collection_budget option \<Rightarrow> pystr" where
  "git_executable budget = (case budget of None \<Rightarrow> lit ''git'' | Some b \<Rightarrow> cb_executable b)"

definition git_command :: "collection_budget option \<Rightarrow> pystr list" where
  "git_command budget =
     [git_executable budget, lit ''--literal-pathspecs'', lit ''-c'', lit ''core.attributesFile=/dev/null'',
      lit ''-c'', lit ''diff.orderFile=/dev/null'', lit ''-c'', lit ''diff.suppressBlankEmpty=false'']"

definition control_output_bytes :: int where
  "control_output_bytes = 1024 * 1024"

definition raw_change_output_bytes :: int where
  "raw_change_output_bytes = 16 * 1024 * 1024"

definition invoke_bounded_process ::
  "git_system \<Rightarrow> collection_budget \<Rightarrow> int \<Rightarrow> int \<Rightarrow> evidence_error_code \<Rightarrow> git_call \<Rightarrow> completed_process collect" where
  "invoke_bounded_process sys b stdout_limit stderr_limit overflow_code call st =
     and_then (check_deadline (Some b) st) (\<lambda>st.
     and_then (require (0 \<le> stdout_limit \<and> 0 \<le> stderr_limit) over_limit) (\<lambda>_.
     and_then (run_bounded (\<lambda>s. case s of STDOUT \<Rightarrow> nat stdout_limit | STDERR \<Rightarrow> nat stderr_limit) overflow_code
       (cb_deadline b) (gs_spawn sys (co_calls st) call)) (\<lambda>completed.
     and_then (check_deadline (Some b) (st\<lparr>co_calls := Suc (co_calls st)\<rparr>)) (\<lambda>st. Inr (completed, st)))))"

definition run_unbounded :: "git_system \<Rightarrow> git_call \<Rightarrow> completed_process collect" where
  "run_unbounded sys call st =
     (case gs_run sys (co_calls st) call of
        RunMissing \<Rightarrow> Inl (CollectError GIT_UNAVAILABLE)
      | RunFailed \<Rightarrow> Inl command_failed
      | Ran completed \<Rightarrow> Inr (completed, st\<lparr>co_calls := Suc (co_calls st)\<rparr>))"

definition invoke ::
  "git_system \<Rightarrow> collection_budget option \<Rightarrow> int \<Rightarrow> evidence_error_code \<Rightarrow> git_call \<Rightarrow> completed_process collect" where
  "invoke sys budget stdout_limit overflow_code call =
     (case budget of
        None \<Rightarrow> run_unbounded sys call
      | Some b \<Rightarrow> invoke_bounded_process sys b stdout_limit control_output_bytes overflow_code call)"

definition invoke_git ::
  "git_system \<Rightarrow> collection_budget option \<Rightarrow> pystr \<Rightarrow> pystr list \<Rightarrow> int \<Rightarrow> evidence_error_code \<Rightarrow> completed_process collect" where
  "invoke_git sys budget worktree args stdout_limit overflow_code =
     invoke sys budget stdout_limit overflow_code
       \<lparr>gc_command = git_command budget @ [lit ''-C'', worktree] @ args, gc_environment = git_environment sys None,
        gc_cwd = None, gc_pipes = None\<rparr>"

definition invoke_object_git ::
  "git_system \<Rightarrow> collection_budget option \<Rightarrow> pystr \<Rightarrow> pystr \<Rightarrow> pystr list \<Rightarrow> pystr \<Rightarrow> int \<Rightarrow> completed_process collect" where
  "invoke_object_git sys budget object_format object_directory args attribute_source stdout_limit =
     invoke sys budget stdout_limit evidence_error_code.RESOURCE_LIMIT
       \<lparr>gc_command = git_command budget @ args,
        gc_environment = git_environment sys (Some attribute_source) ++
          map_of [(lit ''GIT_CONFIG_GLOBAL'', devnull), (lit ''GIT_CONFIG_NOSYSTEM'', lit ''1''),
            (lit ''GIT_DIR'', gs_facades sys @ 47 # object_format), (lit ''GIT_OBJECT_DIRECTORY'', object_directory)],
        gc_cwd = Some [47], gc_pipes = None\<rparr>"

definition successful :: "completed_process \<times> collect_state \<Rightarrow> collect_error + bytes \<times> collect_state" where
  "successful r = and_then (require (cp_code (fst r) = 0) command_failed) (\<lambda>_. Inr (cp_stdout (fst r), snd r))"

definition run_required ::
  "git_system \<Rightarrow> collection_budget option \<Rightarrow> pystr \<Rightarrow> pystr list \<Rightarrow> int \<Rightarrow> evidence_error_code \<Rightarrow> bytes collect" where
  "run_required sys budget worktree args stdout_limit overflow_code st =
     and_then (invoke_git sys budget worktree args stdout_limit overflow_code st) successful"

definition run_object_git_required ::
  "git_system \<Rightarrow> collection_budget option \<Rightarrow> pystr \<Rightarrow> pystr \<Rightarrow> pystr list \<Rightarrow> pystr \<Rightarrow> int \<Rightarrow> bytes collect" where
  "run_object_git_required sys budget object_format object_directory args attribute_source stdout_limit st =
     and_then (invoke_object_git sys budget object_format object_directory args attribute_source stdout_limit st) successful"

section \<open>The repository\<close>

definition resolve_worktree :: "git_system \<Rightarrow> collection_budget option \<Rightarrow> pystr \<Rightarrow> pystr collect" where
  "resolve_worktree sys budget path st =
     and_then (check_deadline budget st) (\<lambda>st.
     case gs_path sys path of
       PathMissing \<Rightarrow> Inl (CollectError REPOSITORY_PATH_MISSING)
     | PathError \<Rightarrow> Inl (CollectError REPOSITORY_PATH_MISSING)
     | PathResolved candidate \<Rightarrow>
         and_then (invoke_git sys budget candidate [lit ''rev-parse'', lit ''--show-toplevel'']
           control_output_bytes evidence_error_code.RESOURCE_LIMIT st) (\<lambda>r.
         and_then (require (cp_code (fst r) = 0) (CollectError NOT_A_WORKTREE)) (\<lambda>_.
         and_then (single_path_output (cp_stdout (fst r))) (\<lambda>root_bytes.
         and_then (decode_path root_bytes) (\<lambda>root_text. Inr (posix_text root_text, snd r))))))"

definition read_object_format :: "git_system \<Rightarrow> collection_budget option \<Rightarrow> pystr \<Rightarrow> pystr collect" where
  "read_object_format sys budget worktree st =
     and_then (run_required sys budget worktree [lit ''rev-parse'', lit ''--show-object-format'']
       control_output_bytes evidence_error_code.RESOURCE_LIMIT st) (\<lambda>r.
     and_then (single_output_line (fst r)) (\<lambda>line.
     and_then (require (list_all (\<lambda>c. c < 128) line) malformed) (\<lambda>_.
     and_then (require (line \<in> {lit ''sha1'', lit ''sha256''}) malformed) (\<lambda>_. Inr (line, snd r)))))"

definition oid_length_for :: "pystr \<Rightarrow> nat" where
  "oid_length_for object_format = (if object_format = lit ''sha1'' then 40 else 64)"

definition read_object_directory :: "git_system \<Rightarrow> collection_budget option \<Rightarrow> pystr \<Rightarrow> pystr collect" where
  "read_object_directory sys budget worktree st =
     and_then (run_required sys budget worktree
       [lit ''rev-parse'', lit ''--path-format=absolute'', lit ''--git-path'', lit ''objects'']
       control_output_bytes evidence_error_code.RESOURCE_LIMIT st) (\<lambda>r.
     and_then (single_path_output (fst r)) (\<lambda>line.
     and_then (decode_path line) (\<lambda>text.
     and_then (require (posix_root text \<noteq> []) malformed) (\<lambda>_. Inr (posix_text text, snd r)))))"

definition resolve_ref ::
  "git_system \<Rightarrow> collection_budget option \<Rightarrow> pystr \<Rightarrow> pystr \<Rightarrow> evidence_error_code \<Rightarrow> nat \<Rightarrow> pystr collect" where
  "resolve_ref sys budget worktree ref invalid_code oid_length st =
     and_then (validate_ref ref invalid_code) (\<lambda>_.
     and_then (invoke_git sys budget worktree
       [lit ''rev-parse'', lit ''--verify'', lit ''--end-of-options'', ref @ lit ''^{commit}'']
       control_output_bytes evidence_error_code.RESOURCE_LIMIT st) (\<lambda>r.
     and_then (require (cp_code (fst r) = 0) (CollectError invalid_code)) (\<lambda>_.
     and_then (single_output_line (cp_stdout (fst r))) (\<lambda>line.
     and_then (parse_oid oid_length False line) (\<lambda>oid. Inr (oid, snd r))))))"

definition resolve_merge_base ::
  "git_system \<Rightarrow> collection_budget option \<Rightarrow> pystr \<Rightarrow> pystr \<Rightarrow> pystr \<Rightarrow> nat \<Rightarrow> pystr collect" where
  "resolve_merge_base sys budget worktree base_oid head_oid oid_length st =
     and_then (invoke_git sys budget worktree [lit ''merge-base'', lit ''--all'', base_oid, head_oid]
       control_output_bytes evidence_error_code.RESOURCE_LIMIT st) (\<lambda>r.
     and_then (require (cp_code (fst r) \<noteq> 1) (CollectError NO_MERGE_BASE)) (\<lambda>_.
     and_then (require (cp_code (fst r) = 0) command_failed) (\<lambda>_.
     and_then (parse_merge_bases oid_length (cp_stdout (fst r))) (\<lambda>bases.
     and_then (require (bases \<noteq> []) (CollectError NO_MERGE_BASE)) (\<lambda>_.
     and_then (require (length bases = 1) (CollectError AMBIGUOUS_MERGE_BASE)) (\<lambda>_. Inr (hd bases, snd r)))))))"

definition read_raw_changes ::
  "git_system \<Rightarrow> collection_budget option \<Rightarrow> pystr \<Rightarrow> pystr \<Rightarrow> pystr \<Rightarrow> pystr \<Rightarrow> nat \<Rightarrow> raw_change list collect" where
  "read_raw_changes sys budget object_format object_directory merge_base_oid head_oid oid_length st =
     and_then (run_object_git_required sys budget object_format object_directory
       (map lit [''diff'', ''--raw'', ''-z'', ''--no-abbrev'', ''--no-ext-diff'', ''--no-textconv'', ''--text'',
          ''--ignore-submodules=none'', ''--diff-algorithm=myers'', ''--no-indent-heuristic'', ''--find-renames=50%'',
          ''-l0''] @ [merge_base_oid, head_oid])
       head_oid (if budget = None then control_output_bytes else raw_change_output_bytes) st) (\<lambda>r.
     parse_raw_changes budget oid_length (fst r) (snd r))"

section \<open>Contents\<close>

definition regular_mode :: "pystr \<Rightarrow> bool" where
  "regular_mode mode \<longleftrightarrow> starts_with (lit ''100'') mode"

definition content_cache_key :: "pystr \<Rightarrow> pystr \<Rightarrow> pystr \<times> pystr" where
  "content_cache_key mode oid = (if regular_mode mode then (lit ''regular'', oid) else (mode, oid))"

definition classify_bytes :: "bytes \<Rightarrow> content_kind \<times> bytes option" where
  "classify_bytes content =
     (if 0 \<in> set content \<or> utf8_decode content = None then (BINARY, None) else (TEXT, Some content))"

definition classify_content ::
  "git_system \<Rightarrow> collection_budget option \<Rightarrow> pystr \<Rightarrow> pystr \<Rightarrow> pystr \<Rightarrow> (content_kind \<times> bytes option) collect" where
  "classify_content sys budget worktree mode oid st =
     and_then (check_deadline budget st) (\<lambda>st.
     let is_symlink = (mode = lit ''120000'') in
     if is_symlink \<and> budget = None then Inr ((SYMLINK, None), st)
     else if mode = lit ''160000'' then Inr ((SUBMODULE, None), st)
     else if \<not> is_symlink \<and> \<not> regular_mode mode then Inr ((OTHER, None), st)
     else case budget of
       None \<Rightarrow>
         and_then (run_required sys budget worktree [lit ''cat-file'', lit ''blob'', oid]
           control_output_bytes evidence_error_code.RESOURCE_LIMIT st) (\<lambda>r. Inr (classify_bytes (fst r), snd r))
     | Some b \<Rightarrow>
         and_then (run_required sys budget worktree [lit ''cat-file'', lit ''-s'', oid]
           control_output_bytes evidence_error_code.RESOURCE_LIMIT st) (\<lambda>r.
         and_then (parse_blob_size (fst r)) (\<lambda>amount.
         and_then (reserve_blob_bytes b amount (snd r)) (\<lambda>st.
         if is_symlink then Inr ((SYMLINK, None), st)
         else
           and_then (run_required sys budget worktree [lit ''cat-file'', lit ''blob'', oid] amount MALFORMED_GIT_OUTPUT st) (\<lambda>q.
           and_then (require (int (length (fst q)) = amount) malformed) (\<lambda>_.
             Inr (classify_bytes (fst q), snd q)))))))"

definition materialize_version ::
  "git_system \<Rightarrow> collection_budget option \<Rightarrow> pystr \<Rightarrow> pystr \<Rightarrow> pystr \<Rightarrow> pystr \<Rightarrow> file_version option collect" where
  "materialize_version sys budget worktree path mode oid st =
     (if mode = absent_mode then Inr (None, st)
      else
        let key = content_cache_key mode oid in
        and_then
          (case co_cache st key of
             Some content \<Rightarrow> Inr (content, st)
           | None \<Rightarrow>
               and_then (classify_content sys budget worktree mode oid st) (\<lambda>r.
                 Inr (fst r, (snd r)\<lparr>co_cache := (co_cache (snd r))(key \<mapsto> fst r)\<rparr>)))
          (\<lambda>r. Inr (Some \<lparr>fv_path = path, fv_mode = mode, fv_oid = oid, fv_content_kind = fst (fst r)\<rparr>, snd r)))"

definition text_content :: "file_version option \<Rightarrow> content_cache \<Rightarrow> collect_error + bytes" where
  "text_content version cache =
     (case version of
        None \<Rightarrow> Inr []
      | Some v \<Rightarrow>
          (case cache (content_cache_key (fv_mode v) (fv_oid v)) of
             Some (TEXT, Some content) \<Rightarrow> Inr content
           | _ \<Rightarrow> Inl malformed))"

section \<open>Patches\<close>

definition no_index_arguments :: "pystr list" where
  "no_index_arguments = map lit
     [''diff'', ''--no-index'', ''--patch'', ''--text'', ''--unified=3'', ''--no-color'', ''--no-ext-diff'',
      ''--no-textconv'', ''--full-index'', ''--diff-algorithm=myers'', ''--no-indent-heuristic'',
      ''--inter-hunk-context=0'', ''--src-prefix=a/'', ''--dst-prefix=b/'', ''--output-indicator-new=+'',
      ''--output-indicator-old=-'', ''--output-indicator-context= '', ''--'']"

definition invoke_no_index_diff ::
  "git_system \<Rightarrow> collection_budget option \<Rightarrow> pystr \<Rightarrow> pystr \<Rightarrow> bytes \<times> bytes \<Rightarrow> completed_process collect" where
  "invoke_no_index_diff sys budget old_descriptor new_descriptor contents st =
     (case gs_descriptors sys of
        None \<Rightarrow> Inl command_failed
      | Some descriptor_root \<Rightarrow>
          invoke sys budget
            (case budget of None \<Rightarrow> 0 | Some b \<Rightarrow> el_max_diff_bytes (cb_limits b) - co_diff_bytes st)
            evidence_error_code.RESOURCE_LIMIT
            \<lparr>gc_command = git_command budget @ no_index_arguments @
               [descriptor_root @ 47 # old_descriptor, descriptor_root @ 47 # new_descriptor],
             gc_environment = git_environment sys None ++
               map_of [(lit ''GIT_ATTR_GLOBAL'', devnull), (lit ''GIT_ATTR_NOSYSTEM'', lit ''1''),
                 (lit ''GIT_CONFIG_GLOBAL'', devnull), (lit ''GIT_CONFIG_NOSYSTEM'', lit ''1''),
                 (lit ''GIT_DIR'', gs_facades sys @ lit ''/sha1'')],
             gc_cwd = Some [47], gc_pipes = Some contents\<rparr> st)"

text \<open>The writers are stopped and joined whatever the diff ends in.\<close>

definition piped_diff ::
  "git_system \<Rightarrow> collection_budget option \<Rightarrow> bytes \<Rightarrow> bytes \<Rightarrow> completed_process collect" where
  "piped_diff sys budget old_content new_content st =
     (let p = gs_pipes sys (co_calls st) in
      and_then (require (ps_opened p) command_failed) (\<lambda>_.
      let r = and_then (require (ps_started p) command_failed) (\<lambda>_.
            invoke_no_index_diff sys budget (ps_old p) (ps_new p) (old_content, new_content) st) in
      and_then (require (ps_stopped p) command_failed) (\<lambda>_.
      and_then r (\<lambda>completed.
      and_then (require (\<not> ps_failed p) command_failed) (\<lambda>_. Inr completed)))))"

definition read_patch :: "git_system \<Rightarrow> collection_budget option \<Rightarrow> bytes \<Rightarrow> bytes \<Rightarrow> bytes collect" where
  "read_patch sys budget old_content new_content st =
     and_then (check_deadline budget st) (\<lambda>st.
     if old_content = new_content then Inr ([], st)
     else
       and_then (require (case budget of None \<Rightarrow> True | Some b \<Rightarrow> co_diff_bytes st < el_max_diff_bytes (cb_limits b))
         over_limit) (\<lambda>_.
       and_then (piped_diff sys budget old_content new_content st) (\<lambda>r.
       let patch = cp_stdout (fst r) in
       and_then (require (cp_code (fst r) = 1 \<and> cp_stderr (fst r) = []) command_failed) (\<lambda>_.
       case budget of
         None \<Rightarrow>
           and_then (parse_hunks None patch (snd r)) (\<lambda>h.
           and_then (require (fst h \<noteq> []) malformed) (\<lambda>_. Inr (patch, snd h)))
       | Some b \<Rightarrow>
           and_then (reserve_diff_bytes b (int (length patch)) (snd r)) (\<lambda>st.
           and_then (require (patch \<noteq> []) malformed) (\<lambda>_. Inr (patch, st)))))))"

section \<open>Changes\<close>

definition is_text :: "file_version option \<Rightarrow> bool" where
  "is_text v = (case v of None \<Rightarrow> True | Some f \<Rightarrow> fv_content_kind f = TEXT)"

definition read_hunks ::
  "git_system \<Rightarrow> collection_budget option \<Rightarrow> file_version option \<Rightarrow> file_version option \<Rightarrow> diff_hunk list collect" where
  "read_hunks sys budget old new st =
     (if (old \<noteq> None \<or> new \<noteq> None) \<and> is_text old \<and> is_text new
      then
        and_then (text_content old (co_cache st)) (\<lambda>old_content.
        and_then (text_content new (co_cache st)) (\<lambda>new_content.
        and_then (read_patch sys budget old_content new_content st) (\<lambda>p.
        and_then (parse_hunks budget (fst p) (snd p)) (\<lambda>h.
        and_then (require (budget = None \<or> old_content = new_content \<or> fst h \<noteq> []) malformed) (\<lambda>_. Inr h)))))
      else Inr ([], st))"

definition materialize_change ::
  "git_system \<Rightarrow> collection_budget option \<Rightarrow> pystr \<Rightarrow> raw_change \<Rightarrow> file_change collect" where
  "materialize_change sys budget worktree raw st =
     and_then (check_deadline budget st) (\<lambda>st.
     and_then (materialize_version sys budget worktree (rw_old_path raw) (rw_old_mode raw) (rw_old_oid raw) st) (\<lambda>old.
     and_then (materialize_version sys budget worktree (rw_new_path raw) (rw_new_mode raw) (rw_new_oid raw) (snd old)) (\<lambda>new.
     and_then (read_hunks sys budget (fst old) (fst new) (snd new)) (\<lambda>h.
       Inr (\<lparr>fc_change_type = rw_change_type raw, fc_rename_similarity = rw_similarity raw,
         fc_old = fst old, fc_new = fst new, fc_hunks = fst h\<rparr>, snd h)))))"

fun materialize_changes ::
  "git_system \<Rightarrow> collection_budget option \<Rightarrow> pystr \<Rightarrow> raw_change list \<Rightarrow> file_change list collect" where
  "materialize_changes sys budget worktree [] st = Inr ([], st)"
| "materialize_changes sys budget worktree (raw # raws) st =
     and_then (materialize_change sys budget worktree raw st) (\<lambda>c.
     and_then (materialize_changes sys budget worktree raws (snd c)) (\<lambda>cs. Inr (fst c # fst cs, snd cs)))"

text \<open>A change has a side; the paths of both are decoded from UTF-8, so they can be encoded.\<close>

definition change_sort_key :: "file_change \<Rightarrow> bytes \<times> bytes" where
  "change_sort_key c =
     (let primary = (case fc_new c of Some v \<Rightarrow> fv_path v | None \<Rightarrow> (case fc_old c of Some v \<Rightarrow> fv_path v | None \<Rightarrow> []));
          secondary = (case fc_old c of Some v \<Rightarrow> fv_path v | None \<Rightarrow> primary) in
      (utf8_bytes primary, utf8_bytes secondary))"

section \<open>The bundle\<close>

definition path_prefixes :: "pystr \<Rightarrow> pystr list" where
  "path_prefixes p = map (\<lambda>k. posix_root p @ join_on 47 (take k (posix_parts p))) [0..<Suc (length (posix_parts p))]"

definition validate_git_executable :: "git_system \<Rightarrow> pystr \<Rightarrow> collect_error + pystr" where
  "validate_git_executable sys path =
     and_then (require (posix_root path \<noteq> [] \<and> utf8_ok path) CollectValueError) (\<lambda>_.
     and_then (map_res (\<lambda>p. case gs_lstat sys p of None \<Rightarrow> Inl CollectValueError | Some m \<Rightarrow> Inr m) (path_prefixes path)) (\<lambda>ms.
     and_then (require (list_all (\<lambda>m. \<not> fs_link m) (tl ms)) CollectValueError) (\<lambda>_.
     and_then (require (fs_regular (last ms) \<and> fs_links (last ms) = 1 \<and> fs_mode (last ms) AND 73 \<noteq> 0) CollectValueError) (\<lambda>_.
       Inr path))))"

definition new_budget :: "git_system \<Rightarrow> evidence_limits \<Rightarrow> pystr \<Rightarrow> collection_budget" where
  "new_budget sys l executable =
     \<lparr>cb_limits = l, cb_deadline = gs_clock sys 0 + (case el_git_timeout_seconds l of None \<Rightarrow> 0 | Some t \<Rightarrow> t),
      cb_executable = executable, cb_clock = gs_clock sys\<rparr>"

definition budget_for ::
  "git_system \<Rightarrow> evidence_limits option \<Rightarrow> pystr option \<Rightarrow> collect_error + collection_budget option" where
  "budget_for sys limits executable =
     and_then (require (executable = None \<or> limits \<noteq> None) CollectValueError) (\<lambda>_.
     and_then (case executable of None \<Rightarrow> Inr (lit ''git'') | Some e \<Rightarrow> validate_git_executable sys e) (\<lambda>e.
     case limits of
       None \<Rightarrow> Inr None
     | Some l \<Rightarrow> and_then (require (evidence_limits_valid l) CollectValueError) (\<lambda>_. Inr (Some (new_budget sys l e)))))"

definition new_collection :: "collection_budget option \<Rightarrow> collect_state" where
  "new_collection budget =
     \<lparr>co_readings = (if budget = None then 0 else 1), co_calls = 0, co_blob_bytes = 0, co_diff_bytes = 0,
      co_diff_lines = 0, co_cache = Map.empty\<rparr>"

definition collect_revisions ::
  "git_system \<Rightarrow> collection_budget option \<Rightarrow> pystr \<Rightarrow> pystr \<Rightarrow> pystr \<Rightarrow> nat \<Rightarrow> revision_evidence collect" where
  "collect_revisions sys budget worktree base_ref head_ref oid_length st =
     and_then (resolve_ref sys budget worktree base_ref INVALID_BASE_REF oid_length st) (\<lambda>base.
     and_then (resolve_ref sys budget worktree head_ref INVALID_HEAD_REF oid_length (snd base)) (\<lambda>head.
     and_then (resolve_merge_base sys budget worktree (fst base) (fst head) oid_length (snd head)) (\<lambda>merge_base.
       Inr (\<lparr>rv_base_ref = base_ref, rv_head_ref = head_ref, rv_base_oid = fst base, rv_head_oid = fst head,
         rv_merge_base_oid = fst merge_base\<rparr>, snd merge_base))))"

definition collect_bundle ::
  "git_system \<Rightarrow> collection_budget option \<Rightarrow> pystr \<Rightarrow> pystr \<Rightarrow> pystr \<Rightarrow> evidence_bundle collect" where
  "collect_bundle sys budget path base_ref head_ref st =
     and_then (resolve_worktree sys budget path st) (\<lambda>worktree.
     and_then (read_object_format sys budget (fst worktree) (snd worktree)) (\<lambda>object_format.
     and_then (read_object_directory sys budget (fst worktree) (snd object_format)) (\<lambda>object_directory.
     let oid_length = oid_length_for (fst object_format) in
     and_then (collect_revisions sys budget (fst worktree) base_ref head_ref oid_length (snd object_directory)) (\<lambda>revisions.
     and_then (read_raw_changes sys budget (fst object_format) (fst object_directory)
       (rv_merge_base_oid (fst revisions)) (rv_head_oid (fst revisions)) oid_length (snd revisions)) (\<lambda>raws.
     and_then (materialize_changes sys budget (fst worktree) (fst raws) (snd raws)) (\<lambda>changes.
     and_then (check_deadline budget (snd changes)) (\<lambda>st.
       Inr (\<lparr>eb_repository = \<lparr>re_root = fst worktree, re_object_format = fst object_format\<rparr>,
         eb_revisions = fst revisions, eb_changes = sort_key change_sort_key (fst changes), eb_schema_version = 1\<rparr>, st))))))))"

definition collect_evidence ::
  "git_system \<Rightarrow> evidence_limits option \<Rightarrow> pystr option \<Rightarrow> pystr \<Rightarrow> pystr \<Rightarrow> pystr \<Rightarrow> collect_error + evidence_bundle" where
  "collect_evidence sys limits executable path base_ref head_ref =
     and_then (budget_for sys limits executable) (\<lambda>budget.
     and_then (collect_bundle sys budget path base_ref head_ref (new_collection budget)) (\<lambda>r. Inr (fst r)))"

end
