(* ===== verification/Git_Hunk_Facts.thy ===== *)
theory Git_Hunk_Facts
  imports Git_Parse Canonical_Facts
begin

text \<open>
  The hunks of a patch: the text of a hunk as git writes it, what makes a hunk right, and the proof that the
  parser returns right hunks only and reads the text of right hunks back.
\<close>

section \<open>Line feeds\<close>

lemma utf8_char_lf: "utf8_char c = Some b \<Longrightarrow> 10 \<in> set b \<longleftrightarrow> c = 10"
  by (auto simp: utf8_char.simps split: if_splits)

lemma utf8_encode_lf: "utf8_encode s = Some b \<Longrightarrow> 10 \<in> set b \<longleftrightarrow> 10 \<in> set s"
proof (induction s arbitrary: b)
  case (Cons c s)
  then obtain x y where "utf8_char c = Some x" "utf8_encode s = Some y" "b = x @ y"
    by (auto split: option.splits)
  with Cons.IH utf8_char_lf show ?case by fastforce
qed simp

lemma utf8_bytes_lf [simp]: "utf8_ok s \<Longrightarrow> 10 \<in> set (utf8_bytes s) \<longleftrightarrow> 10 \<in> set s"
  using utf8_encode_lf utf8_ok_iff by blast

lemma split_lf_lines: "\<forall>l \<in> set ls. \<exists>w. l = w @ [10] \<and> 10 \<notin> set w \<Longrightarrow> split_lf (concat ls) = ls"
proof (induction ls)
  case (Cons l ls)
  then obtain w where "l = w @ [10]" "10 \<notin> set w" by auto
  with Cons show ?case using split_lf_line [of w "concat ls"] by simp
qed simp

lemma strip_newline_line: "10 \<notin> set (butlast l) \<Longrightarrow> 10 \<notin> set (strip_newline (tl l))"
  by (cases l; cases "tl l" rule: rev_cases) (auto simp: strip_newline_def ends_with_last butlast_append)

section \<open>Right hunks\<close>

text \<open>Old and new line numbers count on from the starts of the hunk.\<close>

fun numbered :: "int \<Rightarrow> int \<Rightarrow> diff_line list \<Rightarrow> bool" where
  "numbered old new [] = True"
| "numbered old new (l # ls) \<longleftrightarrow>
     dl_old l = (if old_side l then Some old else None) \<and> dl_new l = (if new_side l then Some new else None) \<and>
     numbered (if old_side l then old + 1 else old) (if new_side l then new + 1 else new) ls"

lemma numbered_snoc:
  "numbered old new (ls @ [l]) \<longleftrightarrow> numbered old new ls \<and>
     dl_old l = (if old_side l then Some (old + int (length (filter old_side ls))) else None) \<and>
     dl_new l = (if new_side l then Some (new + int (length (filter new_side ls))) else None)"
  by (induction ls arbitrary: old new) auto

definition content_ok :: "diff_line \<Rightarrow> bool" where
  "content_ok l \<longleftrightarrow> utf8_ok (dl_content l) \<and> 10 \<notin> set (dl_content l)"

definition git_hunk_ok :: "diff_hunk \<Rightarrow> bool" where
  "git_hunk_ok h \<longleftrightarrow>
     0 \<le> dh_old_start h \<and> 0 \<le> dh_new_start h \<and>
     dh_old_count h = int (length (filter old_side (dh_lines h))) \<and>
     dh_new_count h = int (length (filter new_side (dh_lines h))) \<and>
     numbered (dh_old_start h) (dh_new_start h) (dh_lines h) \<and> list_all content_ok (dh_lines h)"

section \<open>Parsed hunks are right\<close>

definition open_ok :: "hunk_state \<Rightarrow> bool" where
  "open_ok h \<longleftrightarrow>
     (case hk_header h of
        None \<Rightarrow> True
      | Some (old_start, _, new_start, _) \<Rightarrow>
          0 \<le> old_start \<and> 0 \<le> new_start \<and> numbered old_start new_start (hk_lines h) \<and>
          list_all content_ok (hk_lines h) \<and>
          hk_old h = old_start + int (length (filter old_side (hk_lines h))) \<and>
          hk_new h = new_start + int (length (filter new_side (hk_lines h))))"

definition hunks_ok :: "hunk_state \<Rightarrow> bool" where
  "hunks_ok h \<longleftrightarrow> list_all git_hunk_ok (hk_hunks h) \<and> open_ok h"

lemma header_int_Inr [simp]: "header_int ds = Inr n \<longleftrightarrow> length ds \<le> 4300 \<and> n = int (digits_value ds)"
  by (auto simp: header_int_def and_then_eq_Inr)

lemma check_deadline_None [simp]: "check_deadline None st = Inr st"
  by (simp add: check_deadline_def)

lemma close_hunk_ok:
  assumes "hunks_ok h" "close_hunk h = Inr h'"
  shows "hunks_ok h' \<and> hk_header h' = None"
proof (cases "hk_header h")
  case None
  with assms show ?thesis by (simp add: close_hunk_def)
next
  case (Some q)
  obtain a b c d where q: "q = (a, b, c, d)" by (cases q)
  with Some assms show ?thesis
    by (auto simp: close_hunk_def hunks_ok_def open_ok_def git_hunk_ok_def and_then_eq_Inr)
qed

lemma finish_current_ok: "hunks_ok (fst s) \<Longrightarrow> finish_current budget s = Inr f \<Longrightarrow> hunks_ok (fst f)"
  by (auto simp: finish_current_def and_then_eq_Inr dest: close_hunk_ok)

lemma open_hunk_ok: "hunks_ok h \<Longrightarrow> open_hunk m h = Inr h' \<Longrightarrow> hunks_ok h'"
  by (auto simp: open_hunk_def and_then_eq_Inr hunks_ok_def open_ok_def)

lemma add_line_ok:
  assumes "hunks_ok h" "utf8_ok content" "10 \<notin> set content"
  shows "hunks_ok (add_line kind content h)"
  using assms
  by (cases kind)
    (auto simp: hunks_ok_def open_ok_def add_line_def numbered_snoc content_ok_def old_side_def new_side_def
      split: option.splits)

lemma numbered_kept: "numbered old new (ls @ [l]) \<Longrightarrow> numbered old new (ls @ [l\<lparr>dl_newline := b\<rparr>])"
  by (simp add: numbered_snoc old_side_def new_side_def)

lemma mark_newline_ok:
  assumes "hunks_ok h" "hk_lines h \<noteq> []"
  shows "hunks_ok (h\<lparr>hk_lines := butlast (hk_lines h) @ [(last (hk_lines h))\<lparr>dl_newline := b\<rparr>]\<rparr>)"
proof -
  obtain ls l where "hk_lines h = ls @ [l]" using assms(2) by (cases "hk_lines h" rule: rev_cases) auto
  with assms(1) show ?thesis
    by (auto simp: hunks_ok_def open_ok_def numbered_kept content_ok_def old_side_def new_side_def split: option.splits)
qed

lemma hunk_line_ok:
  assumes ok: "hunks_ok (fst s)" and line: "10 \<notin> set (butlast line)" and step: "hunk_line budget s line = Inr s'"
  shows "hunks_ok (fst s')"
proof -
  obtain st where st: "check_deadline budget (snd s) = Inr st" using step by (auto simp: hunk_line_def and_then_eq_Inr)
  note step = step [unfolded hunk_line_def st and_then_Inr Let_def]
  show ?thesis
  proof (cases "match_hunk line")
    case (Some m)
    with step ok show ?thesis by (auto simp: and_then_eq_Inr dest!: finish_current_ok [rotated] open_hunk_ok [rotated])
  next
    case None
    note step = step [unfolded None option.simps]
    consider "hk_header (fst s) = None" | "line = git_no_newline_marker" "hk_header (fst s) \<noteq> None"
      | "marker_kind (hd line) = None" "line \<noteq> []" "line \<noteq> git_no_newline_marker" "hk_header (fst s) \<noteq> None"
      | kind where "marker_kind (hd line) = Some kind" "line \<noteq> []" "line \<noteq> git_no_newline_marker" "hk_header (fst s) \<noteq> None"
      using step by (cases "line = []"; cases "marker_kind (hd line)"; fastforce)
    then show ?thesis
    proof cases
      case 1
      with step ok show ?thesis by auto
    next
      case 2
      with step ok show ?thesis by (auto simp: and_then_eq_Inr mark_newline_ok)
    next
      case 3
      with step have "finish_current budget (fst s, st) = Inr s'" by simp
      with ok finish_current_ok [of "(fst s, st)"] show ?thesis by simp
    next
      case 4
      with step obtain content where c: "utf8_decode (strip_newline (tl line)) = Some content"
        "fst s' = add_line kind content (fst s)"
        by (auto simp: and_then_eq_Inr split: option.splits)
      have "utf8_encode content = Some (strip_newline (tl line))" using c(1) by (rule utf8_encode_decode)
      then have "utf8_ok content" "10 \<notin> set content"
        using utf8_encode_lf strip_newline_line [OF line] by (auto simp: utf8_ok_def)
      with add_line_ok [OF ok] c(2) show ?thesis by simp
    qed
  qed
qed

lemma parse_hunks_ok:
  assumes "parse_hunks budget patch st = Inr (hs, st')"
  shows "list_all git_hunk_ok hs"
proof -
  obtain s f where s: "fold_res (hunk_line budget) (no_hunks, st) (split_lf patch) = Inr s"
    and f: "finish_current budget s = Inr f" "hs = hk_hunks (fst f)"
    using assms by (auto simp: parse_hunks_def and_then_eq_Inr)
  have start: "hunks_ok (fst (no_hunks, st))" by (simp add: hunks_ok_def open_ok_def no_hunks_def)
  have "hunks_ok (fst s)"
    by (rule fold_res_invariant [OF s, where P = "\<lambda>s. hunks_ok (fst s)", OF start])
      (use hunk_line_ok split_lf_parts in blast)
  from finish_current_ok [OF this f(1)] f(2) show ?thesis by (simp add: hunks_ok_def)
qed

section \<open>The text of a hunk\<close>

definition header_count_text :: "int \<Rightarrow> bytes" where
  "header_count_text n = (if n = 1 then [] else 44 # nat_text (nat n))"

definition header_text :: "diff_hunk \<Rightarrow> bytes" where
  "header_text h =
     lit ''@@ -'' @ nat_text (nat (dh_old_start h)) @ header_count_text (dh_old_count h) @
     lit '' +'' @ nat_text (nat (dh_new_start h)) @ header_count_text (dh_new_count h) @ lit '' @@'' @ [10]"

fun kind_marker :: "diff_line_kind \<Rightarrow> nat" where
  "kind_marker CONTEXT = 32"
| "kind_marker DELETION = 45"
| "kind_marker ADDITION = 43"

definition line_pieces :: "diff_line \<Rightarrow> bytes list" where
  "line_pieces l =
     (kind_marker (dl_kind l) # utf8_bytes (dl_content l) @ [10]) # (if dl_newline l then [] else [git_no_newline_marker])"

definition hunk_pieces :: "diff_hunk \<Rightarrow> bytes list" where
  "hunk_pieces h = header_text h # concat (map line_pieces (dh_lines h))"

text \<open>The numbers of a header are short enough to be read.\<close>

definition header_fits :: "diff_hunk \<Rightarrow> bool" where
  "header_fits h \<longleftrightarrow>
     list_all (\<lambda>n. length (nat_text (nat n)) \<le> 4300) [dh_old_start h, dh_old_count h, dh_new_start h, dh_new_count h]"

lemma takeWhile_nat_text: "\<not> is_digit c \<Longrightarrow> takeWhile is_digit (nat_text n @ c # r) = nat_text n"
  "\<not> is_digit c \<Longrightarrow> dropWhile is_digit (nat_text n @ c # r) = c # r"
  using nat_text_digits [of n] by (simp_all add: list_all_iff)

definition count_group :: "int \<Rightarrow> bytes option" where
  "count_group n = (if n = 1 then None else Some (nat_text (nat n)))"

lemma match_range_text:
  "match_range (nat_text n @ header_count_text k @ 32 # r) = Some (nat_text n, count_group k, 32 # r)"
  by (simp add: match_range_def header_count_text_def count_group_def takeWhile_nat_text is_digit_def Let_def starts_with_def)

lemma match_header: "match_hunk (header_text h) =
  Some ((nat_text (nat (dh_old_start h)), count_group (dh_old_count h)),
    (nat_text (nat (dh_new_start h)), count_group (dh_new_count h)))"
  by (simp add: match_hunk_def header_text_def lit_def starts_with_def match_range_text hunk_tail_ok_def)

lemma header_count_group: "0 \<le> n \<Longrightarrow> length (nat_text (nat n)) \<le> 4300 \<Longrightarrow> header_count (count_group n) = Inr n"
  by (simp add: header_count_def count_group_def digits_value_text)

lemma open_header:
  assumes "git_hunk_ok h" "header_fits h"
  shows "open_hunk ((nat_text (nat (dh_old_start h)), count_group (dh_old_count h)),
      (nat_text (nat (dh_new_start h)), count_group (dh_new_count h))) q =
    Inr (q\<lparr>hk_header := Some (dh_old_start h, dh_old_count h, dh_new_start h, dh_new_count h), hk_lines := [],
      hk_old := dh_old_start h, hk_new := dh_new_start h\<rparr>)"
proof -
  have "header_int (nat_text (nat (dh_old_start h))) = Inr (dh_old_start h)"
    "header_int (nat_text (nat (dh_new_start h))) = Inr (dh_new_start h)"
    using assms by (simp_all add: git_hunk_ok_def header_fits_def digits_value_text)
  moreover have "header_count (count_group (dh_old_count h)) = Inr (dh_old_count h)"
    "header_count (count_group (dh_new_count h)) = Inr (dh_new_count h)"
    using assms header_count_group by (simp_all add: git_hunk_ok_def header_fits_def)
  ultimately show ?thesis by (simp add: open_hunk_def del: header_int_Inr)
qed

section \<open>The text is read back\<close>

lemma no_match_marker: "c \<noteq> 64 \<Longrightarrow> match_hunk (c # r) = None"
  by (simp add: match_hunk_def starts_with_def lit_def)

lemma marker_of_kind [simp]: "marker_kind (kind_marker k) = Some k" "kind_marker k \<noteq> 64" "kind_marker k \<noteq> 92"
  by (cases k; simp add: marker_kind_def)+

lemma strip_newline_snoc [simp]: "strip_newline (s @ [10]) = s"
  by (simp add: strip_newline_def ends_with_last)

lemma read_line_text:
  assumes "hk_header q \<noteq> None" "content_ok l"
  shows "hunk_line None (q, st) (kind_marker (dl_kind l) # utf8_bytes (dl_content l) @ [10]) =
    Inr (add_line (dl_kind l) (dl_content l) q, st)"
proof -
  have "utf8_decode (utf8_bytes (dl_content l)) = Some (dl_content l)"
    using assms(2) utf8_decode_encode utf8_ok_iff by (auto simp: content_ok_def)
  moreover have "kind_marker (dl_kind l) # utf8_bytes (dl_content l) @ [10] \<noteq> git_no_newline_marker"
    by (simp add: git_no_newline_marker_def)
  moreover obtain header where "hk_header q = Some header" using assms(1) by auto
  ultimately show ?thesis by (simp add: hunk_line_def no_match_marker)
qed

lemma read_marker:
  assumes "hk_header q \<noteq> None" "hk_lines q \<noteq> []"
  shows "hunk_line None (q, st) git_no_newline_marker =
    Inr (q\<lparr>hk_lines := butlast (hk_lines q) @ [(last (hk_lines q))\<lparr>dl_newline := False\<rparr>]\<rparr>, st)"
proof -
  have "match_hunk git_no_newline_marker = None" by (simp add: git_no_newline_marker_def no_match_marker)
  moreover obtain header where "hk_header q = Some header" using assms(1) by auto
  ultimately show ?thesis using assms(2) by (simp add: hunk_line_def)
qed

lemma read_line_pieces:
  assumes "hk_header q \<noteq> None" "content_ok l" "numbered (hk_old q) (hk_new q) [l]"
  shows "fold_res (hunk_line None) (q, st) (line_pieces l) =
    Inr (q\<lparr>hk_lines := hk_lines q @ [l], hk_old := (if old_side l then hk_old q + 1 else hk_old q),
      hk_new := (if new_side l then hk_new q + 1 else hk_new q)\<rparr>, st)"
proof -
  have add: "add_line (dl_kind l) (dl_content l) q =
      q\<lparr>hk_lines := hk_lines q @ [l\<lparr>dl_newline := True\<rparr>], hk_old := (if old_side l then hk_old q + 1 else hk_old q),
        hk_new := (if new_side l then hk_new q + 1 else hk_new q)\<rparr>"
    using assms(3) by (cases "dl_kind l") (auto simp: add_line_def old_side_def new_side_def intro!: diff_line.equality)
  show ?thesis
    using assms(1,2) by (cases "dl_newline l") (simp_all add: line_pieces_def read_line_text read_marker add)
qed

lemma read_lines:
  assumes "hk_header q \<noteq> None" "list_all content_ok ls" "numbered (hk_old q) (hk_new q) ls"
  shows "\<exists>old new. fold_res (hunk_line None) (q, st) (concat (map line_pieces ls)) =
    Inr (q\<lparr>hk_lines := hk_lines q @ ls, hk_old := old, hk_new := new\<rparr>, st)"
  using assms
proof (induction ls arbitrary: q)
  case Nil
  show ?case by (rule exI [of _ "hk_old q"], rule exI [of _ "hk_new q"]) simp
next
  case (Cons l ls)
  let ?q = "q\<lparr>hk_lines := hk_lines q @ [l], hk_old := (if old_side l then hk_old q + 1 else hk_old q),
      hk_new := (if new_side l then hk_new q + 1 else hk_new q)\<rparr>"
  have "fold_res (hunk_line None) (q, st) (line_pieces l) = Inr (?q, st)"
    using Cons.prems by (intro read_line_pieces) simp_all
  moreover have "\<exists>old new. fold_res (hunk_line None) (?q, st) (concat (map line_pieces ls)) =
      Inr (?q\<lparr>hk_lines := hk_lines ?q @ ls, hk_old := old, hk_new := new\<rparr>, st)"
    using Cons.prems by (intro Cons.IH) simp_all
  ultimately show ?case by (auto simp: fold_res_append)
qed

text \<open>Reading a hunk closes the hunk that is open and leaves its own open.\<close>

lemma read_hunk:
  assumes ok: "git_hunk_ok h" "header_fits h" and close: "close_hunk q = Inr q'"
  shows "\<exists>r. fold_res (hunk_line None) (q, st) (hunk_pieces h) = Inr (r, st) \<and>
    (\<exists>r'. close_hunk r = Inr r' \<and> hk_hunks r' = hk_hunks q' @ [h])"
proof -
  let ?open = "q'\<lparr>hk_header := Some (dh_old_start h, dh_old_count h, dh_new_start h, dh_new_count h), hk_lines := [],
      hk_old := dh_old_start h, hk_new := dh_new_start h\<rparr>"
  have head: "hunk_line None (q, st) (header_text h) = Inr (?open, st)"
    using open_header [OF ok] by (simp add: hunk_line_def match_header finish_current_def close)
  obtain old new where "fold_res (hunk_line None) (?open, st) (concat (map line_pieces (dh_lines h))) =
      Inr (?open\<lparr>hk_lines := dh_lines h, hk_old := old, hk_new := new\<rparr>, st)"
    using read_lines [of ?open "dh_lines h" st] ok(1) by (auto simp: git_hunk_ok_def)
  moreover have "close_hunk (?open\<lparr>hk_lines := dh_lines h, hk_old := old, hk_new := new\<rparr>) =
      Inr (?open\<lparr>hk_lines := [], hk_old := old, hk_new := new, hk_hunks := hk_hunks q' @ [h], hk_header := None\<rparr>)"
    using ok(1) by (simp add: close_hunk_def git_hunk_ok_def)
  ultimately show ?thesis using head by (auto simp: hunk_pieces_def)
qed

lemma read_hunks:
  assumes "list_all git_hunk_ok hs" "list_all header_fits hs" "close_hunk q = Inr q'"
  shows "\<exists>r. fold_res (hunk_line None) (q, st) (concat (map hunk_pieces hs)) = Inr (r, st) \<and>
    (\<exists>r'. close_hunk r = Inr r' \<and> hk_hunks r' = hk_hunks q' @ hs)"
  using assms
proof (induction hs arbitrary: q q')
  case (Cons h hs)
  then obtain r r' where r: "fold_res (hunk_line None) (q, st) (hunk_pieces h) = Inr (r, st)"
    "close_hunk r = Inr r'" "hk_hunks r' = hk_hunks q' @ [h]"
    using read_hunk [of h q q' st] by auto
  with Cons.IH [OF _ _ r(2)] Cons.prems show ?case by (auto simp: fold_res_append)
qed simp

text \<open>Lines before the first header.\<close>

definition preamble_line :: "bytes \<Rightarrow> bool" where
  "preamble_line l \<longleftrightarrow> ends_with [10] l \<and> 10 \<notin> set (butlast l) \<and> match_hunk l = None"

lemma skip_preamble:
  "list_all preamble_line pre \<Longrightarrow> fold_res (hunk_line None) (no_hunks, st) pre = Inr (no_hunks, st)"
  by (induction pre) (simp_all add: hunk_line_def preamble_line_def no_hunks_def)

lemma pieces_lines:
  assumes "list_all git_hunk_ok hs" "l \<in> set (concat (map hunk_pieces hs))"
  shows "\<exists>w. l = w @ [10] \<and> 10 \<notin> set w"
proof -
  have digits: "10 \<notin> set (nat_text n)" for n using nat_text_digits [of n] by (auto simp: list_all_iff is_digit_def)
  have head: "\<exists>w. header_text h = w @ [10] \<and> 10 \<notin> set w" for h
    unfolding header_text_def by (intro exI conjI, simp only: append_assoc [symmetric])
      (simp add: lit_def digits header_count_text_def)
  have marker: "kind_marker k \<noteq> 10" for k by (cases k) simp_all
  show ?thesis using assms head marker
    by (fastforce simp: hunk_pieces_def line_pieces_def git_no_newline_marker_def lit_def git_hunk_ok_def content_ok_def list_all_iff
      intro: exI [of _ "kind_marker k # utf8_bytes c" for k c] split: if_splits)
qed


text \<open>
  C29. The parser of patches and the text of hunks. Every hunk the parser returns has the counts of its
  header, consecutive line numbers from its starts, and contents without a line feed; and the text of such
  hunks, as git prints it, after any lines that are no header, is read back as exactly these hunks.
\<close>

theorem hunks_round_trip:
  "(\<forall>budget patch st. case parse_hunks budget patch st of Inr (hs, _) \<Rightarrow> list_all git_hunk_ok hs | Inl _ \<Rightarrow> True) \<and>
   (list_all preamble_line pre \<longrightarrow> list_all git_hunk_ok hunks \<longrightarrow> list_all header_fits hunks \<longrightarrow>
    parse_hunks None (concat (pre @ concat (map hunk_pieces hunks))) st = Inr (hunks, st))"
proof (intro conjI allI impI)
  fix budget patch st
  show "case parse_hunks budget patch st of Inr (hs, _) \<Rightarrow> list_all git_hunk_ok hs | Inl _ \<Rightarrow> True"
    using parse_hunks_ok [of budget patch st] by (simp split: sum.split prod.split)
next
  assume pre: "list_all preamble_line pre" and ok: "list_all git_hunk_ok hunks" "list_all header_fits hunks"
  have "\<exists>w. l = w @ [10] \<and> 10 \<notin> set w" if "l \<in> set pre" for l
    using pre that by (cases l rule: rev_cases) (auto simp: list_all_iff preamble_line_def ends_with_last)
  then have split: "split_lf (concat (pre @ concat (map hunk_pieces hunks))) = pre @ concat (map hunk_pieces hunks)"
    using pieces_lines [OF ok(1)] by (intro split_lf_lines) auto
  have "close_hunk no_hunks = Inr no_hunks" by (simp add: close_hunk_def no_hunks_def)
  from read_hunks [OF ok this, of st] obtain r r' where
    "fold_res (hunk_line None) (no_hunks, st) (concat (map hunk_pieces hunks)) = Inr (r, st)"
    "close_hunk r = Inr r'" "hk_hunks r' = hunks"
    by (auto simp: no_hunks_def)
  then show "parse_hunks None (concat (pre @ concat (map hunk_pieces hunks))) st = Inr (hunks, st)"
    unfolding parse_hunks_def split by (simp add: skip_preamble [OF pre] fold_res_append finish_current_def)
qed


text \<open>A patch with a line kept, a line removed and a line added that has no line feed.\<close>

definition sample_hunk :: diff_hunk where
  "sample_hunk = \<lparr>dh_old_start = 1, dh_old_count = 2, dh_new_start = 1, dh_new_count = 2,
     dh_lines = [\<lparr>dl_kind = CONTEXT, dl_old = Some 1, dl_new = Some 1, dl_content = lit ''a'', dl_newline = True\<rparr>,
       \<lparr>dl_kind = DELETION, dl_old = Some 2, dl_new = None, dl_content = lit ''b'', dl_newline = True\<rparr>,
       \<lparr>dl_kind = ADDITION, dl_old = None, dl_new = Some 2, dl_content = lit ''c'', dl_newline = False\<rparr>]\<rparr>"

definition idle_state :: collect_state where
  "idle_state = \<lparr>co_readings = 0, co_calls = 0, co_blob_bytes = 0, co_diff_bytes = 0, co_diff_lines = 0,
     co_cache = Map.empty\<rparr>"

lemma sample_hunk_ok: "git_hunk_ok sample_hunk" "header_fits sample_hunk" "preamble_line (lit ''--- a/x'' @ [10])"
  by (simp_all add: git_hunk_ok_def header_fits_def sample_hunk_def old_side_def new_side_def content_ok_def lit_def
    utf8_ok_def nat_text.simps preamble_line_def ends_with_last match_hunk_def starts_with_def)

theorem hunks_round_trip_witness:
  "parse_hunks None (concat ([lit ''--- a/x'' @ [10]] @ concat (map hunk_pieces [sample_hunk]))) idle_state =
   Inr ([sample_hunk], idle_state)"
  using hunks_round_trip [of "[lit ''--- a/x'' @ [10]]" "[sample_hunk]" idle_state] sample_hunk_ok by simp

end
