(* ===== verification/Git_Limits.thy ===== *)
theory Git_Limits
  imports Git_Collect Git_Hunk_Facts Review_Facts
begin

text \<open>
  What a collection returns: within the limits it was given, and, where git prints what it documents, a
  bundle the review accepts.
\<close>

section \<open>Sums over lines\<close>

lemma fold_res_measure:
  assumes "fold_res f s xs = Inr t" and "\<And>s x s'. x \<in> set xs \<Longrightarrow> f s x = Inr s' \<Longrightarrow> m s' \<le> m s + (g x :: nat)"
  shows "m t \<le> m s + sum_list (map g xs)"
  using assms
proof (induction xs arbitrary: s)
  case (Cons x xs)
  from Cons.prems(1) obtain s' where s': "f s x = Inr s'" "fold_res f s' xs = Inr t" by (auto simp: and_then_eq_Inr)
  have "m t \<le> m s' + sum_list (map g xs)" using s'(2) Cons.prems(2) by (intro Cons.IH) auto
  moreover have "m s' \<le> m s + g x" using Cons.prems(2) [of x] s'(1) by simp
  ultimately show ?case by simp
qed simp

definition content_bytes :: "diff_line list \<Rightarrow> nat" where
  "content_bytes ls = sum_list (map (\<lambda>l. byte_length (dl_content l)) ls)"

lemma content_bytes_simps [simp]:
  "content_bytes [] = 0" "content_bytes (l # ls) = byte_length (dl_content l) + content_bytes ls"
  "content_bytes (xs @ ys) = content_bytes xs + content_bytes ys"
  by (simp_all add: content_bytes_def)

definition all_lines :: "diff_hunk list \<Rightarrow> diff_line list" where
  "all_lines hs = concat (map dh_lines hs)"

section \<open>The parser counts its lines\<close>

definition parsed_lines :: "hunk_state \<Rightarrow> diff_line list" where
  "parsed_lines h = all_lines (hk_hunks h) @ hk_lines h"

definition closed_empty :: "hunk_state \<Rightarrow> bool" where
  "closed_empty h \<longleftrightarrow> (hk_header h = None \<longrightarrow> hk_lines h = [])"

lemma close_hunk_lines:
  assumes "close_hunk h = Inr h'" "closed_empty h"
  shows "parsed_lines h' = parsed_lines h" "hk_lines h' = []" "closed_empty h'"
  using assms by (auto simp: close_hunk_def parsed_lines_def all_lines_def closed_empty_def and_then_eq_Inr split: option.splits)

lemma check_deadline_frame:
  assumes "check_deadline budget st = Inr st'"
  shows "co_blob_bytes st' = co_blob_bytes st" "co_diff_bytes st' = co_diff_bytes st"
    "co_diff_lines st' = co_diff_lines st" "co_cache st' = co_cache st"
  using assms by (auto simp: check_deadline_def split: option.splits if_splits)

definition within_limits :: "collection_budget \<Rightarrow> collect_state \<Rightarrow> bool" where
  "within_limits b st \<longleftrightarrow>
     co_diff_bytes st \<le> el_max_diff_bytes (cb_limits b) \<and> co_diff_lines st \<le> el_max_diff_lines (cb_limits b)"

text \<open>From one state to the next, \<open>n\<close> lines are counted and at least \<open>m\<close> bytes, within the limits.\<close>

definition grows :: "collection_budget \<Rightarrow> nat \<Rightarrow> nat \<Rightarrow> collect_state \<Rightarrow> collect_state \<Rightarrow> bool" where
  "grows b n m st st' \<longleftrightarrow>
     co_diff_lines st' = co_diff_lines st + int n \<and> co_diff_bytes st + int m \<le> co_diff_bytes st' \<and>
     (within_limits b st \<longrightarrow> within_limits b st')"

lemma grows_trans: "grows b n m st st' \<Longrightarrow> grows b n' m' st' st'' \<Longrightarrow> grows b (n + n') (m + m') st st''"
  by (auto simp: grows_def)

lemma grows_then: "grows b 0 0 st st' \<Longrightarrow> grows b n m st' st'' \<Longrightarrow> grows b n m st st''"
  using grows_trans [of b 0 0 st st' n m st''] by simp

lemma grows_refl [simp]: "grows b 0 0 st st"
  by (simp add: grows_def)

lemma grows_deadline: "check_deadline budget st = Inr st' \<Longrightarrow> grows b 0 0 st st'"
  by (simp add: grows_def within_limits_def check_deadline_frame)

lemma hunk_line_grows:
  assumes step: "hunk_line (Some b) s line = Inr s'" and closed: "closed_empty (fst s)"
  shows "closed_empty (fst s')"
    and "length (parsed_lines (fst s)) \<le> length (parsed_lines (fst s'))"
    and "grows b (length (parsed_lines (fst s')) - length (parsed_lines (fst s))) 0 (snd s) (snd s')"
    and "content_bytes (parsed_lines (fst s')) \<le> content_bytes (parsed_lines (fst s)) + length line"
proof -
  obtain st where st: "check_deadline (Some b) (snd s) = Inr st" using step by (auto simp: hunk_line_def and_then_eq_Inr)
  note start = grows_deadline [OF st, of b]
  note step = step [unfolded hunk_line_def st and_then_Inr Let_def]
  have "closed_empty (fst s') \<and> length (parsed_lines (fst s)) \<le> length (parsed_lines (fst s')) \<and>
    grows b (length (parsed_lines (fst s')) - length (parsed_lines (fst s))) 0 st (snd s') \<and>
    content_bytes (parsed_lines (fst s')) \<le> content_bytes (parsed_lines (fst s)) + length line"
  proof (cases "match_hunk line")
    case (Some m)
    then obtain st' h h' where p: "check_deadline (Some b) st = Inr st'" "close_hunk (fst s) = Inr h" "open_hunk m h = Inr h'"
      "s' = (h', st')"
      using step by (auto simp: finish_current_def and_then_eq_Inr)
    have "parsed_lines h' = parsed_lines (fst s)" "closed_empty h'"
      using p(3) close_hunk_lines [OF p(2) closed]
      by (auto simp: open_hunk_def and_then_eq_Inr parsed_lines_def closed_empty_def)
    with p(4) grows_deadline [OF p(1), of b] show ?thesis by simp
  next
    case None
    note step = step [unfolded None option.simps]
    consider "hk_header (fst s) = None" | "line = git_no_newline_marker" "hk_header (fst s) \<noteq> None"
      | "marker_kind (hd line) = None" "line \<noteq> []" "line \<noteq> git_no_newline_marker" "hk_header (fst s) \<noteq> None"
      | kind where "marker_kind (hd line) = Some kind" "line \<noteq> []" "line \<noteq> git_no_newline_marker" "hk_header (fst s) \<noteq> None"
      using step by (cases "line = []"; cases "marker_kind (hd line)"; fastforce)
    then show ?thesis
    proof cases
      case 1
      with step closed show ?thesis by auto
    next
      case 2
      then obtain ls l where l: "hk_lines (fst s) = ls @ [l]" using step
        by (cases "hk_lines (fst s)" rule: rev_cases) (auto simp: and_then_eq_Inr)
      with 2 step show ?thesis by (auto simp: and_then_eq_Inr parsed_lines_def closed_empty_def)
    next
      case 3
      then obtain st' h where p: "check_deadline (Some b) st = Inr st'" "close_hunk (fst s) = Inr h" "s' = (h, st')"
        using step by (auto simp: finish_current_def and_then_eq_Inr)
      from close_hunk_lines [OF p(2) closed] p(3) grows_deadline [OF p(1), of b] show ?thesis by simp
    next
      case 4
      then obtain st' content where p: "reserve_diff_line b st = Inr st'" "utf8_decode (strip_newline (tl line)) = Some content"
        "s' = (add_line kind content (fst s), st')"
        using step by (auto simp: and_then_eq_Inr split: option.splits)
      have lines: "grows b 1 0 st st'"
        using p(1) check_deadline_frame
        by (auto simp: reserve_diff_line_def and_then_eq_Inr grows_def within_limits_def)
      have "utf8_bytes content = strip_newline (tl line)"
        using utf8_encode_decode [OF p(2)] by (simp add: utf8_bytes_def)
      then have "byte_length content \<le> length line"
        by (cases line) (auto simp: byte_length_def strip_newline_def)
      with 4(4) lines show ?thesis
        by (auto simp: p(3) parsed_lines_def add_line_def closed_empty_def)
    qed
  qed
  with grows_then [OF start] show "closed_empty (fst s')"
    "length (parsed_lines (fst s)) \<le> length (parsed_lines (fst s'))"
    "grows b (length (parsed_lines (fst s')) - length (parsed_lines (fst s))) 0 (snd s) (snd s')"
    "content_bytes (parsed_lines (fst s')) \<le> content_bytes (parsed_lines (fst s)) + length line" by blast+
qed

lemma hunk_lines_grow:
  assumes "fold_res (hunk_line (Some b)) s ls = Inr t" "closed_empty (fst s)"
  shows "closed_empty (fst t)" "length (parsed_lines (fst s)) \<le> length (parsed_lines (fst t))"
    "grows b (length (parsed_lines (fst t)) - length (parsed_lines (fst s))) 0 (snd s) (snd t)"
    "content_bytes (parsed_lines (fst t)) \<le> content_bytes (parsed_lines (fst s)) + sum_list (map length ls)"
proof -
  have "closed_empty (fst t) \<and> length (parsed_lines (fst s)) \<le> length (parsed_lines (fst t)) \<and>
    grows b (length (parsed_lines (fst t)) - length (parsed_lines (fst s))) 0 (snd s) (snd t) \<and>
    content_bytes (parsed_lines (fst t)) \<le> content_bytes (parsed_lines (fst s)) + sum_list (map length ls)"
    using assms
  proof (induction ls arbitrary: s)
    case (Cons l ls)
    then obtain r where r: "hunk_line (Some b) s l = Inr r" "fold_res (hunk_line (Some b)) r ls = Inr t"
      by (auto simp: and_then_eq_Inr)
    note one = hunk_line_grows [OF r(1) Cons.prems(2)]
    with Cons.IH [OF r(2)] grows_trans [OF one(3)] show ?case by fastforce
  qed simp
  then show "closed_empty (fst t)" "length (parsed_lines (fst s)) \<le> length (parsed_lines (fst t))"
    "grows b (length (parsed_lines (fst t)) - length (parsed_lines (fst s))) 0 (snd s) (snd t)"
    "content_bytes (parsed_lines (fst t)) \<le> content_bytes (parsed_lines (fst s)) + sum_list (map length ls)" by blast+
qed

lemma parse_hunks_grows:
  assumes "parse_hunks (Some b) patch st = Inr (hs, st')"
  shows "grows b (length (all_lines hs)) 0 st st'" "content_bytes (all_lines hs) \<le> length patch"
proof -
  obtain s f where s: "fold_res (hunk_line (Some b)) (no_hunks, st) (split_lf patch) = Inr s"
    and f: "finish_current (Some b) s = Inr f" "hs = hk_hunks (fst f)" "st' = snd f"
    using assms by (auto simp: parse_hunks_def and_then_eq_Inr)
  have "closed_empty (fst (no_hunks, st))" "parsed_lines no_hunks = []"
    by (simp_all add: closed_empty_def no_hunks_def parsed_lines_def all_lines_def)
  note fold = hunk_lines_grow [OF s this(1), unfolded fst_conv snd_conv this(2)]
  obtain h where h: "close_hunk (fst s) = Inr h" "check_deadline (Some b) (snd s) = Inr st'" "fst f = h"
    using f by (auto simp: finish_current_def and_then_eq_Inr)
  note lines = close_hunk_lines [OF h(1) fold(1)]
  then have hs: "all_lines hs = parsed_lines (fst s)" using f(2) h(3) by (simp add: parsed_lines_def)
  have "sum_list (map length (split_lf patch)) = length patch" by (metis concat_split_lf length_concat)
  then show "content_bytes (all_lines hs) \<le> length patch" using fold(4) hs by simp
  show "grows b (length (all_lines hs)) 0 st st'"
    using grows_trans [OF fold(3) grows_deadline [OF h(2)]] hs by simp
qed

section \<open>The collection stays within the limits\<close>

lemma grows_calls [simp]: "grows b 0 0 st (st\<lparr>co_calls := n\<rparr>)"
  by (simp add: grows_def within_limits_def)

lemma invoke_grows:
  assumes "invoke sys budget l code call st = Inr (c, st')"
  shows "grows b 0 0 st st'"
proof (cases budget)
  case None
  with assms show ?thesis by (auto simp: invoke_def run_unbounded_def split: run_result.splits)
next
  case (Some b')
  then obtain st1 where p: "check_deadline (Some b') st = Inr st1"
    "check_deadline (Some b') (st1\<lparr>co_calls := Suc (co_calls st1)\<rparr>) = Inr st'"
    using assms by (auto simp: invoke_def invoke_bounded_process_def and_then_eq_Inr)
  show ?thesis by (rule grows_then [OF grows_deadline [OF p(1)] grows_then [OF grows_calls grows_deadline [OF p(2)]]])
qed

lemma run_required_grows: "run_required sys budget d args l code st = Inr (c, st') \<Longrightarrow> grows b 0 0 st st'"
  by (auto simp: run_required_def invoke_git_def successful_def and_then_eq_Inr dest: invoke_grows)

lemma reserve_blob_grows: "reserve_blob_bytes b' n st = Inr st' \<Longrightarrow> grows b 0 0 st st'"
  by (auto simp: reserve_blob_bytes_def grows_def within_limits_def and_then_eq_Inr dest: check_deadline_frame)

lemma classify_content_grows:
  assumes "classify_content sys budget d mode oid st = Inr (c, st')"
  shows "grows b 0 0 st st'"
proof -
  obtain st1 where "check_deadline budget st = Inr st1"
    using assms by (auto simp: classify_content_def and_then_eq_Inr)
  moreover from this assms have "grows b 0 0 st1 st'"
    by (auto simp: classify_content_def and_then_eq_Inr Let_def split: if_splits option.splits
      dest!: run_required_grows [where b = b] reserve_blob_grows [where b = b] intro: grows_then)
  ultimately show ?thesis using grows_deadline grows_then by blast
qed

lemma materialize_version_grows:
  assumes "materialize_version sys budget d path mode oid st = Inr (v, st')"
  shows "grows b 0 0 st st'"
proof -
  have "grows b 0 0 st (q\<lparr>co_cache := c\<rparr>)" if "grows b 0 0 st q" for q c using that by (simp add: grows_def within_limits_def)
  then show ?thesis using assms classify_content_grows
    by (fastforce simp: materialize_version_def and_then_eq_Inr Let_def split: if_splits option.splits)
qed

lemma piped_diff_grows: "piped_diff sys budget a c st = Inr (r, st') \<Longrightarrow> grows b 0 0 st st'"
  by (auto simp: piped_diff_def invoke_no_index_diff_def Let_def and_then_eq_Inr dest!: invoke_grows split: option.splits)

lemma reserve_diff_bytes_grows:
  assumes "reserve_diff_bytes b (int n) st = Inr st'"
  shows "grows b 0 n st st'"
proof -
  obtain st1 where d: "check_deadline (Some b) st = Inr st1" "int n \<le> el_max_diff_bytes (cb_limits b) - co_diff_bytes st1"
    "st' = st1\<lparr>co_diff_bytes := co_diff_bytes st1 + int n\<rparr>"
    using assms by (auto simp: reserve_diff_bytes_def and_then_eq_Inr)
  then have "grows b 0 n st1 st'" by (auto simp: grows_def within_limits_def)
  with grows_deadline [OF d(1)] show ?thesis by (rule grows_then)
qed

lemma read_patch_grows:
  assumes "read_patch sys (Some b) old new st = Inr (patch, st')"
  shows "grows b 0 (length patch) st st'"
proof -
  obtain st1 where st1: "check_deadline (Some b) st = Inr st1"
    using assms by (auto simp: read_patch_def and_then_eq_Inr)
  have "grows b 0 (length patch) st1 st'"
  proof (cases "old = new")
    case True
    with assms st1 show ?thesis by (simp add: read_patch_def)
  next
    case False
    then obtain r st2 where "piped_diff sys (Some b) old new st1 = Inr (r, st2)" "patch = cp_stdout r"
      "reserve_diff_bytes b (int (length patch)) st2 = Inr st'"
      using assms st1 by (auto simp: read_patch_def and_then_eq_Inr Let_def)
    then show ?thesis using grows_then [OF piped_diff_grows reserve_diff_bytes_grows] by blast
  qed
  with grows_deadline [OF st1] show ?thesis by (rule grows_then)
qed

lemma read_hunks_grows:
  assumes "read_hunks sys (Some b) old new st = Inr (hs, st')"
  shows "grows b (length (all_lines hs)) (content_bytes (all_lines hs)) st st'"
proof (cases "(old \<noteq> None \<or> new \<noteq> None) \<and> is_text old \<and> is_text new")
  case True
  then obtain a c patch st1 where p: "read_patch sys (Some b) a c st = Inr (patch, st1)"
    "parse_hunks (Some b) patch st1 = Inr (hs, st')"
    using assms by (auto simp: read_hunks_def and_then_eq_Inr)
  from grows_trans [OF read_patch_grows [OF p(1)] parse_hunks_grows(1) [OF p(2)]] parse_hunks_grows(2) [OF p(2)]
  show ?thesis by (auto simp: grows_def)
next
  case False
  with assms show ?thesis by (auto simp: read_hunks_def all_lines_def split: if_splits)
qed

lemma materialize_change_parts:
  assumes "materialize_change sys budget d raw st = Inr (c, st')"
  shows "\<exists>st0 st1 st2. check_deadline budget st = Inr st0 \<and>
    materialize_version sys budget d (rw_old_path raw) (rw_old_mode raw) (rw_old_oid raw) st0 = Inr (fc_old c, st1) \<and>
    materialize_version sys budget d (rw_new_path raw) (rw_new_mode raw) (rw_new_oid raw) st1 = Inr (fc_new c, st2) \<and>
    read_hunks sys budget (fc_old c) (fc_new c) st2 = Inr (fc_hunks c, st')"
  using assms by (auto simp: materialize_change_def and_then_eq_Inr)

lemma change_lines_all: "change_lines c = all_lines (fc_hunks c)"
  by (simp add: change_lines_def all_lines_def)

lemma materialize_change_grows:
  assumes "materialize_change sys (Some b) d raw st = Inr (c, st')"
  shows "grows b (length (change_lines c)) (content_bytes (change_lines c)) st st'"
proof -
  obtain st0 st1 st2 where p: "check_deadline (Some b) st = Inr st0"
    "materialize_version sys (Some b) d (rw_old_path raw) (rw_old_mode raw) (rw_old_oid raw) st0 = Inr (fc_old c, st1)"
    "materialize_version sys (Some b) d (rw_new_path raw) (rw_new_mode raw) (rw_new_oid raw) st1 = Inr (fc_new c, st2)"
    "read_hunks sys (Some b) (fc_old c) (fc_new c) st2 = Inr (fc_hunks c, st')"
    using materialize_change_parts [OF assms] by blast
  note steps = grows_deadline [OF p(1), of b] materialize_version_grows [OF p(2), of b] materialize_version_grows [OF p(3), of b]
  show ?thesis unfolding change_lines_all
    by (rule grows_then [OF steps(1) grows_then [OF steps(2) grows_then [OF steps(3) read_hunks_grows [OF p(4)]]]])
qed

definition lines_in :: "file_change list \<Rightarrow> nat" where
  "lines_in cs = sum_list (map (\<lambda>c. length (change_lines c)) cs)"

definition bytes_in :: "file_change list \<Rightarrow> nat" where
  "bytes_in cs = sum_list (map (\<lambda>c. content_bytes (change_lines c)) cs)"

lemma materialize_changes_grows:
  "materialize_changes sys (Some b) d raws st = Inr (cs, st') \<Longrightarrow>
   length cs = length raws \<and> grows b (lines_in cs) (bytes_in cs) st st'"
proof (induction raws arbitrary: st cs)
  case (Cons raw raws)
  then obtain c st1 cs' where "materialize_change sys (Some b) d raw st = Inr (c, st1)"
    "materialize_changes sys (Some b) d raws st1 = Inr (cs', st')" "cs = c # cs'"
    by (auto simp: and_then_eq_Inr)
  with Cons.IH materialize_change_grows grows_trans show ?case by (fastforce simp: lines_in_def bytes_in_def)
qed (simp add: lines_in_def bytes_in_def)

lemma parse_raw_records_count:
  assumes "parse_raw_records (Some b) n k fs st = Inr (cs, st')" "int k \<le> el_max_changed_files (cb_limits b)"
  shows "int (k + length cs) \<le> el_max_changed_files (cb_limits b)"
  using assms
proof (induction "Some b" n k fs st arbitrary: cs rule: parse_raw_records.induct)
  case (2 n k header rest st)
  then obtain st1 r cs' where p: "check_deadline (Some b) st = Inr st1" "int k < el_max_changed_files (cb_limits b)"
    "parse_raw_record n header rest = Inr r"
    "parse_raw_records (Some b) n (Suc k) (snd r) st1 = Inr (cs', st')" "cs = fst r # cs'"
    by (auto simp: and_then_eq_Inr)
  have "int (Suc k + length cs') \<le> el_max_changed_files (cb_limits b)"
    using p by (intro "2.hyps") auto
  with p(5) show ?case by simp
qed simp

lemma parse_raw_records_grows: "parse_raw_records budget n k fs st = Inr (cs, st') \<Longrightarrow> grows b 0 0 st st'"
proof (induction budget n k fs st arbitrary: cs rule: parse_raw_records.induct)
  case (2 budget n k header rest st)
  then obtain st1 r cs' where p: "check_deadline budget st = Inr st1" "parse_raw_record n header rest = Inr r"
    "parse_raw_records budget n (Suc k) (snd r) st1 = Inr (cs', st')"
    by (auto simp: and_then_eq_Inr)
  have "grows b 0 0 st1 st'" using p 2 by (auto simp: and_then_eq_Inr)
  with grows_deadline [OF p(1)] show ?case by (rule grows_then)
qed simp

section \<open>The parts of a bundle\<close>

lemma parse_oid_Inr [simp]:
  "parse_oid n z oid = Inr p \<longleftrightarrow> length oid = n \<and> list_all is_lower_hex oid \<and> (z \<or> \<not> all_zero oid) \<and> p = oid"
  by (auto simp: parse_oid_def and_then_eq_Inr)

lemma utf8_ok_chars: "utf8_ok s \<longleftrightarrow> (\<forall>c \<in> set s. utf8_char c \<noteq> None)"
  unfolding utf8_ok_def by (induction s) (auto split: option.splits)

lemma utf8_ok_posix:
  assumes "utf8_ok s"
  shows "utf8_ok (posix_text s)"
proof -
  have part: "w \<in> set ws \<Longrightarrow> set w \<subseteq> set (join_on 47 ws)" for w and ws :: "nat list list"
    by (induction "47 :: nat" ws rule: join_on.induct) auto
  have split: "set w \<subseteq> set s" if "w \<in> set (split_on 47 s)" for w
    using part [OF that] by simp
  have join: "set (join_on 47 ws) \<subseteq> insert 47 (\<Union> (set ` set ws))" for ws :: "nat list list"
    by (induction "47 :: nat" ws rule: join_on.induct) auto
  have "set (join_on 47 (posix_parts s)) \<subseteq> insert 47 (set s)"
    using join [of "posix_parts s"] split by (auto simp: posix_parts_def)
  then have "set (posix_text s) \<subseteq> insert 46 (insert 47 (set s))"
    by (auto simp: posix_text_def posix_root_def)
  then show ?thesis using assms by (auto simp: utf8_ok_chars)
qed

lemma decode_path_utf8: "decode_path b = Inr s \<Longrightarrow> utf8_ok s"
  by (auto simp: decode_path_def utf8_ok_def dest: utf8_encode_decode split: option.splits)

lemma resolve_worktree_parts:
  assumes "resolve_worktree sys budget path st = Inr (d, st')"
  shows "utf8_ok d" "grows b 0 0 st st'"
proof -
  obtain candidate where path: "gs_path sys path = PathResolved candidate"
    using assms by (cases "gs_path sys path") (auto simp: resolve_worktree_def and_then_eq_Inr)
  obtain st1 r path_bytes q where p: "check_deadline budget st = Inr st1"
    "invoke_git sys budget candidate [lit ''rev-parse'', lit ''--show-toplevel''] control_output_bytes evidence_error_code.RESOURCE_LIMIT st1 = Inr (r, st')"
    "decode_path path_bytes = Inr q" "d = posix_text q"
    using assms by (auto simp: resolve_worktree_def and_then_eq_Inr path)
  show "utf8_ok d" using p(3,4) decode_path_utf8 utf8_ok_posix by blast
  show "grows b 0 0 st st'"
    by (rule grows_then [OF grows_deadline [OF p(1)] invoke_grows [OF p(2) [unfolded invoke_git_def]]])
qed


lemma read_object_format_parts:
  assumes "read_object_format sys budget d st = Inr (f, st')"
  shows "f \<in> {lit ''sha1'', lit ''sha256''}" "grows b 0 0 st st'"
  using assms by (auto simp: read_object_format_def and_then_eq_Inr dest: run_required_grows)

lemma oid_length_format: "f \<in> {lit ''sha1'', lit ''sha256''} \<Longrightarrow> oid_length_of f = Some (oid_length_for f) \<and> 0 < oid_length_for f"
  by (auto simp: oid_length_of_def oid_length_for_def)

lemma read_object_directory_grows: "read_object_directory sys budget d st = Inr (o', st') \<Longrightarrow> grows b 0 0 st st'"
  by (auto simp: read_object_directory_def and_then_eq_Inr dest: run_required_grows)

lemma parsed_is_oid: "0 < n \<Longrightarrow> parse_oid n z text = Inr p \<Longrightarrow> is_oid n p"
  by (auto simp: is_oid_def)

lemma resolve_ref_parts:
  assumes "resolve_ref sys budget d ref code n st = Inr (oid, st')" "0 < n"
  shows "utf8_ok ref" "is_oid n oid" "grows b 0 0 st st'"
proof -
  obtain r line where p: "validate_ref ref code = Inr ()"
    "invoke_git sys budget d [lit ''rev-parse'', lit ''--verify'', lit ''--end-of-options'', ref @ lit ''^{commit}'']
       control_output_bytes evidence_error_code.RESOURCE_LIMIT st = Inr (r, st')"
    "parse_oid n False line = Inr oid"
    using assms(1) by (auto simp: resolve_ref_def and_then_eq_Inr simp del: parse_oid_Inr)
  show "utf8_ok ref" using p(1) by (auto simp: validate_ref_def and_then_eq_Inr)
  show "is_oid n oid" using parsed_is_oid [OF assms(2) p(3)] .
  show "grows b 0 0 st st'" using invoke_grows [OF p(2) [unfolded invoke_git_def]] .
qed

lemma parse_merge_bases_oids:
  assumes "parse_merge_bases n printed = Inr bases" "0 < n" "oid \<in> set bases"
  shows "is_oid n oid"
proof -
  from assms obtain ls where "map_res (parse_oid n False) ls = Inr bases"
    by (auto simp: parse_merge_bases_def and_then_eq_Inr split: if_splits)
  from map_res_source [OF this assms(3)] obtain x where "parse_oid n False x = Inr oid" by blast
  from parsed_is_oid [OF assms(2) this] show ?thesis .
qed

lemma resolve_merge_base_parts:
  assumes "resolve_merge_base sys budget d base head n st = Inr (oid, st')" "0 < n"
  shows "is_oid n oid" "grows b 0 0 st st'"
proof -
  obtain r bases where p: "invoke_git sys budget d [lit ''merge-base'', lit ''--all'', base, head]
       control_output_bytes evidence_error_code.RESOURCE_LIMIT st = Inr (r, st')"
    "parse_merge_bases n (cp_stdout r) = Inr bases" "bases \<noteq> []" "oid = hd bases"
    using assms(1) by (auto simp: resolve_merge_base_def and_then_eq_Inr)
  show "is_oid n oid" using parse_merge_bases_oids [OF p(2) assms(2)] p(3,4) by simp
  show "grows b 0 0 st st'" using invoke_grows [OF p(1) [unfolded invoke_git_def]] .
qed

lemma collect_revisions_parts:
  assumes "collect_revisions sys budget d base head n st = Inr (rv, st')" "0 < n"
  shows "rv_base_ref rv = base \<and> rv_head_ref rv = head \<and> utf8_ok base \<and> utf8_ok head \<and>
    is_oid n (rv_base_oid rv) \<and> is_oid n (rv_head_oid rv) \<and> is_oid n (rv_merge_base_oid rv)" "grows b 0 0 st st'"
proof -
  obtain oid1 st1 oid2 st2 oid3 where p: "resolve_ref sys budget d base INVALID_BASE_REF n st = Inr (oid1, st1)"
    "resolve_ref sys budget d head INVALID_HEAD_REF n st1 = Inr (oid2, st2)"
    "resolve_merge_base sys budget d oid1 oid2 n st2 = Inr (oid3, st')"
    "rv = \<lparr>rv_base_ref = base, rv_head_ref = head, rv_base_oid = oid1, rv_head_oid = oid2, rv_merge_base_oid = oid3\<rparr>"
    using assms(1) by (auto simp: collect_revisions_def and_then_eq_Inr)
  note parts = resolve_ref_parts [OF p(1) assms(2)] resolve_ref_parts [OF p(2) assms(2)] resolve_merge_base_parts [OF p(3) assms(2)]
  show "rv_base_ref rv = base \<and> rv_head_ref rv = head \<and> utf8_ok base \<and> utf8_ok head \<and>
    is_oid n (rv_base_oid rv) \<and> is_oid n (rv_head_oid rv) \<and> is_oid n (rv_merge_base_oid rv)"
    using parts p(4) by simp
  show "grows b 0 0 st st'" by (rule grows_then [OF parts(3) grows_then [OF parts(6) parts(8)]])
qed

definition raw_ok :: "nat \<Rightarrow> raw_change \<Rightarrow> bool" where
  "raw_ok n c \<longleftrightarrow> is_oid n (rw_new_oid c) \<and> utf8_ok (rw_new_path c)"

lemma parse_raw_record_ok:
  assumes "parse_raw_record n header rest = Inr (c, rest')" "0 < n"
  shows "raw_ok n c"
proof -
  obtain parts where "raw_change_of n parts rest = Inr (c, rest')"
    using assms(1) by (auto simp: parse_raw_record_def and_then_eq_Inr Let_def)
  then obtain oid status paths sides where p: "parse_oid n True (parts ! 3) = Inr oid"
    "map_res decode_path (take (snd (snd status)) rest) = Inr paths" "paths_for_change (fst status) paths = Inr sides"
    "rw_new_oid c = oid" "rw_new_path c = snd sides"
    unfolding raw_change_of_def by (auto simp: and_then_eq_Inr Let_def simp del: parse_oid_Inr)
  have "list_all utf8_ok paths"
    using map_res_source [OF p(2)] decode_path_utf8 by (force simp: list_all_iff)
  then have "utf8_ok (snd sides)"
    using p(3) by (auto simp: paths_for_change_def and_then_eq_Inr list_all_length split: if_splits)
  with p parsed_is_oid [OF assms(2) p(1)] show ?thesis by (simp add: raw_ok_def)
qed

lemma parse_raw_records_ok:
  assumes "parse_raw_records budget n k fs st = Inr (cs, st')" "0 < n"
  shows "list_all (raw_ok n) cs"
  using assms
proof (induction budget n k fs st arbitrary: cs rule: parse_raw_records.induct)
  case (2 budget n k header rest st)
  then obtain st1 r cs' where p: "check_deadline budget st = Inr st1"
    "case budget of None \<Rightarrow> True | Some b \<Rightarrow> int k < el_max_changed_files (cb_limits b)"
    "parse_raw_record n header rest = Inr r"
    "parse_raw_records budget n (Suc k) (snd r) st1 = Inr (cs', st')" "cs = fst r # cs'"
    by (auto simp: and_then_eq_Inr)
  have "list_all (raw_ok n) cs'" using p "2.prems"(2) by (intro "2.IH") auto
  moreover have "raw_ok n (fst r)" using parse_raw_record_ok [of n header rest "fst r" "snd r"] p(3) "2.prems"(2) by simp
  ultimately show ?case using p(5) by simp
qed simp


section \<open>The whole collection\<close>

lemma collect_bundle_parts:
  assumes "collect_bundle sys budget path base head st = Inr (e, st')"
  obtains n printed st1 raws st2 cs st3 where
    "oid_length_of (re_object_format (eb_repository e)) = Some n" "0 < n" "utf8_ok (re_root (eb_repository e))"
    "rv_base_ref (eb_revisions e) = base" "rv_head_ref (eb_revisions e) = head"
    "utf8_ok base" "utf8_ok head" "is_oid n (rv_base_oid (eb_revisions e))"
    "is_oid n (rv_head_oid (eb_revisions e))" "is_oid n (rv_merge_base_oid (eb_revisions e))"
    "parse_raw_changes budget n printed st1 = Inr (raws, st2)"
    "materialize_changes sys budget (re_root (eb_repository e)) raws st2 = Inr (cs, st3)"
    "check_deadline budget st3 = Inr st'" "eb_changes e = sort_key change_sort_key cs" "eb_schema_version e = 1"
    "\<And>b. grows b 0 0 st st1"
proof -
  obtain d s1 f s2 od s3 rv s4 raws s5 cs s6 where p: "resolve_worktree sys budget path st = Inr (d, s1)"
    "read_object_format sys budget d s1 = Inr (f, s2)" "read_object_directory sys budget d s2 = Inr (od, s3)"
    "collect_revisions sys budget d base head (oid_length_for f) s3 = Inr (rv, s4)"
    "read_raw_changes sys budget f od (rv_merge_base_oid rv) (rv_head_oid rv) (oid_length_for f) s4 = Inr (raws, s5)"
    "materialize_changes sys budget d raws s5 = Inr (cs, s6)" "check_deadline budget s6 = Inr st'"
    "e = \<lparr>eb_repository = \<lparr>re_root = d, re_object_format = f\<rparr>, eb_revisions = rv,
       eb_changes = sort_key change_sort_key cs, eb_schema_version = 1\<rparr>"
    using assms by (auto simp: collect_bundle_def and_then_eq_Inr Let_def)
  obtain printed call s4' l where o: "invoke sys budget l evidence_error_code.RESOURCE_LIMIT call s4 = Inr (printed, s4')"
    "parse_raw_changes budget (oid_length_for f) (cp_stdout printed) s4' = Inr (raws, s5)"
    using p(5) by (auto simp: read_raw_changes_def run_object_git_required_def invoke_object_git_def successful_def and_then_eq_Inr)
  note format = read_object_format_parts(1) [OF p(2), THEN oid_length_format]
  note revisions = collect_revisions_parts [OF p(4) format [THEN conjunct2]]
  have g: "grows b 0 0 st s4'" for b
    by (rule grows_then [OF resolve_worktree_parts(2) [OF p(1)] grows_then [OF read_object_format_parts(2) [OF p(2)]
        grows_then [OF read_object_directory_grows [OF p(3)] grows_then [OF revisions(2) invoke_grows [OF o(1)]]]]])
  show thesis
    by (rule that [of "oid_length_for f" "cp_stdout printed" s4' raws s5 cs s6])
      (use p(6-8) o(2) format revisions(1) resolve_worktree_parts(1) [OF p(1)] g in simp_all)
qed

lemma budget_for_limits:
  assumes "budget_for sys (Some l) executable = Inr budget"
  shows "\<exists>b. budget = Some b \<and> cb_limits b = l \<and> evidence_limits_valid l"
  using assms by (auto simp: budget_for_def and_then_eq_Inr new_budget_def)

text \<open>
  C27. A collection that is given limits keeps them: the bundle has at most so many changes, its hunks at
  most so many lines in all, and the contents of these lines at most so many bytes.
\<close>

theorem collected_within_limits:
  assumes "collect_evidence sys (Some l) executable path base head = Inr e"
  shows "evidence_limits_valid l \<and> int (length (eb_changes e)) \<le> el_max_changed_files l \<and>
    int (lines_in (eb_changes e)) \<le> el_max_diff_lines l \<and> int (bytes_in (eb_changes e)) \<le> el_max_diff_bytes l"
proof -
  obtain budget st' where "budget_for sys (Some l) executable = Inr budget"
    and c: "collect_bundle sys budget path base head (new_collection budget) = Inr (e, st')"
    using assms by (auto simp: collect_evidence_def and_then_eq_Inr)
  then obtain b where b: "budget = Some b" "cb_limits b = l" "evidence_limits_valid l" using budget_for_limits by blast
  from c [unfolded b(1)] obtain n printed st1 raws st2 cs st3 where p:
    "parse_raw_changes (Some b) n printed st1 = Inr (raws, st2)"
    "materialize_changes sys (Some b) (re_root (eb_repository e)) raws st2 = Inr (cs, st3)"
    "eb_changes e = sort_key change_sort_key cs" "grows b 0 0 (new_collection (Some b)) st1"
    by (rule collect_bundle_parts) blast
  have count: "int (length raws) \<le> el_max_changed_files l"
    using p(1) parse_raw_records_count [of b n 0] b(2,3)
    by (auto simp: parse_raw_changes_def and_then_eq_Inr evidence_limits_valid_def split: if_splits)
  have "grows b 0 0 st1 st2"
    using p(1) parse_raw_records_grows by (auto simp: parse_raw_changes_def and_then_eq_Inr split: if_splits)
  with p(4) have "grows b 0 0 (new_collection (Some b)) st2" by (rule grows_then)
  note sums = materialize_changes_grows [OF p(2)]
  with grows_then [OF \<open>grows b 0 0 (new_collection (Some b)) st2\<close>]
  have g: "grows b (lines_in cs) (bytes_in cs) (new_collection (Some b)) st3" by blast
  have "within_limits b (new_collection (Some b))"
    using b(2,3) by (simp add: within_limits_def new_collection_def evidence_limits_valid_def)
  with g have "int (lines_in cs) \<le> el_max_diff_lines l" "int (bytes_in cs) \<le> el_max_diff_bytes l"
    using b(2) by (auto simp: grows_def within_limits_def new_collection_def)
  moreover have "lines_in (eb_changes e) = lines_in cs" "bytes_in (eb_changes e) = bytes_in cs"
    "length (eb_changes e) = length cs" by (simp_all add: p(3) lines_in_def bytes_in_def sum_list_sort_key)
  ultimately show ?thesis using count sums b(3) by simp
qed

end
