(* ===== verification/Git_Review.thy ===== *)
theory Git_Review
  imports Git_Limits
begin

text \<open>
  Collection and review together: what git documents of its output is enough for the review to accept every
  bundle the collection returns. The concrete collection of the witnesses ends the theory.
\<close>

section \<open>Line numbers of a list of hunks\<close>

lemma numbered_range:
  "numbered old new ls \<Longrightarrow> l \<in> set ls \<Longrightarrow> new_side l \<Longrightarrow>
   \<exists>k. dl_new l = Some k \<and> new \<le> k \<and> k < new + int (length (filter new_side ls))"
proof (induction ls arbitrary: old new)
  case (Cons x ls)
  show ?case
  proof (cases "l = x")
    case True
    with Cons.prems show ?thesis by simp
  next
    case False
    with Cons.prems Cons.IH show ?thesis by (cases "new_side x"; cases "old_side x"; fastforce)
  qed
qed simp

lemma numbered_distinct: "numbered old new ls \<Longrightarrow> distinct (map dl_new (filter new_side ls))"
proof (induction ls arbitrary: old new)
  case (Cons x ls)
  have rest: "numbered (if old_side x then old + 1 else old) (if new_side x then new + 1 else new) ls"
    using Cons.prems by simp
  moreover have "dl_new x \<notin> dl_new ` set (filter new_side ls)" if "new_side x"
    using numbered_range [OF rest] Cons.prems that by fastforce
  ultimately show ?case using Cons.IH by (auto split: if_splits)
qed simp

text \<open>Hunks go forward in the new file, whose lines start at one.\<close>

definition hunks_ascend :: "diff_hunk list \<Rightarrow> bool" where
  "hunks_ascend hs \<longleftrightarrow>
     sorted_wrt (\<lambda>h h'. dh_new_start h + dh_new_count h \<le> dh_new_start h') hs \<and>
     list_all (\<lambda>h. 0 < dh_new_count h \<longrightarrow> 1 \<le> dh_new_start h) hs"

lemma hunk_line_new:
  assumes "git_hunk_ok h" "l \<in> set (dh_lines h)" "new_side l"
  obtains k where "dl_new l = Some k" "dh_new_start h \<le> k" "k < dh_new_start h + dh_new_count h"
  using numbered_range [of "dh_old_start h" "dh_new_start h" "dh_lines h" l] assms by (auto simp: git_hunk_ok_def)

lemma hunks_distinct:
  assumes "list_all git_hunk_ok hs" "hunks_ascend hs"
  shows "distinct (map dl_new (filter new_side (all_lines hs)))"
  using assms
proof (induction hs)
  case (Cons h hs)
  have "dl_new l \<noteq> dl_new l'"
    if l: "l \<in> set (dh_lines h)" "new_side l" and l': "h' \<in> set hs" "l' \<in> set (dh_lines h')" "new_side l'" for l l' h'
  proof -
    have "git_hunk_ok h" "git_hunk_ok h'" "dh_new_start h + dh_new_count h \<le> dh_new_start h'"
      using Cons.prems l'(1) by (auto simp: list_all_iff hunks_ascend_def)
    moreover from this l obtain k where "dl_new l = Some k" "k < dh_new_start h + dh_new_count h"
      using hunk_line_new by blast
    moreover from calculation l' obtain k' where "dl_new l' = Some k'" "dh_new_start h' \<le> k'"
      using hunk_line_new by blast
    ultimately show ?thesis by simp
  qed
  then have "dl_new ` set (filter new_side (dh_lines h)) \<inter> dl_new ` set (filter new_side (all_lines hs)) = {}"
    by (auto simp: all_lines_def)
  moreover have "distinct (map dl_new (filter new_side (dh_lines h)))"
    using Cons.prems numbered_distinct by (auto simp: git_hunk_ok_def)
  ultimately show ?case using Cons by (simp add: all_lines_def hunks_ascend_def)
qed (simp add: all_lines_def)

lemma numbered_added_old: "numbered old new ls \<Longrightarrow> l \<in> set ls \<Longrightarrow> dl_kind l = ADDITION \<Longrightarrow> dl_old l = None"
  by (induction ls arbitrary: old new) (auto simp: old_side_def)

lemma hunks_added_lines:
  assumes ok: "list_all git_hunk_ok (fc_hunks c)" "hunks_ascend (fc_hunks c)"
    and new: "fc_new c = None \<Longrightarrow> list_all (\<lambda>l. dl_kind l \<noteq> ADDITION) (change_lines c)"
  shows "added_lines_ok c"
proof -
  have added: "filter (\<lambda>l. dl_kind l = ADDITION) ls = filter (\<lambda>l. dl_kind l = ADDITION) (filter new_side ls)" for ls
    by (induction ls) (auto simp: new_side_def)
  have "distinct (map dl_new (filter (\<lambda>l. dl_kind l = ADDITION) (change_lines c)))"
    by (subst added, unfold change_lines_all) (intro distinct_map_filter hunks_distinct ok)
  moreover have "fresh_line {} l" if l: "l \<in> set (change_lines c)" "dl_kind l = ADDITION" for l
  proof -
    obtain h where h: "h \<in> set (fc_hunks c)" "l \<in> set (dh_lines h)" using l(1) by (auto simp: change_lines_def)
    then have hok: "git_hunk_ok h" "0 < dh_new_count h \<longrightarrow> 1 \<le> dh_new_start h"
      using ok by (auto simp: list_all_iff hunks_ascend_def)
    have "new_side l" using l(2) by (simp add: new_side_def)
    then obtain k where "dl_new l = Some k" "dh_new_start h \<le> k" "k < dh_new_start h + dh_new_count h"
      using hunk_line_new [OF hok(1) h(2)] by blast
    moreover have "dl_old l = None" using numbered_added_old hok(1) h(2) l(2) by (auto simp: git_hunk_ok_def)
    ultimately show ?thesis using hok(2) by (auto simp: fresh_line_def)
  qed
  moreover have "filter (\<lambda>l. dl_kind l = ADDITION) (change_lines c) = [] \<or> fc_new c \<noteq> None"
    using new by (auto simp: list_all_iff filter_empty_conv)
  ultimately show ?thesis by (auto simp: added_lines_ok_def Let_def list_all_iff)
qed

section \<open>Collected changes\<close>

lemma materialize_version_fields:
  assumes "materialize_version sys budget d path mode oid st = Inr (Some v, st')"
  shows "fv_path v = path \<and> fv_mode v = mode \<and> fv_oid v = oid"
  using assms by (auto simp: materialize_version_def and_then_eq_Inr Let_def split: if_splits)

lemma read_hunks_ok: "read_hunks sys budget old new st = Inr (hs, st') \<Longrightarrow> list_all git_hunk_ok hs"
  by (auto simp: read_hunks_def and_then_eq_Inr dest: parse_hunks_ok split: if_splits)

lemma materialize_changes_ok:
  assumes "materialize_changes sys budget d raws st = Inr (cs, st')" "list_all (raw_ok n) raws"
  shows "list_all (\<lambda>c. list_all git_hunk_ok (fc_hunks c) \<and>
    (case fc_new c of None \<Rightarrow> True | Some v \<Rightarrow> utf8_ok (fv_path v) \<and> is_oid n (fv_oid v))) cs"
  using assms
proof (induction raws arbitrary: st cs)
  case (Cons raw raws)
  then obtain c st1 cs' where p: "materialize_change sys budget d raw st = Inr (c, st1)"
    "materialize_changes sys budget d raws st1 = Inr (cs', st')" "cs = c # cs'"
    by (auto simp: and_then_eq_Inr)
  obtain s0 s1 s2 where
    q: "materialize_version sys budget d (rw_new_path raw) (rw_new_mode raw) (rw_new_oid raw) s1 = Inr (fc_new c, s2)"
    "read_hunks sys budget (fc_old c) (fc_new c) s2 = Inr (fc_hunks c, st1)"
    using materialize_change_parts [OF p(1)] by blast
  have "case fc_new c of None \<Rightarrow> True | Some v \<Rightarrow> utf8_ok (fv_path v) \<and> is_oid n (fv_oid v)"
    using q(1) materialize_version_fields Cons.prems(2) by (cases "fc_new c") (fastforce simp: raw_ok_def)+
  with read_hunks_ok [OF q(2)] Cons p show ?case by simp
qed simp

text \<open>
  What git documents of its output, read off the bundle: the top level of a worktree is an absolute path, a
  changed path is not empty, hunks go forward, and nothing is added to a file that is gone.
\<close>

definition git_documented :: "evidence_bundle \<Rightarrow> bool" where
  "git_documented e \<longleftrightarrow>
     starts_with (lit ''/'') (re_root (eb_repository e)) \<and>
     list_all (\<lambda>c. hunks_ascend (fc_hunks c) \<and>
       (case fc_new c of
          None \<Rightarrow> list_all (\<lambda>l. dl_kind l \<noteq> ADDITION) (change_lines c)
        | Some v \<Rightarrow> fv_path v \<noteq> [])) (eb_changes e)"

lemma collected_bundle_ok:
  assumes "collect_bundle sys budget path base head st = Inr (e, st')" "git_documented e"
  shows "bundle_ok e"
proof -
  obtain n printed st1 raws st2 cs st3 where p:
    "oid_length_of (re_object_format (eb_repository e)) = Some n" "0 < n" "utf8_ok (re_root (eb_repository e))"
    "rv_base_ref (eb_revisions e) = base" "rv_head_ref (eb_revisions e) = head"
    "utf8_ok base" "utf8_ok head" "is_oid n (rv_base_oid (eb_revisions e))"
    "is_oid n (rv_head_oid (eb_revisions e))" "is_oid n (rv_merge_base_oid (eb_revisions e))"
    "parse_raw_changes budget n printed st1 = Inr (raws, st2)"
    "materialize_changes sys budget (re_root (eb_repository e)) raws st2 = Inr (cs, st3)"
    "eb_changes e = sort_key change_sort_key cs" "eb_schema_version e = 1"
    by (rule collect_bundle_parts [OF assms(1)]) blast
  have "list_all (raw_ok n) raws"
    using p(2,11) parse_raw_records_ok by (auto simp: parse_raw_changes_def and_then_eq_Inr split: if_splits)
  note changes = materialize_changes_ok [OF p(12) this]
  have "new_side_ok n c \<and> added_lines_ok c" if "c \<in> set (eb_changes e)" for c
  proof -
    have c: "list_all git_hunk_ok (fc_hunks c)"
      "case fc_new c of None \<Rightarrow> True | Some v \<Rightarrow> utf8_ok (fv_path v) \<and> is_oid n (fv_oid v)"
      using changes that by (auto simp: list_all_iff p(13))
    have d: "hunks_ascend (fc_hunks c)" "case fc_new c of
          None \<Rightarrow> list_all (\<lambda>l. dl_kind l \<noteq> ADDITION) (change_lines c) | Some v \<Rightarrow> fv_path v \<noteq> []"
      using assms(2) that by (auto simp: list_all_iff git_documented_def)
    have "added_lines_ok c" by (rule hunks_added_lines [OF c(1) d(1)]) (use d(2) in simp)
    with c(2) d(2) show ?thesis by (cases "fc_new c") (simp_all add: new_side_ok_def)
  qed
  with p assms(2) show ?thesis by (simp add: bundle_ok_def git_documented_def list_all_iff)
qed

text \<open>
  C28. Collection and review together: every bundle the collection returns, with limits or without, is
  accepted by the review, given what git documents of its output. Encodings, object ids, the numbers of
  added lines and their distinctness are the collection's own work.
\<close>

theorem collected_evidence_reviewable:
  assumes "collect_evidence sys limits executable path base head = Inr e" "git_documented e"
  shows "\<exists>r. review_evidence e = Inr r"
proof -
  from assms(1) obtain budget st' where "collect_bundle sys budget path base head (new_collection budget) = Inr (e, st')"
    by (auto simp: collect_evidence_def and_then_eq_Inr)
  from collected_bundle_ok [OF this assms(2)] show ?thesis using review_evidence_ok by blast
qed

end
