(* ===== verification/Git_Sample.thy ===== *)
theory Git_Sample
  imports Git_Review
begin

text \<open>A concrete collection: one file is added, ten processes answer.\<close>

section \<open>Processes that print and exit\<close>

definition plain_steps :: "int \<Rightarrow> bytes \<Rightarrow> process_step list" where
  "plain_steps code out =
     [Emit STDOUT out, Close STDOUT, Close STDERR, Exit code, Read STDOUT (length out), Read STDOUT 1, Read STDERR 1,
      Poll 0, Poll 0, Poll 0, Poll 0, Poll 0, Poll 0, Poll 0, Poll 0]"

lemma plain_run:
  assumes "length out \<le> limit STDOUT" "length out \<le> read_chunk_bytes" "0 < deadline"
  shows "run_bounded limit overflow deadline (Spawned (plain_steps code out) True) =
    Inr \<lparr>cp_code = code, cp_stdout = out, cp_stderr = []\<rparr>"
proof -
  have n: "min (max 1 (length out)) (min read_chunk_bytes (limit STDOUT - 0 + 1)) = max 1 (length out)"
    using assms(1,2) by (simp add: read_chunk_bytes_def)
  show ?thesis
  proof (cases "out = []")
    case True
    with assms show ?thesis
      by (simp add: run_bounded_def plain_steps_def new_run_def new_pipe_def with_pipe_def
        stream_drain_def drain_bounded_stream_def drain_read_def raised_failure_def completed_of_def Let_def)
  next
    case False
    then have "drain_read (limit STDOUT) (length out)
        \<lparr>pi_pending = out, pi_closed = True, pi_drain = \<lparr>dr_output = [], dr_total = 0, dr_overflowed = False, dr_error = False\<rparr>, pi_done = False\<rparr> =
      (\<lparr>pi_pending = [], pi_closed = True, pi_drain = \<lparr>dr_output = out, dr_total = length out, dr_overflowed = False, dr_error = False\<rparr>, pi_done = False\<rparr>, False)"
      using assms(1) n by (cases out) (simp_all add: drain_read_def drain_chunk_def Let_def)
    with assms(3) show ?thesis
      by (simp add: run_bounded_def plain_steps_def new_run_def new_pipe_def with_pipe_def
        stream_drain_def drain_bounded_stream_def raised_failure_def completed_of_def Let_def)
        (simp add: drain_read_def)
  qed
qed

section \<open>The answers\<close>

definition oid_of :: "nat \<Rightarrow> pystr" where
  "oid_of c = replicate 40 c"

definition sample_printed :: "(int \<times> bytes) list" where
  "sample_printed =
     [(0, lit ''/r'' @ [10]), (0, lit ''sha1'' @ [10]), (0, lit ''/r/o'' @ [10]),
      (0, oid_of 97 @ [10]), (0, oid_of 98 @ [10]), (0, oid_of 97 @ [10]),
      (0, lit '':000000 100644 '' @ oid_of 48 @ 32 # oid_of 99 @ lit '' A'' @ [0] @ lit ''f'' @ [0]),
      (0, lit ''2'' @ [10]), (0, lit ''x'' @ [10]), (1, lit ''@@ -0,0 +1 @@'' @ [10] @ lit ''+x'' @ [10])]"

definition sample_system :: git_system where
  "sample_system =
     \<lparr>gs_path = (\<lambda>p. PathResolved p), gs_lstat = (\<lambda>_. None), gs_environ = Map.empty,
      gs_spawn = (\<lambda>n _. Spawned (plain_steps (fst (sample_printed ! n)) (snd (sample_printed ! n))) True),
      gs_run = (\<lambda>_ _. RunMissing),
      gs_pipes = (\<lambda>_. \<lparr>ps_opened = True, ps_started = True, ps_stopped = True, ps_failed = False, ps_old = [51], ps_new = [53]\<rparr>),
      gs_descriptors = Some (lit ''/dev/fd''), gs_facades = lit ''/f'', gs_clock = (\<lambda>_. 0)\<rparr>"

lemma sample_system_pipes [simp]:
  "gs_pipes sample_system n = \<lparr>ps_opened = True, ps_started = True, ps_stopped = True, ps_failed = False, ps_old = [51], ps_new = [53]\<rparr>"
  "gs_descriptors sample_system = Some (lit ''/dev/fd'')"
  by (simp_all add: sample_system_def)

definition sample_limits :: evidence_limits where
  "sample_limits =
     \<lparr>el_max_changed_files = 9, el_max_blob_bytes = 9, el_max_total_blob_bytes = 9, el_max_diff_bytes = 99,
      el_max_diff_lines = 9, el_git_timeout_seconds = Some 1\<rparr>"

definition sample_budget :: collection_budget where
  "sample_budget = new_budget sample_system sample_limits (lit ''git'')"

lemma sample_budget_parts [simp]:
  "cb_limits sample_budget = sample_limits" "cb_deadline sample_budget = 1" "cb_clock sample_budget n = 0"
  by (simp_all add: sample_budget_def new_budget_def sample_limits_def sample_system_def)

definition sample_at :: "nat \<Rightarrow> nat \<Rightarrow> int \<Rightarrow> int \<Rightarrow> int \<Rightarrow> content_cache \<Rightarrow> collect_state" where
  "sample_at r n a d l cache = \<lparr>co_readings = r, co_calls = n, co_blob_bytes = a, co_diff_bytes = d, co_diff_lines = l, co_cache = cache\<rparr>"

lemma sample_at_parts [simp]:
  "co_readings (sample_at r n a d l c) = r" "co_calls (sample_at r n a d l c) = n" "co_blob_bytes (sample_at r n a d l c) = a"
  "co_diff_bytes (sample_at r n a d l c) = d" "co_diff_lines (sample_at r n a d l c) = l" "co_cache (sample_at r n a d l c) = c"
  "(sample_at r n a d l c)\<lparr>co_blob_bytes := a'\<rparr> = sample_at r n a' d l c"
  "(sample_at r n a d l c)\<lparr>co_diff_bytes := d'\<rparr> = sample_at r n a d' l c"
  "(sample_at r n a d l c)\<lparr>co_diff_lines := l'\<rparr> = sample_at r n a d l' c"
  "(sample_at r n a d l c)\<lparr>co_cache := c'\<rparr> = sample_at r n a d l c'"
  by (simp_all add: sample_at_def)

lemma sample_deadline [simp]: "check_deadline (Some sample_budget) (sample_at r n a d l c) = Inr (sample_at (Suc r) n a d l c)"
  by (simp add: check_deadline_def sample_at_def)

lemma sample_invoke:
  assumes "int (length (snd (sample_printed ! n))) \<le> limit" "length (snd (sample_printed ! n)) \<le> 200"
  shows "invoke sample_system (Some sample_budget) limit code call (sample_at r n a d l c) =
    Inr (\<lparr>cp_code = fst (sample_printed ! n), cp_stdout = snd (sample_printed ! n), cp_stderr = []\<rparr>, sample_at (Suc (Suc r)) (Suc n) a d l c)"
proof -
  have calls: "(sample_at r n a d l c)\<lparr>co_calls := n'\<rparr> = sample_at r n' a d l c" for r n' by (simp add: sample_at_def)
  have "run_bounded (\<lambda>s. case s of STDOUT \<Rightarrow> nat limit | STDERR \<Rightarrow> nat control_output_bytes) code 1
      (gs_spawn sample_system n call) =
    Inr \<lparr>cp_code = fst (sample_printed ! n), cp_stdout = snd (sample_printed ! n), cp_stderr = []\<rparr>"
    unfolding sample_system_def git_system.simps
    by (rule plain_run) (use assms in \<open>simp_all add: read_chunk_bytes_def le_nat_iff\<close>)
  moreover have "0 \<le> limit" using assms(1) by linarith
  ultimately show ?thesis
    by (simp add: invoke_def invoke_bounded_process_def calls) (simp add: control_output_bytes_def)
qed

lemma sample_required:
  assumes "int (length (snd (sample_printed ! n))) \<le> limit" "length (snd (sample_printed ! n)) \<le> 200" "fst (sample_printed ! n) = 0"
  shows "run_required sample_system (Some sample_budget) w args limit code (sample_at r n a d l c) =
    Inr (snd (sample_printed ! n), sample_at (Suc (Suc r)) (Suc n) a d l c)"
  using assms by (simp add: run_required_def invoke_git_def sample_invoke successful_def)


section \<open>The collection, step by step\<close>

lemma sample_worktree:
  "resolve_worktree sample_system (Some sample_budget) p (sample_at r 0 a d l c) =
   Inr (lit ''/r'', sample_at (Suc (Suc (Suc r))) 1 a d l c)"
proof -
  have "single_path_output (lit ''/r'' @ [10]) = Inr (lit ''/r'')" "decode_path (lit ''/r'') = Inr (lit ''/r'')"
    "posix_text (lit ''/r'') = lit ''/r''" by code_simp+
  moreover have "gs_path sample_system p = PathResolved p" by (simp add: sample_system_def)
  ultimately show ?thesis
    by (simp add: resolve_worktree_def invoke_git_def sample_invoke sample_printed_def control_output_bytes_def lit_def)
qed

lemma sample_object_format:
  "read_object_format sample_system (Some sample_budget) w (sample_at r 1 a d l c) =
   Inr (lit ''sha1'', sample_at (Suc (Suc r)) 2 a d l c)"
proof -
  have "single_output_line (lit ''sha1'' @ [10]) = Inr (lit ''sha1'')" "list_all (\<lambda>c. c < 128) (lit ''sha1'')" by code_simp+
  then show ?thesis
    by (simp add: read_object_format_def sample_required sample_printed_def control_output_bytes_def lit_def numeral_2_eq_2)
qed

lemma sample_object_directory:
  "read_object_directory sample_system (Some sample_budget) w (sample_at r 2 a d l c) =
   Inr (lit ''/r/o'', sample_at (Suc (Suc r)) 3 a d l c)"
proof -
  have "single_path_output (lit ''/r/o'' @ [10]) = Inr (lit ''/r/o'')" "decode_path (lit ''/r/o'') = Inr (lit ''/r/o'')"
    "posix_text (lit ''/r/o'') = lit ''/r/o''" "posix_root (lit ''/r/o'') \<noteq> []" by code_simp+
  then show ?thesis
    by (simp add: read_object_directory_def sample_required sample_printed_def control_output_bytes_def lit_def)
qed

lemma oid_of_length [simp]: "length (oid_of c) = 40" "oid_of c \<noteq> []"
  by (simp_all add: oid_of_def)

lemma sample_oid_line:
  assumes "c \<in> {97, 98, 99}"
  shows "single_output_line (oid_of c @ [10]) = Inr (oid_of c)" "parse_oid 40 False (oid_of c) = Inr (oid_of c)"
  using assms
  by (auto simp: single_output_line_def ends_with_last oid_of_def is_lower_hex_def list_all_iff all_zero_def)

lemma sample_revisions:
  "collect_revisions sample_system (Some sample_budget) w (lit ''m'') (lit ''t'') 40 (sample_at r 3 a d l c) =
   Inr (\<lparr>rv_base_ref = lit ''m'', rv_head_ref = lit ''t'', rv_base_oid = oid_of 97, rv_head_oid = oid_of 98,
     rv_merge_base_oid = oid_of 97\<rparr>, sample_at (Suc (Suc (Suc (Suc (Suc (Suc r)))))) 6 a d l c)"
proof -
  have refs: "validate_ref (lit ''m'') e = Inr ()" "validate_ref (lit ''t'') e = Inr ()" for e
    by (simp_all add: validate_ref_def lit_def utf8_ok_def)
  have "resolve_ref sample_system (Some sample_budget) w (lit ''m'') e 40 (sample_at r 3 a d l c) =
      Inr (oid_of 97, sample_at (Suc (Suc r)) 4 a d l c)" for e r
    by (simp add: resolve_ref_def refs invoke_git_def sample_invoke sample_printed_def control_output_bytes_def sample_oid_line del: parse_oid_Inr)
  moreover have "resolve_ref sample_system (Some sample_budget) w (lit ''t'') e 40 (sample_at r 4 a d l c) =
      Inr (oid_of 98, sample_at (Suc (Suc r)) 5 a d l c)" for e r
    by (simp add: resolve_ref_def refs invoke_git_def sample_invoke sample_printed_def control_output_bytes_def sample_oid_line del: parse_oid_Inr)
  moreover have "parse_merge_bases 40 (oid_of 97 @ [10]) = Inr [oid_of 97]"
    using split_on_plain [of 10 "oid_of 97"] sample_oid_line(2) [of 97]
    by (simp add: parse_merge_bases_def ends_with_last oid_of_def del: parse_oid_Inr)
  then have "resolve_merge_base sample_system (Some sample_budget) w b h 40 (sample_at r 5 a d l c) =
      Inr (oid_of 97, sample_at (Suc (Suc r)) 6 a d l c)" for b h r
    by (simp add: resolve_merge_base_def invoke_git_def sample_invoke sample_printed_def control_output_bytes_def)
  ultimately show ?thesis by (simp add: collect_revisions_def)
qed

definition sample_raw :: raw_change where
  "sample_raw = \<lparr>rw_change_type = ADDED, rw_similarity = None, rw_old_mode = absent_mode, rw_new_mode = lit ''100644'',
     rw_old_oid = oid_of 48, rw_new_oid = oid_of 99, rw_old_path = lit ''f'', rw_new_path = lit ''f''\<rparr>"

lemma sample_raw_changes:
  "read_raw_changes sample_system (Some sample_budget) f o' m h 40 (sample_at r 6 a d l c) =
   Inr ([sample_raw], sample_at (Suc (Suc (Suc r))) 7 a d l c)"
proof -
  have split: "split_on 0 (butlast (snd (sample_printed ! 6))) =
      [lit '':000000 100644 '' @ oid_of 48 @ 32 # oid_of 99 @ lit '' A'', lit ''f'']"
    "ends_with [0] (snd (sample_printed ! 6))" "snd (sample_printed ! 6) \<noteq> []" by code_simp+
  have rec: "parse_raw_record 40 (lit '':000000 100644 '' @ oid_of 48 @ 32 # oid_of 99 @ lit '' A'') [lit ''f''] =
      Inr (sample_raw, [])" by code_simp
  have "fst (sample_printed ! 6) = 0" "length (snd (sample_printed ! 6)) \<le> 200" by code_simp+
  then show ?thesis
    by (simp add: read_raw_changes_def run_object_git_required_def invoke_object_git_def sample_invoke successful_def
      raw_change_output_bytes_def parse_raw_changes_def split rec sample_limits_def)
qed


text \<open>The one change: its content is read and cached, then its patch.\<close>

definition sample_line :: diff_line where
  "sample_line = \<lparr>dl_kind = ADDITION, dl_old = None, dl_new = Some 1, dl_content = lit ''x'', dl_newline = True\<rparr>"

definition sample_change :: file_change where
  "sample_change = \<lparr>fc_change_type = ADDED, fc_rename_similarity = None, fc_old = None,
     fc_new = Some \<lparr>fv_path = lit ''f'', fv_mode = lit ''100644'', fv_oid = oid_of 99, fv_content_kind = TEXT\<rparr>,
     fc_hunks = [\<lparr>dh_old_start = 0, dh_old_count = 0, dh_new_start = 1, dh_new_count = 1, dh_lines = [sample_line]\<rparr>]\<rparr>"

lemma sample_content:
  "\<exists>r'. classify_content sample_system (Some sample_budget) w (lit ''100644'') (oid_of 99) (sample_at r 7 0 0 0 c) =
   Inr ((TEXT, Some (lit ''x'' @ [10])), sample_at r' 9 2 0 0 c)"
proof -
  have n: "snd (sample_printed ! 7) = lit ''2'' @ [10]" "fst (sample_printed ! 7) = 0"
    "snd (sample_printed ! 8) = lit ''x'' @ [10]" "fst (sample_printed ! 8) = 0" by (simp_all add: sample_printed_def)
  have v: "parse_blob_size (lit ''2'' @ [10]) = Inr 2"
    by (simp add: parse_blob_size_def single_output_line_def ends_with_last lit_def is_digit_def digits_value_def)
  have k: "classify_bytes (lit ''x'' @ [10]) = (TEXT, Some (lit ''x'' @ [10]))" by code_simp
  have m: "lit ''100644'' \<noteq> lit ''120000''" "lit ''100644'' \<noteq> lit ''160000''" "regular_mode (lit ''100644'')" by code_simp+
  have "run_required sample_system (Some sample_budget) w args control_output_bytes code (sample_at r 7 a d l c) =
      Inr (lit ''2'' @ [10], sample_at (Suc (Suc r)) 8 a d l c)" for args code r a d l
    using sample_required [of 7] by (simp add: n control_output_bytes_def lit_def)
  moreover have "run_required sample_system (Some sample_budget) w args 2 code (sample_at r 8 a d l c) =
      Inr (lit ''x'' @ [10], sample_at (Suc (Suc r)) 9 a d l c)" for args code r a d l
    using sample_required [of 8] by (simp add: n lit_def)
  ultimately show ?thesis
    by (simp add: classify_content_def m v k reserve_blob_bytes_def sample_limits_def) (simp add: lit_def, blast)
qed


definition sample_patch :: bytes where
  "sample_patch = lit ''@@ -0,0 +1 @@'' @ [10] @ lit ''+x'' @ [10]"

lemma sample_parse:
  "\<exists>r'. parse_hunks (Some sample_budget) sample_patch (sample_at r 10 2 d 0 c) =
   Inr (fc_hunks sample_change, sample_at r' 10 2 d 1 c)"
proof -
  let ?head = "lit ''@@ -0,0 +1 @@'' @ [10]"
  have lines: "split_lf sample_patch = [?head, lit ''+x'' @ [10]]" by code_simp
  have m: "match_hunk ?head = Some (([48], Some [48]), ([49], None))" "match_hunk (lit ''+x'' @ [10]) = None" by code_simp+
  have x: "lit ''+x'' @ [10] \<noteq> git_no_newline_marker" "lit ''+x'' @ [10] \<noteq> []" "hd (lit ''+x'' @ [10]) = 43"
    "utf8_decode (strip_newline (tl (lit ''+x'' @ [10]))) = Some (lit ''x'')" by code_simp+
  have open': "open_hunk (([48], Some [48]), ([49], None)) no_hunks =
      Inr (no_hunks\<lparr>hk_header := Some (0, 0, 1, 1), hk_old := 0, hk_new := 1\<rparr>)"
    by (simp add: open_hunk_def header_int_def header_count_def digits_value_def no_hunks_def)
  have close: "close_hunk no_hunks = Inr no_hunks" by (simp add: close_hunk_def no_hunks_def)
  have first: "hunk_line (Some sample_budget) (no_hunks, sample_at r 10 2 d 0 c) ?head =
      Inr (no_hunks\<lparr>hk_header := Some (0, 0, 1, 1), hk_old := 0, hk_new := 1\<rparr>, sample_at (Suc (Suc r)) 10 2 d 0 c)" for r
    by (simp add: hunk_line_def m finish_current_def close open')
  have second: "hunk_line (Some sample_budget) (h, sample_at r 10 2 d 0 c) (lit ''+x'' @ [10]) =
      Inr (add_line ADDITION (lit ''x'') h, sample_at (Suc (Suc r)) 10 2 d 1 c)" if set: "hk_header h \<noteq> None" for h r
  proof -
    obtain header where "hk_header h = Some header" using set by auto
    then show ?thesis
      by (simp add: hunk_line_def m x marker_kind_def reserve_diff_line_def sample_limits_def del: append.simps)
  qed
  show ?thesis
    unfolding parse_hunks_def lines
    by (simp add: first second finish_current_def del: append.simps)
      (simp add: close_hunk_def add_line_def no_hunks_def sample_change_def sample_line_def old_side_def new_side_def, blast)
qed

lemma sample_hunks:
  assumes "c (lit ''regular'', oid_of 99) = Some (TEXT, Some (lit ''x'' @ [10]))"
  shows "\<exists>r' d. read_hunks sample_system (Some sample_budget) None (fc_new sample_change) (sample_at r 9 2 0 0 c) =
    Inr (fc_hunks sample_change, sample_at r' 10 2 d 1 c)"
proof -
  have new: "fc_new sample_change \<noteq> None" "is_text (fc_new sample_change)" by (simp_all add: sample_change_def is_text_def)
  have content: "text_content (fc_new sample_change) c = Inr (lit ''x'' @ [10])" "text_content None c = Inr []"
    using assms by (simp_all add: text_content_def sample_change_def content_cache_key_def regular_mode_def starts_with_def lit_def)
  have printed: "sample_printed ! 9 = (1, sample_patch)" "length sample_patch = 17" "lit ''x'' @ [10] \<noteq> []" "sample_patch \<noteq> []"
    by (simp_all add: sample_printed_def sample_patch_def lit_def)
  have diff: "piped_diff sample_system (Some sample_budget) [] y (sample_at r 9 2 0 0 c) =
      Inr (\<lparr>cp_code = 1, cp_stdout = sample_patch, cp_stderr = []\<rparr>, sample_at (Suc (Suc r)) 10 2 0 0 c)" for r y
    using sample_invoke [of 9] printed
    by (simp add: piped_diff_def invoke_no_index_diff_def sample_limits_def Let_def)
  obtain r' where p: "parse_hunks (Some sample_budget) sample_patch (sample_at (Suc (Suc (Suc (Suc r)))) 10 2 17 0 c) =
      Inr (fc_hunks sample_change, sample_at r' 10 2 17 1 c)" using sample_parse by blast
  have patch: "read_patch sample_system (Some sample_budget) [] (lit ''x'' @ [10]) (sample_at r 9 2 0 0 c) =
      Inr (sample_patch, sample_at (Suc (Suc (Suc (Suc r)))) 10 2 17 0 c)"
    using printed by (simp add: read_patch_def diff reserve_diff_bytes_def sample_limits_def del: append.simps)
  show ?thesis
    by (intro exI [of _ r'] exI [of _ 17])
      (use new content p printed in \<open>simp add: read_hunks_def is_text_def patch del: append.simps\<close>,
       simp add: sample_change_def)
qed


lemma sample_materialized:
  "\<exists>r' d c. materialize_changes sample_system (Some sample_budget) w [sample_raw] (sample_at r 7 0 0 0 Map.empty) =
    Inr ([sample_change], sample_at r' 10 2 d 1 c)"
proof -
  let ?key = "(lit ''regular'', oid_of 99)"
  let ?c = "Map.empty(?key \<mapsto> (TEXT, Some (lit ''x'' @ [10])))"
  have key: "content_cache_key (lit ''100644'') (oid_of 99) = ?key" "lit ''100644'' \<noteq> absent_mode"
    by (simp_all add: content_cache_key_def regular_mode_def starts_with_def lit_def absent_mode_def)
  obtain r1 where "classify_content sample_system (Some sample_budget) w (lit ''100644'') (oid_of 99) (sample_at (Suc r) 7 0 0 0 Map.empty) =
      Inr ((TEXT, Some (lit ''x'' @ [10])), sample_at r1 9 2 0 0 Map.empty)" using sample_content by blast
  then have version: "materialize_version sample_system (Some sample_budget) w (lit ''f'') (lit ''100644'') (oid_of 99) (sample_at (Suc r) 7 0 0 0 Map.empty) =
      Inr (fc_new sample_change, sample_at r1 9 2 0 0 ?c)"
    by (simp add: materialize_version_def key sample_change_def)
  obtain r2 d where "read_hunks sample_system (Some sample_budget) None (fc_new sample_change) (sample_at r1 9 2 0 0 ?c) =
      Inr (fc_hunks sample_change, sample_at r2 10 2 d 1 ?c)"
    using sample_hunks [of ?c] fun_upd_same by metis
  with version have "materialize_change sample_system (Some sample_budget) w sample_raw (sample_at r 7 0 0 0 Map.empty) =
      Inr (sample_change, sample_at r2 10 2 d 1 ?c)"
    by (simp add: materialize_change_def sample_raw_def materialize_version_def [of _ _ _ _ absent_mode])
      (simp add: sample_change_def)
  then show ?thesis by auto
qed

definition sample_bundle :: evidence_bundle where
  "sample_bundle = \<lparr>eb_repository = \<lparr>re_root = lit ''/r'', re_object_format = lit ''sha1''\<rparr>,
     eb_revisions = \<lparr>rv_base_ref = lit ''m'', rv_head_ref = lit ''t'', rv_base_oid = oid_of 97, rv_head_oid = oid_of 98,
       rv_merge_base_oid = oid_of 97\<rparr>,
     eb_changes = [sample_change], eb_schema_version = 1\<rparr>"

lemma sample_collected:
  "collect_evidence sample_system (Some sample_limits) None (lit ''r'') (lit ''m'') (lit ''t'') = Inr sample_bundle"
proof -
  have "evidence_limits_valid sample_limits" by (simp add: evidence_limits_valid_def sample_limits_def)
  then have budget: "budget_for sample_system (Some sample_limits) None = Inr (Some sample_budget)"
    by (simp add: budget_for_def sample_budget_def)
  have start: "new_collection (Some sample_budget) = sample_at 1 0 0 0 0 Map.empty"
    by (simp add: new_collection_def sample_at_def)
  have n: "oid_length_for (lit ''sha1'') = 40" by (simp add: oid_length_for_def)
  let ?S = "\<lambda>r n. sample_at r n 0 0 0 Map.empty"
  obtain r1 where a1: "resolve_worktree sample_system (Some sample_budget) (lit ''r'') (?S 1 0) = Inr (lit ''/r'', ?S r1 1)"
    using sample_worktree by blast
  obtain r2 where a2: "read_object_format sample_system (Some sample_budget) (lit ''/r'') (?S r1 1) = Inr (lit ''sha1'', ?S r2 2)"
    using sample_object_format by blast
  obtain r3 where a3: "read_object_directory sample_system (Some sample_budget) (lit ''/r'') (?S r2 2) = Inr (lit ''/r/o'', ?S r3 3)"
    using sample_object_directory by blast
  obtain r4 where a4: "collect_revisions sample_system (Some sample_budget) (lit ''/r'') (lit ''m'') (lit ''t'') 40 (?S r3 3) =
      Inr (eb_revisions sample_bundle, ?S r4 6)"
    using sample_revisions by (simp add: sample_bundle_def)
  obtain r5 where a5: "read_raw_changes sample_system (Some sample_budget) (lit ''sha1'') (lit ''/r/o'') (oid_of 97) (oid_of 98) 40 (?S r4 6) =
      Inr ([sample_raw], ?S r5 7)"
    using sample_raw_changes by blast
  obtain r6 d c where a6: "materialize_changes sample_system (Some sample_budget) (lit ''/r'') [sample_raw] (?S r5 7) =
      Inr ([sample_change], sample_at r6 10 2 d 1 c)"
    using sample_materialized by blast
  have ids: "rv_merge_base_oid (eb_revisions sample_bundle) = oid_of 97" "rv_head_oid (eb_revisions sample_bundle) = oid_of 98"
    by (simp_all add: sample_bundle_def)
  have whole: "sample_bundle = \<lparr>eb_repository = \<lparr>re_root = lit ''/r'', re_object_format = lit ''sha1''\<rparr>,
      eb_revisions = eb_revisions sample_bundle, eb_changes = [sample_change], eb_schema_version = 1\<rparr>"
    by (simp add: sample_bundle_def)
  show ?thesis
    unfolding collect_evidence_def budget and_then_Inr start collect_bundle_def
    by (simp only: a1 a2 a3 and_then_Inr fst_conv snd_conv n Let_def a4 ids a5 a6 sample_deadline)
      (subst whole, simp)
qed

section \<open>The witnesses\<close>

theorem collected_within_limits_witness:
  "int (length (eb_changes sample_bundle)) \<le> 9 \<and> int (lines_in (eb_changes sample_bundle)) \<le> 9 \<and>
   int (bytes_in (eb_changes sample_bundle)) \<le> 99"
  using collected_within_limits [OF sample_collected] by (simp add: sample_limits_def)

theorem collected_evidence_reviewable_witness: "\<exists>r. review_evidence sample_bundle = Inr r"
proof (rule collected_evidence_reviewable [OF sample_collected])
  show "git_documented sample_bundle"
    by (simp add: git_documented_def sample_bundle_def sample_change_def hunks_ascend_def starts_with_def lit_def)
qed

end
