(* ===== verification/Agent_Model.thy ===== *)
theory Agent_Model
  imports Review_Facts
begin

text \<open>
  The data of the controlled Agent review, \<open>src/src/repoguard/agent.py\<close>, and of the provider interface,
  \<open>src/src/repoguard/providers.py\<close>: enumerations, the configuration with its ceilings, findings, results and
  their JSON mapping, requests and responses. Times are rational numbers of seconds; a timeout that is no
  finite number is \<open>None\<close>. The tests of exact types hold by typing.
\<close>

section \<open>Enumerations\<close>

datatype finding_source = DETERMINISTIC | AGENT

datatype agent_rule_id = AGENT_REASONING

datatype agent_node =
    VALIDATE | DETERMINISTIC_REVIEW | BUILD_PROMPT | INVOKE_PROVIDER | PARSE_RESPONSE | MERGE_FINDINGS | FINALIZE

datatype agent_error_code =
    UNSUPPORTED_EVIDENCE_SCHEMA | INVALID_EVIDENCE | INVALID_CONFIGURATION | CONTEXT_LIMIT_EXCEEDED
  | PROVIDER_AUTHENTICATION_FAILED | PROVIDER_RATE_LIMITED | PROVIDER_TIMEOUT | PROVIDER_UNAVAILABLE
  | PROVIDER_REQUEST_FAILED | PROVIDER_REFUSED | INVALID_MODEL_OUTPUT | BUDGET_EXCEEDED | WORKFLOW_EXECUTION_FAILED

datatype message_role = SYSTEM | USER

datatype provider_error_code =
    AUTHENTICATION_FAILED | RATE_LIMITED | TIMEOUT | UNAVAILABLE | REQUEST_FAILED | REFUSED | INVALID_RESPONSE

fun source_value :: "finding_source \<Rightarrow> string" where
  "source_value DETERMINISTIC = ''deterministic''"
| "source_value AGENT = ''agent''"

text \<open>The rule of a finding is a rule of the deterministic review or the rule of the model.\<close>

datatype finding_rule = ReviewRule rule_id | AgentRule agent_rule_id

fun agent_rule_value :: "agent_rule_id \<Rightarrow> string" where
  "agent_rule_value AGENT_REASONING = ''agent_reasoning''"

fun finding_rule_value :: "finding_rule \<Rightarrow> string" where
  "finding_rule_value (ReviewRule u) = rule_id_value u"
| "finding_rule_value (AgentRule u) = agent_rule_value u"

record agent_error =
  ae_code :: agent_error_code
  ae_node :: agent_node
  ae_attempts :: nat

definition agent_fail :: "agent_error_code \<Rightarrow> agent_node \<Rightarrow> nat \<Rightarrow> agent_error" where
  "agent_fail code node attempts = \<lparr>ae_code = code, ae_node = node, ae_attempts = attempts\<rparr>"

section \<open>Requests and responses\<close>

record llm_message =
  lm_role :: message_role
  lm_content :: pystr

record llm_request =
  lq_model :: pystr
  lq_messages :: "llm_message list"
  lq_max_output_tokens :: int
  lq_timeout_seconds :: rat

text \<open>The checks of the constructor; the timeout is finite by typing.\<close>

definition llm_request_ok :: "llm_request \<Rightarrow> bool" where
  "llm_request_ok q \<longleftrightarrow>
     lq_model q \<noteq> [] \<and>
     (case lq_messages q of [a, b] \<Rightarrow> lm_role a = SYSTEM \<and> lm_role b = USER | _ \<Rightarrow> False) \<and>
     0 < lq_max_output_tokens q \<and> 0 < lq_timeout_seconds q"

record token_usage =
  tu_input_tokens :: "int option"
  tu_output_tokens :: "int option"
  tu_total_tokens :: "int option"

definition token_usage_ok :: "token_usage \<Rightarrow> bool" where
  "token_usage_ok u \<longleftrightarrow>
     list_all (\<lambda>v. case v of None \<Rightarrow> True | Some n \<Rightarrow> 0 \<le> n) [tu_input_tokens u, tu_output_tokens u, tu_total_tokens u]"

record llm_response =
  lr_output_text :: pystr
  lr_usage :: "token_usage option"

text \<open>
  What a call of \<open>complete\<close> does: it returns a response, \<open>None\<close> or an object that is no response, it raises
  a \<open>ProviderError\<close>, or it raises something else.
\<close>

datatype provider_outcome =
    Returned llm_response | ReturnedNone | ReturnedOther | ProviderFailed provider_error_code | ProviderRaised

text \<open>A provider is its name and what its n-th call does on a request.\<close>

record llm_provider =
  lp_name :: pystr
  lp_complete :: "nat \<Rightarrow> llm_request \<Rightarrow> provider_outcome"

section \<open>Configuration\<close>

record agent_config =
  ac_model :: pystr
  ac_max_prompt_bytes :: int
  ac_max_output_tokens :: int
  ac_max_response_bytes :: int
  ac_max_model_findings :: int
  ac_max_references_per_finding :: int
  ac_max_title_chars :: int
  ac_max_message_chars :: int
  ac_max_remediation_chars :: int
  ac_per_attempt_timeout_seconds :: "rat option"
  ac_total_timeout_seconds :: "rat option"
  ac_max_attempts :: int

text \<open>\<open>str.isspace\<close> of the language, the characters \<open>str.strip\<close> removes.\<close>

definition py_space :: "nat \<Rightarrow> bool" where
  "py_space c \<longleftrightarrow>
     9 \<le> c \<and> c \<le> 13 \<or> 28 \<le> c \<and> c \<le> 32 \<or> c = 133 \<or> c = 160 \<or> c = 5760 \<or> 8192 \<le> c \<and> c \<le> 8202 \<or>
     c = 8232 \<or> c = 8233 \<or> c = 8239 \<or> c = 8287 \<or> c = 12288"

definition py_strip :: "pystr \<Rightarrow> pystr" where
  "py_strip s = rev (dropWhile py_space (rev (dropWhile py_space s)))"

text \<open>The category \<open>Cc\<close> of the Unicode database.\<close>

definition is_control :: "nat \<Rightarrow> bool" where
  "is_control c \<longleftrightarrow> c < 32 \<or> 127 \<le> c \<and> c < 160"

definition invalid_configuration :: agent_error where
  "invalid_configuration = agent_fail INVALID_CONFIGURATION VALIDATE 0"

definition validate_identifier :: "pystr \<Rightarrow> nat \<Rightarrow> agent_error + unit" where
  "validate_identifier s maximum =
     and_then (require (py_strip s \<noteq> [] \<and> length s \<le> maximum) invalid_configuration) (\<lambda>_.
     and_then (require (utf8_ok s) invalid_configuration) (\<lambda>_.
     require (\<not> list_ex is_control s) invalid_configuration))"

definition max_config_values :: "((agent_config \<Rightarrow> int) \<times> int) list" where
  "max_config_values =
     [(ac_max_prompt_bytes, 131072), (ac_max_output_tokens, 4096), (ac_max_response_bytes, 524288),
      (ac_max_model_findings, 100), (ac_max_references_per_finding, 8), (ac_max_title_chars, 120),
      (ac_max_message_chars, 1000), (ac_max_remediation_chars, 1000), (ac_max_attempts, 3)]"

definition max_timeout_values :: "((agent_config \<Rightarrow> rat option) \<times> rat) list" where
  "max_timeout_values = [(ac_per_attempt_timeout_seconds, 30), (ac_total_timeout_seconds, 95)]"

definition timeout_in :: "rat \<Rightarrow> rat option \<Rightarrow> bool" where
  "timeout_in maximum t = (case t of None \<Rightarrow> False | Some x \<Rightarrow> 0 < x \<and> x \<le> maximum)"

definition validate_configuration :: "agent_config \<Rightarrow> agent_error + unit" where
  "validate_configuration cfg =
     and_then (validate_identifier (ac_model cfg) 256) (\<lambda>_.
     and_then (require (list_all (\<lambda>(field, maximum). 1 \<le> field cfg \<and> field cfg \<le> maximum) max_config_values)
       invalid_configuration) (\<lambda>_.
     require (list_all (\<lambda>(field, maximum). timeout_in maximum (field cfg)) max_timeout_values)
       invalid_configuration))"

definition validate_provider :: "llm_provider \<Rightarrow> agent_error + unit" where
  "validate_provider p = validate_identifier (lp_name p) 64"

section \<open>Findings and results\<close>

record agent_finding =
  af_source :: finding_source
  af_rule :: finding_rule
  af_category :: finding_category
  af_severity :: finding_severity
  af_title :: pystr
  af_message :: pystr
  af_remediation :: pystr
  af_references :: "evidence_reference list"

definition line_range_ok :: "int option \<Rightarrow> int option \<Rightarrow> bool" where
  "line_range_ok a z =
     (case (a, z) of (None, None) \<Rightarrow> True | (Some s, Some e) \<Rightarrow> 1 \<le> s \<and> s \<le> e | _ \<Rightarrow> False)"

definition any_oid :: "pystr \<Rightarrow> bool" where
  "any_oid s \<longleftrightarrow> is_oid 40 s \<or> is_oid 64 s"

definition reference_ok :: "evidence_reference \<Rightarrow> bool" where
  "reference_ok r \<longleftrightarrow>
     er_path r \<noteq> [] \<and> utf8_ok (er_path r) \<and> any_oid (er_oid r) \<and> line_range_ok (er_start r) (er_end r)"

text \<open>The checks of the constructor: \<open>False\<close> is its ValueError.\<close>

definition agent_finding_ok :: "agent_finding \<Rightarrow> bool" where
  "agent_finding_ok f \<longleftrightarrow>
     af_references f \<noteq> [] \<and> list_all reference_ok (af_references f) \<and>
     (case (af_source f, af_rule f) of
        (DETERMINISTIC, ReviewRule _) \<Rightarrow> True
      | (AGENT, AgentRule _) \<Rightarrow> True
      | _ \<Rightarrow> False)"

record agent_prompt_identity =
  pi_name :: pystr
  pi_version :: pystr
  pi_sha256 :: pystr

definition agent_prompt_identity_ok :: "agent_prompt_identity \<Rightarrow> bool" where
  "agent_prompt_identity_ok p \<longleftrightarrow>
     pi_name p = lit ''agent_review'' \<and> pi_version p = lit ''v1'' \<and> is_oid 64 (pi_sha256 p)"

record agent_result =
  ar_repository :: repository_evidence
  ar_revisions :: revision_evidence
  ar_provider :: pystr
  ar_model :: pystr
  ar_prompt :: agent_prompt_identity
  ar_attempt_count :: nat
  ar_usage :: "token_usage option"
  ar_prompt_bytes :: nat
  ar_response_bytes :: nat
  ar_findings :: "agent_finding list"
  ar_schema_version :: int

definition agent_result_ok :: "agent_result \<Rightarrow> bool" where
  "agent_result_ok r \<longleftrightarrow> ar_schema_version r = 1 \<and> 1 \<le> ar_attempt_count r"

section \<open>JSON mapping\<close>

definition reference_dict :: "evidence_reference \<Rightarrow> json" where
  "reference_dict r =
     JObj [(lit ''path'', JStr (er_path r)), (lit ''side'', j_str (side_value (er_side r))),
       (lit ''oid'', JStr (er_oid r)), (lit ''start_line'', j_opt JInt (er_start r)),
       (lit ''end_line'', j_opt JInt (er_end r))]"

definition agent_finding_to_dict :: "agent_finding \<Rightarrow> json" where
  "agent_finding_to_dict f =
     JObj [(lit ''source'', j_str (source_value (af_source f))),
       (lit ''rule_id'', j_str (finding_rule_value (af_rule f))),
       (lit ''category'', j_str (category_value (af_category f))),
       (lit ''severity'', j_str (severity_value (af_severity f))),
       (lit ''title'', JStr (af_title f)), (lit ''message'', JStr (af_message f)),
       (lit ''remediation'', JStr (af_remediation f)),
       (lit ''references'', JList (map reference_dict (af_references f)))]"

definition usage_to_dict :: "token_usage \<Rightarrow> json" where
  "usage_to_dict u =
     JObj [(lit ''input_tokens'', j_opt JInt (tu_input_tokens u)),
       (lit ''output_tokens'', j_opt JInt (tu_output_tokens u)),
       (lit ''total_tokens'', j_opt JInt (tu_total_tokens u))]"

definition agent_review_to_dict :: "agent_result \<Rightarrow> json" where
  "agent_review_to_dict r =
     JObj [(lit ''schema_version'', JInt (ar_schema_version r)),
       (lit ''repository'', JObj [(lit ''root'', JStr (re_root (ar_repository r))),
          (lit ''object_format'', JStr (re_object_format (ar_repository r)))]),
       (lit ''revisions'', ev_revisions_to_dict (ar_revisions r)),
       (lit ''provider'', JStr (ar_provider r)), (lit ''model'', JStr (ar_model r)),
       (lit ''prompt'', JObj [(lit ''name'', JStr (pi_name (ar_prompt r))),
          (lit ''version'', JStr (pi_version (ar_prompt r))), (lit ''sha256'', JStr (pi_sha256 (ar_prompt r)))]),
       (lit ''attempt_count'', JInt (int (ar_attempt_count r))),
       (lit ''usage'', j_opt usage_to_dict (ar_usage r)),
       (lit ''prompt_bytes'', JInt (int (ar_prompt_bytes r))),
       (lit ''response_bytes'', JInt (int (ar_response_bytes r))),
       (lit ''findings'', JList (map agent_finding_to_dict (ar_findings r)))]"

text \<open>\<open>None\<close> is the ValueError of an integer too long for its text.\<close>

definition agent_review_to_json :: "agent_result \<Rightarrow> pystr option" where
  "agent_review_to_json r =
     (let d = agent_review_to_dict r in if json_digits_ok d then Some (json_text d) else None)"

section \<open>Keys\<close>

text \<open>Findings of both sources in one order, and the contract of canonical listings for them.\<close>

fun source_rank :: "finding_source \<Rightarrow> int" where
  "source_rank DETERMINISTIC = 0"
| "source_rank AGENT = 1"

definition agent_sort_key ::
  "agent_finding \<Rightarrow> int \<times> bytes \<times> int \<times> int \<times> int \<times> pystr \<times> (bytes \<times> pystr \<times> pystr \<times> int \<times> int) list \<times>
     pystr \<times> pystr \<times> pystr \<times> pystr" where
  "agent_sort_key f =
     (let r = hd (af_references f) in
      (severity_rank (af_severity f), utf8_bytes (er_path r), line_sort_value (er_start r),
       line_sort_value (er_end r), source_rank (af_source f), lit (finding_rule_value (af_rule f)),
       map reference_sort_key (af_references f), lit (category_value (af_category f)),
       af_title f, af_message f, af_remediation f))"

lemma severity_rank_inj: "severity_rank s = severity_rank t \<Longrightarrow> s = t"
  by (cases s; cases t) simp_all

lemma source_rank_inj: "source_rank s = source_rank t \<Longrightarrow> s = t"
  by (cases s; cases t) simp_all

lemma category_value_inj: "category_value c = category_value d \<Longrightarrow> c = d"
  by (cases c; cases d) simp_all

lemma side_value_inj: "side_value c = side_value d \<Longrightarrow> c = d"
  by (cases c; cases d) simp_all

lemma finding_rule_value_inj: "finding_rule_value u = finding_rule_value v \<Longrightarrow> u = v"
proof (cases u; cases v)
  fix x y assume "u = ReviewRule x" "v = AgentRule y" "finding_rule_value u = finding_rule_value v"
  then show "u = v" by (cases x; cases y) simp_all
next
  fix x y assume "u = AgentRule x" "v = ReviewRule y" "finding_rule_value u = finding_rule_value v"
  then show "u = v" by (cases x; cases y) simp_all
next
  fix x y assume "u = ReviewRule x" "v = ReviewRule y" "finding_rule_value u = finding_rule_value v"
  then show "u = v" by (simp add: rule_id_value_inj)
next
  fix x y assume "u = AgentRule x" "v = AgentRule y"
  then show "u = v" by (cases x; cases y) simp
qed

lemma reference_key_inj:
  assumes "reference_ok r" "reference_ok s" "reference_sort_key r = reference_sort_key s"
  shows "r = s"
  using assms
  by (cases "er_start r"; cases "er_end r"; cases "er_start s"; cases "er_end s")
    (auto simp: reference_ok_def line_range_ok_def reference_sort_key_def line_sort_value_def utf8_bytes_inj
      intro!: evidence_reference.equality dest: side_value_inj)

lemma reference_keys_inj:
  "list_all reference_ok rs \<Longrightarrow> list_all reference_ok ss \<Longrightarrow> map reference_sort_key rs = map reference_sort_key ss \<Longrightarrow>
   rs = ss"
proof (induction rs arbitrary: ss)
  case (Cons r rs)
  then obtain s ss' where "ss = s # ss'" "reference_sort_key r = reference_sort_key s" by (cases ss) simp_all
  with Cons show ?case by (simp add: reference_key_inj)
qed simp

interpretation ref_order: canonical_order "\<lambda>r. r" reference_sort_key reference_ok
  by unfold_locales (auto dest: reference_key_inj)

interpretation agent_order: canonical_order "\<lambda>f. f" agent_sort_key agent_finding_ok
proof unfold_locales
  fix f g assume ok: "agent_finding_ok f" "agent_finding_ok g" and key: "agent_sort_key f = agent_sort_key g"
  have "af_references f = af_references g"
    using ok key by (intro reference_keys_inj) (simp_all add: agent_finding_ok_def agent_sort_key_def Let_def)
  moreover have "severity_rank (af_severity f) = severity_rank (af_severity g)"
    "source_rank (af_source f) = source_rank (af_source g)"
    "lit (finding_rule_value (af_rule f)) = lit (finding_rule_value (af_rule g))"
    "lit (category_value (af_category f)) = lit (category_value (af_category g))"
    "af_title f = af_title g" "af_message f = af_message g" "af_remediation f = af_remediation g"
    using key unfolding agent_sort_key_def Let_def prod.inject by blast+
  ultimately show "f = g"
    by (intro agent_finding.equality)
      (simp_all add: severity_rank_inj source_rank_inj finding_rule_value_inj category_value_inj)
qed simp_all

end
