(* ===== verification/Agent_Evidence.thy ===== *)
theory Agent_Evidence
  imports Agent_Model
begin

text \<open>
  The complete check of the evidence before it may enter a prompt, \<open>_validate_context_evidence\<close> of
  \<open>src/src/repoguard/_agent.py\<close>: sides, versions, hunks and the numbering of every line. The sets the source
  passes around and extends are threaded through the checks.
\<close>

definition invalid_evidence :: agent_error where
  "invalid_evidence = agent_fail INVALID_EVIDENCE VALIDATE 0"

definition check_utf8 :: "pystr \<Rightarrow> agent_error + unit" where
  "check_utf8 s = require (utf8_ok s) invalid_evidence"

definition check_oid :: "nat \<Rightarrow> pystr \<Rightarrow> agent_error + unit" where
  "check_oid n s = require (is_oid n s) invalid_evidence"

section \<open>Lines and hunks\<close>

text \<open>The next expected numbers of a hunk and the numbers the change has used on each side.\<close>

record line_scan =
  ls_expected_old :: int
  ls_expected_new :: int
  ls_old_numbers :: "int set"
  ls_new_numbers :: "int set"

definition old_step :: "int option \<Rightarrow> line_scan \<Rightarrow> agent_error + line_scan" where
  "old_step number s =
     (case number of None \<Rightarrow> Inr s
      | Some n \<Rightarrow>
          if n < 1 \<or> n \<in> ls_old_numbers s then Inl invalid_evidence
          else Inr (s\<lparr>ls_old_numbers := insert n (ls_old_numbers s), ls_expected_old := ls_expected_old s + 1\<rparr>))"

definition new_step :: "int option \<Rightarrow> line_scan \<Rightarrow> agent_error + line_scan" where
  "new_step number s =
     (case number of None \<Rightarrow> Inr s
      | Some n \<Rightarrow>
          if n < 1 \<or> n \<in> ls_new_numbers s then Inl invalid_evidence
          else Inr (s\<lparr>ls_new_numbers := insert n (ls_new_numbers s), ls_expected_new := ls_expected_new s + 1\<rparr>))"

definition validate_context_line :: "line_scan \<Rightarrow> diff_line \<Rightarrow> agent_error + line_scan" where
  "validate_context_line s l =
     and_then (check_utf8 (dl_content l)) (\<lambda>_.
     let required_old = (if dl_kind l = ADDITION then None else Some (ls_expected_old s));
         required_new = (if dl_kind l = DELETION then None else Some (ls_expected_new s)) in
     if dl_old l \<noteq> required_old \<or> dl_new l \<noteq> required_new then Inl invalid_evidence
     else and_then (old_step (dl_old l) s) (new_step (dl_new l)))"

definition observed_old :: "diff_line list \<Rightarrow> int" where
  "observed_old ls = int (length (filter (\<lambda>l. dl_kind l \<noteq> ADDITION) ls))"

definition observed_new :: "diff_line list \<Rightarrow> int" where
  "observed_new ls = int (length (filter (\<lambda>l. dl_kind l \<noteq> DELETION) ls))"

definition validate_context_hunk :: "int set \<times> int set \<Rightarrow> diff_hunk \<Rightarrow> agent_error + int set \<times> int set" where
  "validate_context_hunk used h =
     (if dh_old_start h < 0 \<or> dh_new_start h < 0 then Inl invalid_evidence
      else if dh_old_count h < 0 \<or> dh_new_count h < 0 then Inl invalid_evidence
      else and_then
        (fold_res validate_context_line
          \<lparr>ls_expected_old = dh_old_start h, ls_expected_new = dh_new_start h,
           ls_old_numbers = fst used, ls_new_numbers = snd used\<rparr> (dh_lines h)) (\<lambda>s.
        if observed_old (dh_lines h) \<noteq> dh_old_count h \<or> observed_new (dh_lines h) \<noteq> dh_new_count h
        then Inl invalid_evidence
        else Inr (ls_old_numbers s, ls_new_numbers s)))"

section \<open>Changes\<close>

definition validate_context_version :: "nat \<Rightarrow> file_version \<Rightarrow> agent_error + unit" where
  "validate_context_version n v =
     (if fv_path v = [] \<or> fv_mode v = [] then Inl invalid_evidence
      else and_then (check_utf8 (fv_path v)) (\<lambda>_.
        and_then (check_utf8 (fv_mode v)) (\<lambda>_. check_oid n (fv_oid v))))"

text \<open>One side of a change: its target may not have been seen before.\<close>

definition validate_side ::
  "nat \<Rightarrow> evidence_side \<Rightarrow> file_version option \<Rightarrow> (pystr \<times> evidence_side) set \<Rightarrow>
     agent_error + (pystr \<times> evidence_side) set" where
  "validate_side n side version seen =
     (case version of None \<Rightarrow> Inr seen
      | Some v \<Rightarrow>
          and_then (validate_context_version n v) (\<lambda>_.
          if (fv_path v, side) \<in> seen then Inl invalid_evidence else Inr (insert (fv_path v, side) seen)))"

definition similarity_ok :: "file_change \<Rightarrow> bool" where
  "similarity_ok c =
     (if fc_change_type c = RENAMED
      then (case fc_rename_similarity c of None \<Rightarrow> False | Some s \<Rightarrow> 0 \<le> s \<and> s \<le> 100)
      else fc_rename_similarity c = None)"

definition sides_ok :: "file_change \<Rightarrow> bool" where
  "sides_ok c =
     (if fc_change_type c = ADDED then fc_old c = None \<and> fc_new c \<noteq> None
      else if fc_change_type c = DELETED then fc_old c \<noteq> None \<and> fc_new c = None
      else fc_old c \<noteq> None \<and> fc_new c \<noteq> None)"

definition text_sides :: "file_change \<Rightarrow> bool" where
  "text_sides c \<longleftrightarrow>
     list_all (\<lambda>v. case v of None \<Rightarrow> True | Some f \<Rightarrow> fv_content_kind f = TEXT) [fc_old c, fc_new c]"

definition validate_context_change ::
  "nat \<Rightarrow> (pystr \<times> evidence_side) set \<Rightarrow> file_change \<Rightarrow> agent_error + (pystr \<times> evidence_side) set" where
  "validate_context_change n seen c =
     (if \<not> similarity_ok c then Inl invalid_evidence
      else if \<not> sides_ok c then Inl invalid_evidence
      else and_then (validate_side n OLD (fc_old c) seen) (\<lambda>seen1.
        and_then (validate_side n NEW (fc_new c) seen1) (\<lambda>seen2.
        if fc_hunks c \<noteq> [] \<and> \<not> text_sides c then Inl invalid_evidence
        else and_then (fold_res validate_context_hunk ({}, {}) (fc_hunks c)) (\<lambda>_. Inr seen2))))"

definition validate_context_evidence :: "evidence_bundle \<Rightarrow> agent_error + unit" where
  "validate_context_evidence b =
     (if eb_schema_version b \<noteq> 1 then Inl (agent_fail UNSUPPORTED_EVIDENCE_SCHEMA VALIDATE 0)
      else if \<not> starts_with (lit ''/'') (re_root (eb_repository b)) then Inl invalid_evidence
      else and_then (check_utf8 (re_root (eb_repository b))) (\<lambda>_.
        case oid_length_of (re_object_format (eb_repository b)) of
          None \<Rightarrow> Inl invalid_evidence
        | Some n \<Rightarrow>
            let r = eb_revisions b in
            and_then (check_utf8 (rv_base_ref r)) (\<lambda>_.
            and_then (check_utf8 (rv_head_ref r)) (\<lambda>_.
            and_then (map_res (check_oid n) [rv_base_oid r, rv_head_oid r, rv_merge_base_oid r]) (\<lambda>_.
            and_then (fold_res (validate_context_change n) {} (eb_changes b)) (\<lambda>_. Inr ()))))))"

section \<open>What the check accepts\<close>

text \<open>Every target of an accepted bundle is new: paths are distinct on each side.\<close>

definition side_keys :: "file_change \<Rightarrow> (pystr \<times> evidence_side) list" where
  "side_keys c =
     (case fc_old c of None \<Rightarrow> [] | Some v \<Rightarrow> [(fv_path v, OLD)]) @
     (case fc_new c of None \<Rightarrow> [] | Some v \<Rightarrow> [(fv_path v, NEW)])"

definition version_sound :: "nat \<Rightarrow> file_version \<Rightarrow> bool" where
  "version_sound n v \<longleftrightarrow> fv_path v \<noteq> [] \<and> utf8_ok (fv_path v) \<and> utf8_ok (fv_mode v) \<and> is_oid n (fv_oid v)"

definition versions_sound :: "nat \<Rightarrow> file_change \<Rightarrow> bool" where
  "versions_sound n c \<longleftrightarrow> (\<forall>v. fc_old c = Some v \<or> fc_new c = Some v \<longrightarrow> version_sound n v)"

lemma validate_context_version_ok: "validate_context_version n v = Inr () \<Longrightarrow> version_sound n v"
  by (auto simp: validate_context_version_def version_sound_def check_utf8_def check_oid_def res_iffs split: if_splits)

lemma validate_side_ok:
  assumes "validate_side n side version seen = Inr seen'"
  shows "(\<forall>v. version = Some v \<longrightarrow> version_sound n v \<and> (fv_path v, side) \<notin> seen)"
    and "seen' = seen \<union> (case version of None \<Rightarrow> {} | Some v \<Rightarrow> {(fv_path v, side)})"
  using assms by (auto simp: validate_side_def res_iffs validate_context_version_ok split: option.splits if_splits)

lemma validate_context_change_ok:
  assumes "validate_context_change n seen c = Inr seen'"
  shows "versions_sound n c" "distinct (side_keys c)" "set (side_keys c) \<inter> seen = {}"
    "seen' = seen \<union> set (side_keys c)" "\<exists>used. fold_res validate_context_hunk ({}, {}) (fc_hunks c) = Inr used"
proof -
  obtain s1 where s1: "validate_side n OLD (fc_old c) seen = Inr s1" "validate_side n NEW (fc_new c) s1 = Inr seen'"
    and used: "\<exists>used. fold_res validate_context_hunk ({}, {}) (fc_hunks c) = Inr used"
    using assms by (auto simp: validate_context_change_def res_iffs split: if_splits)
  show "\<exists>used. fold_res validate_context_hunk ({}, {}) (fc_hunks c) = Inr used" by (rule used)
  show "versions_sound n c" "distinct (side_keys c)" "set (side_keys c) \<inter> seen = {}" "seen' = seen \<union> set (side_keys c)"
    using validate_side_ok [OF s1(1)] validate_side_ok [OF s1(2)]
    by (auto simp: versions_sound_def side_keys_def split: option.splits)
qed

lemma fold_context_changes:
  assumes "fold_res (validate_context_change n) seen cs = Inr seen'"
  shows "distinct (concat (map side_keys cs)) \<and> set (concat (map side_keys cs)) \<inter> seen = {} \<and>
    (\<forall>c \<in> set cs. versions_sound n c)"
  using assms
proof (induction cs arbitrary: seen)
  case (Cons c cs)
  then obtain s1 where "validate_context_change n seen c = Inr s1" "fold_res (validate_context_change n) s1 cs = Inr seen'"
    by (auto simp: res_iffs)
  with Cons.IH [of s1] validate_context_change_ok [of n seen c s1] show ?case by auto
qed simp

lemma context_evidence_ok:
  assumes "validate_context_evidence b = Inr ()"
  obtains n where "oid_length_of (re_object_format (eb_repository b)) = Some n"
    "distinct (concat (map side_keys (eb_changes b)))" "\<forall>c \<in> set (eb_changes b). versions_sound n c"
proof -
  obtain n seen where n: "oid_length_of (re_object_format (eb_repository b)) = Some n"
    "fold_res (validate_context_change n) {} (eb_changes b) = Inr seen"
    using assms by (auto simp: validate_context_evidence_def Let_def res_iffs split: if_splits option.splits)
  with fold_context_changes [OF n(2)] that show ?thesis by blast
qed

lemma oid_length_any: "oid_length_of f = Some n \<Longrightarrow> is_oid n s \<Longrightarrow> any_oid s"
  by (auto simp: oid_length_of_def any_oid_def split: if_splits)

end
