(* ===== verification/Agent_Prompt.thy ===== *)
theory Agent_Prompt
  imports Agent_Evidence Json_Scan
begin

text \<open>
  The prompt of the Agent review, \<open>src/src/repoguard/_prompt.py\<close>: the projection of the evidence with the
  private keys of added lines replaced, and the targets a model may refer to. The two resources of the package
  are a parameter, \<open>None\<close> where they cannot be read; \<open>sha256\<close> gives the hexadecimal digest of bytes.
\<close>

text \<open>\<open>PromptValueError\<close> is any ValueError, a UnicodeError included.\<close>

datatype prompt_exn = PromptUnreadable | PromptValueError

type_synonym prompt_resources = "(bytes \<times> bytes) option"

definition value_of :: "'a option \<Rightarrow> prompt_exn + 'a" where
  "value_of x = (case x of None \<Rightarrow> Inl PromptValueError | Some y \<Rightarrow> Inr y)"

section \<open>Redaction\<close>

definition prompt_sentinel :: pystr where
  "prompt_sentinel = lit ''[REDACTED_PRIVATE_KEY_MATERIAL]''"

definition reference_range :: "pystr \<times> pystr \<Rightarrow> evidence_reference \<Rightarrow> (int \<times> int) list" where
  "reference_range key r =
     (case (er_start r, er_end r) of
        (Some a, Some z) \<Rightarrow> if er_side r = NEW \<and> (er_path r, er_oid r) = key then [(a, z)] else []
      | _ \<Rightarrow> [])"

text \<open>The ranges to redact of a path and object id, empty where the dictionary has no such key.\<close>

definition private_key_redactions :: "finding list \<Rightarrow> pystr \<times> pystr \<Rightarrow> (int \<times> int) list" where
  "private_key_redactions fs key =
     sort (concat (map (\<lambda>f. if fi_rule f \<noteq> PRIVATE_KEY_MATERIAL then []
       else concat (map (reference_range key) (fi_references f))) fs))"

definition is_redacted :: "(pystr \<times> pystr \<Rightarrow> (int \<times> int) list) \<Rightarrow> file_version \<Rightarrow> int \<Rightarrow> bool" where
  "is_redacted redactions v n = list_ex (\<lambda>(s, e). s \<le> n \<and> n \<le> e) (redactions (fv_path v, fv_oid v))"

definition prompt_content ::
  "(pystr \<times> pystr \<Rightarrow> (int \<times> int) list) \<Rightarrow> file_version option \<Rightarrow> diff_line \<Rightarrow> pystr" where
  "prompt_content redactions new l =
     (case (new, dl_new l) of
        (Some v, Some n) \<Rightarrow>
          if dl_kind l = ADDITION \<and> is_redacted redactions v n then prompt_sentinel else dl_content l
      | _ \<Rightarrow> dl_content l)"

section \<open>Projection\<close>

definition prompt_line_to_dict ::
  "(pystr \<times> pystr \<Rightarrow> (int \<times> int) list) \<Rightarrow> file_version option \<Rightarrow> diff_line \<Rightarrow> json" where
  "prompt_line_to_dict redactions new l =
     JObj [(lit ''kind'', j_str (diff_line_kind_value (dl_kind l))),
       (lit ''old_line_number'', j_opt JInt (dl_old l)), (lit ''new_line_number'', j_opt JInt (dl_new l)),
       (lit ''content'', JStr (prompt_content redactions new l)),
       (lit ''has_trailing_newline'', JBool (dl_newline l))]"

definition prompt_hunk_to_dict ::
  "(pystr \<times> pystr \<Rightarrow> (int \<times> int) list) \<Rightarrow> file_version option \<Rightarrow> diff_hunk \<Rightarrow> json" where
  "prompt_hunk_to_dict redactions new h =
     JObj [(lit ''old_start'', JInt (dh_old_start h)), (lit ''old_count'', JInt (dh_old_count h)),
       (lit ''new_start'', JInt (dh_new_start h)), (lit ''new_count'', JInt (dh_new_count h)),
       (lit ''lines'', JList (map (prompt_line_to_dict redactions new) (dh_lines h)))]"

definition prompt_version_to_dict :: "file_version \<Rightarrow> json" where
  "prompt_version_to_dict v =
     JObj [(lit ''path'', JStr (fv_path v)), (lit ''mode'', JStr (fv_mode v)), (lit ''oid'', JStr (fv_oid v)),
       (lit ''content_kind'', j_str (content_kind_value (fv_content_kind v)))]"

definition change_to_prompt_dict ::
  "(pystr \<times> pystr \<Rightarrow> (int \<times> int) list) \<Rightarrow> file_change \<Rightarrow> json" where
  "change_to_prompt_dict redactions c =
     JObj [(lit ''change_type'', j_str (change_type_value (fc_change_type c))),
       (lit ''rename_similarity'', j_opt JInt (fc_rename_similarity c)),
       (lit ''old'', j_opt prompt_version_to_dict (fc_old c)),
       (lit ''new'', j_opt prompt_version_to_dict (fc_new c)),
       (lit ''hunks'', JList (map (prompt_hunk_to_dict redactions (fc_new c)) (fc_hunks c)))]"

definition deterministic_finding_to_dict :: "finding \<Rightarrow> json" where
  "deterministic_finding_to_dict f =
     JObj [(lit ''rule_id'', j_str (rule_id_value (fi_rule f))),
       (lit ''category'', j_str (category_value (fi_category f))),
       (lit ''severity'', j_str (severity_value (fi_severity f))),
       (lit ''title'', JStr (fi_title f)), (lit ''message'', JStr (fi_message f)),
       (lit ''remediation'', JStr (fi_remediation f)),
       (lit ''references'', JList (map reference_dict (fi_references f)))]"

definition canonical_mapping_bytes :: "json \<Rightarrow> prompt_exn + bytes" where
  "canonical_mapping_bytes v = value_of (if json_digits_ok v then utf8_encode (json_text v) else None)"

text \<open>\<open>list.sort\<close> with a key: every key is computed first, equal keys keep their order.\<close>

definition sort_changes :: "json list \<Rightarrow> prompt_exn + json list" where
  "sort_changes vs =
     and_then (map_res canonical_mapping_bytes vs) (\<lambda>keys. Inr (map snd (sort_key fst (zip keys vs))))"

definition user_data :: "evidence_bundle \<Rightarrow> finding list \<Rightarrow> json list \<Rightarrow> json" where
  "user_data b fs changes =
     JObj [(lit ''schema_version'', JInt 1),
       (lit ''repository'', JObj [(lit ''object_format'', JStr (re_object_format (eb_repository b)))]),
       (lit ''revisions'', JObj [(lit ''base_oid'', JStr (rv_base_oid (eb_revisions b))),
          (lit ''head_oid'', JStr (rv_head_oid (eb_revisions b))),
          (lit ''merge_base_oid'', JStr (rv_merge_base_oid (eb_revisions b)))]),
       (lit ''deterministic_findings'', JList (map deterministic_finding_to_dict fs)),
       (lit ''changes'', JList changes)]"

section \<open>Targets\<close>

record reference_target =
  rt_path :: pystr
  rt_side :: evidence_side
  rt_oid :: pystr
  rt_hunk_line_numbers :: "int set list"

type_synonym targets = "pystr \<times> evidence_side \<rightharpoonup> reference_target"

definition hunk_line_numbers :: "evidence_side \<Rightarrow> diff_hunk \<Rightarrow> int set" where
  "hunk_line_numbers side h =
     set (concat (map (\<lambda>l. case (if side = OLD then dl_old l else dl_new l) of None \<Rightarrow> [] | Some n \<Rightarrow> [n]) (dh_lines h)))"

definition target_of :: "evidence_side \<Rightarrow> file_version \<Rightarrow> diff_hunk list \<Rightarrow> reference_target" where
  "target_of side v hs =
     \<lparr>rt_path = fv_path v, rt_side = side, rt_oid = fv_oid v, rt_hunk_line_numbers = map (hunk_line_numbers side) hs\<rparr>"

definition add_reference_target ::
  "evidence_side \<Rightarrow> diff_hunk list \<Rightarrow> file_version option \<Rightarrow> targets \<Rightarrow> prompt_exn + targets" where
  "add_reference_target side hs version targets =
     (case version of None \<Rightarrow> Inr targets
      | Some v \<Rightarrow>
          if targets (fv_path v, side) \<noteq> None then Inl PromptValueError
          else Inr (targets((fv_path v, side) \<mapsto> target_of side v hs)))"

definition add_change_targets :: "targets \<Rightarrow> file_change \<Rightarrow> prompt_exn + targets" where
  "add_change_targets targets c =
     and_then (add_reference_target OLD (fc_hunks c) (fc_old c) targets)
       (add_reference_target NEW (fc_hunks c) (fc_new c))"

definition reference_targets :: "evidence_bundle \<Rightarrow> prompt_exn + targets" where
  "reference_targets b = fold_res add_change_targets Map.empty (eb_changes b)"

section \<open>Rendering\<close>

record rendered_prompt =
  rp_messages :: "llm_message list"
  rp_identity :: agent_prompt_identity
  rp_byte_count :: nat
  rp_targets :: targets

definition trusted_content :: "pystr \<Rightarrow> pystr \<Rightarrow> pystr" where
  "trusted_content system schema = system @ 10 # lit ''Response schema:'' @ 10 # schema"

definition user_content ::
  "(pystr \<times> pystr \<Rightarrow> (int \<times> int) list) \<Rightarrow> evidence_bundle \<Rightarrow> finding list \<Rightarrow> prompt_exn + pystr" where
  "user_content redactions b fs =
     and_then (sort_changes (map (change_to_prompt_dict redactions) (eb_changes b))) (\<lambda>changes.
       let d = user_data b fs changes in value_of (if json_digits_ok d then Some (json_text d) else None))"

definition render_review_prompt ::
  "prompt_resources \<Rightarrow> (bytes \<Rightarrow> pystr) \<Rightarrow> evidence_bundle \<Rightarrow> review_result \<Rightarrow> prompt_exn + rendered_prompt" where
  "render_review_prompt resources sha256 b review =
     (case resources of None \<Rightarrow> Inl PromptUnreadable
      | Some (system_bytes, schema_bytes) \<Rightarrow>
          and_then (value_of (utf8_decode system_bytes)) (\<lambda>system.
          and_then (value_of (utf8_decode schema_bytes)) (\<lambda>schema.
          and_then (user_content (private_key_redactions (rr_findings review)) b (rr_findings review)) (\<lambda>user.
          let trusted = trusted_content system schema;
              identity = \<lparr>pi_name = lit ''agent_review'', pi_version = lit ''v1'',
                          pi_sha256 = sha256 (system_bytes @ 0 # schema_bytes)\<rparr> in
          and_then (value_of (if agent_prompt_identity_ok identity then Some () else None)) (\<lambda>_.
          and_then (value_of (utf8_encode trusted)) (\<lambda>trusted_bytes.
          and_then (value_of (utf8_encode user)) (\<lambda>user_bytes.
          and_then (reference_targets b) (\<lambda>targets.
            Inr \<lparr>rp_messages = [\<lparr>lm_role = SYSTEM, lm_content = trusted\<rparr>, \<lparr>lm_role = USER, lm_content = user\<rparr>],
                 rp_identity = identity, rp_byte_count = length trusted_bytes + length user_bytes,
                 rp_targets = targets\<rparr>))))))))"

end
