(* ===== verification/Agent_Answer.thy ===== *)
theory Agent_Answer
  imports Agent_Prompt
begin

text \<open>
  Reading the answer of the model, \<open>_parse_model_findings\<close> of \<open>src/src/repoguard/_agent.py\<close>: a strict JSON
  object, every field inputs_checked, every reference resolved against the targets of the prompt. Every failure is
  the one error \<open>INVALID_MODEL_OUTPUT\<close>, but for a finding whose constructor refuses it. \<open>pf\<close> reads the text
  of a float, a parameter of the scanner of \<open>json.loads\<close>.
\<close>

datatype answer_exn = ModelOutput | FindingValueError

definition exact_object :: "string list \<Rightarrow> json \<Rightarrow> answer_exn + (pystr \<rightharpoonup> json)" where
  "exact_object required v =
     (case v of JObj kvs \<Rightarrow> if set (map fst kvs) = set (map lit required) then Inr (map_of kvs) else Inl ModelOutput
      | _ \<Rightarrow> Inl ModelOutput)"

definition text_field :: "json option \<Rightarrow> answer_exn + pystr" where
  "text_field v = (case v of Some (JStr s) \<Rightarrow> Inr s | _ \<Rightarrow> Inl ModelOutput)"

definition list_field :: "json option \<Rightarrow> answer_exn + json list" where
  "list_field v = (case v of Some (JList xs) \<Rightarrow> Inr xs | _ \<Rightarrow> Inl ModelOutput)"

text \<open>A member of a string enumeration by its value.\<close>

definition enum_member :: "('a \<Rightarrow> string) \<Rightarrow> 'a list \<Rightarrow> pystr \<Rightarrow> answer_exn + 'a" where
  "enum_member value_text members s =
     (case find (\<lambda>m. lit (value_text m) = s) members of None \<Rightarrow> Inl ModelOutput | Some m \<Rightarrow> Inr m)"

definition categories :: "finding_category list" where
  "categories = [SECURITY, CORRECTNESS, REVIEWABILITY, SUPPLY_CHAIN]"

definition severities :: "finding_severity list" where
  "severities = [INFO, LOW, MEDIUM, HIGH, CRITICAL]"

section \<open>References\<close>

text \<open>The range lies in one hunk: a hunk with at least as many lines that has each of its numbers.\<close>

definition range_is_in_one_hunk :: "int \<Rightarrow> int \<Rightarrow> int set list \<Rightarrow> bool" where
  "range_is_in_one_hunk start_line end_line hunks =
     list_ex (\<lambda>numbers. end_line - start_line + 1 \<le> int (card numbers) \<and> list_all (\<lambda>n. n \<in> numbers) [start_line..end_line])
       hunks"

definition parse_lines :: "int set list \<Rightarrow> json option \<Rightarrow> json option \<Rightarrow> answer_exn + int option \<times> int option" where
  "parse_lines hunks start_value end_value =
     (case (start_value, end_value) of
        (Some JNull, Some JNull) \<Rightarrow> Inr (None, None)
      | (Some (JInt a), Some (JInt z)) \<Rightarrow>
          if 1 \<le> a \<and> a \<le> z \<and> range_is_in_one_hunk a z hunks then Inr (Some a, Some z) else Inl ModelOutput
      | _ \<Rightarrow> Inl ModelOutput)"

definition parse_model_reference :: "targets \<Rightarrow> json \<Rightarrow> answer_exn + evidence_reference" where
  "parse_model_reference targets v =
     and_then (exact_object [''path'', ''side'', ''start_line'', ''end_line''] v) (\<lambda>raw.
     and_then (text_field (raw (lit ''path''))) (\<lambda>path.
     and_then (text_field (raw (lit ''side''))) (\<lambda>side_text.
     and_then (enum_member side_value [OLD, NEW] side_text) (\<lambda>side.
     case targets (path, side) of
       None \<Rightarrow> Inl ModelOutput
     | Some t \<Rightarrow>
         and_then (parse_lines (rt_hunk_line_numbers t) (raw (lit ''start_line'')) (raw (lit ''end_line'')))
           (\<lambda>(a, z). Inr \<lparr>er_path = rt_path t, er_side = rt_side t, er_oid = rt_oid t, er_start = a, er_end = z\<rparr>)))))"

section \<open>Findings\<close>

definition validated_text :: "int \<Rightarrow> json option \<Rightarrow> answer_exn + pystr" where
  "validated_text maximum v =
     and_then (text_field v) (\<lambda>s.
       if py_strip s \<noteq> [] \<and> int (length s) \<le> maximum \<and> utf8_ok s \<and> 0 \<notin> set s then Inr s else Inl ModelOutput)"

text \<open>The references are the sorted set of what the model names.\<close>

definition parse_references :: "targets \<Rightarrow> agent_config \<Rightarrow> json option \<Rightarrow> answer_exn + evidence_reference list" where
  "parse_references targets cfg v =
     and_then (list_field v) (\<lambda>xs.
     if xs = [] \<or> ac_max_references_per_finding cfg < int (length xs) then Inl ModelOutput
     else and_then (map_res (parse_model_reference targets) xs) (\<lambda>rs.
       Inr (sort_key reference_sort_key (first_by (\<lambda>r. r) {} rs))))"

definition parse_model_finding :: "targets \<Rightarrow> agent_config \<Rightarrow> json \<Rightarrow> answer_exn + agent_finding" where
  "parse_model_finding targets cfg v =
     and_then (exact_object [''category'', ''severity'', ''title'', ''message'', ''remediation'', ''references''] v) (\<lambda>raw.
     and_then (text_field (raw (lit ''category''))) (\<lambda>category_text.
     and_then (text_field (raw (lit ''severity''))) (\<lambda>severity_text.
     and_then (enum_member category_value categories category_text) (\<lambda>category.
     and_then (enum_member severity_value severities severity_text) (\<lambda>severity.
     and_then (validated_text (ac_max_title_chars cfg) (raw (lit ''title''))) (\<lambda>title.
     and_then (validated_text (ac_max_message_chars cfg) (raw (lit ''message''))) (\<lambda>message.
     and_then (validated_text (ac_max_remediation_chars cfg) (raw (lit ''remediation''))) (\<lambda>remediation.
     and_then (parse_references targets cfg (raw (lit ''references''))) (\<lambda>references.
     let f = \<lparr>af_source = AGENT, af_rule = AgentRule AGENT_REASONING, af_category = category, af_severity = severity,
              af_title = title, af_message = message, af_remediation = remediation, af_references = references\<rparr> in
     if agent_finding_ok f then Inr f else Inl FindingValueError)))))))))"

definition parse_model_findings ::
  "(pystr \<Rightarrow> pyfloat) \<Rightarrow> targets \<Rightarrow> agent_config \<Rightarrow> pystr \<Rightarrow> answer_exn + agent_finding list" where
  "parse_model_findings pf targets cfg output_text =
     (if output_text \<noteq> py_strip output_text then Inl ModelOutput
      else case json_loads pf output_text of
        Inl _ \<Rightarrow> Inl ModelOutput
      | Inr v \<Rightarrow>
          and_then (exact_object [''schema_version'', ''findings''] v) (\<lambda>raw.
          if raw (lit ''schema_version'') \<noteq> Some (JInt 1) then Inl ModelOutput
          else and_then (list_field (raw (lit ''findings''))) (\<lambda>xs.
            if ac_max_model_findings cfg < int (length xs) then Inl ModelOutput
            else map_res (parse_model_finding targets cfg) xs)))"

section \<open>Merging\<close>

definition promote_finding :: "finding \<Rightarrow> agent_finding" where
  "promote_finding f =
     \<lparr>af_source = DETERMINISTIC, af_rule = ReviewRule (fi_rule f), af_category = fi_category f,
      af_severity = fi_severity f, af_title = fi_title f, af_message = fi_message f,
      af_remediation = fi_remediation f, af_references = fi_references f\<rparr>"

text \<open>\<open>None\<close> is an exception: a constructor refuses a finding. What it accepts can be sorted.\<close>

definition merge_findings :: "finding list \<Rightarrow> agent_finding list \<Rightarrow> agent_finding list option" where
  "merge_findings deterministic candidates =
     (let promoted = map promote_finding deterministic in
      if list_all agent_finding_ok promoted
      then Some (sort_key agent_sort_key (promoted @ first_by (\<lambda>f. f) {} candidates))
      else None)"

end
