(* ===== verification/Agent_Run.thy ===== *)
theory Agent_Run
  imports Agent_Answer
begin

text \<open>
  The controlled workflow of the Agent review, \<open>src/src/repoguard/_agent.py\<close>: one function per node, the
  graph that composes them, and the review. A node reads the clock, sleeps and calls the provider: it turns the
  world, how often the clock was read and the actions so far, into a world and an error or a new state. The
  graph library is known by its documented bound on the number of nodes one run may execute. The variant of the
  graph with a retrieval node belongs to another component and is left out.
\<close>

section \<open>Effects\<close>

datatype agent_action = Slept rat | Asked llm_request

record agent_world =
  aw_readings :: nat
  aw_actions :: "agent_action list"

text \<open>What the program finds outside: the resources of the package, the digest, the reader of floats, the
  readings of the monotonic clock and the bound of the graph library.\<close>

record agent_env =
  av_resources :: prompt_resources
  av_sha256 :: "bytes \<Rightarrow> pystr"
  av_float :: "pystr \<Rightarrow> pyfloat"
  av_clock :: "nat \<Rightarrow> rat"
  av_graph_limit :: nat

type_synonym 'a agent = "agent_world \<Rightarrow> (agent_error + 'a) \<times> agent_world"

definition ag_return :: "'a \<Rightarrow> 'a agent" where
  "ag_return x w = (Inr x, w)"

definition ag_fail :: "agent_error_code \<Rightarrow> agent_node \<Rightarrow> nat \<Rightarrow> 'a agent" where
  "ag_fail code node attempts w = (Inl (agent_fail code node attempts), w)"

definition ag_bind :: "'a agent \<Rightarrow> ('a \<Rightarrow> 'b agent) \<Rightarrow> 'b agent" where
  "ag_bind m f w = (case m w of (Inl e, w') \<Rightarrow> (Inl e, w') | (Inr x, w') \<Rightarrow> f x w')"

definition ag_lift :: "agent_error + 'a \<Rightarrow> 'a agent" where
  "ag_lift r w = (r, w)"

definition ag_monotonic :: "agent_env \<Rightarrow> rat agent" where
  "ag_monotonic env w = (Inr (av_clock env (aw_readings w)), w\<lparr>aw_readings := Suc (aw_readings w)\<rparr>)"

definition ag_act :: "agent_action \<Rightarrow> unit agent" where
  "ag_act a w = (Inr (), w\<lparr>aw_actions := aw_actions w @ [a]\<rparr>)"

section \<open>State\<close>

text \<open>The object a provider returned, where it was not \<open>None\<close>.\<close>

datatype held_response = HeldResponse llm_response | HeldOther

record agent_state =
  as_review :: "review_result option"
  as_rendered :: "rendered_prompt option"
  as_response :: "held_response option"
  as_candidates :: "agent_finding list"
  as_findings :: "agent_finding list"
  as_attempts :: nat
  as_provider_error :: "provider_error_code option"
  as_deadline :: rat
  as_response_bytes :: nat
  as_usage :: "token_usage option"
  as_result :: "agent_result option"

definition initial_state :: agent_state where
  "initial_state =
     \<lparr>as_review = None, as_rendered = None, as_response = None, as_candidates = [], as_findings = [],
      as_attempts = 0, as_provider_error = None, as_deadline = 0, as_response_bytes = 0, as_usage = None,
      as_result = None\<rparr>"

definition backoff_seconds :: "nat \<Rightarrow> rat option" where
  "backoff_seconds n = (if n = 2 then Some (1 / 2) else if n = 3 then Some 1 else None)"

definition retryable :: "provider_error_code \<Rightarrow> bool" where
  "retryable c \<longleftrightarrow> c \<in> {RATE_LIMITED, TIMEOUT, UNAVAILABLE}"

fun provider_failure :: "provider_error_code \<Rightarrow> agent_error_code" where
  "provider_failure AUTHENTICATION_FAILED = PROVIDER_AUTHENTICATION_FAILED"
| "provider_failure RATE_LIMITED = PROVIDER_RATE_LIMITED"
| "provider_failure TIMEOUT = PROVIDER_TIMEOUT"
| "provider_failure UNAVAILABLE = PROVIDER_UNAVAILABLE"
| "provider_failure REQUEST_FAILED = PROVIDER_REQUEST_FAILED"
| "provider_failure REFUSED = PROVIDER_REFUSED"
| "provider_failure INVALID_RESPONSE = INVALID_MODEL_OUTPUT"

definition seconds :: "rat option \<Rightarrow> rat" where
  "seconds t = (case t of None \<Rightarrow> 0 | Some x \<Rightarrow> x)"

section \<open>Nodes\<close>

definition validate_node ::
  "agent_env \<Rightarrow> llm_provider \<Rightarrow> agent_config \<Rightarrow> evidence_bundle \<Rightarrow> agent_state \<Rightarrow> agent_state agent" where
  "validate_node env p cfg b st =
     ag_bind (ag_lift (validate_configuration cfg)) (\<lambda>_.
     ag_bind (ag_lift (validate_provider p)) (\<lambda>_.
     ag_bind (ag_lift (validate_context_evidence b)) (\<lambda>_.
     ag_bind (ag_monotonic env) (\<lambda>t.
       ag_return (st\<lparr>as_deadline := t + seconds (ac_total_timeout_seconds cfg)\<rparr>)))))"

definition review_failure :: "review_exn \<Rightarrow> agent_error_code" where
  "review_failure e =
     (case e of
        ReviewError review_error_code.UNSUPPORTED_EVIDENCE_SCHEMA _ \<Rightarrow> UNSUPPORTED_EVIDENCE_SCHEMA
      | ReviewError review_error_code.INVALID_EVIDENCE _ \<Rightarrow> INVALID_EVIDENCE
      | _ \<Rightarrow> WORKFLOW_EXECUTION_FAILED)"

definition deterministic_review_node :: "evidence_bundle \<Rightarrow> agent_state \<Rightarrow> agent_state agent" where
  "deterministic_review_node b st =
     (case review_evidence b of
        Inl e \<Rightarrow> ag_fail (review_failure e) DETERMINISTIC_REVIEW (as_attempts st)
      | Inr review \<Rightarrow> ag_return (st\<lparr>as_review := Some review\<rparr>))"

definition build_prompt_node ::
  "agent_env \<Rightarrow> agent_config \<Rightarrow> evidence_bundle \<Rightarrow> agent_state \<Rightarrow> agent_state agent" where
  "build_prompt_node env cfg b st =
     (case as_review st of None \<Rightarrow> ag_fail WORKFLOW_EXECUTION_FAILED BUILD_PROMPT (as_attempts st)
      | Some review \<Rightarrow>
          (case render_review_prompt (av_resources env) (av_sha256 env) b review of
             Inl PromptValueError \<Rightarrow> ag_fail INVALID_EVIDENCE BUILD_PROMPT (as_attempts st)
           | Inl PromptUnreadable \<Rightarrow> ag_fail WORKFLOW_EXECUTION_FAILED BUILD_PROMPT (as_attempts st)
           | Inr rendered \<Rightarrow>
               if ac_max_prompt_bytes cfg < int (rp_byte_count rendered)
               then ag_fail CONTEXT_LIMIT_EXCEEDED BUILD_PROMPT (as_attempts st)
               else ag_return (st\<lparr>as_rendered := Some rendered\<rparr>)))"

text \<open>Waiting before a retry, where the deadline leaves the time.\<close>

definition wait_before :: "agent_env \<Rightarrow> agent_state \<Rightarrow> nat \<Rightarrow> unit agent" where
  "wait_before env st attempt =
     (if attempt \<le> 1 then ag_return ()
      else case backoff_seconds attempt of
          None \<Rightarrow> ag_fail WORKFLOW_EXECUTION_FAILED INVOKE_PROVIDER attempt
        | Some delay \<Rightarrow>
            ag_bind (ag_monotonic env) (\<lambda>t.
              if as_deadline st \<le> t + delay then ag_fail BUDGET_EXCEEDED INVOKE_PROVIDER (as_attempts st)
              else ag_act (Slept delay)))"

definition keep_response :: "agent_env \<Rightarrow> agent_state \<Rightarrow> nat \<Rightarrow> held_response option \<Rightarrow> agent_state agent" where
  "keep_response env st attempt response =
     ag_bind (ag_monotonic env) (\<lambda>t.
       if as_deadline st \<le> t then ag_fail BUDGET_EXCEEDED INVOKE_PROVIDER attempt
       else ag_return (st\<lparr>as_attempts := attempt, as_provider_error := None, as_response := response\<rparr>))"

definition call_provider ::
  "agent_env \<Rightarrow> llm_provider \<Rightarrow> agent_state \<Rightarrow> nat \<Rightarrow> llm_request \<Rightarrow> agent_state agent" where
  "call_provider env p st attempt request =
     ag_bind (ag_act (Asked request)) (\<lambda>_.
     case lp_complete p attempt request of
       ProviderFailed code \<Rightarrow>
         ag_return (st\<lparr>as_attempts := attempt, as_provider_error := Some code, as_response := None\<rparr>)
     | ProviderRaised \<Rightarrow> ag_fail WORKFLOW_EXECUTION_FAILED INVOKE_PROVIDER attempt
     | Returned r \<Rightarrow> keep_response env st attempt (Some (HeldResponse r))
     | ReturnedOther \<Rightarrow> keep_response env st attempt (Some HeldOther)
     | ReturnedNone \<Rightarrow> keep_response env st attempt None)"

definition invoke_provider_node ::
  "agent_env \<Rightarrow> llm_provider \<Rightarrow> agent_config \<Rightarrow> agent_state \<Rightarrow> agent_state agent" where
  "invoke_provider_node env p cfg st =
     (let attempt = as_attempts st + 1 in
      case as_rendered st of None \<Rightarrow> ag_fail WORKFLOW_EXECUTION_FAILED INVOKE_PROVIDER attempt
      | Some rendered \<Rightarrow>
          ag_bind (wait_before env st attempt) (\<lambda>_.
          ag_bind (ag_monotonic env) (\<lambda>t.
          let remaining = as_deadline st - t in
          if remaining \<le> 0 then ag_fail BUDGET_EXCEEDED INVOKE_PROVIDER (as_attempts st)
          else
            let request =
              \<lparr>lq_model = ac_model cfg, lq_messages = rp_messages rendered,
               lq_max_output_tokens = ac_max_output_tokens cfg,
               lq_timeout_seconds = min (seconds (ac_per_attempt_timeout_seconds cfg)) remaining\<rparr> in
            if \<not> llm_request_ok request then ag_fail WORKFLOW_EXECUTION_FAILED INVOKE_PROVIDER attempt
            else call_provider env p st attempt request)))"

definition provider_route :: "agent_env \<Rightarrow> agent_config \<Rightarrow> agent_state \<Rightarrow> agent_node agent" where
  "provider_route env cfg st =
     (if as_response st \<noteq> None then ag_return PARSE_RESPONSE
      else case as_provider_error st of
          None \<Rightarrow> ag_fail WORKFLOW_EXECUTION_FAILED INVOKE_PROVIDER (as_attempts st)
        | Some code \<Rightarrow>
            (case backoff_seconds (as_attempts st + 1) of
               Some delay \<Rightarrow>
                 if retryable code \<and> int (as_attempts st) < ac_max_attempts cfg then
                   ag_bind (ag_monotonic env) (\<lambda>t.
                     if t + delay < as_deadline st then ag_return INVOKE_PROVIDER
                     else ag_fail BUDGET_EXCEEDED INVOKE_PROVIDER (as_attempts st))
                 else ag_fail (provider_failure code) INVOKE_PROVIDER (as_attempts st)
             | None \<Rightarrow> ag_fail (provider_failure code) INVOKE_PROVIDER (as_attempts st)))"

definition parse_response_node :: "agent_env \<Rightarrow> agent_config \<Rightarrow> agent_state \<Rightarrow> agent_state agent" where
  "parse_response_node env cfg st =
     (case (as_response st, as_rendered st) of
        (Some (HeldResponse r), Some rendered) \<Rightarrow>
          (case utf8_encode (lr_output_text r) of
             None \<Rightarrow> ag_fail INVALID_MODEL_OUTPUT PARSE_RESPONSE (as_attempts st)
           | Some encoded \<Rightarrow>
               if ac_max_response_bytes cfg < int (length encoded)
               then ag_fail INVALID_MODEL_OUTPUT PARSE_RESPONSE (as_attempts st)
               else (case parse_model_findings (av_float env) (rp_targets rendered) cfg (lr_output_text r) of
                   Inl ModelOutput \<Rightarrow> ag_fail INVALID_MODEL_OUTPUT PARSE_RESPONSE (as_attempts st)
                 | Inl FindingValueError \<Rightarrow> ag_fail WORKFLOW_EXECUTION_FAILED PARSE_RESPONSE (as_attempts st)
                 | Inr candidates \<Rightarrow>
                     ag_return (st\<lparr>as_candidates := candidates, as_response_bytes := length encoded,
                       as_usage := lr_usage r\<rparr>)))
      | (Some HeldOther, Some _) \<Rightarrow> ag_fail INVALID_MODEL_OUTPUT PARSE_RESPONSE (as_attempts st)
      | _ \<Rightarrow> ag_fail WORKFLOW_EXECUTION_FAILED PARSE_RESPONSE (as_attempts st))"

definition merge_findings_node :: "agent_state \<Rightarrow> agent_state agent" where
  "merge_findings_node st =
     (case as_review st of None \<Rightarrow> ag_fail WORKFLOW_EXECUTION_FAILED MERGE_FINDINGS (as_attempts st)
      | Some review \<Rightarrow>
          (case merge_findings (rr_findings review) (as_candidates st) of
             None \<Rightarrow> ag_fail WORKFLOW_EXECUTION_FAILED MERGE_FINDINGS (as_attempts st)
           | Some findings \<Rightarrow> ag_return (st\<lparr>as_findings := findings\<rparr>)))"

definition agent_result_of ::
  "llm_provider \<Rightarrow> agent_config \<Rightarrow> evidence_bundle \<Rightarrow> rendered_prompt \<Rightarrow> agent_state \<Rightarrow> agent_result" where
  "agent_result_of p cfg b rendered st =
     \<lparr>ar_repository = eb_repository b, ar_revisions = eb_revisions b, ar_provider = lp_name p,
      ar_model = ac_model cfg, ar_prompt = rp_identity rendered, ar_attempt_count = as_attempts st,
      ar_usage = as_usage st, ar_prompt_bytes = rp_byte_count rendered, ar_response_bytes = as_response_bytes st,
      ar_findings = as_findings st, ar_schema_version = 1\<rparr>"

definition finalize_node ::
  "agent_env \<Rightarrow> llm_provider \<Rightarrow> agent_config \<Rightarrow> evidence_bundle \<Rightarrow> agent_state \<Rightarrow> agent_state agent" where
  "finalize_node env p cfg b st =
     (case (as_rendered st, as_response st) of
        (Some rendered, Some _) \<Rightarrow>
          ag_bind (ag_monotonic env) (\<lambda>t.
            if as_deadline st \<le> t then ag_fail BUDGET_EXCEEDED FINALIZE (as_attempts st)
            else let r = agent_result_of p cfg b rendered st in
              if agent_result_ok r
              then ag_return (st\<lparr>as_result := Some r, as_rendered := None, as_response := None\<rparr>)
              else ag_fail WORKFLOW_EXECUTION_FAILED FINALIZE (as_attempts st))
      | _ \<Rightarrow> ag_fail WORKFLOW_EXECUTION_FAILED FINALIZE (as_attempts st))"

section \<open>Graph\<close>

definition node_function ::
  "agent_env \<Rightarrow> llm_provider \<Rightarrow> agent_config \<Rightarrow> evidence_bundle \<Rightarrow> agent_node \<Rightarrow> agent_state \<Rightarrow> agent_state agent" where
  "node_function env p cfg b node =
     (case node of
        VALIDATE \<Rightarrow> validate_node env p cfg b
      | DETERMINISTIC_REVIEW \<Rightarrow> deterministic_review_node b
      | BUILD_PROMPT \<Rightarrow> build_prompt_node env cfg b
      | INVOKE_PROVIDER \<Rightarrow> invoke_provider_node env p cfg
      | PARSE_RESPONSE \<Rightarrow> parse_response_node env cfg
      | MERGE_FINDINGS \<Rightarrow> merge_findings_node
      | FINALIZE \<Rightarrow> finalize_node env p cfg b)"

text \<open>The edges of the graph; \<open>None\<close> is its end.\<close>

definition successor :: "agent_env \<Rightarrow> agent_config \<Rightarrow> agent_node \<Rightarrow> agent_state \<Rightarrow> agent_node option agent" where
  "successor env cfg node st =
     (case node of
        VALIDATE \<Rightarrow> ag_return (Some DETERMINISTIC_REVIEW)
      | DETERMINISTIC_REVIEW \<Rightarrow> ag_return (Some BUILD_PROMPT)
      | BUILD_PROMPT \<Rightarrow> ag_return (Some INVOKE_PROVIDER)
      | INVOKE_PROVIDER \<Rightarrow> ag_bind (provider_route env cfg st) (\<lambda>n. ag_return (Some n))
      | PARSE_RESPONSE \<Rightarrow> ag_return (Some MERGE_FINDINGS)
      | MERGE_FINDINGS \<Rightarrow> ag_return (Some FINALIZE)
      | FINALIZE \<Rightarrow> ag_return None)"

text \<open>A run of the graph executes at most the given number of nodes; beyond it the library raises.\<close>

fun run_graph ::
  "agent_env \<Rightarrow> llm_provider \<Rightarrow> agent_config \<Rightarrow> evidence_bundle \<Rightarrow> nat \<Rightarrow> agent_node \<Rightarrow> agent_state \<Rightarrow>
     agent_state agent" where
  "run_graph env p cfg b 0 node st = ag_fail WORKFLOW_EXECUTION_FAILED FINALIZE 0"
| "run_graph env p cfg b (Suc k) node st =
     ag_bind (node_function env p cfg b node st) (\<lambda>st'.
     ag_bind (successor env cfg node st') (\<lambda>n.
       case n of None \<Rightarrow> ag_return st' | Some node' \<Rightarrow> run_graph env p cfg b k node' st'))"

definition review_with_agent ::
  "agent_env \<Rightarrow> llm_provider \<Rightarrow> agent_config \<Rightarrow> evidence_bundle \<Rightarrow> agent_result agent" where
  "review_with_agent env p cfg b =
     ag_bind (run_graph env p cfg b (av_graph_limit env) VALIDATE initial_state) (\<lambda>st.
       case as_result st of
         None \<Rightarrow> ag_fail WORKFLOW_EXECUTION_FAILED FINALIZE (as_attempts st)
       | Some r \<Rightarrow> ag_return r)"

definition fresh_world :: agent_world where
  "fresh_world = \<lparr>aw_readings = 0, aw_actions = []\<rparr>"

end
