(* ===== verification/Agent_Facts.thy ===== *)
theory Agent_Facts
  imports Agent_Run
begin

text \<open>
  A weakest-precondition calculus for the nodes of the Agent review, the invariant each node of the graph
  establishes for the next, and what a run keeps whatever the provider and the clock do: the requests it sends,
  the attempts it reports, and that it never runs into the bound of the graph library.
\<close>

section \<open>Weakest preconditions\<close>

text \<open>\<open>Q\<close> holds of a value and the world it leaves, \<open>E\<close> of an error and its world.\<close>

definition wp :: "(agent_error \<Rightarrow> agent_world \<Rightarrow> bool) \<Rightarrow> 'a agent \<Rightarrow> ('a \<Rightarrow> agent_world \<Rightarrow> bool) \<Rightarrow> agent_world \<Rightarrow> bool" where
  "wp E m Q w = (case m w of (Inl e, w') \<Rightarrow> E e w' | (Inr x, w') \<Rightarrow> Q x w')"

named_theorems wp_simps

lemma wp_return [wp_simps]: "wp E (ag_return x) Q w = Q x w"
  by (simp add: wp_def ag_return_def)

lemma wp_fail [wp_simps]: "wp E (ag_fail code node n) Q w = E (agent_fail code node n) w"
  by (simp add: wp_def ag_fail_def)

lemma wp_bind [wp_simps]: "wp E (ag_bind m f) Q w = wp E m (\<lambda>x. wp E (f x) Q) w"
  by (simp add: wp_def ag_bind_def split: prod.split sum.split)

lemma wp_lift [wp_simps]: "wp E (ag_lift r) Q w = (case r of Inl e \<Rightarrow> E e w | Inr x \<Rightarrow> Q x w)"
  by (simp add: wp_def ag_lift_def split: sum.split)

lemma wp_monotonic [wp_simps]:
  "wp E (ag_monotonic env) Q w = Q (av_clock env (aw_readings w)) (w\<lparr>aw_readings := Suc (aw_readings w)\<rparr>)"
  by (simp add: wp_def ag_monotonic_def)

lemma wp_act [wp_simps]: "wp E (ag_act a) Q w = Q () (w\<lparr>aw_actions := aw_actions w @ [a]\<rparr>)"
  by (simp add: wp_def ag_act_def)

lemma wp_mono:
  assumes "wp E m Q w" "\<And>x w'. Q x w' \<Longrightarrow> R x w'"
  shows "wp E m R w"
  using assms by (auto simp: wp_def split: prod.splits sum.splits)

lemma wp_strengthen:
  assumes "wp E m Q w" "\<And>x w'. m w = (Inr x, w') \<Longrightarrow> Q x w' \<Longrightarrow> R x w'"
  shows "wp E m R w"
  using assms by (auto simp: wp_def split: prod.splits sum.splits)

section \<open>Requests\<close>

definition requests :: "agent_world \<Rightarrow> llm_request list" where
  "requests w = concat (map (\<lambda>a. case a of Asked q \<Rightarrow> [q] | Slept _ \<Rightarrow> []) (aw_actions w))"

lemma requests_update [simp]:
  "requests (w\<lparr>aw_readings := n\<rparr>) = requests w"
  "requests (w\<lparr>aw_actions := aw_actions w @ [Slept d]\<rparr>) = requests w"
  "requests (w\<lparr>aw_readings := n, aw_actions := aw_actions w @ [Slept d]\<rparr>) = requests w"
  "requests (w\<lparr>aw_actions := aw_actions w @ [Asked q]\<rparr>) = requests w @ [q]"
  "requests fresh_world = []"
  by (simp_all add: requests_def fresh_world_def)

text \<open>Every one of the calls failed in a way that may be retried.\<close>

definition retried :: "llm_provider \<Rightarrow> llm_request list \<Rightarrow> bool" where
  "retried p qs \<longleftrightarrow> (\<forall>i < length qs. \<exists>c. lp_complete p (Suc i) (qs ! i) = ProviderFailed c \<and> retryable c)"

lemma retried_Nil [simp]: "retried p []"
  by (simp add: retried_def)

lemma retried_snoc:
  "retried p (qs @ [q]) \<longleftrightarrow>
     retried p qs \<and> (\<exists>c. lp_complete p (Suc (length qs)) q = ProviderFailed c \<and> retryable c)"
  by (auto simp: retried_def less_Suc_eq nth_append)

text \<open>A run sends requests only for a checked configuration and bundle, all with the one prompt.\<close>

definition inputs_checked :: "llm_provider \<Rightarrow> agent_config \<Rightarrow> evidence_bundle \<Rightarrow> bool" where
  "inputs_checked p cfg b \<longleftrightarrow>
     validate_configuration cfg = Inr () \<and> validate_provider p = Inr () \<and> validate_context_evidence b = Inr ()"

definition prompt_of :: "agent_env \<Rightarrow> agent_config \<Rightarrow> evidence_bundle \<Rightarrow> review_result \<Rightarrow> rendered_prompt \<Rightarrow> bool" where
  "prompt_of env cfg b review rendered \<longleftrightarrow>
     review_evidence b = Inr review \<and>
     render_review_prompt (av_resources env) (av_sha256 env) b review = Inr rendered \<and>
     int (rp_byte_count rendered) \<le> ac_max_prompt_bytes cfg"

definition request_fits :: "agent_config \<Rightarrow> rendered_prompt \<Rightarrow> llm_request \<Rightarrow> bool" where
  "request_fits cfg rendered q \<longleftrightarrow>
     lq_model q = ac_model cfg \<and> lq_messages q = rp_messages rendered \<and>
     lq_max_output_tokens q = ac_max_output_tokens cfg \<and>
     0 < lq_timeout_seconds q \<and> lq_timeout_seconds q \<le> seconds (ac_per_attempt_timeout_seconds cfg)"

definition trail_ok :: "agent_env \<Rightarrow> llm_provider \<Rightarrow> agent_config \<Rightarrow> evidence_bundle \<Rightarrow> llm_request list \<Rightarrow> bool" where
  "trail_ok env p cfg b qs \<longleftrightarrow>
     qs = [] \<or>
     inputs_checked p cfg b \<and> int (length qs) \<le> ac_max_attempts cfg \<and> retried p (butlast qs) \<and>
     (\<exists>review rendered. prompt_of env cfg b review rendered \<and> list_all (request_fits cfg rendered) qs)"

lemma trail_ok_Nil [simp]: "trail_ok env p cfg b []"
  by (simp add: trail_ok_def)

text \<open>An error reports the number of requests that were sent.\<close>

definition agent_failure_ok :: "agent_env \<Rightarrow> llm_provider \<Rightarrow> agent_config \<Rightarrow> evidence_bundle \<Rightarrow> agent_error \<Rightarrow> agent_world \<Rightarrow> bool" where
  "agent_failure_ok env p cfg b e w \<longleftrightarrow> ae_attempts e = length (requests w) \<and> trail_ok env p cfg b (requests w)"

lemma agent_failure_ok_fail [simp]:
  "agent_failure_ok env p cfg b (agent_fail code node n) w \<longleftrightarrow> n = length (requests w) \<and> trail_ok env p cfg b (requests w)"
  by (simp add: agent_failure_ok_def agent_fail_def)

section \<open>The invariant of the graph\<close>

text \<open>The last call returned the response the state holds.\<close>

fun held :: "provider_outcome \<Rightarrow> held_response option" where
  "held (Returned r) = Some (HeldResponse r)"
| "held ReturnedOther = Some HeldOther"
| "held _ = None"

definition prompted :: "agent_env \<Rightarrow> agent_config \<Rightarrow> evidence_bundle \<Rightarrow> agent_state \<Rightarrow> bool" where
  "prompted env cfg b st \<longleftrightarrow>
     (\<exists>review rendered. as_review st = Some review \<and> as_rendered st = Some rendered \<and> prompt_of env cfg b review rendered)"

definition answered :: "llm_provider \<Rightarrow> agent_state \<Rightarrow> llm_request list \<Rightarrow> bool" where
  "answered p st qs \<longleftrightarrow>
     qs \<noteq> [] \<and> as_response st = held (lp_complete p (length qs) (last qs)) \<and> as_response st \<noteq> None"

definition parsed :: "agent_env \<Rightarrow> agent_config \<Rightarrow> agent_state \<Rightarrow> bool" where
  "parsed env cfg st \<longleftrightarrow>
     (\<exists>r rendered. as_response st = Some (HeldResponse r) \<and> as_rendered st = Some rendered \<and>
        as_response_bytes st = length (utf8_bytes (lr_output_text r)) \<and> utf8_ok (lr_output_text r) \<and>
        int (as_response_bytes st) \<le> ac_max_response_bytes cfg \<and> as_usage st = lr_usage r \<and>
        parse_model_findings (av_float env) (rp_targets rendered) cfg (lr_output_text r) = Inr (as_candidates st))"

definition merged :: "agent_state \<Rightarrow> bool" where
  "merged st \<longleftrightarrow>
     (\<exists>review. as_review st = Some review \<and>
        merge_findings (rr_findings review) (as_candidates st) = Some (as_findings st))"

definition node_facts ::
  "agent_env \<Rightarrow> llm_provider \<Rightarrow> agent_config \<Rightarrow> evidence_bundle \<Rightarrow> agent_node \<Rightarrow> agent_state \<Rightarrow> llm_request list \<Rightarrow> bool" where
  "node_facts env p cfg b node st qs =
     (case node of
        VALIDATE \<Rightarrow> qs = []
      | DETERMINISTIC_REVIEW \<Rightarrow> qs = []
      | BUILD_PROMPT \<Rightarrow> qs = [] \<and> (\<exists>review. as_review st = Some review \<and> review_evidence b = Inr review)
      | INVOKE_PROVIDER \<Rightarrow> prompted env cfg b st \<and> int (length qs) < ac_max_attempts cfg \<and> retried p qs
      | PARSE_RESPONSE \<Rightarrow> prompted env cfg b st \<and> answered p st qs
      | MERGE_FINDINGS \<Rightarrow> prompted env cfg b st \<and> answered p st qs \<and> parsed env cfg st
      | FINALIZE \<Rightarrow> prompted env cfg b st \<and> answered p st qs \<and> parsed env cfg st \<and> merged st)"

definition node_inv ::
  "agent_env \<Rightarrow> llm_provider \<Rightarrow> agent_config \<Rightarrow> evidence_bundle \<Rightarrow> agent_node \<Rightarrow> agent_state \<Rightarrow> agent_world \<Rightarrow> bool" where
  "node_inv env p cfg b node st w \<longleftrightarrow>
     as_attempts st = length (requests w) \<and> trail_ok env p cfg b (requests w) \<and>
     (node \<noteq> VALIDATE \<longrightarrow> inputs_checked p cfg b) \<and> node_facts env p cfg b node st (requests w)"

text \<open>What the run returns: the result of the last node over the facts it was given.\<close>

definition final_inv :: "agent_env \<Rightarrow> llm_provider \<Rightarrow> agent_config \<Rightarrow> evidence_bundle \<Rightarrow> agent_state \<Rightarrow> agent_world \<Rightarrow> bool" where
  "final_inv env p cfg b st' w \<longleftrightarrow>
     (\<exists>st rendered. node_inv env p cfg b FINALIZE st w \<and> as_rendered st = Some rendered \<and>
        as_result st' = Some (agent_result_of p cfg b rendered st))"

definition step_post ::
  "agent_env \<Rightarrow> llm_provider \<Rightarrow> agent_config \<Rightarrow> evidence_bundle \<Rightarrow> agent_state \<times> agent_node option \<Rightarrow> agent_world \<Rightarrow> bool" where
  "step_post env p cfg b r w =
     (case snd r of None \<Rightarrow> final_inv env p cfg b (fst r) w | Some n \<Rightarrow> node_inv env p cfg b n (fst r) w)"

definition graph_step ::
  "agent_env \<Rightarrow> llm_provider \<Rightarrow> agent_config \<Rightarrow> evidence_bundle \<Rightarrow> agent_node \<Rightarrow> agent_state \<Rightarrow>
     (agent_state \<times> agent_node option) agent" where
  "graph_step env p cfg b node st =
     ag_bind (node_function env p cfg b node st) (\<lambda>st'.
     ag_bind (successor env cfg node st') (\<lambda>n. ag_return (st', n)))"

text \<open>The checks before the first request report no attempt.\<close>

lemma fold_res_error: "fold_res f s xs = Inl e \<Longrightarrow> \<exists>t x. f t x = Inl e"
  using fold_res_no_Inl by metis

lemma invalid_evidence_attempts [simp]: "ae_attempts invalid_evidence = 0"
  by (simp add: invalid_evidence_def agent_fail_def)

lemma invalid_configuration_attempts [simp]: "ae_attempts invalid_configuration = 0"
  by (simp add: invalid_configuration_def agent_fail_def)

lemma check_attempts: "check_utf8 s = Inl e \<Longrightarrow> ae_attempts e = 0" "check_oid n s = Inl e \<Longrightarrow> ae_attempts e = 0"
  by (auto simp: check_utf8_def check_oid_def)

lemma validate_context_line_attempts: "validate_context_line s l = Inl e \<Longrightarrow> ae_attempts e = 0"
  by (auto simp: validate_context_line_def old_step_def new_step_def res_iffs Let_def
      dest: check_attempts split: if_splits option.splits)

lemma validate_context_hunk_attempts: "validate_context_hunk u h = Inl e \<Longrightarrow> ae_attempts e = 0"
  by (auto simp: validate_context_hunk_def res_iffs dest!: fold_res_error validate_context_line_attempts split: if_splits)

lemma validate_side_attempts: "validate_side n side v seen = Inl e \<Longrightarrow> ae_attempts e = 0"
  by (auto simp: validate_side_def validate_context_version_def res_iffs dest: check_attempts split: if_splits option.splits)

lemma validate_context_change_attempts: "validate_context_change n seen c = Inl e \<Longrightarrow> ae_attempts e = 0"
  by (auto simp: validate_context_change_def res_iffs
      dest!: fold_res_error validate_context_hunk_attempts validate_side_attempts split: if_splits)

lemma validate_context_evidence_attempts: "validate_context_evidence b = Inl e \<Longrightarrow> ae_attempts e = 0"
  by (auto simp: validate_context_evidence_def res_iffs Let_def agent_fail_def
      dest!: fold_res_error validate_context_change_attempts check_attempts split: if_splits option.splits)

lemma validate_identifier_attempts: "validate_identifier s n = Inl e \<Longrightarrow> ae_attempts e = 0"
  by (auto simp: validate_identifier_def res_iffs)

lemma validation_error_attempts:
  "validate_configuration cfg = Inl e \<or> validate_provider p = Inl e \<or> validate_context_evidence b = Inl e \<Longrightarrow>
   ae_attempts e = 0"
  by (auto simp: validate_configuration_def validate_provider_def res_iffs
      dest: validate_identifier_attempts validate_context_evidence_attempts)

text \<open>Storing the merged findings or the result leaves the earlier facts.\<close>

lemma facts_kept [simp]:
  "prompted env cfg b (st\<lparr>as_findings := fs\<rparr>) = prompted env cfg b st"
  "answered p (st\<lparr>as_findings := fs\<rparr>) qs = answered p st qs"
  "parsed env cfg (st\<lparr>as_findings := fs\<rparr>) = parsed env cfg st"
  by (simp_all add: prompted_def answered_def parsed_def)

lemma step_validate:
  assumes "node_inv env p cfg b VALIDATE st w"
  shows "wp (agent_failure_ok env p cfg b) (graph_step env p cfg b VALIDATE st) (step_post env p cfg b) w"
proof -
  have errors: "ae_attempts e = 0"
    if "validate_configuration cfg = Inl e \<or> validate_provider p = Inl e \<or> validate_context_evidence b = Inl e" for e
    using that by (rule validation_error_attempts)
  show ?thesis
    using assms errors
    by (auto simp: graph_step_def node_function_def successor_def validate_node_def wp_simps step_post_def
        node_inv_def node_facts_def inputs_checked_def agent_failure_ok_def split: sum.split)
qed

lemma step_deterministic_review:
  assumes "node_inv env p cfg b DETERMINISTIC_REVIEW st w"
  shows "wp (agent_failure_ok env p cfg b) (graph_step env p cfg b DETERMINISTIC_REVIEW st) (step_post env p cfg b) w"
  using assms
  by (auto simp: graph_step_def node_function_def successor_def deterministic_review_node_def wp_simps step_post_def
      node_inv_def node_facts_def split: sum.split)

lemma checked_attempts: "inputs_checked p cfg b \<Longrightarrow> 1 \<le> ac_max_attempts cfg \<and> ac_max_attempts cfg \<le> 3"
  by (auto simp: inputs_checked_def validate_configuration_def res_iffs max_config_values_def)

lemma validate_identifier_nonempty: "validate_identifier s n = Inr () \<Longrightarrow> s \<noteq> []"
  by (auto simp: validate_identifier_def res_iffs py_strip_def)

lemma checked_timeouts:
  "inputs_checked p cfg b \<Longrightarrow>
   0 < seconds (ac_per_attempt_timeout_seconds cfg) \<and> seconds (ac_per_attempt_timeout_seconds cfg) \<le> 30 \<and>
   0 < seconds (ac_total_timeout_seconds cfg) \<and> seconds (ac_total_timeout_seconds cfg) \<le> 95"
  by (auto simp: inputs_checked_def validate_configuration_def res_iffs max_timeout_values_def timeout_in_def seconds_def
      split: option.splits)

lemma rendered_messages:
  assumes "render_review_prompt resources sha256 b review = Inr rendered"
  obtains m1 m2 where "rp_messages rendered = [m1, m2]" "lm_role m1 = SYSTEM" "lm_role m2 = USER"
  using assms by (auto simp: render_review_prompt_def res_iffs Let_def split: option.splits prod.splits)

text \<open>The constructor accepts every request of a checked configuration.\<close>

lemma checked_request:
  assumes "inputs_checked p cfg b" "prompt_of env cfg b review rendered" "0 < remaining"
  defines "q \<equiv> \<lparr>lq_model = ac_model cfg, lq_messages = rp_messages rendered,
    lq_max_output_tokens = ac_max_output_tokens cfg,
    lq_timeout_seconds = min (seconds (ac_per_attempt_timeout_seconds cfg)) remaining\<rparr>"
  shows "llm_request_ok q \<and> request_fits cfg rendered q"
proof -
  have "ac_model cfg \<noteq> []" "1 \<le> ac_max_output_tokens cfg"
    using assms(1) by (auto simp: inputs_checked_def validate_configuration_def res_iffs max_config_values_def
        dest: validate_identifier_nonempty)
  moreover obtain m1 m2 where "rp_messages rendered = [m1, m2]" "lm_role m1 = SYSTEM" "lm_role m2 = USER"
    using assms(2) unfolding prompt_of_def by (blast elim: rendered_messages)
  ultimately show ?thesis
    using checked_timeouts [OF assms(1)] assms(3) by (simp add: q_def llm_request_ok_def request_fits_def)
qed

lemma step_build_prompt:
  assumes "node_inv env p cfg b BUILD_PROMPT st w"
  shows "wp (agent_failure_ok env p cfg b) (graph_step env p cfg b BUILD_PROMPT st) (step_post env p cfg b) w"
proof -
  obtain review where r: "as_review st = Some review" "review_evidence b = Inr review" "requests w = []"
    "as_attempts st = 0" "inputs_checked p cfg b"
    using assms by (auto simp: node_inv_def node_facts_def)
  show ?thesis
    using r checked_attempts [OF r(5)]
    by (auto simp: graph_step_def node_function_def successor_def build_prompt_node_def wp_simps step_post_def
        node_inv_def node_facts_def prompted_def prompt_of_def split: sum.split prompt_exn.split)
qed

lemma step_parse_response:
  assumes "node_inv env p cfg b PARSE_RESPONSE st w"
  shows "wp (agent_failure_ok env p cfg b) (graph_step env p cfg b PARSE_RESPONSE st) (step_post env p cfg b) w"
proof -
  obtain rendered where "as_rendered st = Some rendered" using assms by (auto simp: node_inv_def node_facts_def prompted_def)
  with assms show ?thesis
    by (auto simp: graph_step_def node_function_def successor_def parse_response_node_def wp_simps step_post_def
        node_inv_def node_facts_def prompted_def answered_def parsed_def utf8_bytes_def utf8_ok_def
        split: sum.split answer_exn.split option.split held_response.split)
qed

lemma step_merge_findings:
  assumes "node_inv env p cfg b MERGE_FINDINGS st w"
  shows "wp (agent_failure_ok env p cfg b) (graph_step env p cfg b MERGE_FINDINGS st) (step_post env p cfg b) w"
proof -
  obtain review where "as_review st = Some review" using assms by (auto simp: node_inv_def node_facts_def prompted_def)
  with assms show ?thesis
    by (auto simp: graph_step_def node_function_def successor_def merge_findings_node_def wp_simps step_post_def
        node_inv_def node_facts_def merged_def split: option.split)
qed

lemma step_finalize:
  assumes "node_inv env p cfg b FINALIZE st w"
  shows "wp (agent_failure_ok env p cfg b) (graph_step env p cfg b FINALIZE st) (step_post env p cfg b) w"
proof -
  have facts: "prompted env cfg b st" "answered p st (requests w)" using assms by (simp_all add: node_inv_def node_facts_def)
  obtain rendered response where "as_rendered st = Some rendered" "as_response st = Some response"
    using facts unfolding prompted_def answered_def by blast
  moreover have "agent_result_ok (agent_result_of p cfg b rendered st)"
    using assms by (auto simp: agent_result_ok_def agent_result_of_def node_inv_def node_facts_def answered_def Suc_le_eq)
  moreover have "node_inv env p cfg b FINALIZE st (w\<lparr>aw_readings := n\<rparr>)" for n
    using assms by (simp add: node_inv_def)
  ultimately show ?thesis
    using assms
    by (auto simp: graph_step_def node_function_def successor_def finalize_node_def wp_simps step_post_def Let_def
        final_inv_def node_inv_def [of _ _ _ _ FINALIZE st w])
qed

section \<open>Calling the provider\<close>

text \<open>The world before a call: the request of attempt \<open>n + 1\<close> may be sent.\<close>

lemma trail_snoc:
  assumes "inputs_checked p cfg b" "prompted env cfg b st" "as_rendered st = Some rendered" "request_fits cfg rendered q"
    "trail_ok env p cfg b qs" "int (length qs) < ac_max_attempts cfg" "retried p qs"
  shows "trail_ok env p cfg b (qs @ [q])"
proof -
  obtain review where r: "prompt_of env cfg b review rendered" using assms(2,3) by (auto simp: prompted_def)
  have "list_all (request_fits cfg rendered) qs"
  proof (cases "qs = []")
    case False
    then obtain review' rendered' where "prompt_of env cfg b review' rendered'" "list_all (request_fits cfg rendered') qs"
      using assms(5) by (auto simp: trail_ok_def)
    moreover from this r have "rendered' = rendered" by (auto simp: prompt_of_def)
    ultimately show ?thesis by simp
  qed simp
  with r assms show ?thesis by (auto simp: trail_ok_def)
qed

lemma wp_wait_before:
  assumes "as_attempts st = length (requests w)" "trail_ok env p cfg b (requests w)" "as_attempts st < 3"
    and "\<And>w'. requests w' = requests w \<Longrightarrow> Q () w'"
  shows "wp (agent_failure_ok env p cfg b) (wait_before env st (as_attempts st + 1)) Q w"
proof -
  consider "as_attempts st = 0" | "as_attempts st = 1" | "as_attempts st = 2" using assms(3) by linarith
  then show ?thesis
    using assms(1,2,4) by cases (simp_all add: wait_before_def backoff_seconds_def wp_simps)
qed

lemma wp_keep_response:
  assumes "n = length (requests w)" "trail_ok env p cfg b (requests w)"
    and "\<And>w'. requests w' = requests w \<Longrightarrow>
      Q (st\<lparr>as_attempts := n, as_provider_error := None, as_response := response\<rparr>) w'"
  shows "wp (agent_failure_ok env p cfg b) (keep_response env st n response) Q w"
  using assms by (simp add: keep_response_def wp_simps)

text \<open>After a call the state holds its outcome.\<close>

definition called ::
  "agent_env \<Rightarrow> llm_provider \<Rightarrow> agent_config \<Rightarrow> evidence_bundle \<Rightarrow> nat \<Rightarrow> agent_state \<Rightarrow> agent_world \<Rightarrow> bool" where
  "called env p cfg b n st w \<longleftrightarrow>
     (let qs = requests w; outcome = lp_complete p (length qs) (last qs) in
      qs \<noteq> [] \<and> n = length qs \<and> as_attempts st = n \<and> trail_ok env p cfg b qs \<and> retried p (butlast qs) \<and>
      inputs_checked p cfg b \<and> prompted env cfg b st \<and> as_response st = held outcome \<and>
      as_provider_error st = (case outcome of ProviderFailed c \<Rightarrow> Some c | _ \<Rightarrow> None))"

lemma wp_call_provider:
  assumes "inputs_checked p cfg b" "prompted env cfg b st" "retried p (requests w)"
    "trail_ok env p cfg b (requests w @ [q])" "n = Suc (length (requests w))"
  shows "wp (agent_failure_ok env p cfg b) (call_provider env p st n q) (called env p cfg b n) w"
proof (cases "lp_complete p n q")
  case (ProviderFailed c)
  then show ?thesis using assms by (simp add: call_provider_def wp_simps called_def prompted_def)
next
  case ProviderRaised
  then show ?thesis using assms by (simp add: call_provider_def wp_simps)
qed (use assms in \<open>auto simp: call_provider_def wp_simps called_def prompted_def intro!: wp_keep_response\<close>)

lemma wp_invoke_provider:
  assumes "node_inv env p cfg b INVOKE_PROVIDER st w"
  shows "wp (agent_failure_ok env p cfg b) (invoke_provider_node env p cfg st) (called env p cfg b (as_attempts st + 1)) w"
proof -
  have inv: "as_attempts st = length (requests w)" "trail_ok env p cfg b (requests w)" "inputs_checked p cfg b"
    "prompted env cfg b st" "int (length (requests w)) < ac_max_attempts cfg" "retried p (requests w)"
    using assms by (simp_all add: node_inv_def node_facts_def)
  then obtain review rendered where r: "as_rendered st = Some rendered" "prompt_of env cfg b review rendered"
    by (auto simp: prompted_def)
  have few: "as_attempts st < 3" using inv checked_attempts [OF inv(3)] by simp
  let ?q = "\<lambda>remaining. \<lparr>lq_model = ac_model cfg, lq_messages = rp_messages rendered,
    lq_max_output_tokens = ac_max_output_tokens cfg,
    lq_timeout_seconds = min (seconds (ac_per_attempt_timeout_seconds cfg)) remaining\<rparr>"
  have q: "llm_request_ok (?q remaining) \<and> request_fits cfg rendered (?q remaining)" if "0 < remaining" for remaining
    using checked_request [OF inv(3) r(2) that] .
  show ?thesis
    unfolding invoke_provider_node_def Let_def r option.case wp_simps
  proof (rule wp_wait_before [OF inv(1,2) few])
    fix w1 assume w1: "requests w1 = requests w"
    show "wp (agent_failure_ok env p cfg b)
      (if as_deadline st - av_clock env (aw_readings w1) \<le> 0 then ag_fail BUDGET_EXCEEDED INVOKE_PROVIDER (as_attempts st)
       else if \<not> llm_request_ok (?q (as_deadline st - av_clock env (aw_readings w1)))
         then ag_fail WORKFLOW_EXECUTION_FAILED INVOKE_PROVIDER (as_attempts st + 1)
         else call_provider env p st (as_attempts st + 1) (?q (as_deadline st - av_clock env (aw_readings w1))))
      (called env p cfg b (as_attempts st + 1)) (w1\<lparr>aw_readings := Suc (aw_readings w1)\<rparr>)"
    proof (cases "as_deadline st - av_clock env (aw_readings w1) \<le> 0")
      case True
      then show ?thesis using inv w1 by (simp add: wp_simps)
    next
      case False
      then have "0 < as_deadline st - av_clock env (aw_readings w1)" by simp
      note q = q [OF this]
      with False show ?thesis
        using inv w1 r by (auto intro!: wp_call_provider trail_snoc)
    qed
  qed
qed

text \<open>The route after a call: the answer is read, a retryable failure with attempts left is retried.\<close>

definition routed ::
  "agent_env \<Rightarrow> llm_provider \<Rightarrow> agent_config \<Rightarrow> evidence_bundle \<Rightarrow> agent_state \<Rightarrow> agent_node \<Rightarrow> agent_world \<Rightarrow> bool" where
  "routed env p cfg b st n w \<longleftrightarrow> (n = INVOKE_PROVIDER \<or> n = PARSE_RESPONSE) \<and> node_inv env p cfg b n st w"

lemma wp_provider_route:
  assumes "called env p cfg b n st w"
  shows "wp (agent_failure_ok env p cfg b) (provider_route env cfg st) (routed env p cfg b st) w"
proof -
  define outcome where "outcome = lp_complete p (length (requests w)) (last (requests w))"
  have c: "requests w \<noteq> []" "as_attempts st = length (requests w)" "trail_ok env p cfg b (requests w)"
    "retried p (butlast (requests w))" "inputs_checked p cfg b" "prompted env cfg b st" "as_response st = held outcome"
    "as_provider_error st = (case outcome of ProviderFailed c \<Rightarrow> Some c | _ \<Rightarrow> None)"
    using assms by (simp_all add: called_def Let_def outcome_def)
  show ?thesis
  proof (cases "as_response st = None")
    case False
    then have "routed env p cfg b st PARSE_RESPONSE w"
      using c by (simp add: routed_def node_inv_def node_facts_def answered_def outcome_def)
    with False show ?thesis by (simp add: provider_route_def wp_simps)
  next
    case True
    have retried: "retried p (requests w)" if "outcome = ProviderFailed code" "retryable code" for code
      using c that retried_snoc [of p "butlast (requests w)" "last (requests w)"] by (simp add: outcome_def)
    have "routed env p cfg b st INVOKE_PROVIDER w'"
      if "outcome = ProviderFailed code" "retryable code" "int (as_attempts st) < ac_max_attempts cfg"
        "requests w' = requests w" for code w'
      using c retried [OF that(1,2)] that(3,4) by (simp add: routed_def node_inv_def node_facts_def)
    then show ?thesis
      using True c by (cases outcome) (auto simp: provider_route_def wp_simps split: option.split)
  qed
qed

lemma step_invoke_provider:
  assumes "node_inv env p cfg b INVOKE_PROVIDER st w"
  shows "wp (agent_failure_ok env p cfg b) (graph_step env p cfg b INVOKE_PROVIDER st)
    (\<lambda>r w'. \<exists>n. snd r = Some n \<and> routed env p cfg b (fst r) n w' \<and> as_attempts (fst r) = Suc (as_attempts st)) w"
proof -
  have route: "wp (agent_failure_ok env p cfg b) (provider_route env cfg st')
      (\<lambda>n w'. routed env p cfg b st' n w' \<and> as_attempts st' = Suc (as_attempts st)) w'"
    if "called env p cfg b (as_attempts st + 1) st' w'" for st' w'
    using wp_provider_route [OF that] that by (auto intro: wp_mono simp: called_def Let_def)
  show ?thesis
    unfolding graph_step_def node_function_def successor_def agent_node.case wp_simps
    using wp_invoke_provider [OF assms] by (rule wp_mono) (auto intro: wp_mono [OF route])
qed

section \<open>Runs\<close>

text \<open>The nodes a run still has to execute: at most three calls, and each other node once.\<close>

fun remaining_nodes :: "agent_node \<Rightarrow> nat \<Rightarrow> nat" where
  "remaining_nodes VALIDATE n = 9"
| "remaining_nodes DETERMINISTIC_REVIEW n = 8"
| "remaining_nodes BUILD_PROMPT n = 7"
| "remaining_nodes INVOKE_PROVIDER n = 3 + (3 - n)"
| "remaining_nodes PARSE_RESPONSE n = 3"
| "remaining_nodes MERGE_FINDINGS n = 2"
| "remaining_nodes FINALIZE n = 1"

lemma run_graph_step:
  "run_graph env p cfg b (Suc k) node st =
     ag_bind (graph_step env p cfg b node st) (\<lambda>(st', n).
       case n of None \<Rightarrow> ag_return st' | Some node' \<Rightarrow> run_graph env p cfg b k node' st')"
  by (auto simp: fun_eq_iff graph_step_def ag_bind_def ag_return_def split: prod.split sum.split)

lemma graph_step_next:
  assumes "graph_step env p cfg b node st w = (Inr r, w')" "node \<noteq> INVOKE_PROVIDER" "snd r = Some n"
  shows "remaining_nodes n i < remaining_nodes node j"
proof -
  obtain st' w1 w2 where "successor env cfg node st' w1 = (Inr (Some n), w2)"
    using assms(1,3) by (auto simp: graph_step_def ag_bind_def ag_return_def split: prod.splits sum.splits)
  with assms(2) show ?thesis by (cases node) (auto simp: successor_def ag_return_def)
qed

lemma graph_step_ok:
  assumes "node_inv env p cfg b node st w"
  shows "wp (agent_failure_ok env p cfg b) (graph_step env p cfg b node st)
    (\<lambda>r w'. step_post env p cfg b r w' \<and>
       (\<forall>n. snd r = Some n \<longrightarrow> remaining_nodes n (as_attempts (fst r)) < remaining_nodes node (as_attempts st))) w"
proof (cases "node = INVOKE_PROVIDER")
  case True
  have few: "as_attempts st < 3" using assms checked_attempts by (fastforce simp: True node_inv_def node_facts_def)
  have "wp (agent_failure_ok env p cfg b) (graph_step env p cfg b INVOKE_PROVIDER st)
    (\<lambda>r w'. \<exists>n. snd r = Some n \<and> routed env p cfg b (fst r) n w' \<and> as_attempts (fst r) = Suc (as_attempts st)) w"
    using assms unfolding True by (rule step_invoke_provider)
  then show ?thesis
    unfolding True by (rule wp_mono) (use few in \<open>auto simp: step_post_def routed_def\<close>)
next
  case False
  have "wp (agent_failure_ok env p cfg b) (graph_step env p cfg b node st) (step_post env p cfg b) w"
    using assms False
    by (cases node) (simp_all add: step_validate step_deterministic_review step_build_prompt step_parse_response
        step_merge_findings step_finalize)
  then show ?thesis
    by (rule wp_strengthen) (simp add: graph_step_next [OF _ False])
qed

lemma run_graph_ok:
  assumes "node_inv env p cfg b node st w" "remaining_nodes node (as_attempts st) \<le> k"
  shows "wp (agent_failure_ok env p cfg b) (run_graph env p cfg b k node st) (final_inv env p cfg b) w"
  using assms
proof (induction k arbitrary: node st w)
  case 0
  then show ?case by (cases node) simp_all
next
  case (Suc k)
  have "wp (agent_failure_ok env p cfg b) (case r of (st', n) \<Rightarrow>
      case n of None \<Rightarrow> ag_return st' | Some node' \<Rightarrow> run_graph env p cfg b k node' st') (final_inv env p cfg b) w'"
    if "step_post env p cfg b r w' \<and>
       (\<forall>n. snd r = Some n \<longrightarrow> remaining_nodes n (as_attempts (fst r)) < remaining_nodes node (as_attempts st))" for r w'
    using that Suc.prems(2) Suc.IH by (cases r) (fastforce simp: step_post_def wp_simps split: option.split)
  then show ?case
    unfolding run_graph_step wp_simps by (rule wp_mono [OF graph_step_ok [OF Suc.prems(1)]])
qed

text \<open>The number of attempts an outcome reports.\<close>

definition reported_attempts :: "agent_error + agent_result \<Rightarrow> nat" where
  "reported_attempts r = (case r of Inl e \<Rightarrow> ae_attempts e | Inr x \<Rightarrow> ar_attempt_count x)"

lemma review_with_agent_ok:
  assumes "9 \<le> av_graph_limit env"
  shows "wp (agent_failure_ok env p cfg b) (review_with_agent env p cfg b)
    (\<lambda>r w. \<exists>st rendered. node_inv env p cfg b FINALIZE st w \<and> as_rendered st = Some rendered \<and>
       r = agent_result_of p cfg b rendered st) fresh_world"
proof -
  have "node_inv env p cfg b VALIDATE initial_state fresh_world"
    by (simp add: node_inv_def node_facts_def initial_state_def)
  then have "wp (agent_failure_ok env p cfg b) (run_graph env p cfg b (av_graph_limit env) VALIDATE initial_state)
      (final_inv env p cfg b) fresh_world"
    using assms by (intro run_graph_ok) simp_all
  then show ?thesis
    unfolding review_with_agent_def wp_simps by (rule wp_mono) (clarsimp simp: final_inv_def wp_simps, blast)
qed

end
