(* ===== verification/Agent_Properties.thy ===== *)
theory Agent_Properties
  imports Agent_Facts
begin

text \<open>
  The properties of the Agent review: what it sends, how often, and what it may report. The prompt hides the
  private keys the deterministic review found; findings of the model point into the evidence, and no
  deterministic finding is lost.
\<close>

section \<open>Private keys in prompts\<close>

definition in_key_range :: "file_change \<Rightarrow> int \<Rightarrow> bool" where
  "in_key_range c n = list_ex (\<lambda>(s, e). s \<le> n \<and> n \<le> e) (key_ranges (addition_lines c))"

text \<open>The evidence with the added lines of every private-key block replaced.\<close>

definition mask_added_line :: "file_change \<Rightarrow> diff_line \<Rightarrow> diff_line" where
  "mask_added_line c l =
     (case (fc_new c, dl_new l) of
        (Some _, Some n) \<Rightarrow>
          if dl_kind l = ADDITION \<and> in_key_range c n then l\<lparr>dl_content := prompt_sentinel\<rparr> else l
      | _ \<Rightarrow> l)"

definition mask_hunk :: "file_change \<Rightarrow> diff_hunk \<Rightarrow> diff_hunk" where
  "mask_hunk c h = h\<lparr>dh_lines := map (mask_added_line c) (dh_lines h)\<rparr>"

definition mask_change :: "file_change \<Rightarrow> file_change" where
  "mask_change c = c\<lparr>fc_hunks := map (mask_hunk c) (fc_hunks c)\<rparr>"

definition mask_private_keys :: "evidence_bundle \<Rightarrow> evidence_bundle" where
  "mask_private_keys b = b\<lparr>eb_changes := map mask_change (eb_changes b)\<rparr>"

lemma mask_added_line_fields [simp]:
  "dl_kind (mask_added_line c l) = dl_kind l" "dl_old (mask_added_line c l) = dl_old l" "dl_new (mask_added_line c l) = dl_new l"
  "dl_newline (mask_added_line c l) = dl_newline l"
  by (simp_all add: mask_added_line_def split: option.split)

lemma mask_change_fields [simp]:
  "fc_old (mask_change c) = fc_old c" "fc_new (mask_change c) = fc_new c"
  "fc_change_type (mask_change c) = fc_change_type c" "fc_rename_similarity (mask_change c) = fc_rename_similarity c"
  "fc_hunks (mask_change c) = map (mask_hunk c) (fc_hunks c)"
  by (simp_all add: mask_change_def)

lemma mask_bundle_fields [simp]:
  "eb_repository (mask_private_keys b) = eb_repository b" "eb_revisions (mask_private_keys b) = eb_revisions b"
  "eb_changes (mask_private_keys b) = map mask_change (eb_changes b)"
  by (simp_all add: mask_private_keys_def)

lemma reference_range_mem:
  "(s, e) \<in> set (reference_range key r) \<longleftrightarrow>
     er_start r = Some s \<and> er_end r = Some e \<and> er_side r = NEW \<and> (er_path r, er_oid r) = key"
  by (auto simp: reference_range_def split: option.split)

lemma redactions_mem:
  "(s, e) \<in> set (private_key_redactions fs key) \<longleftrightarrow>
     (\<exists>f \<in> set fs. fi_rule f = PRIVATE_KEY_MATERIAL \<and> (\<exists>r \<in> set (fi_references f). (s, e) \<in> set (reference_range key r)))"
  by (auto simp: private_key_redactions_def)

lemma text_reference_range:
  "(s, e) \<in> set (reference_range key (text_reference v a z)) \<longleftrightarrow> s = a \<and> e = z \<and> key = (fv_path v, fv_oid v)"
  by (auto simp: reference_range_mem text_reference_def)

text \<open>The findings of the review give exactly the key ranges of each change.\<close>

lemma private_key_change_mem:
  "f \<in> set (private_key_change c) \<longleftrightarrow>
     (\<exists>v s e. fc_new c = Some v \<and> (s, e) \<in> set (key_ranges (addition_lines c)) \<and>
        f = rule_finding PRIVATE_KEY_MATERIAL (text_reference v s e))"
  by (cases "fc_new c") (auto simp: private_key_change_def simp del: rule_finding.simps)

lemma change_key_findings:
  "f \<in> set (change_findings c) \<and> fi_rule f = PRIVATE_KEY_MATERIAL \<longleftrightarrow> f \<in> set (private_key_change c)"
proof
  assume f: "f \<in> set (change_findings c) \<and> fi_rule f = PRIVATE_KEY_MATERIAL"
  have other: "f \<notin> set (content_kind_change k u c)" if "u \<noteq> PRIVATE_KEY_MATERIAL" for k u
    using f that by (auto dest: content_kind_change_rules [OF imageI])
  have "f \<notin> set (executable_change c)" using f by (auto dest: executable_change_rules [OF imageI])
  moreover have "f \<notin> set (merge_conflict_change c)"
    using f merge_conflict_change_rules [of c] by (metis image_eqI empty_iff rule_id.distinct(1) singletonD)
  ultimately show "f \<in> set (private_key_change c)"
    using f unfolding change_findings_def set_append by (simp add: other)
qed (auto simp: change_findings_def private_key_change_mem simp del: rule_finding.simps)

lemma private_key_findings_mem:
  assumes "review_evidence b = Inr review"
  shows "f \<in> set (rr_findings review) \<and> fi_rule f = PRIVATE_KEY_MATERIAL \<longleftrightarrow>
    (\<exists>c \<in> set (eb_changes b). f \<in> set (private_key_change c))"
  unfolding review_findings_exact(1) [OF assms] using change_key_findings by blast

lemma private_key_change_ranges:
  "(\<exists>f \<in> set (private_key_change c). \<exists>r \<in> set (fi_references f). (s, e) \<in> set (reference_range key r)) \<longleftrightarrow>
     (\<exists>v. fc_new c = Some v \<and> (s, e) \<in> set (key_ranges (addition_lines c)) \<and> key = (fv_path v, fv_oid v))"
  by (cases "fc_new c")
    (auto simp: private_key_change_def text_reference_range split_beta simp del: rule_finding.simps intro!: bexI)

lemma side_key_unique:
  assumes "distinct (concat (map side_keys cs))" "c \<in> set cs" "c' \<in> set cs" "fc_new c = Some v" "fc_new c' = Some v'"
    "fv_path v = fv_path v'"
  shows "c = c'"
proof -
  have keys: "(fv_path v, NEW) \<in> set (side_keys c)" "(fv_path v, NEW) \<in> set (side_keys c')"
    using assms(4-6) by (simp_all add: side_keys_def)
  show ?thesis using assms(1-3) keys by (induction cs) auto
qed

lemma redactions_key_ranges:
  assumes "review_evidence b = Inr review" "distinct (concat (map side_keys (eb_changes b)))"
    "c \<in> set (eb_changes b)" "fc_new c = Some v"
  shows "set (private_key_redactions (rr_findings review) (fv_path v, fv_oid v)) = set (key_ranges (addition_lines c))"
proof -
  have "(s, e) \<in> set (private_key_redactions (rr_findings review) (fv_path v, fv_oid v)) \<longleftrightarrow>
      (\<exists>c' \<in> set (eb_changes b). \<exists>f \<in> set (private_key_change c').
         \<exists>r \<in> set (fi_references f). (s, e) \<in> set (reference_range (fv_path v, fv_oid v) r))" for s e
    unfolding redactions_mem using private_key_findings_mem [OF assms(1)] by blast
  also have "\<dots> s e \<longleftrightarrow> (\<exists>c' \<in> set (eb_changes b). \<exists>v'. fc_new c' = Some v' \<and>
      (s, e) \<in> set (key_ranges (addition_lines c')) \<and> (fv_path v, fv_oid v) = (fv_path v', fv_oid v'))" for s e
    unfolding private_key_change_ranges ..
  also have "\<dots> s e \<longleftrightarrow> (s, e) \<in> set (key_ranges (addition_lines c))" for s e
    using side_key_unique [OF assms(2,3) _ assms(4)] assms(3,4) by blast
  finally show ?thesis by auto
qed

lemma prompt_content_mask:
  assumes "review_evidence b = Inr review" "distinct (concat (map side_keys (eb_changes b)))" "c \<in> set (eb_changes b)"
  shows "prompt_content (private_key_redactions (rr_findings review)) (fc_new c) l = dl_content (mask_added_line c l)"
proof (cases "fc_new c")
  case (Some v)
  have "is_redacted (private_key_redactions (rr_findings review)) v n = in_key_range c n" for n
    using redactions_key_ranges [OF assms Some] by (simp add: is_redacted_def in_key_range_def list_ex_iff)
  with Some show ?thesis by (simp add: prompt_content_def mask_added_line_def split: option.split)
qed (simp add: prompt_content_def mask_added_line_def)

lemma prompt_change_mask:
  assumes "review_evidence b = Inr review" "distinct (concat (map side_keys (eb_changes b)))" "c \<in> set (eb_changes b)"
  shows "change_to_prompt_dict (private_key_redactions (rr_findings review)) c =
    change_to_prompt_dict (\<lambda>_. []) (mask_change c)"
proof -
  have plain: "prompt_content (\<lambda>_. []) new l = dl_content l" for new l
    by (simp add: prompt_content_def is_redacted_def split: option.split)
  have "prompt_line_to_dict (private_key_redactions (rr_findings review)) (fc_new c) l =
      prompt_line_to_dict (\<lambda>_. []) (fc_new c) (mask_added_line c l)" for l
    by (simp add: prompt_line_to_dict_def plain prompt_content_mask [OF assms])
  then show ?thesis
    by (simp add: change_to_prompt_dict_def prompt_hunk_to_dict_def mask_hunk_def)
qed

lemma user_content_mask:
  assumes "review_evidence b = Inr review" "distinct (concat (map side_keys (eb_changes b)))"
  shows "user_content (private_key_redactions (rr_findings review)) b fs =
    user_content (\<lambda>_. []) (mask_private_keys b) fs"
proof -
  have "map (change_to_prompt_dict (private_key_redactions (rr_findings review))) (eb_changes b) =
      map (change_to_prompt_dict (\<lambda>_. [])) (map mask_change (eb_changes b))"
    using prompt_change_mask [OF assms] by simp
  then show ?thesis by (simp only: user_content_def user_data_def mask_bundle_fields)
qed

lemma hunk_numbers_mask [simp]: "hunk_line_numbers side (mask_hunk c h) = hunk_line_numbers side h"
  by (cases side) (simp_all add: hunk_line_numbers_def mask_hunk_def comp_def)

lemma add_target_mask [simp]:
  "add_reference_target side (map (mask_hunk c) hs) version targets = add_reference_target side hs version targets"
  by (simp add: add_reference_target_def target_of_def comp_def split: option.split)

lemma reference_targets_mask: "reference_targets (mask_private_keys b) = reference_targets b"
proof -
  have "add_change_targets targets (mask_change c) = add_change_targets targets c" for targets c
    by (simp add: add_change_targets_def and_then_def split: sum.split)
  then have "fold_res add_change_targets targets (map mask_change cs) = fold_res add_change_targets targets cs" for targets cs
    by (induction cs arbitrary: targets) simp_all
  then show ?thesis by (simp add: reference_targets_def)
qed

lemma render_mask:
  assumes "review_evidence b = Inr review" "distinct (concat (map side_keys (eb_changes b)))"
    and "review_evidence b' = Inr review" "distinct (concat (map side_keys (eb_changes b')))"
    and "mask_private_keys b = mask_private_keys b'"
  shows "render_review_prompt resources sha256 b review = render_review_prompt resources sha256 b' review"
  using user_content_mask [OF assms(1,2)] user_content_mask [OF assms(3,4)]
    reference_targets_mask [of b] reference_targets_mask [of b'] assms(5)
  by (simp only: render_review_prompt_def)

text \<open>From the prompt on, a run knows of the evidence only what its result repeats.\<close>

definition after_prompt :: "agent_node \<Rightarrow> bool" where
  "after_prompt node \<longleftrightarrow> node \<in> {INVOKE_PROVIDER, PARSE_RESPONSE, MERGE_FINDINGS, FINALIZE}"

lemma successor_after_prompt:
  assumes "after_prompt node" "successor env cfg node st w = (Inr (Some node'), w')"
  shows "after_prompt node'"
  using assms
  by (auto simp: after_prompt_def successor_def ag_return_def ag_bind_def ag_fail_def provider_route_def ag_monotonic_def
      split: if_splits option.splits prod.splits sum.splits)

lemma run_after_prompt:
  assumes "eb_repository b = eb_repository b'" "eb_revisions b = eb_revisions b'"
  shows "after_prompt node \<Longrightarrow> run_graph env p cfg b k node st w = run_graph env p cfg b' k node st w"
proof (induction k arbitrary: node st w)
  case (Suc k)
  have result: "agent_result_of p cfg b = agent_result_of p cfg b'"
    using assms by (simp add: fun_eq_iff agent_result_of_def)
  have "finalize_node env p cfg b st = finalize_node env p cfg b' st" for st
    unfolding finalize_node_def result ..
  then have "node_function env p cfg b node = node_function env p cfg b' node"
    using Suc.prems by (auto simp: after_prompt_def node_function_def fun_eq_iff)
  then show ?case
    by (auto simp: ag_bind_def split: prod.split sum.split option.split
        intro!: Suc.IH dest: successor_after_prompt [OF Suc.prems])
qed simp

lemma run_prompt:
  assumes same: "eb_repository b = eb_repository b'" "eb_revisions b = eb_revisions b'"
    and render: "\<And>st. as_review st = Some review \<Longrightarrow> build_prompt_node env cfg b st = build_prompt_node env cfg b' st"
    and reviews: "review_evidence b = Inr review" "review_evidence b' = Inr review"
    and checks: "validate_context_evidence b = validate_context_evidence b'"
  shows "run_graph env p cfg b k VALIDATE st w = run_graph env p cfg b' k VALIDATE st w"
proof -
  have after: "run_graph env p cfg b k INVOKE_PROVIDER st w = run_graph env p cfg b' k INVOKE_PROVIDER st w" for k st w
    by (rule run_after_prompt [OF same]) (simp add: after_prompt_def)
  have prompt: "run_graph env p cfg b k BUILD_PROMPT st w = run_graph env p cfg b' k BUILD_PROMPT st w"
    if "as_review st = Some review" for k st w
    using render [OF that]
    by (cases k) (simp_all add: ag_bind_def node_function_def successor_def ag_return_def after split: prod.split sum.split)
  have review: "run_graph env p cfg b k DETERMINISTIC_REVIEW st w = run_graph env p cfg b' k DETERMINISTIC_REVIEW st w" for k st w
    by (cases k) (simp_all add: ag_bind_def node_function_def successor_def ag_return_def deterministic_review_node_def reviews prompt)
  have "validate_node env p cfg b = validate_node env p cfg b'"
    using checks by (simp add: fun_eq_iff validate_node_def)
  then show ?thesis
    by (cases k) (simp_all add: ag_bind_def node_function_def successor_def ag_return_def review split: prod.split sum.split)
qed

lemma review_value:
  assumes "review_evidence b = Inr review"
  shows "review = \<lparr>rr_repository = eb_repository b, rr_revisions = eb_revisions b, rr_findings = rr_findings review,
    rr_schema_version = 1\<rparr>"
  using assms by (auto simp: review_evidence_def res_iffs)

text \<open>
  C9. The content of private-key blocks reaches the provider and the result only through the findings of the
  deterministic review: two accepted bundles that agree once the added lines of every private-key block are
  replaced, and for which the deterministic review reports the same findings, give the same requests, the
  same waiting and the same result, whatever the provider answers. The second condition is needed: the
  findings are part of the prompt, and the lines of a block can make findings of their own (a block may hold
  conflict markers), so bundles that differ in such lines may well give different runs.
\<close>

theorem private_keys_stay_home:
  assumes "validate_context_evidence b = Inr ()" "validate_context_evidence b' = Inr ()"
    and "review_evidence b = Inr review" "review_evidence b' = Inr review'"
    and "mask_private_keys b = mask_private_keys b'" "rr_findings review = rr_findings review'"
  shows "review_with_agent env p cfg b w = review_with_agent env p cfg b' w"
proof -
  have same: "eb_repository b = eb_repository b'" "eb_revisions b = eb_revisions b'"
    using assms(5) by (metis mask_bundle_fields(1), metis mask_bundle_fields(2))
  have reviews: "review = review'"
    using review_value [OF assms(3)] review_value [OF assms(4)] same assms(6) by metis
  have "distinct (concat (map side_keys (eb_changes b)))" "distinct (concat (map side_keys (eb_changes b')))"
    using assms(1,2) by (blast elim: context_evidence_ok)+
  then have render: "render_review_prompt resources sha256 b review = render_review_prompt resources sha256 b' review" for resources sha256
    using render_mask assms(3-5) reviews by blast
  have "run_graph env p cfg b k VALIDATE st u = run_graph env p cfg b' k VALIDATE st u" for k st u
    using run_prompt [OF same _ assms(3) assms(4) [folded reviews]] assms(1,2)
    by (simp add: fun_eq_iff build_prompt_node_def render)
  then show ?thesis by (simp add: review_with_agent_def ag_bind_def)
qed

section \<open>Findings in the evidence\<close>

definition side_version :: "evidence_side \<Rightarrow> file_change \<Rightarrow> file_version option" where
  "side_version side c = (if side = OLD then fc_old c else fc_new c)"

definition line_number_on :: "evidence_side \<Rightarrow> diff_line \<Rightarrow> int option" where
  "line_number_on side l = (if side = OLD then dl_old l else dl_new l)"

text \<open>A reference names a version of a change and either no lines or lines of one hunk of the change.\<close>

definition in_evidence :: "evidence_bundle \<Rightarrow> evidence_reference \<Rightarrow> bool" where
  "in_evidence b r \<longleftrightarrow>
     (\<exists>c \<in> set (eb_changes b). \<exists>v. side_version (er_side r) c = Some v \<and> er_path r = fv_path v \<and> er_oid r = fv_oid v \<and>
        (er_start r = None \<and> er_end r = None \<or>
         (\<exists>a z. er_start r = Some a \<and> er_end r = Some z \<and> 1 \<le> a \<and> a \<le> z \<and>
            (\<exists>h \<in> set (fc_hunks c). \<forall>n. a \<le> n \<and> n \<le> z \<longrightarrow>
               (\<exists>l \<in> set (dh_lines h). line_number_on (er_side r) l = Some n)))))"

definition target_sound :: "evidence_bundle \<Rightarrow> pystr \<times> evidence_side \<Rightarrow> reference_target \<Rightarrow> bool" where
  "target_sound b key t \<longleftrightarrow>
     (\<exists>c \<in> set (eb_changes b). \<exists>v. side_version (snd key) c = Some v \<and> t = target_of (snd key) v (fc_hunks c))"

lemma add_reference_target_sound:
  assumes "add_reference_target side (fc_hunks c) (side_version side c) targets = Inr targets'"
    and "\<forall>key t. targets key = Some t \<longrightarrow> target_sound b key t" "c \<in> set (eb_changes b)"
  shows "\<forall>key t. targets' key = Some t \<longrightarrow> target_sound b key t"
proof (cases "side_version side c")
  case None
  with assms show ?thesis by (simp add: add_reference_target_def)
next
  case (Some v)
  have "target_sound b (fv_path v, side) (target_of side v (fc_hunks c))"
    using assms(3) Some by (force simp: target_sound_def)
  moreover have "targets' = targets((fv_path v, side) \<mapsto> target_of side v (fc_hunks c))"
    using assms(1) Some by (simp add: add_reference_target_def split: if_splits)
  ultimately show ?thesis using assms(2) by simp
qed

lemma reference_targets_sound:
  assumes "reference_targets b = Inr targets" "targets key = Some t"
  shows "target_sound b key t"
proof -
  have "\<forall>key t. targets key = Some t \<longrightarrow> target_sound b key t"
    using assms(1) unfolding reference_targets_def
  proof (rule fold_res_invariant)
    fix s c s'
    assume c: "c \<in> set (eb_changes b)" and s: "\<forall>key t. s key = Some t \<longrightarrow> target_sound b key t"
      and add: "add_change_targets s c = Inr s'"
    then obtain s1 where s1: "add_reference_target OLD (fc_hunks c) (side_version OLD c) s = Inr s1"
      "add_reference_target NEW (fc_hunks c) (side_version NEW c) s1 = Inr s'"
      by (auto simp: add_change_targets_def side_version_def res_iffs)
    show "\<forall>key t. s' key = Some t \<longrightarrow> target_sound b key t"
      using add_reference_target_sound [OF s1(2) add_reference_target_sound [OF s1(1) s c] c] .
  qed simp
  with assms(2) show ?thesis by blast
qed

lemma hunk_line_numbers_mem: "n \<in> hunk_line_numbers side h \<longleftrightarrow> (\<exists>l \<in> set (dh_lines h). line_number_on side l = Some n)"
proof -
  have "n \<in> set (case x of None \<Rightarrow> [] | Some n \<Rightarrow> [n]) \<longleftrightarrow> x = Some n" for x :: "int option"
    by (cases x) auto
  then show ?thesis by (simp add: hunk_line_numbers_def line_number_on_def)
qed

lemma range_in_hunk:
  "range_is_in_one_hunk a z (map (hunk_line_numbers side) hs) \<Longrightarrow>
   \<exists>h \<in> set hs. \<forall>n. a \<le> n \<and> n \<le> z \<longrightarrow> (\<exists>l \<in> set (dh_lines h). line_number_on side l = Some n)"
  unfolding range_is_in_one_hunk_def list_ex_iff list_all_iff hunk_line_numbers_mem [symmetric]
  by (auto intro!: bexI)

lemma parse_model_reference_grounded:
  assumes "reference_targets b = Inr targets" "parse_model_reference targets v = Inr r"
  shows "in_evidence b r"
proof -
  obtain path side t raw a z where t: "targets (path, side) = Some t"
    and lines: "parse_lines (rt_hunk_line_numbers t) (raw (lit ''start_line'')) (raw (lit ''end_line'')) = Inr (a, z)"
    and r: "r = \<lparr>er_path = rt_path t, er_side = rt_side t, er_oid = rt_oid t, er_start = a, er_end = z\<rparr>"
    using assms(2) by (auto simp: parse_model_reference_def res_iffs split: option.splits)
  obtain c w where c: "c \<in> set (eb_changes b)" "side_version side c = Some w" "t = target_of side w (fc_hunks c)"
    using reference_targets_sound [OF assms(1) t] by (auto simp: target_sound_def)
  from lines consider "a = None" "z = None" | x y where "a = Some x" "z = Some y" "1 \<le> x" "x \<le> y"
    "range_is_in_one_hunk x y (rt_hunk_line_numbers t)"
    by (auto simp: parse_lines_def split: option.splits json.splits if_splits)
  then have "a = None \<and> z = None \<or> (\<exists>x y. a = Some x \<and> z = Some y \<and> 1 \<le> x \<and> x \<le> y \<and>
      (\<exists>h \<in> set (fc_hunks c). \<forall>n. x \<le> n \<and> n \<le> y \<longrightarrow> (\<exists>l \<in> set (dh_lines h). line_number_on side l = Some n)))"
    using range_in_hunk by cases (auto simp: c(3) target_of_def)
  then show ?thesis
    unfolding in_evidence_def r c(3) target_of_def using c(1,2) by (intro bexI [of _ c] exI [of _ w]) simp_all
qed

lemma parse_model_findings_grounded:
  assumes "reference_targets b = Inr targets" "parse_model_findings pf targets cfg text = Inr fs" "f \<in> set fs"
  shows "af_source f = AGENT" "agent_finding_ok f" "\<forall>r \<in> set (af_references f). in_evidence b r"
proof -
  obtain v where v: "parse_model_finding targets cfg v = Inr f"
    using assms(2,3) by (auto simp: parse_model_findings_def res_iffs dest: map_res_source split: if_splits sum.splits)
  then obtain raw references where f: "af_source f = AGENT" "agent_finding_ok f" "af_references f = references"
    "parse_references targets cfg (raw (lit ''references'')) = Inr references"
    by (auto simp: parse_model_finding_def res_iffs Let_def split: if_splits)
  then show "af_source f = AGENT" "agent_finding_ok f" by simp_all
  from f(4) obtain xs rs where rs: "map_res (parse_model_reference targets) xs = Inr rs"
    "references = sort_key reference_sort_key (first_by (\<lambda>r. r) {} rs)"
    by (auto simp: parse_references_def res_iffs split: if_splits)
  then show "\<forall>r \<in> set (af_references f). in_evidence b r"
    using f(3) set_first_by_subset [of "\<lambda>r. r" "{}" rs] parse_model_reference_grounded [OF assms(1)]
    by (auto dest: map_res_source)
qed

section \<open>Merging\<close>

lemma first_by_other: "x \<notin> set ys \<Longrightarrow> first_by (\<lambda>x. x) (insert x seen) ys = first_by (\<lambda>x. x) seen ys"
proof (induction ys arbitrary: seen)
  case (Cons y ys)
  then show ?case using Cons.IH [of "insert y seen"] by (auto simp: insert_commute [of y x])
qed simp

lemma first_by_distinct_prefix:
  "distinct xs \<Longrightarrow> set xs \<inter> (seen \<union> set ys) = {} \<Longrightarrow>
   first_by (\<lambda>x. x) seen (xs @ ys) = xs @ first_by (\<lambda>x. x) seen ys"
proof (induction xs arbitrary: seen)
  case (Cons x xs)
  have "first_by (\<lambda>x. x) (insert x seen) ys = first_by (\<lambda>x. x) seen ys" using Cons.prems first_by_other [of x ys seen] by simp
  with Cons show ?case by simp
qed simp

lemma promote_inj: "promote_finding f = promote_finding g \<Longrightarrow> f = g"
  by (simp add: promote_finding_def)

lemma merge_findings_ok:
  assumes "merge_findings deterministic candidates = Some fs" "distinct deterministic"
    and "\<forall>f \<in> set candidates. af_source f = AGENT \<and> agent_finding_ok f"
  shows "set fs = promote_finding ` set deterministic \<union> set candidates"
    and "sorted_wrt (\<lambda>f g. agent_sort_key f < agent_sort_key g) fs"
proof -
  define promoted where "promoted = map promote_finding deterministic"
  have source: "af_source f = DETERMINISTIC" if "f \<in> set promoted" for f
    using that by (auto simp: promoted_def promote_finding_def)
  have ok: "\<forall>f \<in> set (promoted @ candidates). agent_finding_ok f"
    using assms(1,3) by (auto simp: merge_findings_def Let_def promoted_def list_all_iff split: if_splits)
  have "set promoted \<inter> set candidates = {}" using source assms(3) by fastforce
  moreover have "distinct promoted"
    using assms(2) by (auto simp: promoted_def distinct_map intro: inj_onI dest: promote_inj)
  ultimately have "promoted @ first_by (\<lambda>f. f) {} candidates = first_by (\<lambda>f. f) {} (promoted @ candidates)"
    by (simp add: first_by_distinct_prefix)
  then have fs: "fs = sort_key agent_sort_key (first_by (\<lambda>f. f) {} (promoted @ candidates))"
    using assms(1) by (simp add: merge_findings_def Let_def promoted_def split: if_splits)
  show "set fs = promote_finding ` set deterministic \<union> set candidates"
    unfolding fs agent_order.set_canonical [OF ok] by (simp add: promoted_def)
  show "sorted_wrt (\<lambda>f g. agent_sort_key f < agent_sort_key g) fs"
    unfolding fs by (rule agent_order.strict_canonical [OF ok])
qed

section \<open>Runs\<close>

text \<open>
  C10. Whatever the provider and the clock do, a review sends at most three requests and not more than its
  configuration allows, all with the one prompt of a checked bundle and with a positive timeout within the
  configured one; every request but the last failed in a way that may be retried; and the result, or the error,
  reports the number of requests that were sent. The graph library, which allows 25 nodes by default, never
  cuts a run short.
\<close>

theorem agent_requests_bounded:
  assumes "9 \<le> av_graph_limit env" "review_with_agent env p cfg b fresh_world = (r, w)"
  shows "reported_attempts r = length (requests w) \<and> length (requests w) \<le> 3 \<and> trail_ok env p cfg b (requests w)"
proof -
  have "reported_attempts r = length (requests w) \<and> trail_ok env p cfg b (requests w)"
    using review_with_agent_ok [OF assms(1), of p cfg b] assms(2)
    by (auto simp: wp_def reported_attempts_def agent_failure_ok_def node_inv_def agent_result_of_def split: sum.splits)
  moreover from this have "length (requests w) \<le> 3" using checked_attempts [of p cfg b] by (auto simp: trail_ok_def)
  ultimately show ?thesis by simp
qed

text \<open>
  C11. A finished review reports every finding of the deterministic review, unchanged, and every finding of the
  model refers only to versions of files in the evidence and to lines that lie in one hunk of the change; the
  findings are strictly ordered, so none is reported twice.
\<close>

theorem agent_findings_grounded:
  assumes "9 \<le> av_graph_limit env" "review_with_agent env p cfg b fresh_world = (Inr r, w)"
  shows "\<exists>review. review_evidence b = Inr review \<and>
    {f \<in> set (ar_findings r). af_source f = DETERMINISTIC} = promote_finding ` set (rr_findings review) \<and>
    (\<forall>f \<in> set (ar_findings r). af_source f = AGENT \<longrightarrow> (\<forall>x \<in> set (af_references f). in_evidence b x)) \<and>
    sorted_wrt (\<lambda>f g. agent_sort_key f < agent_sort_key g) (ar_findings r)"
proof -
  obtain st rendered where inv: "node_inv env p cfg b FINALIZE st w" and rendered: "as_rendered st = Some rendered"
    and r: "r = agent_result_of p cfg b rendered st"
    using review_with_agent_ok [OF assms(1), of p cfg b] assms(2) by (auto simp: wp_def)
  have facts: "prompted env cfg b st" "parsed env cfg st" "merged st"
    using inv by (simp_all add: node_inv_def node_facts_def)
  have st: "ar_findings r = as_findings st" by (simp add: r agent_result_of_def)
  from facts(1) rendered obtain review where some: "as_review st = Some review" and review: "review_evidence b = Inr review"
    "render_review_prompt (av_resources env) (av_sha256 env) b review = Inr rendered"
    unfolding prompted_def prompt_of_def by auto
  from facts(2) rendered obtain resp :: llm_response where
    parse: "parse_model_findings (av_float env) (rp_targets rendered) cfg (lr_output_text resp) = Inr (as_candidates st)"
    unfolding parsed_def by auto
  have merge: "merge_findings (rr_findings review) (as_candidates st) = Some (as_findings st)"
    using facts(3) some unfolding merged_def by auto
  have "reference_targets b = Inr (rp_targets rendered)"
    using review(2) by (auto simp: render_review_prompt_def res_iffs Let_def split: option.splits prod.splits)
  note model = parse_model_findings_grounded [OF this parse]
  have fs: "set (as_findings st) = promote_finding ` set (rr_findings review) \<union> set (as_candidates st)"
    "sorted_wrt (\<lambda>f g. agent_sort_key f < agent_sort_key g) (as_findings st)"
    using merge_findings_ok [OF merge review_findings_exact(2) [OF review(1)]] model by blast+
  have "af_source (promote_finding f) = DETERMINISTIC" for f by (simp add: promote_finding_def)
  then have "{f \<in> set (ar_findings r). af_source f = DETERMINISTIC} = promote_finding ` set (rr_findings review)"
    "\<forall>f \<in> set (ar_findings r). af_source f = AGENT \<longrightarrow> (\<forall>x \<in> set (af_references f). in_evidence b x)"
    using fs(1) model unfolding st by fastforce+
  with review(1) fs(2) st show ?thesis by auto
qed

end
