(* ===== verification/Repair_Codec_Exact.thy ===== *)
theory Repair_Codec_Exact
  imports Repair_Demo
begin

text \<open>
  The decoders of \<open>_repair_models\<close> accept nothing but encodings: a Python value that decodes to a record
  is, up to the order of the items of its dicts, the mapping that \<open>to_dict\<close> gives for that record. So no
  decoder swaps fields, drops a key or takes a key it does not know.
\<close>

section \<open>Decoders that accept nothing but encodings\<close>

text \<open>No dict has a key twice; nothing is said of floats.\<close>

abbreviation python_value :: "json \<Rightarrow> bool" where
  "python_value \<equiv> json_value (\<lambda>_. True)"

definition exact_decoder :: "('a \<Rightarrow> json) \<Rightarrow> (json \<Rightarrow> py_error + 'a) \<Rightarrow> bool" where
  "exact_decoder E D \<longleftrightarrow> (\<forall>v x. python_value v \<longrightarrow> D v = Inr x \<longrightarrow> json_norm (E x) = json_norm v)"

lemma exact_decoderD: "exact_decoder E D \<Longrightarrow> python_value v \<Longrightarrow> D v = Inr x \<Longrightarrow> json_norm (E x) = json_norm v"
  by (simp add: exact_decoder_def)

named_theorems exact_decoders

lemma exact_decoder_values [exact_decoders]:
  "exact_decoder JStr exact_str" "exact_decoder JInt exact_int" "exact_decoder JBool exact_bool"
  by (auto simp: exact_decoder_def exact_str_def exact_int_def exact_bool_def split: json.splits)

lemma exact_decoder_optional [exact_decoders]: "exact_decoder E D \<Longrightarrow> exact_decoder (j_option E) (optional_record D)"
  by (auto simp: exact_decoder_def optional_record_def j_option_def res_iffs split: if_splits)

lemma exact_decoder_list [exact_decoders]:
  assumes "exact_decoder E D"
  shows "exact_decoder (\<lambda>xs. JList (map E xs)) (exact_records D)"
  unfolding exact_decoder_def
proof (intro allI impI)
  fix v xs assume v: "python_value v" "exact_records D v = Inr xs"
  then obtain vs where vs: "v = JList vs" "map_res D vs = Inr xs"
    by (auto simp: exact_records_def exact_list_def split: json.splits)
  have "map json_norm (map E xs) = map json_norm vs" using vs(2) v(1) unfolding vs(1)
    by (induction vs arbitrary: xs) (auto simp: res_iffs dest: exact_decoderD [OF assms])
  then show "json_norm (JList (map E xs)) = json_norm v" by (simp add: vs(1))
qed

lemma exact_decoder_enum [exact_decoders]: "exact_decoder (\<lambda>e. JStr (lit (f e))) (exact_enum f all)"
  by (auto simp: exact_decoder_def exact_enum_def exact_str_def enum_value_def res_iffs find_Some_iff split: json.splits option.splits)

lemma exact_decoder_derived [exact_decoders]:
  "exact_decoder (j_option JStr) optional_str" "exact_decoder (j_option JInt) optional_int"
  "exact_decoder (\<lambda>xs. JList (map JStr xs)) exact_strs" "exact_decoder (j_option (\<lambda>e. JStr (lit (f e)))) (optional_enum f all)"
  unfolding optional_str_def [abs_def] optional_int_def [abs_def] exact_strs_def [abs_def] optional_enum_def [abs_def]
  by (intro exact_decoders)+

lemma sort_items_eq:
  assumes "distinct (map fst xs)" "distinct (map fst ys)" "map_of xs = map_of ys"
  shows "sort_key fst xs = sort_key fst ys"
proof -
  have "set xs = set ys" using map_of_inject_set [OF assms(1,2)] assms(3) by simp
  moreover have "inj_on fst (set xs)" using assms(1) by (simp add: distinct_map)
  ultimately show ?thesis using assms(1,2)
    by (intro map_sorted_distinct_set_unique [where f = fst]) (simp_all add: distinct_sort_key_fst)
qed

lemma exact_mapping_python:
  assumes "exact_mapping keys v = Inr m" "python_value v"
  shows "python_value (m k)"
proof -
  obtain kvs where kvs: "v = JObj kvs" "m = lookup kvs"
    using assms(1) by (auto simp: exact_mapping_def split: json.splits if_splits)
  show ?thesis
  proof (cases "map_of kvs k")
    case (Some a)
    then have "(k, a) \<in> set kvs" by (rule map_of_SomeD)
    then show ?thesis using assms(2) Some by (auto simp: kvs lookup_def list_all_iff)
  qed (simp add: kvs lookup_def json_value.simps)
qed

lemma exact_record:
  assumes E: "\<And>x. E x = JObj (items x)" "\<And>x. map fst (items x) = map lit keys" "\<And>x. json_dicts (E x)"
    and K: "\<And>m x. (\<And>k. python_value (m k)) \<Longrightarrow> K m = Inr x \<Longrightarrow> list_all (\<lambda>(k, e). json_norm e = json_norm (m k)) (items x)"
  shows "exact_decoder E (\<lambda>v. and_then (exact_mapping keys v) K)"
  unfolding exact_decoder_def
proof (intro allI impI)
  fix v x assume v: "python_value v" "and_then (exact_mapping keys v) K = Inr x"
  then obtain kvs where kvs: "v = JObj kvs" "set (map fst kvs) = set (map lit keys)" "K (lookup kvs) = Inr x"
    by (auto simp: exact_mapping_def res_iffs split: json.splits if_splits)
  have d: "distinct (map fst kvs)" "distinct (map fst (items x))" using v(1) E(3) [of x] by (simp_all add: kvs(1) E(1))
  have "python_value (lookup kvs k)" for k
    using exact_mapping_python [OF _ v(1)] kvs by (simp add: exact_mapping_def)
  from K [OF this kvs(3)] have item: "(k, e) \<in> set (items x) \<Longrightarrow> json_norm e = json_norm (lookup kvs k)" for k e
    by (auto simp: list_all_iff)
  have keys: "fst ` set (items x) = fst ` set kvs" using kvs(2) E(2) [of x] by (metis list.set_map)
  have "map_of (map (apsnd json_norm) (items x)) k = map_of (map (apsnd json_norm) kvs) k" for k
  proof (cases "map_of (items x) k")
    case None
    then have "map_of kvs k = None" using keys by (simp add: map_of_eq_None_iff)
    with None show ?thesis by (simp add: map_of_apsnd)
  next
    case (Some e)
    then have mem: "(k, e) \<in> set (items x)" by (rule map_of_SomeD)
    then have "k \<in> fst ` set kvs" using keys by force
    then obtain a where "map_of kvs k = Some a" by (metis map_of_eq_None_iff not_None_eq)
    with Some item [OF mem] show ?thesis by (simp add: map_of_apsnd lookup_def)
  qed
  moreover have "distinct (map fst (map (apsnd json_norm) ys))" if "distinct (map fst ys)" for ys :: "(pystr \<times> json) list"
    using that by (simp add: comp_def)
  ultimately have "sort_key fst (map (apsnd json_norm) (items x)) = sort_key fst (map (apsnd json_norm) kvs)"
    using d by (intro sort_items_eq) auto
  then show "json_norm (E x) = json_norm v" by (simp add: E(1) kvs(1))
qed

section \<open>The decoders of the records\<close>

text \<open>What a value was when its decoder returned.\<close>

lemma decoded_values:
  "exact_str v = Inr s \<longleftrightarrow> v = JStr s" "exact_int v = Inr i \<longleftrightarrow> v = JInt i" "exact_bool v = Inr b \<longleftrightarrow> v = JBool b"
  "exact_strs v = Inr xs \<longleftrightarrow> v = JList (map JStr xs)"
proof -
  show s: "exact_str v = Inr s \<longleftrightarrow> v = JStr s" for v s by (auto simp: exact_str_def split: json.splits)
  show "exact_int v = Inr i \<longleftrightarrow> v = JInt i" "exact_bool v = Inr b \<longleftrightarrow> v = JBool b"
    by (auto simp: exact_int_def exact_bool_def split: json.splits)
  have "map_res exact_str vs = Inr xs \<longleftrightarrow> vs = map JStr xs" for vs
    by (induction vs arbitrary: xs) (auto simp: res_iffs s)
  then show "exact_strs v = Inr xs \<longleftrightarrow> v = JList (map JStr xs)"
    by (auto simp: exact_strs_def exact_records_def exact_list_def split: json.splits)
qed

lemma decoded_enum: "exact_enum f all v = Inr e \<Longrightarrow> v = JStr (lit (f e))"
  by (auto simp: exact_enum_def decoded_values enum_value_def res_iffs find_Some_iff split: option.splits)

lemma decoded_list:
  "exact_decoder E D \<Longrightarrow> python_value v \<Longrightarrow> exact_records D v = Inr xs \<Longrightarrow> JList (map (\<lambda>x. json_norm (E x)) xs) = json_norm v"
  using exact_decoderD [OF exact_decoder_list, of E D v xs] by (simp add: comp_def)

lemmas decoded = exact_decoders [THEN exact_decoderD]

lemma prompt_identity_exact [exact_decoders]: "exact_decoder prompt_identity_to_dict (prompt_identity_from_dict ud)"
  unfolding prompt_identity_from_dict_def [abs_def]
  by (rule exact_record [OF prompt_identity_to_dict_def prompt_identity_keys json_dicts_records(1)])
    (auto simp: prompt_identity_items_def checked_def res_iffs decoded_values)

lemma context_summary_exact [exact_decoders]: "exact_decoder context_summary_to_dict context_summary_from_dict"
  unfolding context_summary_from_dict_def [abs_def]
  by (rule exact_record [OF context_summary_to_dict_def context_summary_keys json_dicts_records(2)])
    (auto simp: context_summary_items_def checked_def res_iffs decoded_values dest: decoded_enum intro: decoded)

lemma candidate_exact [exact_decoders]: "exact_decoder candidate_to_dict (candidate_from_dict ud)"
  unfolding candidate_from_dict_def [abs_def]
  by (rule exact_record [OF candidate_to_dict_def candidate_keys json_dicts_candidate])
    (auto simp: candidate_items_def checked_def res_iffs decoded_values comp_def
      intro: exact_decoderD [OF prompt_identity_exact] exact_decoderD [OF context_summary_exact])

lemma command_result_exact [exact_decoders]: "exact_decoder command_result_to_dict command_result_from_dict"
  unfolding command_result_from_dict_def [abs_def]
  by (rule exact_record [OF command_result_to_dict_def command_result_keys json_dicts_records(3)])
    (auto simp: command_result_items_def checked_def res_iffs decoded_values intro: decoded)

lemma validation_exact [exact_decoders]: "exact_decoder validation_to_dict validation_from_dict"
  unfolding validation_from_dict_def [abs_def]
  by (rule exact_record [OF validation_to_dict_def validation_keys json_dicts_validation])
    (auto simp: validation_items_def checked_def res_iffs decoded_values comp_def
      intro: decoded decoded_list [OF command_result_exact])

lemma approval_exact [exact_decoders]: "exact_decoder approval_to_dict (approval_from_dict ud)"
  unfolding approval_from_dict_def [abs_def]
  by (rule exact_record [OF approval_to_dict_def approval_keys json_dicts_records(4)])
    (auto simp: approval_items_def checked_def res_iffs decoded_values)

lemma application_exact [exact_decoders]: "exact_decoder application_to_dict application_from_dict"
  unfolding application_from_dict_def [abs_def]
  by (rule exact_record [OF application_to_dict_def application_keys json_dicts_records(5)])
    (auto simp: application_items_def checked_def res_iffs decoded_values)

lemma decision_exact [exact_decoders]: "exact_decoder decision_to_dict (decision_from_dict ud)"
  unfolding decision_from_dict_def [abs_def]
  by (rule exact_record [OF decision_to_dict_def decision_keys json_dicts_records(6)])
    (auto simp: decision_items_def checked_def res_iffs decoded_values dest: decoded_enum intro: decoded)

lemma failure_exact [exact_decoders]: "exact_decoder failure_to_dict failure_from_dict"
  unfolding failure_from_dict_def [abs_def]
  by (rule exact_record [OF failure_to_dict_def failure_keys json_dicts_records(7)])
    (auto simp: failure_items_def checked_def res_iffs decoded_values dest: decoded_enum)

lemma snapshot_exact [exact_decoders]: "exact_decoder snapshot_to_dict (snapshot_from_dict ud)"
  unfolding snapshot_from_dict_def [abs_def]
  by (rule exact_record [OF snapshot_to_dict_def snapshot_keys json_dicts_snapshot])
    (auto simp: snapshot_items_def checked_def res_iffs decoded_values comp_def dest: decoded_enum
      intro: exact_decoderD [OF exact_decoder_optional [OF candidate_exact]] exact_decoderD [OF exact_decoder_optional [OF validation_exact]]
        exact_decoderD [OF exact_decoder_optional [OF approval_exact]] exact_decoderD [OF exact_decoder_optional [OF application_exact]]
        exact_decoderD [OF exact_decoder_optional [OF decision_exact]] exact_decoderD [OF exact_decoder_optional [OF failure_exact]])

section \<open>Properties\<close>

text \<open>
  C38. The decoder of snapshots accepts exactly the encodings of valid snapshots: it returns a snapshot for
  a Python value just when the snapshot meets every constructor's checks and its own shape and the value
  is, up to the order of the items of its dicts, the mapping of that very snapshot. A missing, extra,
  swapped or altered field, in the snapshot or in a record inside it, is refused.
\<close>

theorem snapshot_decoder_exact:
  assumes "python_value v"
  shows "snapshot_from_dict ud v = Inr s \<longleftrightarrow> snapshot_valid ud s \<and> json_norm v = json_norm (snapshot_to_dict s)"
proof
  assume "snapshot_from_dict ud v = Inr s"
  then show "snapshot_valid ud s \<and> json_norm v = json_norm (snapshot_to_dict s)"
    using yieldsD [OF snapshot_yields] exact_decoderD [OF snapshot_exact assms] by metis
next
  assume s: "snapshot_valid ud s \<and> json_norm v = json_norm (snapshot_to_dict s)"
  then have "json_dicts v" using json_norm_keeps(3) json_dicts_snapshot by metis
  then have "snapshot_from_dict ud v = snapshot_from_dict ud (json_norm v)" using norm_okD [OF norm_ok_snapshot] by metis
  also have "\<dots> = snapshot_from_dict ud (snapshot_to_dict s)" using s norm_okD [OF norm_ok_snapshot json_dicts_snapshot] by metis
  finally show "snapshot_from_dict ud v = Inr s" using snapshot_decode s by simp
qed

theorem snapshot_decoder_exact_witness:
  "snapshot_from_dict ascii_db (snapshot_to_dict demo_applied) = Inr demo_applied \<and>
   (\<forall>s. snapshot_from_dict ascii_db (JObj ((lit ''extra'', JNull) # snapshot_items demo_applied)) \<noteq> Inr s)"
proof (intro conjI allI notI)
  show "snapshot_from_dict ascii_db (snapshot_to_dict demo_applied) = Inr demo_applied"
    using snapshot_decoder_exact [OF json_dicts_value [OF json_dicts_snapshot], of ascii_db demo_applied demo_applied]
      demo_snapshot_valid(5) by simp
next
  fix s assume dec: "snapshot_from_dict ascii_db (JObj ((lit ''extra'', JNull) # snapshot_items demo_applied)) = Inr s"
  have "lit ''extra'' \<notin> fst ` set (snapshot_items demo_applied)" by (simp add: snapshot_items_def)
  then have "python_value (JObj ((lit ''extra'', JNull) # snapshot_items demo_applied))"
    using json_dicts_value [OF json_dicts_snapshot, of "\<lambda>_. True" demo_applied]
    by (simp add: snapshot_to_dict_def json_value.simps)
  from snapshot_decoder_exact [OF this, of ascii_db s] dec
  have "length (sort_key fst (map (apsnd json_norm) ((lit ''extra'', JNull) # snapshot_items demo_applied))) =
      length (sort_key fst (map (apsnd json_norm) (snapshot_items s)))"
    by (simp add: snapshot_to_dict_def del: length_sort sort_key_simps)
  then show False unfolding length_sort by (simp add: snapshot_items_def)
qed

end
