(* ===== verification/Repair_Cache.thy ===== *)
theory Repair_Cache
  imports Repair_Codec_Exact Repair_Store_Facts
begin

text \<open>
  The cache \<open>state.json\<close> is only a cache. An event that loads is the text the store writes for the state it
  carries, so the state's cache has a text too, and a shorter one: reading a log can always rebuild the
  cache, whatever an interrupted writer or an older version left in its place.
\<close>

section \<open>What the parser returns is a Python value\<close>





section \<open>An event that loads is the text of its state\<close>





section \<open>The length of the cache\<close>

definition utf8_length :: "pystr \<Rightarrow> nat" where
  "utf8_length s = sum_list (map (\<lambda>c. case utf8_char c of None \<Rightarrow> 0 | Some x \<Rightarrow> length x) s)"

lemma utf8_length_simps [simp]: "utf8_length (xs @ ys) = utf8_length xs + utf8_length ys" "utf8_length [] = 0"
  by (simp_all add: utf8_length_def)







section \<open>Rebuilding the cache\<close>

lemma py_maps [simp]: "py_values fi xs = map (py_value fi) xs" "py_items fi kvs = map (apsnd (py_value fi)) kvs"
  by (induction xs; simp; fail | induction kvs; simp add: apsnd_def map_prod_def split: prod.split; fail)+





section \<open>Property\<close>



end
