(* ===== verification/Spec2Isabelle.thy ===== *)
theory Spec2Isabelle
  imports Review_Facts Canonical_Facts Repair_Paths Repair_Protocol Repair_Maintenance_Facts Repair_Secrets_Facts
    Git_Sample Agent_Sample Repair_Codec_Exact Repair_Cache
begin

text \<open>
  RepoGuard reviews the changes of a git repository and repairs what it finds under the control of a
  person. This development models the deterministic core of the program, the package
  \<open>src/src/repoguard\<close>, and proves what makes it correct. A string is a list of code points, bytes are lists
  of numbers below 256, an exception is the left side of a sum, and a record class is a record with a
  predicate for the checks of its constructor.

  \<^bold>\<open>Shared vocabulary.\<close> \<open>Prelude\<close> has strings, UTF-8, results and the list lemmas all components use;
  \<open>Canonical_Order\<close> is the contract of canonical listings (the locale \<open>canonical_order\<close>, interpreted on the
  findings of a review, the findings of an Agent review and the references of a finding).

  \<^bold>\<open>Canonical JSON\<close> (\<open>_canonical.py\<close>). \<open>Canonical\<close> models the values, the encoder, exact keys and the
  domain-separated digests, \<open>Json_Scan\<close> the scanner of \<open>json.loads\<close> and the strict parser. The scanner has
  fuel; the length of the text plus one is enough, since every nested call consumes a character.
  \<open>Canonical_Facts\<close>: which values have a text, the round trip, that no other text is accepted, and that
  digests bind domain and value. The hash function and \<open>float\<close> are parameters; a value may hold floats whose
  text is a number with a fraction or an exponent (\<open>is_float_text\<close>, what \<open>repr\<close> gives) that \<open>float\<close> reads back
  (\<open>reads_float\<close>). The RecursionError of the interpreter on very deep nesting, which the code reports like
  malformed text, is not modelled.

  \<^bold>\<open>Evidence and review\<close> (\<open>evidence.py\<close>, \<open>review.py\<close>, \<open>_review.py\<close>). \<open>Evidence\<close> has the bundle and its
  encoding, \<open>Review\<close> the validation of a bundle, the six rules and the order of findings. \<open>Review_Pairing\<close>
  proves the two rules that pair markers sound and complete, \<open>Review_Facts\<close> what a review returns, that it
  is canonical, independent of the order of the changes, and points into the evidence.

  \<^bold>\<open>Collection\<close> (\<open>_git.py\<close>). \<open>Git_Process\<close> is the bounded runner: the steps of a process, of the two
  readers and of the caller in one sequence, every check of the caller a step of its own. \<open>Git_Parse\<close> has the
  budget and the parsers of git's output, \<open>Git_Collect\<close> the commands, the contents, the patches and the bundle.
  The system is a parameter: what the n-th process of a collection prints, how paths resolve, the readings of
  the clock. \<open>Git_Hunk_Facts\<close> reads the text of hunks back, \<open>Git_Limits\<close> keeps the limits, \<open>Git_Review\<close> proves
  that the review accepts what is collected; \<open>Git_Sample\<close> is the concrete collection of the witnesses.

  \<^bold>\<open>Agent review\<close> (\<open>agent.py\<close>, \<open>_agent.py\<close>, \<open>_prompt.py\<close>, \<open>providers.py\<close>). \<open>Agent_Model\<close> has the
  configuration, findings, results and requests, \<open>Agent_Evidence\<close> the check of a bundle before it may enter a
  prompt, \<open>Agent_Prompt\<close> the projection with its redaction and the targets of references, \<open>Agent_Answer\<close> the
  strict reading of what the model answers and the merging, \<open>Agent_Run\<close> one function per node of the graph and
  its edges. The world of a run is how often the clock was read and the actions so far; the provider, the clock
  and the resources are parameters. The fuel of a run is the bound on nodes the graph library documents, 25 by
  default, and a run executes at most nine. \<open>Agent_Facts\<close> has a weakest-precondition calculus and the invariant
  of each node, \<open>Agent_Properties\<close> that requests are bounded and reported, that the
  content of private-key blocks matters only through the findings of the deterministic review, and that findings of the model point into the evidence; \<open>Agent_Sample\<close> is a run with one
  retry. Times are rational numbers, the rounding of floats is left out.

  \<^bold>\<open>Paths\<close> (\<open>_repair_paths.py\<close>): \<open>Repair_Paths\<close>, with the tables of the Unicode database the code consults
  as a parameter.

  \<^bold>\<open>Repair records\<close> (\<open>repair.py\<close>, \<open>_repair_models.py\<close>). \<open>Repair_Models\<close> has the records of a session and
  the shape each state of a session asks for, \<open>Repair_Codec\<close> their JSON mappings. \<open>Repair_Codec_Facts\<close>:
  round trips; \<open>Repair_Codec_Exact\<close>: a decoder accepts nothing but the mapping of the record it returns;
  \<open>Repair_Plain\<close>: valid records have a canonical text
  (\<open>Json_Size\<close> bounds its length).

  \<^bold>\<open>Session store\<close> (\<open>_repair_store.py\<close>). \<open>Repair_Store\<close> models the event log, one immutable file per event
  chained by digests, with its update rules, the lease of a container, the loaded state and its cache,
  creation, appending, the preview and the private payloads. The directory of a session is the record
  \<open>session_store\<close>. \<open>Repair_Log_Facts\<close> reads written events back, \<open>Repair_Run\<close> states the interface of a log
  (the locale \<open>event_log\<close>, interpreted on the store) and what runs of events keep, \<open>Repair_Store_Facts\<close> has
  the properties: what is appended is loaded, nothing is lost or changed unnoticed, publication needs every
  step before it. \<open>Repair_Cache\<close>: an event that loads is the text of its state, and the cache is only a cache.
  \<open>Repair_Protocol\<close> is the abstract protocol as a step relation and the refinement.
  \<open>Repair_Demo\<close> and \<open>Repair_Demo_Session\<close> are the concrete sessions of the witnesses.

  \<^bold>\<open>Workflow\<close> (\<open>_repair_workflow.py\<close>). \<open>Repair_Workflow\<close> models the operations on a session (generation,
  validation, approval, rejection, application, cancelling, expiry, recovery, cleanup) as functions from
  the store to the store and a result, so that what was written before a failure stays written. What the
  code reads outside of the log (the clock, the published ref, containers, the candidate's generation) is an
  argument of each operation; checks of the code that follow each other and only raise (such as the three
  calls that revalidate paths in \<open>_apply\<close>) are one outcome. \<open>Repair_Recovery\<close> is the recovery of a session,
  the second validation of a stored candidate included: how \<open>_repair_sandbox.py\<close> registers the intent and the
  container, hands over the report and gives up what was refused, for every answer of docker
  (\<open>sandbox_world\<close>), with cancelling, expiring and failing by others between the steps, since the lock is not
  held (\<open>interruption\<close>). \<open>Repair_Recovery_Facts\<close> has its logic (what a step keeps, how it ends) and
  \<open>Repair_Recovery_Demo\<close> a recovery that validates a candidate again. \<open>Repair_Workflow_Facts\<close> is a small program logic for them,
  \<open>Repair_Workflow_Results\<close> what each leaves in the log; the properties are in \<open>Repair_Workflow_Properties\<close>
  and \<open>Repair_Maintenance_Facts\<close>. The store of a session belongs to the holder of its lock, so operations
  of one session are sequences of steps.

  \<^bold>\<open>Patches\<close> (\<open>_repair_patch.py\<close>). \<open>Repair_Patch\<close> is the parser, whose loops consume the lines of the patch.
  \<open>Repair_Patch_Grammar\<close> states the grammar as the text of lines, hunks and files, \<open>Repair_Patch_Facts\<close> proves
  that the parser accepts exactly this text. \<open>split_lines\<close> is \<open>str.splitlines\<close> of the language.

  \<^bold>\<open>Private keys\<close> (\<open>_repair_secrets.py\<close>). \<open>Repair_Secrets\<close> models the scan, the plan with its prompt texts
  and deletion patch, the check of final files and the redaction of previews. \<open>Repair_Key_Pairs\<close> proves
  the pairing complete, \<open>Repair_Deletion\<close> that the parser reads the deletion patch back,
  \<open>Repair_Secrets_Facts\<close> that applying it gives the prompt text, without a key left; \<open>Repair_Redaction_Facts\<close>
  compares the redaction with a reader of diffs.

  \<^bold>\<open>Not modelled.\<close> Processes, sockets, file descriptors, locks and timeouts (most of
  \<open>_repair_git.py\<close>, of \<open>_repair_sandbox.py\<close> all but the calls back into the workflow, \<open>github_transport.py\<close>, and in \<open>_git.py\<close> opening pipes, writing to
  them and killing processes); the embedding model, SQLite and
  faiss behind \<open>_retrieval.py\<close>; the SDKs of language models behind
  \<open>providers.py\<close> and their adapters; the command line, the tool server and
  the scripts of the build. Checks of exact types of arguments hold by the types of the model.
\<close>

end
